(* ===== verification/CX_Prelude.thy ===== *)
theory CX_Prelude
  imports Main "HOL-Library.Word" "HOL-Library.AList" "HOL-Library.Monad_Syntax"
begin

text \<open>
  Names, types and lemmas shared by every component.

  \<^item> Machine integers are words of their Go width; a \<open>[]byte\<close> and a fixed array \<open>[n]byte\<close> are byte
    lists, the latter with the length as an invariant of the model's values.
  \<^item> A Go panic (a slice out of range, a division by zero, a nil dereference) is the value
    \<open>None\<close> of an option; a Go \<open>error\<close> that is returned is a value of the component's own error
    datatype, in \<open>error option\<close> for a bare \<open>error\<close> result (\<open>None\<close> is nil) and in
    \<open>error + 'a\<close> for a pair \<open>(value, error)\<close>.
  \<^item> The little- and big-endian encoders are those of \<open>encoding/binary\<close>, the hex codec that of
    \<open>encoding/hex\<close>.
\<close>

unbundle bit_operations_syntax

type_synonym byte = "8 word"
type_synonym bytes = "8 word list"
type_synonym u32 = "32 word"
type_synonym u64 = "64 word"
type_synonym i64 = "64 word"

named_theorems len_simps \<open>lengths of the fixed-size byte arrays the model builds\<close>


section \<open>Slices and arrays\<close>

text \<open>\<open>slice xs i j\<close> is Go's \<open>xs[i:j]\<close> of a slice whose capacity is its length; it panics out of
  range.\<close>

definition slice :: "'a list \<Rightarrow> nat \<Rightarrow> nat \<Rightarrow> 'a list option" where
  "slice xs i j = (if i \<le> j \<and> j \<le> length xs then Some (take (j - i) (drop i xs)) else None)"

text \<open>\<open>blit off src dst\<close> is \<open>copy(dst[off:], src)\<close>: it stops at the shorter of the two.\<close>

definition blit :: "nat \<Rightarrow> 'a list \<Rightarrow> 'a list \<Rightarrow> 'a list" where
  "blit off src dst =
     take off dst @ take (length dst - off) src @ drop (off + length src) dst"

text \<open>A value of the array type \<open>[n]byte\<close> from bytes a library returned.\<close>

definition fit :: "nat \<Rightarrow> bytes \<Rightarrow> bytes" where
  "fit n xs = take n (xs @ replicate n 0)"

lemma length_fit [simp, len_simps]: "length (fit n xs) = n"
  by (simp add: fit_def)

lemma fit_id: "length xs = n \<Longrightarrow> fit n xs = xs"
  by (simp add: fit_def)

lemma length_blit [simp]: "off \<le> length dst \<Longrightarrow> length (blit off src dst) = length dst"
  by (auto simp: blit_def min_def)

lemma nth_blit:
  assumes "off + length src \<le> length dst" and "i < length dst"
  shows "blit off src dst ! i =
    (if off \<le> i \<and> i < off + length src then src ! (i - off) else dst ! i)"
proof -
  have t: "length (take off dst) = off" using assms by simp
  consider "i < off" | "off \<le> i" "i < off + length src" | "off + length src \<le> i" by linarith
  then show ?thesis
  proof cases
    case 1
    with t show ?thesis by (simp add: blit_def nth_append)
  next
    case 2
    then have "i - off < length src" by simp
    with 2 t assms show ?thesis by (simp add: blit_def nth_append)
  next
    case 3
    then have "\<not> i - off < length src" and "off + length src + (i - (off + length src)) = i" by simp_all
    with 3 t assms show ?thesis by (simp add: blit_def nth_append)
  qed
qed

lemma slice_Some: "i \<le> j \<Longrightarrow> j \<le> length xs \<Longrightarrow> slice xs i j = Some (take (j - i) (drop i xs))"
  by (simp add: slice_def)

lemma slice_lengthD: "slice xs i j = Some ys \<Longrightarrow> length ys = j - i"
  by (auto simp: slice_def split: if_splits)


lemma those_map_Some: "\<forall>x \<in> set xs. f x = Some (g x) \<Longrightarrow> those (map f xs) = Some (map g xs)"
  by (induction xs) simp_all


section \<open>Integers as bytes (encoding/binary)\<close>

definition put_le :: "nat \<Rightarrow> 'a::len word \<Rightarrow> bytes" where
  "put_le n w = map (\<lambda>k. ucast (drop_bit (8 * k) w)) [0..<n]"

definition put_be :: "nat \<Rightarrow> 'a::len word \<Rightarrow> bytes" where
  "put_be n w = rev (put_le n w)"

definition get_le :: "bytes \<Rightarrow> 'a::len word" where
  "get_le bs = foldr (\<lambda>b acc. ucast b OR push_bit 8 acc) bs 0"

definition get_be :: "bytes \<Rightarrow> 'a::len word" where
  "get_be bs = get_le (rev bs)"

text \<open>The number a byte list denotes, most significant byte first.\<close>

fun be_val :: "bytes \<Rightarrow> nat" where
  "be_val [] = 0"
| "be_val (b # bs) = unat b * 256 ^ length bs + be_val bs"

lemma length_put_le [simp, len_simps]: "length (put_le n w) = n"
  by (simp add: put_le_def)

lemma length_put_be [simp, len_simps]: "length (put_be n w) = n"
  by (simp add: put_be_def)

lemma bit_get_le:
  "bit (get_le bs :: 'a::len word) i \<longleftrightarrow>
     i < LENGTH('a) \<and> i < 8 * length bs \<and> bit (bs ! (i div 8)) (i mod 8)"
proof (induction bs arbitrary: i)
  case Nil
  then show ?case by (simp add: get_le_def)
next
  case (Cons b bs)
  have "bit (get_le (b # bs) :: 'a word) i \<longleftrightarrow>
    i < LENGTH('a) \<and> (bit b i \<or> 8 \<le> i \<and> bit (get_le bs :: 'a word) (i - 8))"
    by (auto simp: get_le_def bit_simps)
  also have "\<dots> \<longleftrightarrow> i < LENGTH('a) \<and> i < 8 * length (b # bs) \<and> bit ((b # bs) ! (i div 8)) (i mod 8)"
  proof (cases "i < 8")
    case True
    then show ?thesis by simp
  next
    case False
    then have "\<not> bit b i" using bit_imp_le_length [of b i] by auto
    moreover have "i div 8 = Suc ((i - 8) div 8)" and "i mod 8 = (i - 8) mod 8"
      using False by (simp_all add: le_div_geq le_mod_geq)
    ultimately show ?thesis using False Cons.IH [of "i - 8"] by auto
  qed
  finally show ?case .
qed

lemma get_le_put_le: "LENGTH('a) \<le> 8 * n \<Longrightarrow> get_le (put_le n (w :: 'a::len word)) = w"
proof (rule bit_word_eqI)
  fix i assume n: "LENGTH('a) \<le> 8 * n" and i: "i < LENGTH('a)"
  then have "i div 8 < n" by linarith
  moreover have "8 * (i div 8) + i mod 8 = i" by simp
  ultimately show "bit (get_le (put_le n w) :: 'a word) i = bit w i"
    using n i by (simp add: bit_get_le put_le_def bit_simps)
qed

lemma get_be_put_be: "LENGTH('a) \<le> 8 * n \<Longrightarrow> get_be (put_be n (w :: 'a::len word)) = w"
  by (simp add: get_be_def put_be_def get_le_put_le)

lemma put_le_inj: "LENGTH('a) \<le> 8 * n \<Longrightarrow> put_le n w = put_le n v \<Longrightarrow> w = (v :: 'a::len word)"
  by (metis get_le_put_le)

lemma put_be_inj: "LENGTH('a) \<le> 8 * n \<Longrightarrow> put_be n w = put_be n v \<Longrightarrow> w = (v :: 'a::len word)"
  by (metis get_be_put_be)

lemma be_val_less: "be_val bs < 256 ^ length bs"
proof (induction bs)
  case Nil
  then show ?case by simp
next
  case (Cons b bs)
  have b: "unat b + 1 \<le> 256" using unsigned_less [of b, where ?'a = nat] by simp
  have "be_val (b # bs) < (unat b + 1) * 256 ^ length bs" using Cons.IH by simp
  also have "\<dots> \<le> 256 * 256 ^ length bs" using b by (rule mult_le_mono1)
  also have "\<dots> = 256 ^ length (b # bs)" by simp
  finally show ?case .
qed

lemma be_val_max: "be_val (replicate n 255) + 1 = 256 ^ n"
  by (induction n) simp_all

lemma be_val_inj: "length xs = length ys \<Longrightarrow> be_val xs = be_val ys \<Longrightarrow> xs = ys"
proof (induction xs ys rule: list_induct2)
  case Nil
  then show ?case by simp
next
  case (Cons x xs y ys)
  let ?B = "256 ^ length xs :: nat"
  have x: "be_val xs < ?B" and y: "be_val ys < ?B"
    using be_val_less [of xs] be_val_less [of ys] Cons.hyps by simp_all
  have eq: "unat x * ?B + be_val xs = unat y * ?B + be_val ys" using Cons.prems Cons.hyps by simp
  have "unat x = (unat x * ?B + be_val xs) div ?B" using x by simp
  also have "\<dots> = unat y" using y eq by simp
  finally have "unat x = unat y" .
  moreover from this have "xs = ys" using eq Cons.IH by simp
  ultimately show ?case by (simp add: word_unat_eq_iff)
qed


section \<open>Unsigned 64-bit arithmetic without overflow\<close>

lemma unat_add64: "unat a + unat b < 2 ^ 64 \<Longrightarrow> unat (a + b) = unat a + unat (b :: u64)"
  by (simp add: unat_word_ariths)

lemma unat_mult64: "unat a * unat b < 2 ^ 64 \<Longrightarrow> unat (a * b) = unat a * unat (b :: u64)"
  by (simp add: unat_word_ariths)

lemma unat_of_nat64: "n < 2 ^ 64 \<Longrightarrow> unat (of_nat n :: u64) = n"
  by (simp add: unsigned_of_nat take_bit_nat_eq_self)

lemma unat_less64: "unat (a :: u64) < 2 ^ 64"
  using unsigned_less [of a, where ?'a = nat] by simp


section \<open>Hexadecimal (encoding/hex)\<close>

datatype hex_error = InvalidByteError | ErrLength

definition hex_digit :: "nat \<Rightarrow> char" where
  "hex_digit n = ''0123456789abcdef'' ! n"

definition from_hex_char :: "char \<Rightarrow> byte option" where
  "from_hex_char c = (let k = (of_char c :: nat) in
     if 48 \<le> k \<and> k \<le> 57 then Some (of_nat (k - 48))
     else if 97 \<le> k \<and> k \<le> 102 then Some (of_nat (k - 97 + 10))
     else if 65 \<le> k \<and> k \<le> 70 then Some (of_nat (k - 65 + 10))
     else None)"

definition EncodeToString :: "bytes \<Rightarrow> string" where
  "EncodeToString bs = concat (map (\<lambda>b. [hex_digit (unat (drop_bit 4 b)), hex_digit (unat (b AND 15))]) bs)"

fun DecodeString :: "string \<Rightarrow> hex_error + bytes" where
  "DecodeString (c # d # cs) =
     (case (from_hex_char c, from_hex_char d) of
        (Some hi, Some lo) \<Rightarrow>
          (case DecodeString cs of Inl e \<Rightarrow> Inl e | Inr bs \<Rightarrow> Inr ((push_bit 4 hi OR lo) # bs))
      | _ \<Rightarrow> Inl InvalidByteError)"
| "DecodeString [c] = (case from_hex_char c of None \<Rightarrow> Inl InvalidByteError | Some _ \<Rightarrow> Inl ErrLength)"
| "DecodeString [] = Inr []"

lemma from_hex_digit: "w < 16 \<Longrightarrow> from_hex_char (hex_digit (unat w)) = Some w"
proof -
  assume "w < 16"
  then have "unat w \<in> {0..<16}" by (simp add: word_less_nat_alt)
  moreover have "\<forall>n \<in> {0..<16}. from_hex_char (hex_digit n) = Some (of_nat n)"
    by (simp add: atLeastLessThan_nat_numeral hex_digit_def from_hex_char_def Let_def)
  ultimately have "from_hex_char (hex_digit (unat w)) = Some (of_nat (unat w))" by blast
  then show ?thesis by simp
qed

lemma high_nibble_less: "drop_bit 4 (b :: byte) < 16"
  using unsigned_less [of b, where ?'a = nat]
  by (simp add: word_less_nat_alt drop_bit_eq_div unat_div less_mult_imp_div_less)

lemma low_nibble_less: "(b :: byte) AND 15 < 16"
  by (rule le_less_trans [OF word_and_le1]) simp

lemma nibbles: "push_bit 4 (drop_bit 4 b) OR (b AND 15) = (b :: byte)"
proof -
  have "(15 :: byte) = mask 4" by (simp add: mask_eq_exp_minus_1)
  then have "b AND 15 = take_bit 4 b" by (simp only: take_bit_eq_mask)
  then show ?thesis by (auto intro!: bit_word_eqI simp: bit_simps)
qed

lemma length_EncodeToString [simp, len_simps]: "length (EncodeToString bs) = 2 * length bs"
  by (induction bs) (simp_all add: EncodeToString_def)

lemma Decode_Encode [simp]: "DecodeString (EncodeToString bs) = Inr bs"
proof (induction bs)
  case Nil
  show ?case by (simp add: EncodeToString_def)
next
  case (Cons b bs)
  then show ?case
    by (simp add: EncodeToString_def from_hex_digit high_nibble_less low_nibble_less nibbles)
qed

lemma EncodeToString_inj [simp]: "EncodeToString xs = EncodeToString ys \<longleftrightarrow> xs = ys"
  by (metis Decode_Encode sum.inject(2))


section \<open>Runs of terminating systems\<close>

text \<open>A step relation that lowers a measure and is not stuck before it is done has a complete run.\<close>

lemma measure_run:
  fixes m :: "'s \<Rightarrow> nat"
  assumes step: "\<forall>s s'. I s \<and> step s s' \<longrightarrow> I s' \<and> m s' < m s"
    and progress: "\<forall>s. I s \<and> \<not> fin s \<longrightarrow> (\<exists>s'. step s s')"
  shows "I s \<Longrightarrow> \<exists>s'. step\<^sup>*\<^sup>* s s' \<and> fin s' \<and> I s'"
proof (induction "m s" arbitrary: s rule: less_induct)
  case less
  show ?case
  proof (cases "fin s")
    case True
    then show ?thesis using less.prems by blast
  next
    case False
    then obtain s' where s': "step s s'" using progress less.prems by blast
    with step less.prems have "I s'" "m s' < m s" by blast+
    with less.hyps s' show ?thesis by (meson converse_rtranclp_into_rtranclp)
  qed
qed

end
