(* ===== verification/DagSpec.thy ===== *)
theory DagSpec
  imports CX_Prelude
begin

text \<open>
  Protocol constants and the profile of a chain, after \<open>colossusx/spec.go\<close>: the record \<open>spec\<close>, its
  constructors, its validation, and the size of the DAG at a height, computed in 64-bit unsigned
  arithmetic with a saturation where the exact size would not fit.
\<close>


section \<open>Constants and the profile\<close>

definition StrictInitialDAGSizeBytes :: u64 where
  "StrictInitialDAGSizeBytes = 8 * 1024 * 1024 * 1024"

definition DefaultDAGGrowthBytesPerEpoch :: u64 where
  "DefaultDAGGrowthBytesPerEpoch = 512 * 1024 * 1024"

definition StrictNodeSize :: u64 where "StrictNodeSize = 64"
definition StrictReadsPerHash :: u64 where "StrictReadsPerHash = 512"
definition StrictEpochBlocks :: u64 where "StrictEpochBlocks = 8000"
definition StrictV2TileSizeBytes :: u64 where "StrictV2TileSizeBytes = 4096"
definition StrictV2MatDim :: u32 where "StrictV2MatDim = 16"
definition StrictV2ComputeRounds :: u32 where "StrictV2ComputeRounds = 64"
definition StrictV2RoundCommitPeriod :: u32 where "StrictV2RoundCommitPeriod = 8"

definition ModeStrict :: string where "ModeStrict = ''strict''"
definition ModeResearch :: string where "ModeResearch = ''research''"
definition ComputePrecisionInt8 :: string where "ComputePrecisionInt8 = ''int8''"
definition MemoryModelAny :: string where "MemoryModelAny = ''any''"
definition MemoryModelUnifiedShared :: string where
  "MemoryModelUnifiedShared = ''unified-shared''"

definition MaxUint64 :: u64 where "MaxUint64 = 0xFFFFFFFFFFFFFFFF"

lemmas spec_consts =
  StrictInitialDAGSizeBytes_def DefaultDAGGrowthBytesPerEpoch_def StrictNodeSize_def
  StrictReadsPerHash_def StrictEpochBlocks_def StrictV2TileSizeBytes_def StrictV2MatDim_def
  StrictV2ComputeRounds_def StrictV2RoundCommitPeriod_def ModeStrict_def ModeResearch_def
  ComputePrecisionInt8_def MemoryModelAny_def MemoryModelUnifiedShared_def

record spec =
  Mode :: string
  DAGSizeBytes :: u64
  InitialDAGSizeBytes :: u64
  DAGGrowthBytesPerEpoch :: u64
  NodeSize :: u64
  ReadsPerHash :: u64
  EpochBlocks :: u64
  TileSizeBytes :: u64
  MatDim :: u32
  ComputeRounds :: u32
  ComputePrecision :: string
  MemoryModelRequired :: string
  DeviceExecutionOnly :: bool
  RoundCommitInterval :: u32
  AlgorithmVersion :: u32

definition StrictSpec :: spec where
  "StrictSpec = \<lparr>
     Mode = ModeStrict,
     DAGSizeBytes = StrictInitialDAGSizeBytes,
     InitialDAGSizeBytes = StrictInitialDAGSizeBytes,
     DAGGrowthBytesPerEpoch = DefaultDAGGrowthBytesPerEpoch,
     NodeSize = StrictNodeSize,
     ReadsPerHash = StrictReadsPerHash,
     EpochBlocks = StrictEpochBlocks,
     TileSizeBytes = StrictV2TileSizeBytes,
     MatDim = StrictV2MatDim,
     ComputeRounds = StrictV2ComputeRounds,
     ComputePrecision = ComputePrecisionInt8,
     MemoryModelRequired = MemoryModelUnifiedShared,
     DeviceExecutionOnly = True,
     RoundCommitInterval = StrictV2RoundCommitPeriod,
     AlgorithmVersion = 2\<rparr>"

definition ResearchSpecWithGrowth :: "u64 \<Rightarrow> u64 \<Rightarrow> u64 \<Rightarrow> u64 \<Rightarrow> spec" where
  "ResearchSpecWithGrowth initialDAGSizeBytes growthBytesPerEpoch readsPerHash epochBlocks =
     (let s = StrictSpec\<lparr>
            Mode := ModeResearch, TileSizeBytes := 0, MatDim := 0, ComputeRounds := 0,
            ComputePrecision := [], MemoryModelRequired := MemoryModelAny,
            DeviceExecutionOnly := False, RoundCommitInterval := 0, AlgorithmVersion := 1\<rparr>;
          s = (if initialDAGSizeBytes \<noteq> 0
               then s\<lparr>InitialDAGSizeBytes := initialDAGSizeBytes, DAGSizeBytes := initialDAGSizeBytes\<rparr>
               else s);
          s = (if growthBytesPerEpoch \<noteq> 0
               then s\<lparr>DAGGrowthBytesPerEpoch := growthBytesPerEpoch\<rparr> else s);
          s = (if readsPerHash \<noteq> 0 then s\<lparr>ReadsPerHash := readsPerHash\<rparr> else s)
      in if epochBlocks \<noteq> 0 then s\<lparr>EpochBlocks := epochBlocks\<rparr> else s)"

definition ResearchSpec :: "u64 \<Rightarrow> u64 \<Rightarrow> u64 \<Rightarrow> spec" where
  "ResearchSpec initialDAGSizeBytes readsPerHash epochBlocks =
     ResearchSpecWithGrowth initialDAGSizeBytes DefaultDAGGrowthBytesPerEpoch readsPerHash epochBlocks"


section \<open>DAG sizes\<close>

definition initialDAGSize :: "spec \<Rightarrow> u64" where
  "initialDAGSize s =
     (if InitialDAGSizeBytes s \<noteq> 0 then InitialDAGSizeBytes s else DAGSizeBytes s)"

definition growthDAGSizePerEpoch :: "spec \<Rightarrow> u64" where
  "growthDAGSizePerEpoch s =
     (if DAGGrowthBytesPerEpoch s \<noteq> 0 then DAGGrowthBytesPerEpoch s
      else DefaultDAGGrowthBytesPerEpoch)"

text \<open>\<open>None\<close> is the panic of \<open>math.MaxUint64 % s.NodeSize\<close> on a zero node size.\<close>

definition DAGSizeForEpoch :: "spec \<Rightarrow> u64 \<Rightarrow> u64 option" where
  "DAGSizeForEpoch s epoch =
     (let initial = initialDAGSize s; growth = growthDAGSizePerEpoch s in
      if initial = 0 then Some 0
      else if growth = 0 \<or> epoch = 0 then Some initial
      else if epoch > (MaxUint64 - initial) div growth then
        (if NodeSize s = 0 then None else Some (MaxUint64 - (MaxUint64 mod NodeSize s)))
      else Some (initial + epoch * growth))"

definition DAGSizeForHeight :: "spec \<Rightarrow> u64 \<Rightarrow> u64 option" where
  "DAGSizeForHeight s height =
     (if EpochBlocks s = 0 then DAGSizeForEpoch s 0
      else DAGSizeForEpoch s (height div EpochBlocks s))"

definition ResolvedForHeight :: "spec \<Rightarrow> u64 \<Rightarrow> spec option" where
  "ResolvedForHeight s height =
     (case DAGSizeForHeight s height of
        None \<Rightarrow> None
      | Some sz \<Rightarrow> Some (s\<lparr>DAGSizeBytes := sz\<rparr>))"

definition NodeCount :: "spec \<Rightarrow> u64 option" where
  "NodeCount s =
     (case (if DAGSizeBytes s = 0 then DAGSizeForHeight s 0 else Some (DAGSizeBytes s)) of
        None \<Rightarrow> None
      | Some sz \<Rightarrow> Some (if NodeSize s = 0 then 0 else sz div NodeSize s))"


section \<open>Validation\<close>

datatype spec_error =
    InitialSizeZero | GrowthZero | BadNodeSize | ReadsZero | EpochBlocksZero
  | InitialNotMultiple | GrowthNotMultiple
  | StrictConstants | StrictNeedsVersion2 | StrictNeedsUnifiedShared | StrictNeedsDevice
  | StrictNeedsTensorParameters | UnsupportedMode string

definition Validate :: "spec \<Rightarrow> spec_error option" where
  "Validate s =
     (let mode = (if Mode s = [] then ModeStrict else Mode s);
          initial = initialDAGSize s; growth = growthDAGSizePerEpoch s in
      if initial = 0 then Some InitialSizeZero
      else if growth = 0 then Some GrowthZero
      else if NodeSize s \<noteq> StrictNodeSize then Some BadNodeSize
      else if ReadsPerHash s = 0 then Some ReadsZero
      else if EpochBlocks s = 0 then Some EpochBlocksZero
      else if initial mod NodeSize s \<noteq> 0 then Some InitialNotMultiple
      else if growth mod NodeSize s \<noteq> 0 then Some GrowthNotMultiple
      else if mode = ModeStrict then
        (if NodeSize s \<noteq> StrictNodeSize \<or> ReadsPerHash s \<noteq> StrictReadsPerHash
             \<or> EpochBlocks s \<noteq> StrictEpochBlocks then Some StrictConstants
         else if AlgorithmVersion s \<noteq> 2 then Some StrictNeedsVersion2
         else if MemoryModelRequired s \<noteq> MemoryModelUnifiedShared then Some StrictNeedsUnifiedShared
         else if \<not> DeviceExecutionOnly s then Some StrictNeedsDevice
         else if TileSizeBytes s = 0 \<or> MatDim s = 0 \<or> ComputeRounds s = 0
             \<or> RoundCommitInterval s = 0 then Some StrictNeedsTensorParameters
         else None)
      else if mode = ModeResearch then None
      else Some (UnsupportedMode mode))"


section \<open>What a valid profile guarantees\<close>

lemma growth_nonzero [simp]: "growthDAGSizePerEpoch s \<noteq> 0"
  by (simp add: growthDAGSizePerEpoch_def DefaultDAGGrowthBytesPerEpoch_def)

lemma Validate_common:
  assumes "Validate s = None"
  shows "initialDAGSize s \<noteq> 0" "NodeSize s = 64" "ReadsPerHash s \<noteq> 0" "EpochBlocks s \<noteq> 0"
    "initialDAGSize s mod 64 = 0" "growthDAGSizePerEpoch s mod 64 = 0"
  using assms by (auto simp: Validate_def Let_def StrictNodeSize_def split: if_splits)

lemma Validate_strict:
  assumes "Validate s = None" and "Mode s = ModeStrict"
  shows "AlgorithmVersion s = 2" "ReadsPerHash s = StrictReadsPerHash"
    "EpochBlocks s = StrictEpochBlocks" "DeviceExecutionOnly s"
    "MemoryModelRequired s = MemoryModelUnifiedShared"
    "TileSizeBytes s \<noteq> 0" "MatDim s \<noteq> 0" "ComputeRounds s \<noteq> 0" "RoundCommitInterval s \<noteq> 0"
  using assms by (auto simp: Validate_def Let_def ModeStrict_def split: if_splits)

lemma dvd_unat_64: "(w :: u64) mod 64 = 0 \<longleftrightarrow> 64 dvd unat w"
  by (simp add: word_unat_eq_iff unat_mod dvd_eq_mod_eq_0)

lemma max_unat: "unat MaxUint64 = 2 ^ 64 - 1"
  by (simp add: MaxUint64_def)

lemma aligned_le: "64 dvd n \<Longrightarrow> n < 2 ^ 64 \<Longrightarrow> n \<le> 2 ^ 64 - (64::nat)"
  by (auto elim!: dvdE)

text \<open>The exact size in unbounded arithmetic, and what the code returns for it.\<close>

definition ideal_size :: "spec \<Rightarrow> nat \<Rightarrow> nat" where
  "ideal_size s e = unat (initialDAGSize s) + e * unat (growthDAGSizePerEpoch s)"

lemma ideal_size_dvd: "Validate s = None \<Longrightarrow> 64 dvd ideal_size s e"
  using Validate_common(5,6) [of s] by (simp add: ideal_size_def dvd_unat_64)

lemma saturated_iff:
  assumes "g \<noteq> (0 :: u64)"
  shows "e > (MaxUint64 - i) div g \<longleftrightarrow> 2 ^ 64 \<le> unat i + unat e * unat g"
proof -
  have "i \<le> MaxUint64" 
    using unsigned_less [of i, where ?'a = nat] by (simp add: MaxUint64_def word_le_nat_alt)
  then have sub: "unat (MaxUint64 - i) = 2 ^ 64 - 1 - unat i"
    by (simp add: unat_sub max_unat)
  have "unat g > 0" using assms by (simp add: unat_gt_0)
  then have "e > (MaxUint64 - i) div g \<longleftrightarrow> 2 ^ 64 - 1 - unat i < unat e * unat g"
    by (simp add: word_less_nat_alt unat_div sub div_less_iff_less_mult)
  also have "\<dots> \<longleftrightarrow> 2 ^ 64 \<le> unat i + unat e * unat g"
    using unsigned_less [of i, where ?'a = nat] by auto
  finally show ?thesis .
qed

lemma DAGSizeForEpoch_eq:
  assumes v: "Validate s = None"
  shows "DAGSizeForEpoch s e = Some (of_nat (min (ideal_size s (unat e)) (2 ^ 64 - 64)))"
proof -
  let ?i = "initialDAGSize s" and ?g = "growthDAGSizePerEpoch s"
  have n: "NodeSize s = 64" and i: "?i \<noteq> 0" using Validate_common [OF v] by simp_all
  have small: "ideal_size s k \<le> 2 ^ 64 - 64" if "ideal_size s k < 2 ^ 64" for k
    using that ideal_size_dvd [OF v] by (rule aligned_le [rotated])
  show ?thesis
  proof (cases "e = 0")
    case True
    have "ideal_size s 0 \<le> 2 ^ 64 - 64"
      using unsigned_less [of ?i, where ?'a = nat] by (intro small) (simp add: ideal_size_def)
    with True i show ?thesis by (simp add: DAGSizeForEpoch_def Let_def ideal_size_def min_def)
  next
    case e: False
    show ?thesis
    proof (cases "2 ^ 64 \<le> ideal_size s (unat e)")
      case True
      then have "e > (MaxUint64 - ?i) div ?g" by (simp add: saturated_iff ideal_size_def)
      then show ?thesis using True e i n
        by (simp add: DAGSizeForEpoch_def Let_def MaxUint64_def min_def)
    next
      case False
      then have "\<not> e > (MaxUint64 - ?i) div ?g" by (simp add: saturated_iff ideal_size_def)
      moreover have "ideal_size s (unat e) \<le> 2 ^ 64 - 64" using False small by simp
      ultimately show ?thesis using e i
        by (simp add: DAGSizeForEpoch_def Let_def ideal_size_def min_def)
    qed
  qed
qed

lemma DAGSizeForHeight_eq:
  assumes v: "Validate s = None"
  shows "DAGSizeForHeight s h =
    Some (of_nat (min (ideal_size s (unat h div unat (EpochBlocks s))) (2 ^ 64 - 64)))"
  using Validate_common(4) [OF v] by (simp add: DAGSizeForHeight_def DAGSizeForEpoch_eq [OF v] unat_div)

lemma unat_height_size:
  "unat (of_nat (min n (2 ^ 64 - 64)) :: u64) = min n (2 ^ 64 - 64)"
  by (simp add: unsigned_of_nat take_bit_nat_eq_self_iff min_less_iff_disj)

lemma research_fields:
  fixes i g r e :: u64
  defines "s \<equiv> ResearchSpecWithGrowth i g r e"
  shows "Mode s = ModeResearch" "NodeSize s = 64" "AlgorithmVersion s = 1"
    "InitialDAGSizeBytes s = (if i \<noteq> 0 then i else StrictInitialDAGSizeBytes)"
    "DAGSizeBytes s = (if i \<noteq> 0 then i else StrictInitialDAGSizeBytes)"
    "DAGGrowthBytesPerEpoch s = (if g \<noteq> 0 then g else DefaultDAGGrowthBytesPerEpoch)"
    "ReadsPerHash s = (if r \<noteq> 0 then r else StrictReadsPerHash)"
    "EpochBlocks s = (if e \<noteq> 0 then e else StrictEpochBlocks)"
  unfolding s_def ResearchSpecWithGrowth_def StrictSpec_def Let_def StrictNodeSize_def by simp_all

text \<open>A small research profile: one 64-byte node in epoch 0, one more node per epoch of two blocks,
  one read per hash.\<close>

definition tiny_spec :: spec where
  "tiny_spec = ResearchSpecWithGrowth 64 64 1 2"

lemma tiny_spec_fields [simp]:
  "Mode tiny_spec = ModeResearch" "DAGSizeBytes tiny_spec = 64" "InitialDAGSizeBytes tiny_spec = 64"
  "DAGGrowthBytesPerEpoch tiny_spec = 64" "NodeSize tiny_spec = 64" "ReadsPerHash tiny_spec = 1"
  "EpochBlocks tiny_spec = 2" "AlgorithmVersion tiny_spec = 1"
  by (simp_all add: tiny_spec_def ResearchSpecWithGrowth_def StrictSpec_def StrictNodeSize_def)

lemma tiny_spec_valid [simp]: "Validate tiny_spec = None"
  by (simp add: Validate_def Let_def initialDAGSize_def growthDAGSizePerEpoch_def ModeResearch_def
      ModeStrict_def StrictNodeSize_def)


section \<open>Properties\<close>

text \<open>C37: For every valid profile the DAG size at a height is the exact size
  \<open>initial + epoch * growth\<close> in unbounded arithmetic, capped at the largest multiple of the node
  size that 64 bits hold.  The overflow test of the code never wraps and the call never panics.\<close>

theorem dag_size_closed_form:
  assumes "Validate s = None"
  shows "\<exists>sz. DAGSizeForHeight s h = Some sz \<and>
    unat sz = min (unat (initialDAGSize s) +
                   (unat h div unat (EpochBlocks s)) * unat (growthDAGSizePerEpoch s)) (2 ^ 64 - 64)"
  using DAGSizeForHeight_eq [OF assms, of h] unat_height_size by (simp add: ideal_size_def)

theorem dag_size_closed_form_witness:
  "Validate tiny_spec = None \<and>
   (\<exists>sz. DAGSizeForHeight tiny_spec 5 = Some sz \<and> unat sz = 192)"
  using dag_size_closed_form [OF tiny_spec_valid, of 5]
  by (simp add: initialDAGSize_def growthDAGSizePerEpoch_def)

text \<open>The DAG of a valid profile is never empty, is a whole number of 64-byte nodes, and never
  shrinks as the chain grows.\<close>

theorem dag_size_aligned_monotone:
  assumes v: "Validate s = None"
    and sz: "DAGSizeForHeight s h = Some sz" and sz': "DAGSizeForHeight s h' = Some sz'"
    and le: "h \<le> h'"
  shows "sz mod NodeSize s = 0 \<and> initialDAGSize s \<le> sz \<and> 0 < sz \<and> sz \<le> sz'"
proof -
  let ?e = "\<lambda>h. unat h div unat (EpochBlocks s)"
  have n: "NodeSize s = 64" and i: "initialDAGSize s \<noteq> 0" using Validate_common [OF v] by simp_all
  have u: "unat sz = min (ideal_size s (?e h)) (2 ^ 64 - 64)"
    and u': "unat sz' = min (ideal_size s (?e h')) (2 ^ 64 - 64)"
    using sz sz' unat_height_size by (auto simp: DAGSizeForHeight_eq [OF v])
  have "64 dvd unat sz" unfolding u using ideal_size_dvd [OF v] by (auto simp: min_def)
  moreover have "unat (initialDAGSize s) \<le> unat sz"
  proof -
    have "64 dvd unat (initialDAGSize s)" using Validate_common(5) [OF v] by (simp add: dvd_unat_64)
    then have "unat (initialDAGSize s) \<le> 2 ^ 64 - 64"
      using aligned_le unsigned_less [of "initialDAGSize s", where ?'a = nat] by simp
    then show ?thesis unfolding u by (simp add: ideal_size_def)
  qed
  moreover have "unat sz \<le> unat sz'"
  proof -
    have "?e h \<le> ?e h'" using le by (simp add: word_le_nat_alt div_le_mono)
    then have "ideal_size s (?e h) \<le> ideal_size s (?e h')" by (simp add: ideal_size_def)
    then show ?thesis unfolding u u' by (auto simp: min_def)
  qed
  moreover have "0 < unat (initialDAGSize s)" using i by (simp add: unat_gt_0)
  ultimately show ?thesis using n by (simp add: dvd_unat_64 word_le_nat_alt word_less_nat_alt)
qed

theorem dag_size_aligned_monotone_witness:
  "DAGSizeForHeight tiny_spec 1 = Some 64 \<and> DAGSizeForHeight tiny_spec 5 = Some 192 \<and> (64 :: u64) \<le> 192"
proof -
  have a: "DAGSizeForHeight tiny_spec 1 = Some 64" and b: "DAGSizeForHeight tiny_spec 5 = Some 192"
    by (simp_all add: DAGSizeForHeight_def DAGSizeForEpoch_def initialDAGSize_def
        growthDAGSizePerEpoch_def MaxUint64_def)
  with dag_size_aligned_monotone [OF tiny_spec_valid a b] show ?thesis by simp
qed

text \<open>Which profiles the command lines can build are valid: a research profile is accepted
  exactly when both sizes given are whole numbers of nodes (zero selects the default), and the strict
  profile is accepted.\<close>

theorem constructors_valid:
  "(Validate (ResearchSpecWithGrowth i g r e) = None \<longleftrightarrow> i mod 64 = 0 \<and> g mod 64 = 0) \<and>
   Validate StrictSpec = None"
proof -
  have "initialDAGSize (ResearchSpecWithGrowth i g r e) =
      (if i \<noteq> 0 then i else StrictInitialDAGSizeBytes)"
    and "growthDAGSizePerEpoch (ResearchSpecWithGrowth i g r e) =
      (if g \<noteq> 0 then g else DefaultDAGGrowthBytesPerEpoch)"
    by (simp_all add: initialDAGSize_def growthDAGSizePerEpoch_def research_fields spec_consts)
  then have "Validate (ResearchSpecWithGrowth i g r e) = None \<longleftrightarrow> i mod 64 = 0 \<and> g mod 64 = 0"
    by (simp add: Validate_def Let_def research_fields spec_consts)
  moreover have "Validate StrictSpec = None"
    by (simp add: Validate_def StrictSpec_def Let_def spec_consts initialDAGSize_def
        growthDAGSizePerEpoch_def)
  ultimately show ?thesis by blast
qed

text \<open>Resolving a profile at a height changes only its current DAG size: every later size
  computation on the resolved profile, at any height, gives what the original gives, provided the
  profile records its initial size separately.\<close>

theorem resolved_same_schedule:
  assumes "InitialDAGSizeBytes s \<noteq> 0" and "ResolvedForHeight s h = Some r"
  shows "DAGSizeForHeight r h' = DAGSizeForHeight s h' \<and> Validate r = Validate s \<and>
    Some (DAGSizeBytes r) = DAGSizeForHeight s h"
proof -
  from assms(2) obtain sz where sz: "DAGSizeForHeight s h = Some sz" and r: "r = s\<lparr>DAGSizeBytes := sz\<rparr>"
    by (auto simp: ResolvedForHeight_def split: option.splits)
  have i: "initialDAGSize r = initialDAGSize s" using assms(1) by (simp add: r initialDAGSize_def)
  have g: "growthDAGSizePerEpoch r = growthDAGSizePerEpoch s" by (simp add: r growthDAGSizePerEpoch_def)
  have f: "NodeSize r = NodeSize s" "EpochBlocks r = EpochBlocks s" "Mode r = Mode s"
    "ReadsPerHash r = ReadsPerHash s" "AlgorithmVersion r = AlgorithmVersion s"
    "MemoryModelRequired r = MemoryModelRequired s" "DeviceExecutionOnly r = DeviceExecutionOnly s"
    "TileSizeBytes r = TileSizeBytes s" "MatDim r = MatDim s" "ComputeRounds r = ComputeRounds s"
    "RoundCommitInterval r = RoundCommitInterval s"
    by (simp_all add: r)
  have "DAGSizeForEpoch r e = DAGSizeForEpoch s e" for e by (simp only: DAGSizeForEpoch_def i g f)
  then have "DAGSizeForHeight r h' = DAGSizeForHeight s h'" by (simp only: DAGSizeForHeight_def f)
  moreover have "Validate r = Validate s" by (simp only: Validate_def i g f)
  ultimately show ?thesis using sz by (simp add: r)
qed

theorem resolved_same_schedule_witness:
  "ResolvedForHeight tiny_spec 5 = Some (tiny_spec\<lparr>DAGSizeBytes := 192\<rparr>) \<and>
   DAGSizeForHeight (tiny_spec\<lparr>DAGSizeBytes := 192\<rparr>) 3 = DAGSizeForHeight tiny_spec 3"
proof -
  have r: "ResolvedForHeight tiny_spec 5 = Some (tiny_spec\<lparr>DAGSizeBytes := 192\<rparr>)"
    by (simp add: ResolvedForHeight_def DAGSizeForHeight_def DAGSizeForEpoch_def initialDAGSize_def
        growthDAGSizePerEpoch_def MaxUint64_def)
  with resolved_same_schedule [OF _ r, of 3] show ?thesis by simp
qed

text \<open>Without that field the schedule shifts: a profile that leaves \<open>InitialDAGSizeBytes\<close> at zero
  and gives only \<open>DAGSizeBytes\<close> is valid, but its resolved copy starts growing from the resolved
  size.\<close>

lemma resolved_schedule_shifts:
  "let s = tiny_spec\<lparr>InitialDAGSizeBytes := 0\<rparr>; r = s\<lparr>DAGSizeBytes := 128\<rparr> in
   Validate s = None \<and> ResolvedForHeight s 2 = Some r \<and>
   DAGSizeForHeight s 2 = Some 128 \<and> DAGSizeForHeight r 2 = Some 192"
  by (simp add: Let_def ResolvedForHeight_def DAGSizeForHeight_def DAGSizeForEpoch_def
      initialDAGSize_def growthDAGSizePerEpoch_def MaxUint64_def Validate_def ModeResearch_def
      ModeStrict_def StrictNodeSize_def)

end
