(* ===== verification/Dag.thy ===== *)
theory Dag
  imports DagSpec
begin

text \<open>
  The DAG: its allocation and ownership, its nodes, the two generators that fill it
  (\<open>colossusx/dag.go\<close>, \<open>colossusx/dag_tensor.go\<close>) and the stateless view that recomputes a node on
  demand (\<open>colossusx/dag_stateless.go\<close>).

  The hash functions of \<open>golang.org/x/crypto/sha3\<close> and \<open>github.com/zeebo/blake3\<close> are parameters, the
  fields of \<open>hashlib\<close>; the fixed length of their results is that of the Go array type the code stores
  them in (\<open>fit\<close>).

  The parallel generator is modelled twice: \<open>GenerateDAG\<close> runs the goroutines one after the other,
  and \<open>gen_step\<close> lets any goroutine that has nodes left write its next node, so that a run of it is
  an arbitrary interleaving.
\<close>


section \<open>Third-party hash functions\<close>

record hashlib =
  lib_sha3_512 :: "bytes \<Rightarrow> bytes"
  lib_keccak512 :: "bytes \<Rightarrow> bytes"
  lib_blake3_256 :: "bytes \<Rightarrow> bytes"
  lib_blake3_xof :: "bytes \<Rightarrow> nat \<Rightarrow> bytes"

text \<open>An instance of the parameter, for the worked examples only.\<close>

definition sample_lib :: hashlib where
  "sample_lib = \<lparr>lib_sha3_512 = (\<lambda>b. rev b), lib_keccak512 = (\<lambda>b. b),
     lib_blake3_256 = (\<lambda>b. b), lib_blake3_xof = (\<lambda>b n. b)\<rparr>"

definition keccak512 :: "hashlib \<Rightarrow> bytes \<Rightarrow> bytes" where
  "keccak512 L data = fit 64 (lib_keccak512 L data)"


section \<open>Allocations and DAGs\<close>

record allocation =
  alloc_bytes :: bytes
  alloc_name :: string

text \<open>The last field is the optional method \<open>ValidationCanReuseDAG\<close> that the validator looks for.\<close>

record allocator =
  allocator_Alloc :: "u64 \<Rightarrow> string + allocation"
  allocator_Name :: string
  allocator_CanReuse :: "bool option"

record dag =
  dag_spec :: spec
  dag_alloc :: "allocation option"
  dag_ownership :: bool

datatype dag_error =
    DagSpecError spec_error | AllocationNil | AllocationTooSmall | AllocatorNil
  | AllocFailed string | EpochSeedEmpty | StrictOnly

text \<open>The second component lists the allocations the call has freed.\<close>

definition NewDAGWithAllocation ::
  "spec \<Rightarrow> allocation option \<Rightarrow> bool \<Rightarrow> (dag_error + dag) \<times> allocation list" where
  "NewDAGWithAllocation s alloc ownership =
     (case Validate s of
        Some e \<Rightarrow> (Inl (DagSpecError e), [])
      | None \<Rightarrow>
          (case alloc of
             None \<Rightarrow> (Inl AllocationNil, [])
           | Some a \<Rightarrow>
               if length (alloc_bytes a) < unat (DAGSizeBytes s)
               then (Inl AllocationTooSmall, if ownership then [a] else [])
               else (Inr \<lparr>dag_spec = s, dag_alloc = Some a, dag_ownership = ownership\<rparr>, [])))"

definition NewDAGWithAllocator ::
  "spec \<Rightarrow> allocator option \<Rightarrow> (dag_error + dag) \<times> allocation list" where
  "NewDAGWithAllocator s al =
     (case al of
        None \<Rightarrow> (Inl AllocatorNil, [])
      | Some m \<Rightarrow>
          (case allocator_Alloc m (DAGSizeBytes s) of
             Inl e \<Rightarrow> (Inl (AllocFailed e), [])
           | Inr a \<Rightarrow> NewDAGWithAllocation s (Some a) True))"

definition DAG_AllocationName :: "dag \<Rightarrow> string" where
  "DAG_AllocationName d = (case dag_alloc d of None \<Rightarrow> [] | Some a \<Rightarrow> alloc_name a)"

definition DAG_NodeCount :: "dag \<Rightarrow> u64 option" where
  "DAG_NodeCount d = NodeCount (dag_spec d)"

text \<open>The backing bytes, and \<open>Bytes()\<close>, which cuts them at the DAG size.\<close>

definition backing :: "dag \<Rightarrow> bytes" where
  "backing d = (case dag_alloc d of None \<Rightarrow> [] | Some a \<Rightarrow> alloc_bytes a)"

definition DAG_Bytes :: "dag \<Rightarrow> bytes" where
  "DAG_Bytes d =
     (let buf = backing d in
      if unat (DAGSizeBytes (dag_spec d)) < length buf then take (unat (DAGSizeBytes (dag_spec d))) buf
      else buf)"

text \<open>Slicing is checked against the capacity, which is the backing allocation's, not the length that
  \<open>Bytes()\<close> leaves.\<close>

definition DAG_Node :: "dag \<Rightarrow> u64 \<Rightarrow> bytes option" where
  "DAG_Node d i =
     (let off = i * NodeSize (dag_spec d)
      in slice (backing d) (unat off) (unat (off + NodeSize (dag_spec d))))"

definition DAG_ReadNode :: "dag \<Rightarrow> u64 \<Rightarrow> bytes \<Rightarrow> bytes option" where
  "DAG_ReadNode d i out = map_option (\<lambda>node. blit 0 (take (length out) node) out) (DAG_Node d i)"

text \<open>\<open>Close\<close> returns the closed DAG and the allocations it has freed.\<close>

definition DAG_Close :: "dag \<Rightarrow> dag \<times> allocation list" where
  "DAG_Close d =
     (if dag_alloc d = None \<or> \<not> dag_ownership d then (d, [])
      else (d\<lparr>dag_alloc := None, dag_ownership := False\<rparr>,
            case dag_alloc d of None \<Rightarrow> [] | Some a \<Rightarrow> [a]))"


section \<open>Tensor tiles\<close>

record tensor_tile =
  MatrixA :: "byte list"
  MatrixB :: "byte list"
  Bias :: "u32 list"
  Permute :: bytes
  Meta :: bytes

definition zero_tile :: tensor_tile where
  "zero_tile = \<lparr>MatrixA = replicate 256 0, MatrixB = replicate 256 0, Bias = replicate 16 0,
     Permute = replicate 32 0, Meta = replicate 32 0\<rparr>"

definition raw_tile :: "bytes \<Rightarrow> tensor_tile" where
  "raw_tile raw = \<lparr>
     MatrixA = map (\<lambda>j. raw ! (j mod 64)) [0..<256],
     MatrixB = map (\<lambda>j. raw ! ((j + 17) mod 64)) [0..<256],
     Bias = map (\<lambda>j. scast (raw ! j)) [0..<16],
     Permute = take 32 raw,
     Meta = take 32 (drop 32 raw)\<rparr>"

text \<open>A node read as a tile; indexing a node shorter than 64 bytes panics.\<close>

definition tile_of_raw :: "bytes \<Rightarrow> tensor_tile option" where
  "tile_of_raw raw = (if length raw < 64 then None else Some (raw_tile raw))"

definition DAG_ReadTensorTile :: "dag \<Rightarrow> u64 \<Rightarrow> tensor_tile option" where
  "DAG_ReadTensorTile d i = Option.bind (DAG_Node d i) tile_of_raw"


section \<open>Filling a DAG\<close>

definition research_node :: "hashlib \<Rightarrow> bytes \<Rightarrow> u64 \<Rightarrow> bytes" where
  "research_node L seed i = keccak512 L (seed @ put_le 8 i)"

text \<open>\<open>copy(dag[off:off+spec.NodeSize], sum[:])\<close> with \<open>off = i * spec.NodeSize\<close>; out of range the
  slice expression panics.\<close>

definition write_node :: "spec \<Rightarrow> bytes \<Rightarrow> u64 \<Rightarrow> bytes \<Rightarrow> bytes option" where
  "write_node s dag i digest =
     (let off = i * NodeSize s; hi = off + NodeSize s in
      if off \<le> hi \<and> unat hi \<le> length dag
      then Some (blit (unat off) (take (unat (NodeSize s)) digest) dag)
      else None)"

text \<open>The half-open node ranges of the goroutines: the \<open>for w\<close> loop with its clamp and its break,
  for the last \<open>k\<close> of \<open>W\<close> workers.\<close>

fun worker_ranges :: "u64 \<Rightarrow> u64 \<Rightarrow> nat \<Rightarrow> nat \<Rightarrow> (u64 \<times> u64) list" where
  "worker_ranges nodeCount chunk W 0 = []"
| "worker_ranges nodeCount chunk W (Suc k) =
     (let w = W - Suc k;
          lo = of_nat w * chunk;
          hi = lo + chunk;
          hi = (if w = W - 1 \<or> hi > nodeCount then nodeCount else hi)
      in if lo \<ge> nodeCount then [] else (lo, hi) # worker_ranges nodeCount chunk W k)"

definition chunk_size :: "u64 \<Rightarrow> nat \<Rightarrow> u64" where
  "chunk_size nodeCount W =
     (let chunk = nodeCount div of_nat W in if chunk = 0 then 1 else chunk)"

text \<open>The body of one goroutine: \<open>n\<close> nodes from \<open>i\<close> on.\<close>

fun fill_range :: "hashlib \<Rightarrow> spec \<Rightarrow> bytes \<Rightarrow> nat \<Rightarrow> u64 \<Rightarrow> bytes \<Rightarrow> bytes option" where
  "fill_range L s seed 0 i dag = Some dag"
| "fill_range L s seed (Suc n) i dag =
     Option.bind (write_node s dag i (research_node L seed i))
       (fill_range L s seed n (i + 1))"

fun fill_ranges :: "hashlib \<Rightarrow> spec \<Rightarrow> bytes \<Rightarrow> (u64 \<times> u64) list \<Rightarrow> bytes \<Rightarrow> bytes option" where
  "fill_ranges L s seed [] dag = Some dag"
| "fill_ranges L s seed ((lo, hi) # rs) dag =
     Option.bind (fill_range L s seed (unat hi - unat lo) lo dag) (fill_ranges L s seed rs)"

text \<open>\<open>None\<close> is a panic; otherwise the error and the bytes as the call leaves them.  \<open>numCPU\<close> is
  \<open>runtime.NumCPU()\<close>, the number of workers when none is asked for.\<close>

definition effective_workers :: "nat \<Rightarrow> int \<Rightarrow> nat" where
  "effective_workers numCPU workers = (if workers \<le> 0 then numCPU else nat workers)"

definition GenerateDAG ::
  "hashlib \<Rightarrow> nat \<Rightarrow> spec \<Rightarrow> bytes \<Rightarrow> bytes \<Rightarrow> int \<Rightarrow> (dag_error option \<times> bytes) option" where
  "GenerateDAG L numCPU s dag epochSeed workers =
     (case Validate s of
        Some e \<Rightarrow> Some (Some (DagSpecError e), dag)
      | None \<Rightarrow>
          if epochSeed = [] then Some (Some EpochSeedEmpty, dag)
          else if length dag < unat (DAGSizeBytes s) then Some (Some AllocationTooSmall, dag)
          else
            let W = effective_workers numCPU workers in
            do {
              nodeCount \<leftarrow> NodeCount s;
              if W = 0 then None
              else do {
                dag' \<leftarrow> fill_ranges L s epochSeed
                          (worker_ranges nodeCount (chunk_size nodeCount W) W W) dag;
                Some (None, dag')
              }
            })"

text \<open>The strict generator, a single loop over offsets; offsets are natural numbers, which agree with
  the code's words because a slice is shorter than \<open>2 ^ 63\<close>.\<close>

definition strict_bytes :: "hashlib \<Rightarrow> bytes \<Rightarrow> u64 \<Rightarrow> nat \<Rightarrow> bytes" where
  "strict_bytes L seed i n = fit n (lib_blake3_xof L (seed @ put_le 8 i) n)"

function tensor_loop :: "hashlib \<Rightarrow> nat \<Rightarrow> nat \<Rightarrow> bytes \<Rightarrow> nat \<Rightarrow> u64 \<Rightarrow> bytes \<Rightarrow> bytes" where
  "tensor_loop L nodeSize sz seed off tile dag =
     (if 0 < nodeSize \<and> off + nodeSize \<le> length dag \<and> off < sz
      then tensor_loop L nodeSize sz seed (off + nodeSize) (tile + 1)
             (blit off (strict_bytes L seed tile nodeSize) dag)
      else dag)"
  by pat_completeness auto
termination
  by (relation "measure (\<lambda>(L, nodeSize, sz, seed, off, tile, dag). length dag - off)") auto

declare tensor_loop.simps [simp del]

definition GenerateTensorDAG ::
  "hashlib \<Rightarrow> spec \<Rightarrow> bytes \<Rightarrow> bytes \<Rightarrow> dag_error option \<times> bytes" where
  "GenerateTensorDAG L s dag epochSeed =
     (case Validate s of
        Some e \<Rightarrow> (Some (DagSpecError e), dag)
      | None \<Rightarrow>
          if Mode s \<noteq> ModeStrict then (Some StrictOnly, dag)
          else (None, tensor_loop L (unat (NodeSize s)) (unat (DAGSizeBytes s)) epochSeed 0 0 dag))"

text \<open>The generators write through the slice of the allocation that \<open>Bytes()\<close> returns; the bytes of
  the allocation beyond the DAG stay as they are.\<close>

definition set_bytes :: "dag \<Rightarrow> bytes \<Rightarrow> dag" where
  "set_bytes d b =
     (case dag_alloc d of
        None \<Rightarrow> d
      | Some a \<Rightarrow> d\<lparr>dag_alloc := Some (a\<lparr>alloc_bytes := b @ drop (length b) (alloc_bytes a)\<rparr>)\<rparr>)"

definition PopulateDAG ::
  "hashlib \<Rightarrow> nat \<Rightarrow> dag \<Rightarrow> bytes \<Rightarrow> int \<Rightarrow> (dag_error option \<times> dag) option" where
  "PopulateDAG L numCPU d epochSeed workers =
     (if Mode (dag_spec d) = ModeStrict then
        (let (e, b) = GenerateTensorDAG L (dag_spec d) (DAG_Bytes d) epochSeed
         in Some (e, set_bytes d b))
      else
        (case GenerateDAG L numCPU (dag_spec d) (DAG_Bytes d) epochSeed workers of
           None \<Rightarrow> None
         | Some (e, b) \<Rightarrow> Some (e, set_bytes d b)))"


section \<open>The stateless DAG\<close>

record stateless_dag =
  sd_spec :: spec
  sd_seed :: bytes

definition NewStatelessDAG :: "spec \<Rightarrow> bytes \<Rightarrow> dag_error + stateless_dag" where
  "NewStatelessDAG s epochSeed =
     (case Validate s of
        Some e \<Rightarrow> Inl (DagSpecError e)
      | None \<Rightarrow> if epochSeed = [] then Inl EpochSeedEmpty
                else Inr \<lparr>sd_spec = s, sd_seed = epochSeed\<rparr>)"

text \<open>The receiver is an option because the methods accept a nil pointer.\<close>

definition Stateless_NodeCount :: "stateless_dag option \<Rightarrow> u64 option" where
  "Stateless_NodeCount d = (case d of None \<Rightarrow> Some 0 | Some x \<Rightarrow> NodeCount (sd_spec x))"

definition strictNode :: "hashlib \<Rightarrow> stateless_dag \<Rightarrow> u64 \<Rightarrow> bytes" where
  "strictNode L d i = strict_bytes L (sd_seed d) i 64"

definition researchNode :: "hashlib \<Rightarrow> stateless_dag \<Rightarrow> u64 \<Rightarrow> bytes" where
  "researchNode L d i = research_node L (sd_seed d) i"

definition Stateless_ReadNode :: "hashlib \<Rightarrow> stateless_dag option \<Rightarrow> u64 \<Rightarrow> bytes \<Rightarrow> bytes" where
  "Stateless_ReadNode L d i out =
     (case d of
        None \<Rightarrow> out
      | Some x \<Rightarrow>
          if Mode (sd_spec x) = ModeStrict then blit 0 (strictNode L x i) out
          else blit 0 (researchNode L x i) out)"

definition Stateless_ReadTensorTile ::
  "hashlib \<Rightarrow> stateless_dag option \<Rightarrow> u64 \<Rightarrow> tensor_tile \<Rightarrow> tensor_tile option" where
  "Stateless_ReadTensorTile L d i out =
     (case d of
        None \<Rightarrow> Some out
      | Some x \<Rightarrow> tile_of_raw (Stateless_ReadNode L d i (replicate 64 0)))"

text \<open>What node \<open>i\<close> of a DAG holds by definition of the algorithm.\<close>

definition algorithm_node :: "hashlib \<Rightarrow> spec \<Rightarrow> bytes \<Rightarrow> u64 \<Rightarrow> bytes" where
  "algorithm_node L s seed i =
     (if Mode s = ModeStrict then strict_bytes L seed i 64 else research_node L seed i)"

end
