(* ===== verification/DagGen.thy ===== *)
theory DagGen
  imports Dag
begin

text \<open>
  What the DAG generators leave in memory.  \<open>painted P nd dag\<close> is the buffer \<open>dag\<close> in which the nodes
  selected by \<open>P\<close> have been overwritten with the contents \<open>nd\<close> prescribes: every generator, and every
  interleaving of the parallel one, is shown to compute such a buffer.
\<close>


section \<open>Buffers as painted nodes\<close>

definition painted :: "(nat \<Rightarrow> bool) \<Rightarrow> (nat \<Rightarrow> bytes) \<Rightarrow> bytes \<Rightarrow> bytes" where
  "painted P nd dag =
     map (\<lambda>k. if P (k div 64) then nd (k div 64) ! (k mod 64) else dag ! k) [0..<length dag]"

lemma length_painted [simp, len_simps]: "length (painted P nd dag) = length dag"
  by (simp add: painted_def)

lemma nth_painted: "k < length dag \<Longrightarrow>
    painted P nd dag ! k = (if P (k div 64) then nd (k div 64) ! (k mod 64) else dag ! k)"
  by (simp add: painted_def)

lemma painted_none [simp]: "painted (\<lambda>_. False) nd dag = dag"
  by (rule nth_equalityI) (simp_all add: nth_painted)

lemma painted_cong:
  "(\<And>j. 64 * j < length dag \<Longrightarrow> P j = Q j) \<Longrightarrow> painted P nd dag = painted Q nd dag"
  by (rule nth_equalityI) (simp_all add: nth_painted)

lemma in_node: "64 * j \<le> k \<and> k < 64 * j + 64 \<longleftrightarrow> k div 64 = (j :: nat)"
  by auto

lemma blit_painted:
  assumes "64 * j + 64 \<le> length dag" and "length (nd j) = 64"
  shows "blit (64 * j) (nd j) (painted P nd dag) = painted (\<lambda>i. P i \<or> i = j) nd dag"
proof (rule nth_equalityI)
  fix k assume "k < length (blit (64 * j) (nd j) (painted P nd dag))"
  then have k: "k < length dag" using assms by simp
  have "k - 64 * j = k mod 64" if "k div 64 = j" using that minus_mult_div_eq_mod [of k 64] by simp
  then show "blit (64 * j) (nd j) (painted P nd dag) ! k = painted (\<lambda>i. P i \<or> i = j) nd dag ! k"
    using k assms in_node [of j k] by (auto simp: nth_blit nth_painted)
qed (use assms in simp)

lemma slice_painted:
  assumes "P j" and "64 * j + 64 \<le> length dag" and "length (nd j) = 64"
  shows "slice (painted P nd dag @ rest) (64 * j) (64 * j + 64) = Some (nd j)"
proof -
  have "take 64 (drop (64 * j) (painted P nd dag @ rest)) = nd j"
    using assms by (intro nth_equalityI) (simp_all add: nth_append nth_painted)
  then show ?thesis using assms(2) by (simp add: slice_def)
qed

lemma write_node_painted:
  assumes "NodeSize s = 64" and i: "64 * unat i + 64 \<le> length dag" "64 * unat i + 64 < 2 ^ 64"
    and "length (nd (unat i)) = 64"
  shows "write_node s (painted P nd dag) i (nd (unat i)) =
    Some (painted (\<lambda>j. P j \<or> j = unat i) nd dag)"
proof -
  have off: "unat (i * 64) = 64 * unat i" and hi: "unat (i * 64 + 64) = 64 * unat i + 64"
    using i(2) by (simp_all add: unat_word_ariths)
  then show ?thesis using assms by (simp add: write_node_def Let_def word_le_nat_alt blit_painted)
qed


section \<open>The goroutines one after the other\<close>

abbreviation research_nodes :: "hashlib \<Rightarrow> bytes \<Rightarrow> nat \<Rightarrow> bytes" where
  "research_nodes L seed i \<equiv> research_node L seed (of_nat i)"

lemma length_research_node [simp, len_simps]: "length (research_node L seed i) = 64"
  by (simp add: research_node_def keccak512_def)

lemma length_strict_bytes [simp, len_simps]: "length (strict_bytes L seed i n) = n"
  by (simp add: strict_bytes_def)

lemma fill_range_painted:
  assumes "NodeSize s = 64" and N: "64 * N \<le> length dag" "64 * N < 2 ^ 64"
  shows "unat i + n \<le> N \<Longrightarrow>
    fill_range L s seed n i (painted P (research_nodes L seed) dag) =
      Some (painted (\<lambda>j. P j \<or> unat i \<le> j \<and> j < unat i + n) (research_nodes L seed) dag)"
proof (induction n arbitrary: i P)
  case 0
  then show ?case by (auto intro!: arg_cong [where f = Some] painted_cong)
next
  case (Suc n)
  have i: "64 * unat i + 64 \<le> 64 * N" using Suc.prems by simp
  then have w: "write_node s (painted P (research_nodes L seed) dag) i (research_node L seed i) =
      Some (painted (\<lambda>j. P j \<or> j = unat i) (research_nodes L seed) dag)"
    using write_node_painted [of s i dag "research_nodes L seed" P] assms by simp
  have u: "unat (i + 1) = unat i + 1" using i N(2) by (simp add: unat_word_ariths)
  have "fill_range L s seed (Suc n) i (painted P (research_nodes L seed) dag) =
      Some (painted (\<lambda>j. (P j \<or> j = unat i) \<or> unat (i + 1) \<le> j \<and> j < unat (i + 1) + n)
        (research_nodes L seed) dag)"
    using Suc.prems by (simp add: w Suc.IH u)
  then show ?case by (simp add: u) (auto intro!: painted_cong)
qed

lemma fill_ranges_painted:
  assumes "NodeSize s = 64" and N: "64 * N \<le> length dag" "64 * N < 2 ^ 64"
  shows "\<forall>(lo, hi) \<in> set rs. lo \<le> hi \<and> unat hi \<le> N \<Longrightarrow>
    fill_ranges L s seed rs (painted P (research_nodes L seed) dag) =
      Some (painted (\<lambda>j. P j \<or> (\<exists>(lo, hi) \<in> set rs. unat lo \<le> j \<and> j < unat hi))
        (research_nodes L seed) dag)"
proof (induction rs arbitrary: P)
  case Nil
  then show ?case by simp
next
  case (Cons r rs)
  obtain lo hi where r: "r = (lo, hi)" by force
  have "unat lo \<le> unat hi" "unat hi \<le> N" using Cons.prems r by (auto simp: word_le_nat_alt)
  then have "fill_range L s seed (unat hi - unat lo) lo (painted P (research_nodes L seed) dag) =
      Some (painted (\<lambda>j. P j \<or> unat lo \<le> j \<and> j < unat hi) (research_nodes L seed) dag)"
    using fill_range_painted [OF assms, of lo "unat hi - unat lo"] by simp
  then show ?case using Cons by (auto simp: r intro!: painted_cong)
qed


section \<open>The partition of the nodes\<close>

text \<open>One iteration of the loop that starts the goroutines: either it stops, or it emits the next range,
  and no word operation has wrapped.\<close>

lemma worker_ranges_Suc:
  assumes chunk: "0 < chunk" and k: "Suc k \<le> W"
    and room: "(W - Suc k) * unat chunk < unat n \<longrightarrow> (W - k) * unat chunk \<le> unat n"
    and le: "(W - Suc k) * unat chunk \<le> unat n"
  obtains (stop) "worker_ranges n chunk W (Suc k) = []" "unat n \<le> (W - Suc k) * unat chunk"
  | (emit) lo hi where "worker_ranges n chunk W (Suc k) = (lo, hi) # worker_ranges n chunk W k"
    "unat lo = (W - Suc k) * unat chunk" "lo < hi" "hi \<le> n" "(W - k) * unat chunk \<le> unat n"
    "unat hi = (if k = 0 then unat n else (W - k) * unat chunk)"
proof -
  define w where "w = W - Suc k"
  define lo where "lo = (of_nat w * chunk :: u64)"
  define hi where "hi = (if w = W - 1 \<or> lo + chunk > n then n else lo + chunk)"
  have wk: "W - k = Suc w" using k by (simp add: w_def)
  have n: "unat n < 2 ^ 64" by (rule unat_less64)
  have c: "0 < unat chunk" using chunk by (simp add: word_less_nat_alt)
  have "w \<le> w * unat chunk" using c by simp
  then have w64: "unat (of_nat w :: u64) = w"
    using le [folded w_def] n by (intro unat_of_nat64) linarith
  have lo: "unat lo = w * unat chunk"
    unfolding lo_def using le [folded w_def] n by (subst unat_mult64) (simp_all add: w64)
  show thesis
  proof (cases "lo \<ge> n")
    case True
    then show thesis using lo by (intro stop) (simp_all add: Let_def lo_def w_def word_le_nat_alt)
  next
    case False
    then have less: "w * unat chunk < unat n" using lo by (simp add: word_le_nat_alt)
    then have next_le: "Suc w * unat chunk \<le> unat n" using room wk by (simp add: w_def)
    have u: "unat (lo + chunk) = Suc w * unat chunk"
      using next_le n lo by (subst unat_add64) simp_all
    have "\<not> lo + chunk > n" using next_le u by (simp add: word_less_nat_alt)
    moreover have "w = W - 1 \<longleftrightarrow> k = 0" using k by (auto simp: w_def)
    ultimately have hi: "unat hi = (if k = 0 then unat n else (W - k) * unat chunk)"
      using u wk by (cases "k = 0") (simp_all add: hi_def)
    show thesis
    proof (rule emit)
      show "worker_ranges n chunk W (Suc k) = (lo, hi) # worker_ranges n chunk W k"
        using False by (simp add: Let_def lo_def hi_def w_def)
      show "lo < hi" and "hi \<le> n"
        using less lo hi next_le c wk by (auto simp: word_less_nat_alt word_le_nat_alt)
    qed (use lo hi next_le wk in \<open>simp_all add: w_def\<close>)
  qed
qed

text \<open>The ranges are non-empty, disjoint, in increasing order, and together are the nodes from the
  first one's start on.\<close>

lemma worker_ranges_cover:
  assumes chunk: "0 < chunk"
    and room: "\<forall>w < W. w * unat chunk < unat n \<longrightarrow> Suc w * unat chunk \<le> unat n"
  shows "k \<le> W \<Longrightarrow> (W - k) * unat chunk \<le> unat n \<Longrightarrow>
    (\<forall>(lo, hi) \<in> set (worker_ranges n chunk W k).
       lo < hi \<and> hi \<le> n \<and> (W - k) * unat chunk \<le> unat lo) \<and>
    (0 < k \<longrightarrow> (\<forall>j. (\<exists>(lo, hi) \<in> set (worker_ranges n chunk W k). unat lo \<le> j \<and> j < unat hi) \<longleftrightarrow>
       (W - k) * unat chunk \<le> j \<and> j < unat n)) \<and>
    sorted_wrt (\<lambda>(_, hi) (lo, _). hi \<le> lo) (worker_ranges n chunk W k)"
proof (induction k)
  case 0
  then show ?case by simp
next
  case (Suc k)
  have wk: "Suc (W - Suc k) = W - k" using Suc.prems by simp
  have fits: "(W - Suc k) * unat chunk < unat n \<longrightarrow> (W - k) * unat chunk \<le> unat n"
    using room [rule_format, of "W - Suc k"] Suc.prems unfolding wk by simp
  show ?case
  proof (cases rule: worker_ranges_Suc [OF chunk Suc.prems(1) fits Suc.prems(2), case_names stop emit])
    case stop
    with Suc.prems(2) show ?thesis by (simp only: stop(1)) auto
  next
    case (emit lo hi)
    have k0: "k = 0 \<Longrightarrow> worker_ranges n chunk W k = []" by simp
    have IH: "(\<forall>(lo, hi) \<in> set (worker_ranges n chunk W k).
         lo < hi \<and> hi \<le> n \<and> (W - k) * unat chunk \<le> unat lo)"
      "0 < k \<longrightarrow> (\<forall>j. (\<exists>(lo, hi) \<in> set (worker_ranges n chunk W k). unat lo \<le> j \<and> j < unat hi) \<longleftrightarrow>
         (W - k) * unat chunk \<le> j \<and> j < unat n)"
      "sorted_wrt (\<lambda>(_, hi) (lo, _). hi \<le> lo) (worker_ranges n chunk W k)"
      using Suc emit by simp_all
    define a b where ab: "a = (W - Suc k) * unat chunk" "b = (W - k) * unat chunk"
    have mono: "a \<le> b" unfolding ab by (intro mult_le_mono1) simp
    show ?thesis
      unfolding emit(1) ab [symmetric]
      using emit(2-6) [folded ab] IH [folded ab] k0 mono
      by (cases "k = 0") (auto simp: word_le_nat_alt word_less_nat_alt)
  qed
qed

lemma chunk_room:
  assumes W: "0 < W" "W < 2 ^ 64"
  shows "0 < chunk_size n W" and
    "\<forall>w < W. w * unat (chunk_size n W) < unat n \<longrightarrow> Suc w * unat (chunk_size n W) \<le> unat n"
proof -
  have q: "unat (n div of_nat W) = unat n div W" using W by (simp add: unat_div unat_of_nat64)
  have c: "unat (chunk_size n W) = (if unat n div W = 0 then 1 else unat n div W)"
    by (auto simp: chunk_size_def Let_def q simp flip: unat_eq_zero)
  show "0 < chunk_size n W" by (simp add: word_less_nat_alt c)
  have "Suc w * unat (chunk_size n W) \<le> unat n"
    if "w < W" "w * unat (chunk_size n W) < unat n" for w
  proof (cases "unat n div W = 0")
    case True
    then show ?thesis using that by (simp add: c)
  next
    case False
    have "Suc w * (unat n div W) \<le> W * (unat n div W)" using that by (intro mult_le_mono1) simp
    also have "\<dots> \<le> unat n" by simp
    finally show ?thesis using False by (simp add: c)
  qed
  then show "\<forall>w < W. w * unat (chunk_size n W) < unat n \<longrightarrow> Suc w * unat (chunk_size n W) \<le> unat n"
    by blast
qed

definition partition :: "u64 \<Rightarrow> nat \<Rightarrow> (u64 \<times> u64) list" where
  "partition n W = worker_ranges n (chunk_size n W) W W"

lemma partition_props:
  assumes W: "0 < W" "W < 2 ^ 64"
  shows "\<forall>(lo, hi) \<in> set (partition n W). lo < hi \<and> hi \<le> n"
    and "(\<exists>(lo, hi) \<in> set (partition n W). unat lo \<le> j \<and> j < unat hi) \<longleftrightarrow> j < unat n"
    and "sorted_wrt (\<lambda>(_, hi) (lo, _). hi \<le> lo) (partition n W)"
  using worker_ranges_cover [OF chunk_room(1) [OF W] chunk_room(2) [OF W], of W] W
  by (auto simp: partition_def)


section \<open>The generators' results\<close>

text \<open>The size hypothesis under which the generators run: a resolved size, and a buffer that holds it.\<close>

definition fits :: "spec \<Rightarrow> bytes \<Rightarrow> bool" where
  "fits s dag \<longleftrightarrow> Validate s = None \<and> DAGSizeBytes s \<noteq> 0 \<and> unat (DAGSizeBytes s) \<le> length dag"

definition nodes_of :: "spec \<Rightarrow> nat" where
  "nodes_of s = unat (DAGSizeBytes s) div 64"

lemma fitsD:
  assumes "fits s dag"
  shows "NodeSize s = 64" "NodeCount s = Some (DAGSizeBytes s div 64)"
    "unat (DAGSizeBytes s div 64) = nodes_of s" "64 * nodes_of s \<le> length dag"
    "64 * nodes_of s < 2 ^ 64"
proof -
  show n: "NodeSize s = 64" using assms Validate_common(2) by (simp add: fits_def)
  show "NodeCount s = Some (DAGSizeBytes s div 64)" using assms n by (simp add: NodeCount_def fits_def)
  show "unat (DAGSizeBytes s div 64) = nodes_of s" by (simp add: nodes_of_def unat_div)
  have le: "64 * nodes_of s \<le> unat (DAGSizeBytes s)" by (simp add: nodes_of_def)
  then show "64 * nodes_of s \<le> length dag" using assms by (simp add: fits_def)
  show "64 * nodes_of s < 2 ^ 64" using le unat_less64 [of "DAGSizeBytes s"] by linarith
qed

lemma GenerateDAG_eq:
  assumes f: "fits s dag" and "seed \<noteq> []"
    and W: "0 < effective_workers numCPU workers" "effective_workers numCPU workers < 2 ^ 64"
  shows "GenerateDAG L numCPU s dag seed workers =
    Some (None, painted (\<lambda>j. j < nodes_of s) (research_nodes L seed) dag)"
proof -
  let ?n = "DAGSizeBytes s div 64" and ?W = "effective_workers numCPU workers"
  note part = partition_props [OF W, of ?n]
  have "\<forall>(lo, hi) \<in> set (partition ?n ?W). lo \<le> hi \<and> unat hi \<le> nodes_of s"
    using part(1) fitsD(3) [OF f] by (auto simp: word_le_nat_alt word_less_nat_alt)
  then have "fill_ranges L s seed (partition ?n ?W) (painted (\<lambda>_. False) (research_nodes L seed) dag) =
      Some (painted (\<lambda>j. j < nodes_of s) (research_nodes L seed) dag)"
    using fill_ranges_painted [OF fitsD(1) [OF f]
        fitsD(4) [OF f] fitsD(5) [OF f],
        of "partition ?n ?W" L seed "\<lambda>_. False"] part(2) fitsD(3) [OF f] by simp
  then show ?thesis
    using f assms fitsD(2) [OF f]
    by (simp add: GenerateDAG_def fits_def Let_def partition_def not_less)
qed

abbreviation strict_nodes :: "hashlib \<Rightarrow> bytes \<Rightarrow> nat \<Rightarrow> bytes" where
  "strict_nodes L seed i \<equiv> strict_bytes L seed (of_nat i) 64"

lemma tensor_loop_painted:
  "tensor_loop L 64 sz seed (64 * t) (of_nat t) (painted P (strict_nodes L seed) dag) =
    painted (\<lambda>j. P j \<or> t \<le> j \<and> 64 * j + 64 \<le> length dag \<and> 64 * j < sz) (strict_nodes L seed) dag"
proof (induction "length dag - 64 * t" arbitrary: t P rule: less_induct)
  case less
  let ?nd = "strict_nodes L seed"
  show ?case
  proof (cases "64 * t + 64 \<le> length dag \<and> 64 * t < sz")
    case True
    then have "blit (64 * t) (?nd t) (painted P ?nd dag) = painted (\<lambda>j. P j \<or> j = t) ?nd dag"
      using blit_painted [of t dag ?nd P] by simp
    then have "tensor_loop L 64 sz seed (64 * t) (of_nat t) (painted P ?nd dag) =
        tensor_loop L 64 sz seed (64 * Suc t) (of_nat (Suc t)) (painted (\<lambda>j. P j \<or> j = t) ?nd dag)"
      using True by (subst tensor_loop.simps) (simp add: add.commute)
    also have "\<dots> = painted (\<lambda>j. (P j \<or> j = t) \<or> Suc t \<le> j \<and> 64 * j + 64 \<le> length dag \<and> 64 * j < sz)
        ?nd dag"
      using True by (intro less) auto
    also have "\<dots> = painted (\<lambda>j. P j \<or> t \<le> j \<and> 64 * j + 64 \<le> length dag \<and> 64 * j < sz) ?nd dag"
      using True by (intro painted_cong) auto
    finally show ?thesis .
  next
    case False
    then have "tensor_loop L 64 sz seed (64 * t) (of_nat t) (painted P ?nd dag) = painted P ?nd dag"
      by (subst tensor_loop.simps) auto
    also have "\<dots> = painted (\<lambda>j. P j \<or> t \<le> j \<and> 64 * j + 64 \<le> length dag \<and> 64 * j < sz) ?nd dag"
      using False by (intro painted_cong) auto
    finally show ?thesis .
  qed
qed

lemma GenerateTensorDAG_eq:
  assumes f: "fits s dag" and len: "length dag = unat (DAGSizeBytes s)" and m: "Mode s = ModeStrict"
  shows "GenerateTensorDAG L s dag seed =
    (None, painted (\<lambda>j. j < nodes_of s) (strict_nodes L seed) dag)"
proof -
  have "64 * j + 64 \<le> length dag \<longleftrightarrow> j < nodes_of s" for j
    by (simp add: nodes_of_def len less_eq_div_iff_mult_less_eq Suc_le_eq [symmetric] algebra_simps)
  moreover have "64 * j + 64 \<le> length dag \<Longrightarrow> 64 * j < unat (DAGSizeBytes s)" for j
    using len by simp
  ultimately have "(64 * j + 64 \<le> length dag \<and> 64 * j < unat (DAGSizeBytes s)) = (j < nodes_of s)" for j
    by blast
  then show ?thesis
    using tensor_loop_painted [of L "unat (DAGSizeBytes s)" seed 0 "\<lambda>_. False" dag] f m fitsD(1) [OF f]
    by (simp add: GenerateTensorDAG_def fits_def)
qed

text \<open>Node by node, a populated DAG holds what the algorithm prescribes.\<close>

definition algorithm_nodes :: "hashlib \<Rightarrow> spec \<Rightarrow> bytes \<Rightarrow> nat \<Rightarrow> bytes" where
  "algorithm_nodes L s seed i = algorithm_node L s seed (of_nat i)"

lemma length_algorithm_node [simp, len_simps]: "length (algorithm_node L s seed i) = 64"
  by (simp add: algorithm_node_def)

text \<open>A DAG that has a resolved profile of at least one node, and a large enough allocation.\<close>

definition dag_ok :: "dag \<Rightarrow> bool" where
  "dag_ok d \<longleftrightarrow> dag_alloc d \<noteq> None \<and> fits (dag_spec d) (backing d) \<and> nodes_of (dag_spec d) \<noteq> 0"

definition populated :: "hashlib \<Rightarrow> bytes \<Rightarrow> dag \<Rightarrow> bool" where
  "populated L seed d \<longleftrightarrow> dag_ok d \<and>
     (\<forall>i < nodes_of (dag_spec d). DAG_Node d (of_nat i) = Some (algorithm_nodes L (dag_spec d) seed i))"

lemma length_DAG_Bytes: "dag_ok d \<Longrightarrow> length (DAG_Bytes d) = unat (DAGSizeBytes (dag_spec d))"
  by (auto simp: DAG_Bytes_def Let_def dag_ok_def fits_def)

lemma DAG_Bytes_prefix: "dag_ok d \<Longrightarrow> DAG_Bytes d = take (unat (DAGSizeBytes (dag_spec d))) (backing d)"
  by (auto simp: DAG_Bytes_def Let_def dag_ok_def fits_def)

lemma backing_set_bytes:
  "dag_alloc d \<noteq> None \<Longrightarrow> backing (set_bytes d b) = b @ drop (length b) (backing d)"
  by (auto simp: backing_def set_bytes_def)

lemma set_bytes_fields [simp]:
  "dag_spec (set_bytes d b) = dag_spec d" "dag_ownership (set_bytes d b) = dag_ownership d"
  "(dag_alloc (set_bytes d b) = None) = (dag_alloc d = None)"
  by (auto simp: set_bytes_def split: option.splits)

lemma PopulateDAG_eq:
  assumes ok: "dag_ok d" and seed: "seed \<noteq> []"
    and W: "0 < effective_workers numCPU workers" "effective_workers numCPU workers < 2 ^ 64"
  shows "PopulateDAG L numCPU d seed workers =
    Some (None, set_bytes d (painted (\<lambda>j. j < nodes_of (dag_spec d))
      (algorithm_nodes L (dag_spec d) seed) (DAG_Bytes d)))"
proof -
  have len: "length (DAG_Bytes d) = unat (DAGSizeBytes (dag_spec d))" by (rule length_DAG_Bytes [OF ok])
  then have f: "fits (dag_spec d) (DAG_Bytes d)" using ok by (simp add: dag_ok_def fits_def)
  show ?thesis
  proof (cases "Mode (dag_spec d) = ModeStrict")
    case True
    then have "algorithm_nodes L (dag_spec d) seed = strict_nodes L seed"
      by (rule_tac ext) (simp add: algorithm_nodes_def algorithm_node_def)
    then show ?thesis using GenerateTensorDAG_eq [OF f len True] True by (simp add: PopulateDAG_def)
  next
    case False
    then have "algorithm_nodes L (dag_spec d) seed = research_nodes L seed"
      by (rule_tac ext) (simp add: algorithm_nodes_def algorithm_node_def)
    then show ?thesis using GenerateDAG_eq [OF f seed W] False by (simp add: PopulateDAG_def)
  qed
qed

lemma PopulateDAG_populates:
  assumes ok: "dag_ok d" and "seed \<noteq> []"
    and W: "0 < effective_workers numCPU workers" "effective_workers numCPU workers < 2 ^ 64"
  shows "\<exists>d'. PopulateDAG L numCPU d seed workers = Some (None, d') \<and> populated L seed d' \<and>
    dag_spec d' = dag_spec d"
proof -
  let ?nd = "algorithm_nodes L (dag_spec d) seed"
  let ?b = "painted (\<lambda>j. j < nodes_of (dag_spec d)) ?nd (DAG_Bytes d)"
  have f: "fits (dag_spec d) (backing d)" using ok by (simp add: dag_ok_def)
  have len: "length (DAG_Bytes d) = unat (DAGSizeBytes (dag_spec d))" by (rule length_DAG_Bytes [OF ok])
  have "DAG_Node (set_bytes d ?b) (of_nat i) = Some (?nd i)" if i: "i < nodes_of (dag_spec d)" for i
  proof -
    have in_dag: "64 * i + 64 \<le> 64 * nodes_of (dag_spec d)" using i by simp
    then have i64: "64 * i + 64 < 2 ^ 64" using fitsD(5) [OF f] by linarith
    have "unat (of_nat i * 64 :: u64) = 64 * i"
      using i64 by (subst unat_mult64) (simp_all add: unat_of_nat64)
    moreover from this have "unat (of_nat i * 64 + 64 :: u64) = 64 * i + 64"
      using i64 by (subst unat_add64) simp_all
    moreover have "64 * nodes_of (dag_spec d) \<le> length (DAG_Bytes d)" by (simp add: len nodes_of_def)
    moreover have "length (?nd i) = 64" by (simp add: algorithm_nodes_def)
    ultimately show ?thesis
      using i in_dag ok slice_painted [of "\<lambda>j. j < nodes_of (dag_spec d)" i "DAG_Bytes d" ?nd]
      by (simp add: DAG_Node_def Let_def fitsD(1) [OF f] backing_set_bytes dag_ok_def)
  qed
  moreover have "dag_ok (set_bytes d ?b)"
    using ok len by (auto simp: dag_ok_def fits_def backing_set_bytes)
  ultimately show ?thesis using PopulateDAG_eq [OF assms] by (simp add: populated_def)
qed

end
