(* ===== verification/DagParallel.thy ===== *)
theory DagParallel
  imports DagGen
begin

text \<open>
  The goroutines of \<open>GenerateDAG\<close> (\<open>colossusx/dag.go\<close>) as an interleaving system.  A configuration is
  the position and the end of every goroutine's range, and the shared buffer; a step lets one goroutine
  that has nodes left compute and copy its next node.  The wait group is passed when no goroutine has a
  node left.
\<close>


section \<open>Steps\<close>

type_synonym gen_config = "(u64 \<times> u64) list \<times> bytes"

inductive gen_step :: "hashlib \<Rightarrow> spec \<Rightarrow> bytes \<Rightarrow> gen_config \<Rightarrow> gen_config \<Rightarrow> bool"
  for L :: hashlib and s :: spec and seed :: bytes where
  write_next:
    "k < length ws \<Longrightarrow> ws ! k = (i, to) \<Longrightarrow> i < to \<Longrightarrow>
     write_node s dag i (research_node L seed i) = Some dag' \<Longrightarrow>
     gen_step L s seed (ws, dag) (ws[k := (i + 1, to)], dag')"

inductive_cases gen_stepE: "gen_step L s seed (ws, dag) cfg"

definition gen_start :: "spec \<Rightarrow> nat \<Rightarrow> bytes \<Rightarrow> gen_config" where
  "gen_start s W dag = (partition (DAGSizeBytes s div 64) W, dag)"

definition gen_done :: "gen_config \<Rightarrow> bool" where
  "gen_done cfg \<longleftrightarrow> list_all (\<lambda>(i, to). \<not> i < to) (fst cfg)"

abbreviation gen_steps :: "hashlib \<Rightarrow> spec \<Rightarrow> bytes \<Rightarrow> gen_config \<Rightarrow> gen_config \<Rightarrow> bool" where
  "gen_steps L s seed \<equiv> (gen_step L s seed)\<^sup>*\<^sup>*"


section \<open>The invariant\<close>

text \<open>Every goroutine is inside its own range, and the nodes written so far are those behind the
  goroutines' positions.\<close>

definition gen_inv :: "hashlib \<Rightarrow> bytes \<Rightarrow> (u64 \<times> u64) list \<Rightarrow> bytes \<Rightarrow> gen_config \<Rightarrow> bool" where
  "gen_inv L seed rs dag0 cfg \<longleftrightarrow>
     (let (ws, dag) = cfg in
      length ws = length rs \<and>
      (\<forall>k < length rs. snd (ws ! k) = snd (rs ! k) \<and> fst (rs ! k) \<le> fst (ws ! k)
         \<and> fst (ws ! k) \<le> snd (rs ! k)) \<and>
      dag = painted (\<lambda>j. \<exists>k < length rs. unat (fst (rs ! k)) \<le> j \<and> j < unat (fst (ws ! k)))
              (research_nodes L seed) dag0)"

lemma gen_inv_start:
  "\<forall>(lo, hi) \<in> set rs. lo < hi \<Longrightarrow> gen_inv L seed rs dag (rs, dag)"
proof -
  assume r: "\<forall>(lo, hi) \<in> set rs. lo < hi"
  have "fst (rs ! k) \<le> snd (rs ! k)" if "k < length rs" for k
    using r nth_mem [OF that] by (metis (no_types, lifting) case_prodE fst_conv order_less_imp_le snd_conv)
  moreover have "(\<lambda>j. \<exists>k < length rs. unat (fst (rs ! k)) \<le> j \<and> j < unat (fst (rs ! k))) = (\<lambda>_. False)"
    by auto
  ultimately show ?thesis by (simp add: gen_inv_def)
qed

lemma gen_step_inv:
  assumes step: "gen_step L s seed cfg cfg'" and inv: "gen_inv L seed rs dag0 cfg"
    and s: "NodeSize s = 64" and N: "64 * N \<le> length dag0" "64 * N < 2 ^ 64"
    and rs: "\<forall>(lo, hi) \<in> set rs. unat hi \<le> N"
  shows "gen_inv L seed rs dag0 cfg'"
  using step
proof cases
  case (write_next k ws i to dag dag')
  define P where "P = (\<lambda>(ws :: (u64 \<times> u64) list) j.
    \<exists>k < length rs. unat (fst (rs ! k)) \<le> j \<and> j < unat (fst (ws ! k)))"
  have i: "length ws = length rs" "\<forall>k < length rs. snd (ws ! k) = snd (rs ! k) \<and>
      fst (rs ! k) \<le> fst (ws ! k) \<and> fst (ws ! k) \<le> snd (rs ! k)"
    "dag = painted (P ws) (research_nodes L seed) dag0"
    using inv write_next(1) by (simp_all add: gen_inv_def P_def)
  have k: "k < length rs" using write_next i by simp
  have to: "snd (rs ! k) = to" and lo: "fst (rs ! k) \<le> i" using i(2) k write_next by auto
  have "rs ! k \<in> set rs" using k by simp
  then have "unat to \<le> N" using rs to by (auto simp: case_prod_unfold)
  then have iN: "64 * unat i + 64 \<le> 64 * N" using write_next by (simp add: word_less_nat_alt)
  have i1: "unat (i + 1) = unat i + 1" using iN N(2) by (subst unat_add64) simp_all
  have "dag' = painted (\<lambda>j. P ws j \<or> j = unat i) (research_nodes L seed) dag0"
    using write_next(6) iN N write_node_painted [OF s, of i dag0 "research_nodes L seed" "P ws"] i(3)
    by simp
  also have "\<dots> = painted (P (ws[k := (i + 1, to)])) (research_nodes L seed) dag0"
  proof (rule painted_cong)
    fix j
    have "P (ws[k := (i + 1, to)]) j \<longleftrightarrow>
        (\<exists>m < length rs. m \<noteq> k \<and> unat (fst (rs ! m)) \<le> j \<and> j < unat (fst (ws ! m))) \<or>
        (unat (fst (rs ! k)) \<le> j \<and> j < unat i + 1)"
      using k i(1) i1 by (auto simp: P_def nth_list_update)
    moreover have "P ws j \<longleftrightarrow>
        (\<exists>m < length rs. m \<noteq> k \<and> unat (fst (rs ! m)) \<le> j \<and> j < unat (fst (ws ! m))) \<or>
        (unat (fst (rs ! k)) \<le> j \<and> j < unat i)"
      using k write_next by (auto simp: P_def)
    ultimately show "(P ws j \<or> j = unat i) = P (ws[k := (i + 1, to)]) j"
      using lo by (auto simp: word_le_nat_alt)
  qed
  finally have dag': "dag' = painted (P (ws[k := (i + 1, to)])) (research_nodes L seed) dag0" .
  have "i + 1 \<le> to" and "fst (rs ! k) \<le> i + 1"
    using write_next lo i1 by (simp_all add: word_le_nat_alt word_less_nat_alt)
  then have "\<forall>m < length rs. snd (ws[k := (i + 1, to)] ! m) = snd (rs ! m) \<and>
      fst (rs ! m) \<le> fst (ws[k := (i + 1, to)] ! m) \<and> fst (ws[k := (i + 1, to)] ! m) \<le> snd (rs ! m)"
    using i(1,2) to k by (auto simp: nth_list_update)
  then show ?thesis using dag' i(1) by (simp add: gen_inv_def write_next(2) P_def)
qed

lemma gen_steps_inv:
  assumes steps: "gen_steps L s seed (rs, dag0) cfg"
    and s: "NodeSize s = 64" and N: "64 * N \<le> length dag0" "64 * N < 2 ^ 64"
    and rs: "\<forall>(lo, hi) \<in> set rs. lo < hi \<and> unat hi \<le> N"
  shows "gen_inv L seed rs dag0 cfg"
  using steps
proof (induction rule: rtranclp_induct)
  case base
  show ?case using rs by (intro gen_inv_start) auto
next
  case (step y z)
  have "\<forall>(lo, hi) \<in> set rs. unat hi \<le> N" using rs by auto
  then show ?case by (rule gen_step_inv [OF step(2) step(3) s N])
qed

lemma gen_inv_done:
  assumes inv: "gen_inv L seed rs dag0 (ws, dag)" and "gen_done (ws, dag)"
  shows "dag = painted (\<lambda>j. \<exists>(lo, hi) \<in> set rs. unat lo \<le> j \<and> j < unat hi) (research_nodes L seed) dag0"
proof -
  have i: "length ws = length rs" "\<forall>k < length rs. snd (ws ! k) = snd (rs ! k) \<and>
      fst (rs ! k) \<le> fst (ws ! k) \<and> fst (ws ! k) \<le> snd (rs ! k)"
    "dag = painted (\<lambda>j. \<exists>k < length rs. unat (fst (rs ! k)) \<le> j \<and> j < unat (fst (ws ! k)))
       (research_nodes L seed) dag0"
    using inv by (simp_all add: gen_inv_def)
  have fin: "fst (ws ! k) = snd (rs ! k)" if k: "k < length rs" for k
  proof -
    have "\<not> fst (ws ! k) < snd (ws ! k)"
      using assms(2) k i(1) by (auto simp: gen_done_def list_all_length case_prod_unfold)
    then show ?thesis using i(2) k by (metis order_le_less)
  qed
  have "(\<exists>k < length rs. unat (fst (rs ! k)) \<le> j \<and> j < unat (fst (ws ! k))) \<longleftrightarrow>
      (\<exists>k < length rs. unat (fst (rs ! k)) \<le> j \<and> j < unat (snd (rs ! k)))" for j
    using fin by auto
  also have "(\<exists>k < length rs. unat (fst (rs ! k)) \<le> j \<and> j < unat (snd (rs ! k))) \<longleftrightarrow>
      (\<exists>(lo, hi) \<in> set rs. unat lo \<le> j \<and> j < unat hi)" for j
    by (metis (no_types, lifting) case_prod_unfold in_set_conv_nth)
  finally show ?thesis unfolding i(3) by (intro painted_cong)
qed


section \<open>Progress and termination\<close>

definition gen_left :: "gen_config \<Rightarrow> nat" where
  "gen_left cfg = sum_list (map (\<lambda>(i, to). unat to - unat i) (fst cfg))"

lemma gen_step_left:
  assumes "gen_step L s seed cfg cfg'" shows "gen_left cfg = Suc (gen_left cfg')"
  using assms
proof cases
  case (write_next k ws i to dag dag')
  have "unat i < unat to" using write_next by (simp add: word_less_nat_alt)
  moreover from this have "unat (i + 1) = unat i + 1"
    using unat_less64 [of to] by (subst unat_add64) simp_all
  ultimately have less: "unat to - unat i = Suc (unat to - unat (i + 1))" by simp
  have split: "ws = take k ws @ (i, to) # drop (Suc k) ws"
    using write_next id_take_nth_drop by metis
  have "map (\<lambda>(i, to). unat to - unat i) ws = map (\<lambda>(i, to). unat to - unat i) (take k ws) @
      (unat to - unat i) # map (\<lambda>(i, to). unat to - unat i) (drop (Suc k) ws)"
    using arg_cong [OF split, of "map (\<lambda>(i, to). unat to - unat i)"] by simp
  then have "gen_left cfg = sum_list (map (\<lambda>(i, to). unat to - unat i) (take k ws)) + (unat to - unat i)
      + sum_list (map (\<lambda>(i, to). unat to - unat i) (drop (Suc k) ws))"
    by (simp add: gen_left_def write_next(1))
  moreover have "gen_left cfg' = sum_list (map (\<lambda>(i, to). unat to - unat i) (take k ws))
      + (unat to - unat (i + 1)) + sum_list (map (\<lambda>(i, to). unat to - unat i) (drop (Suc k) ws))"
    unfolding gen_left_def write_next(2) using write_next(3) by (simp add: upd_conv_take_nth_drop)
  ultimately show ?thesis using less by simp
qed

lemma gen_progress:
  assumes inv: "gen_inv L seed rs dag0 (ws, dag)" and nd: "\<not> gen_done (ws, dag)"
    and s: "NodeSize s = 64" and N: "64 * N \<le> length dag0" "64 * N < 2 ^ 64"
    and rs: "\<forall>(lo, hi) \<in> set rs. unat hi \<le> N"
  shows "\<exists>cfg'. gen_step L s seed (ws, dag) cfg'"
proof -
  obtain k i to where k: "k < length ws" "ws ! k = (i, to)" "i < to"
    using nd by (auto simp: gen_done_def list_all_length)
  have "length ws = length rs" "snd (ws ! k) = snd (rs ! k)"
    using inv k by (auto simp: gen_inv_def)
  then have "unat to \<le> N" using rs nth_mem [of k rs] k by (auto simp: case_prod_unfold)
  then have "64 * unat i + 64 \<le> 64 * N" using k by (simp add: word_less_nat_alt)
  moreover obtain P where "dag = painted P (research_nodes L seed) dag0"
    using inv by (auto simp: gen_inv_def)
  ultimately have "\<exists>dag'. write_node s dag i (research_node L seed i) = Some dag'"
    using write_node_painted [OF s, of i dag0 "research_nodes L seed"] N by simp
  then show ?thesis using k by (blast intro: write_next)
qed


lemma gen_run_exists:
  assumes s: "NodeSize s = 64" and N: "64 * N \<le> length dag0" "64 * N < 2 ^ 64"
    and rs: "\<forall>(lo, hi) \<in> set rs. unat hi \<le> N"
  shows "gen_inv L seed rs dag0 cfg \<Longrightarrow> \<exists>ws dag. gen_steps L s seed cfg (ws, dag) \<and> gen_done (ws, dag)"
proof -
  have step: "\<forall>c c'. gen_inv L seed rs dag0 c \<and> gen_step L s seed c c' \<longrightarrow>
      gen_inv L seed rs dag0 c' \<and> gen_left c' < gen_left c"
    using gen_step_inv [OF _ _ s N rs] gen_step_left by (metis lessI)
  have progress: "\<forall>c. gen_inv L seed rs dag0 c \<and> \<not> gen_done c \<longrightarrow> (\<exists>c'. gen_step L s seed c c')"
    using gen_progress [OF _ _ s N rs] by (metis surj_pair)
  assume "gen_inv L seed rs dag0 cfg"
  from measure_run [where m = gen_left, OF step progress this] show ?thesis by (metis surj_pair)
qed


section \<open>Properties\<close>

lemma partition_bounds:
  assumes "fits s dag" and "0 < W" "W < 2 ^ 64"
  shows "\<forall>(lo, hi) \<in> set (partition (DAGSizeBytes s div 64) W). lo < hi \<and> unat hi \<le> nodes_of s"
  using partition_props(1) [OF assms(2,3), of "DAGSizeBytes s div 64"] fitsD(3) [OF assms(1)]
  by (auto simp: word_le_nat_alt)

text \<open>C34: Parallel DAG generation is deterministic: whatever the order in which the goroutines write
  their nodes and however many there are, the buffer at the end of the run is the one the sequential
  reading of the code computes, with any other positive number of workers.\<close>

theorem parallel_generation_deterministic:
  assumes f: "fits s dag" and seed: "seed \<noteq> []" and W: "0 < W" "W < 2 ^ 63"
    and run: "gen_steps L s seed (gen_start s W dag) (ws, dag')" and fin: "gen_done (ws, dag')"
    and W': "0 < workers'" "workers' < 2 ^ 63"
  shows "GenerateDAG L numCPU s dag seed workers' = Some (None, dag')"
proof -
  let ?rs = "partition (DAGSizeBytes s div 64) W"
  have W64: "W < 2 ^ 64" using W by simp
  have inv: "gen_inv L seed ?rs dag (ws, dag')"
    by (rule gen_steps_inv [OF run [unfolded gen_start_def] fitsD(1) [OF f] fitsD(4) [OF f]
        fitsD(5) [OF f] partition_bounds [OF f W(1) W64]])
  have "dag' = painted (\<lambda>j. j < nodes_of s) (research_nodes L seed) dag"
    using gen_inv_done [OF inv fin] by (simp only: partition_props(2) [OF W(1) W64] fitsD(3) [OF f])
  then show ?thesis
    using GenerateDAG_eq [OF f seed, of numCPU workers'] W' by (simp add: effective_workers_def)
qed

text \<open>A one-node DAG, filled by two goroutines.\<close>

definition tiny_resolved :: spec where
  "tiny_resolved = tiny_spec\<lparr>DAGSizeBytes := 64\<rparr>"

lemma tiny_resolved_fits: "fits tiny_resolved (replicate 64 0)"
  by (simp add: fits_def tiny_resolved_def Validate_def Let_def initialDAGSize_def
      growthDAGSizePerEpoch_def ModeResearch_def ModeStrict_def StrictNodeSize_def)

theorem parallel_generation_deterministic_witness:
  "\<exists>ws dag'. gen_steps sample_lib tiny_resolved [1] (gen_start tiny_resolved 2 (replicate 64 0)) (ws, dag') \<and>
     gen_done (ws, dag') \<and> GenerateDAG sample_lib 4 tiny_resolved (replicate 64 0) [1] 3 = Some (None, dag')"
proof -
  note f = tiny_resolved_fits
  let ?rs = "partition (DAGSizeBytes tiny_resolved div 64) 2"
  have b: "\<forall>(lo, hi) \<in> set ?rs. lo < hi \<and> unat hi \<le> nodes_of tiny_resolved"
    by (rule partition_bounds [OF f]) simp_all
  then have "\<forall>(lo, hi) \<in> set ?rs. lo < hi" and b': "\<forall>(lo, hi) \<in> set ?rs. unat hi \<le> nodes_of tiny_resolved"
    by blast+
  then obtain ws dag' where
    run: "gen_steps sample_lib tiny_resolved [1] (gen_start tiny_resolved 2 (replicate 64 0)) (ws, dag')"
      "gen_done (ws, dag')"
    using gen_run_exists [OF fitsD(1) [OF f] fitsD(4) [OF f] fitsD(5) [OF f] b' gen_inv_start]
    unfolding gen_start_def by blast
  with parallel_generation_deterministic [OF f _ _ _ run, of 3 4] show ?thesis by auto
qed

text \<open>C35: Parallel DAG generation cannot get stuck or run for ever: in every configuration a run can
  reach, either all goroutines are done or one of them can write its next node without a slice
  panicking, and every step lowers the number of nodes left by one.\<close>

theorem parallel_generation_progress:
  assumes f: "fits s dag" and W: "0 < W" "W < 2 ^ 63"
    and run: "gen_steps L s seed (gen_start s W dag) cfg"
  shows "(gen_done cfg \<or> (\<exists>cfg'. gen_step L s seed cfg cfg')) \<and>
    (\<forall>cfg'. gen_step L s seed cfg cfg' \<longrightarrow> gen_left cfg' < gen_left cfg)"
proof -
  let ?rs = "partition (DAGSizeBytes s div 64) W"
  have W64: "W < 2 ^ 64" using W by simp
  obtain ws d where cfg: "cfg = (ws, d)" by force
  note b = partition_bounds [OF f W(1) W64]
  have inv: "gen_inv L seed ?rs dag (ws, d)"
    by (rule gen_steps_inv [OF run [unfolded gen_start_def cfg] fitsD(1) [OF f] fitsD(4) [OF f]
        fitsD(5) [OF f] b])
  have "gen_done (ws, d) \<or> (\<exists>cfg'. gen_step L s seed (ws, d) cfg')"
    using gen_progress [OF inv _ fitsD(1) [OF f] fitsD(4) [OF f] fitsD(5) [OF f]] b by blast
  moreover have "\<forall>cfg'. gen_step L s seed cfg cfg' \<longrightarrow> gen_left cfg' < gen_left cfg"
    using gen_step_left by (metis lessI)
  ultimately show ?thesis using cfg by simp
qed

theorem parallel_generation_progress_witness:
  "\<not> gen_done (gen_start tiny_resolved 2 (replicate 64 0)) \<and>
   (\<exists>cfg'. gen_step sample_lib tiny_resolved [1] (gen_start tiny_resolved 2 (replicate 64 0)) cfg')"
proof -
  have "\<not> gen_done (gen_start tiny_resolved 2 (replicate 64 0))"
  proof -
    have "partition (DAGSizeBytes tiny_resolved div 64) 2 = [(0, 1)]"
      unfolding partition_def tiny_resolved_def by code_simp
    then show ?thesis by (simp add: gen_start_def gen_done_def)
  qed
  then show ?thesis
    using parallel_generation_progress [OF tiny_resolved_fits _ _ rtranclp.rtrancl_refl, of 2 sample_lib "[1]"]
    by simp
qed

text \<open>No two goroutines write the same node: the ranges handed out are non-empty, pairwise disjoint
  and in increasing order, and every node of the DAG is in one of them.\<close>

theorem partition_exact:
  assumes W: "0 < W" "W < 2 ^ 63"
  shows "(\<forall>(lo, hi) \<in> set (worker_ranges n (chunk_size n W) W W). lo < hi \<and> hi \<le> n) \<and>
    sorted_wrt (\<lambda>(_, hi) (lo, _). hi \<le> lo) (worker_ranges n (chunk_size n W) W W) \<and>
    (\<forall>j. (\<exists>(lo, hi) \<in> set (worker_ranges n (chunk_size n W) W W). unat lo \<le> j \<and> j < unat hi) \<longleftrightarrow>
       j < unat n)"
  using partition_props [of W n] W by (simp add: partition_def)

theorem partition_exact_witness:
  "worker_ranges 7 (chunk_size 7 2) 2 2 = [(0, 3), (3, 7)] \<and>
   (\<exists>(lo, hi) \<in> set (worker_ranges 7 (chunk_size 7 2) 2 2). unat lo \<le> 5 \<and> 5 < unat hi)"
proof -
  have "worker_ranges 7 (chunk_size 7 2) 2 2 = [(0, 3), (3, 7)]" by code_simp
  with partition_exact [of 2 7] show ?thesis by simp
qed

end
