(* ===== verification/NonceTarget.thy ===== *)
theory NonceTarget
  imports CX_Prelude
begin

text \<open>
  The 64-bit nonce (\<open>colossusx/nonce.go\<close>) and the 256-bit target (\<open>colossusx/target.go\<close>).  The Go
  interface \<open>Nonce\<close> has one implementation in the program, \<open>Uint64Nonce\<close>, so a nonce is a 64-bit
  word, and a nil \<open>Nonce\<close> is the value \<open>None\<close> of its option.
\<close>


section \<open>Nonces\<close>

type_synonym nonce = u64

definition AppendTo :: "nonce \<Rightarrow> bytes \<Rightarrow> bytes" where
  "AppendTo n dst = dst @ put_le 8 n"

text \<open>\<open>None\<close> is the result \<open>(nil, false)\<close>.\<close>

definition AddUint64 :: "nonce \<Rightarrow> u64 \<Rightarrow> nonce option" where
  "AddUint64 n delta = (if NOT 0 - n < delta then None else Some (n + delta))"

lemma AddUint64_Some_iff:
  "AddUint64 n d = Some m \<longleftrightarrow> unat m = unat n + unat d"
proof -
  have room: "unat (NOT 0 - n) = 2 ^ 64 - 1 - unat n"
    by (simp add: unat_sub unsigned_minus_1_eq_mask mask_eq_exp_minus_1)
  have n: "unat n < 2 ^ 64" and m: "unat m < 2 ^ 64"
    using unsigned_less [of n, where ?'a = nat] unsigned_less [of m, where ?'a = nat] by simp_all
  show ?thesis
  proof (cases "NOT 0 - n < d")
    case True
    then have "2 ^ 64 - 1 - unat n < unat d" 
      by (simp add: word_less_nat_alt room [simplified])
    then show ?thesis using True n m by (simp add: AddUint64_def)
  next
    case False
    then have "unat n + unat d < 2 ^ 64" 
      using n by (simp add: word_less_nat_alt room [simplified])
    then have "unat (n + d) = unat n + unat d" by (simp add: unat_word_ariths)
    then show ?thesis using False by (auto simp: AddUint64_def word_unat_eq_iff)
  qed
qed

lemma AddUint64_None_iff: "AddUint64 n d = None \<longleftrightarrow> 2 ^ 64 \<le> unat n + unat d"
proof
  assume none: "AddUint64 n d = None"
  show "2 ^ 64 \<le> unat n + unat d"
  proof (rule ccontr)
    assume "\<not> 2 ^ 64 \<le> unat n + unat d"
    then have "AddUint64 n d = Some (n + d)" by (simp add: AddUint64_Some_iff unat_word_ariths)
    with none show False by simp
  qed
next
  assume "2 ^ 64 \<le> unat n + unat d"
  then have "AddUint64 n d \<noteq> Some m" for m
    using unsigned_less [of m, where ?'a = nat] by (simp add: AddUint64_Some_iff)
  then show "AddUint64 n d = None" by auto
qed

lemma AddUint64_0 [simp]: "AddUint64 n 0 = Some n"
  by (simp add: AddUint64_Some_iff)


section \<open>Targets\<close>

type_synonym target = bytes

datatype target_error = TargetHex hex_error | TargetLength nat

definition ParseTargetHex :: "string \<Rightarrow> target_error + target" where
  "ParseTargetHex s =
     (case DecodeString s of
        Inl e \<Rightarrow> Inl (TargetHex e)
      | Inr b \<Rightarrow> if length b \<noteq> 32 then Inl (TargetLength (length b)) else Inr (fit 32 b))"

definition target_String :: "target \<Rightarrow> string" where
  "target_String t = EncodeToString t"

fun LessOrEqualBE :: "bytes \<Rightarrow> target \<Rightarrow> bool" where
  "LessOrEqualBE (a # as) (b # bs) =
     (if a < b then True else if b < a then False else LessOrEqualBE as bs)"
| "LessOrEqualBE _ _ = True"

lemma LessOrEqualBE_iff:
  "length a = length b \<Longrightarrow> LessOrEqualBE a b \<longleftrightarrow> be_val a \<le> be_val b"
proof (induction a b rule: list_induct2)
  case Nil
  then show ?case by simp
next
  case (Cons x xs y ys)
  let ?B = "256 ^ length xs :: nat"
  have xs: "be_val xs < ?B" and ys: "be_val ys < ?B"
    using be_val_less [of xs] be_val_less [of ys] Cons.hyps by simp_all
  have step: "unat u < unat v \<Longrightarrow> a < ?B \<Longrightarrow> unat u * ?B + a < unat v * ?B + b" for u v :: byte and a b
  proof -
    assume uv: "unat u < unat v" and a: "a < ?B"
    from uv have "(unat u + 1) * ?B \<le> unat v * ?B" by (intro mult_le_mono1) simp
    with a show ?thesis by simp
  qed
  consider "x < y" | "y < x" | "x = y" by fastforce
  then show ?case
  proof cases
    case 1
    with step [OF _ xs, of x y] Cons.hyps show ?thesis by (simp add: word_less_nat_alt less_imp_le)
  next
    case 2
    with step [OF _ ys, of y x] Cons.hyps show ?thesis by (auto simp: word_less_nat_alt not_le)
  next
    case 3
    with Cons show ?thesis by simp
  qed
qed

lemma LessOrEqualBE_zero: "LessOrEqualBE (replicate n 0) t"
proof (induction n arbitrary: t)
  case 0
  show ?case by simp
next
  case (Suc n)
  then show ?case by (cases t) auto
qed


section \<open>Properties\<close>

text \<open>Stepping a nonce is exact or refused: \<open>AddUint64\<close> returns the nonce whose number is the
  exact sum, and refuses exactly when that sum does not fit in 64 bits, so a search never wraps to a
  nonce it has already tried.\<close>

theorem nonce_step_exact:
  "(AddUint64 n d = Some m \<longleftrightarrow> unat m = unat n + unat d) \<and>
   (AddUint64 n d = None \<longleftrightarrow> 2 ^ 64 \<le> unat n + unat d)"
  by (simp add: AddUint64_Some_iff AddUint64_None_iff)

text \<open>The proof-of-work test is the comparison of the two 256-bit numbers: the byte loop with its
  two early returns accepts a digest exactly when, read big-endian, it is at most the target.\<close>

theorem pow_test_is_numeric:
  assumes "length a = 32" and "length t = 32"
  shows "LessOrEqualBE a t \<longleftrightarrow> be_val a \<le> be_val t"
  using assms by (simp add: LessOrEqualBE_iff)

theorem pow_test_is_numeric_witness:
  "LessOrEqualBE (0 # replicate 31 255) (1 # replicate 31 0) \<and>
   be_val (0 # replicate 31 255) \<le> be_val (1 # replicate 31 0)"
  using pow_test_is_numeric [of "0 # replicate 31 255" "1 # replicate 31 0"] by simp

text \<open>Parsing a target: the printed form of every target parses back to it, and only a string of
  exactly 64 hex digits is accepted, the result being 32 bytes.\<close>

theorem target_roundtrip:
  "(length t = 32 \<longrightarrow> ParseTargetHex (target_String t) = Inr t) \<and>
   (ParseTargetHex s = Inr t \<longrightarrow> length t = 32 \<and> length s = 64)"
proof -
  have len: "DecodeString s = Inr b \<Longrightarrow> length s = 2 * length b" for s b
    by (induction s arbitrary: b rule: DecodeString.induct)
      (auto split: option.splits sum.splits prod.splits)
  show ?thesis
    by (auto simp: ParseTargetHex_def target_String_def fit_id split: sum.splits if_splits dest: len)
qed

theorem target_roundtrip_witness:
  "ParseTargetHex (target_String (replicate 32 255)) = Inr (replicate 32 255) \<and>
   length (target_String (replicate 32 255)) = 64"
  using target_roundtrip [of "replicate 32 255" "target_String (replicate 32 255)"] by simp

end
