(* ===== verification/Sha256.thy ===== *)
theory Sha256
  imports CX_Prelude
begin

text \<open>The SHA-256 of Go's standard library (\<open>crypto/sha256\<close>, FIPS 180-4), which the program calls
  for block hashes, epoch seeds, transaction roots and the strict-v2 hash.  The message is a byte
  list, the working state is a list of eight 32-bit words, and the digest is always 32 bytes.\<close>

abbreviation rotr32 :: "nat \<Rightarrow> u32 \<Rightarrow> u32" where
  "rotr32 \<equiv> word_rotr"

definition sha_init :: "u32 list" where
  "sha_init =
    [1779033703, 3144134277, 1013904242, 2773480762, 1359893119, 2600822924, 528734635,
     1541459225]"

definition sha_k :: "u32 list" where
  "sha_k =
    [1116352408, 1899447441, 3049323471, 3921009573, 961987163, 1508970993, 2453635748,
     2870763221, 3624381080, 310598401, 607225278, 1426881987, 1925078388, 2162078206,
     2614888103, 3248222580, 3835390401, 4022224774, 264347078, 604807628, 770255983, 1249150122,
     1555081692, 1996064986, 2554220882, 2821834349, 2952996808, 3210313671, 3336571891,
     3584528711, 113926993, 338241895, 666307205, 773529912, 1294757372, 1396182291, 1695183700,
     1986661051, 2177026350, 2456956037, 2730485921, 2820302411, 3259730800, 3345764771,
     3516065817, 3600352804, 4094571909, 275423344, 430227734, 506948616, 659060556, 883997877,
     958139571, 1322822218, 1537002063, 1747873779, 1955562222, 2024104815, 2227730452,
     2361852424, 2428436474, 2756734187, 3204031479, 3329325298]"

text \<open>Padding: the byte 0x80, zero bytes up to 56 modulo 64, and the bit length as eight
  big-endian bytes.\<close>

definition sha_pad :: "bytes \<Rightarrow> bytes" where
  "sha_pad m = m @ [0x80] @ replicate ((119 - length m mod 64) mod 64) 0
     @ put_be 8 (of_nat (8 * length m) :: u64)"

fun words_be :: "bytes \<Rightarrow> u32 list" where
  "words_be (a # b # c # d # r) =
     (push_bit 24 (ucast a) OR push_bit 16 (ucast b) OR push_bit 8 (ucast c) OR ucast d)
       # words_be r"
| "words_be _ = []"

text \<open>The message schedule, kept newest word first: from the sixteen words of a block, 48 more.\<close>

fun sha_expand :: "nat \<Rightarrow> u32 list \<Rightarrow> u32 list" where
  "sha_expand 0 w = w"
| "sha_expand (Suc n) w =
     (let x = w ! 14; y = w ! 1;
          s0 = rotr32 7 x XOR rotr32 18 x XOR drop_bit 3 x;
          s1 = rotr32 17 y XOR rotr32 19 y XOR drop_bit 10 y
      in sha_expand n ((w ! 15 + s0 + w ! 6 + s1) # w))"

fun sha_round :: "u32 list \<Rightarrow> u32 \<Rightarrow> u32 list" where
  "sha_round [a, b, c, d, e, f, g, h] kw =
     (let s1 = rotr32 6 e XOR rotr32 11 e XOR rotr32 25 e;
          ch = (e AND f) XOR (NOT e AND g);
          t1 = h + s1 + ch + kw;
          s0 = rotr32 2 a XOR rotr32 13 a XOR rotr32 22 a;
          maj = (a AND b) XOR (a AND c) XOR (b AND c)
      in [t1 + (s0 + maj), a, b, c, d + t1, e, f, g])"
| "sha_round s kw = s"

definition sha_block :: "u32 list \<Rightarrow> u32 list \<Rightarrow> u32 list" where
  "sha_block s w =
     map2 (+) s (foldl sha_round s (map2 (+) sha_k (rev (sha_expand 48 (rev w)))))"

fun sha_blocks :: "nat \<Rightarrow> u32 list \<Rightarrow> u32 list \<Rightarrow> u32 list" where
  "sha_blocks 0 s ws = s"
| "sha_blocks (Suc n) s ws = sha_blocks n (sha_block s (take 16 ws)) (drop 16 ws)"

definition sha256 :: "bytes \<Rightarrow> bytes" where
  "sha256 m = (let ws = words_be (sha_pad m)
     in concat (map (put_be 4) (sha_blocks (length ws div 16) sha_init ws)))"

lemma length_sha_round [simp]: "length (sha_round s kw) = length s"
  by (induction s kw rule: sha_round.induct) (simp_all add: Let_def)

lemma length_sha_rounds [simp]: "length (foldl sha_round s kws) = length s"
  by (induction kws arbitrary: s) simp_all

lemma length_sha_block [simp]: "length (sha_block s w) = length s"
  by (simp add: sha_block_def)

lemma length_sha_blocks [simp]: "length (sha_blocks n s ws) = length s"
  by (induction n s ws rule: sha_blocks.induct) simp_all

lemma length_sha256 [simp, len_simps]: "length (sha256 m) = 32"
  by (simp add: sha256_def Let_def length_concat comp_def sum_list_triv sha_init_def)

text \<open>The test vector of the standard, evaluated by the kernel.\<close>

lemma sha256_abc:
  "EncodeToString (sha256 [0x61, 0x62, 0x63]) =
     ''ba7816bf8f01cfea414140de5dae2223b00361a396177a9cb410ff61f20015ad''"
  by code_simp

end
