(* ===== verification/Hashing.thy ===== *)
theory Hashing
  imports DagGen NonceTarget Sha256
begin

text \<open>
  The two proof-of-work functions: the lattice hash of \<open>colossusx/hash.go\<close> and the strict-v2 hash of
  \<open>colossusx/hash_strict_v2.go\<close> and \<open>colossusx/round_commit.go\<close>, and the stateless hash and check of
  \<open>colossusx/dag_stateless.go\<close>.

  The Go interfaces \<open>DAGAccessor\<close> and \<open>TensorDAGAccessor\<close> are records of their methods.  The reuse of
  a scratch object is modelled: the hash returns the scratch as it leaves it.  A hash is \<open>None\<close> when
  the code panics.  The locales \<open>node_source\<close> and \<open>tile_source\<close> state what a hash needs of a view of
  the DAG; the hash of every view that keeps the contract is the one of the node table behind it.
\<close>


section \<open>Results, accessors and scratch space\<close>

record hash_result =
  Pow256 :: bytes
  Full512 :: bytes

definition zero_result :: hash_result where
  "zero_result = \<lparr>Pow256 = replicate 32 0, Full512 = replicate 64 0\<rparr>"

text \<open>\<open>acc_underlying\<close> is the DAG the two type assertions of \<open>LatticeHash\<close> find: the accessor itself
  when it is a \<open>*DAG\<close>, else the non-nil result of its \<open>UnderlyingDAG\<close> method.\<close>

record accessor =
  acc_underlying :: "dag option"
  acc_NodeCount :: "u64 option"
  acc_ReadNode :: "u64 \<Rightarrow> bytes \<Rightarrow> bytes option"

definition DAG_accessor :: "dag \<Rightarrow> accessor" where
  "DAG_accessor d =
     \<lparr>acc_underlying = Some d, acc_NodeCount = DAG_NodeCount d, acc_ReadNode = DAG_ReadNode d\<rparr>"

definition Stateless_accessor :: "hashlib \<Rightarrow> stateless_dag \<Rightarrow> accessor" where
  "Stateless_accessor L d =
     \<lparr>acc_underlying = None, acc_NodeCount = Stateless_NodeCount (Some d),
      acc_ReadNode = (\<lambda>i out. Some (Stateless_ReadNode L (Some d) i out))\<rparr>"

text \<open>The seed buffer is a slice: its contents and its capacity.\<close>

record hash_scratch =
  hs_seedInput :: bytes
  hs_cap :: nat
  hs_finalInput :: bytes
  hs_fnvInput :: bytes
  hs_blakeInput :: bytes

definition NewHashScratch :: "nat \<Rightarrow> hash_scratch" where
  "NewHashScratch headerLen =
     \<lparr>hs_seedInput = [], hs_cap = headerLen + 8, hs_finalInput = replicate 96 0,
      hs_fnvInput = replicate 40 0, hs_blakeInput = replicate 64 0\<rparr>"

definition EnsureSeedInput :: "hash_scratch \<Rightarrow> nat \<Rightarrow> nonce option \<Rightarrow> hash_scratch" where
  "EnsureSeedInput s headerLen n =
     (let need = headerLen + 8;
          need = (case n of
                    None \<Rightarrow> need
                  | Some x \<Rightarrow> let buf = AppendTo x [] in
                      if length buf + headerLen > need then headerLen + length buf else need)
      in if hs_cap s < need then s\<lparr>hs_seedInput := [], hs_cap := need\<rparr>
         else s\<lparr>hs_seedInput := []\<rparr>)"

text \<open>The header, then the nonce when there is one.\<close>

definition seed_bytes :: "bytes \<Rightarrow> nonce option \<Rightarrow> bytes" where
  "seed_bytes header n = (case n of None \<Rightarrow> header | Some x \<Rightarrow> AppendTo x header)"


section \<open>The lattice hash\<close>

definition fnv1a64 :: "bytes \<Rightarrow> u64" where
  "fnv1a64 data = foldl (\<lambda>h b. (h XOR ucast b) * 1099511628211) 14695981039346656037 data"

definition blake3RoundInput :: "bytes \<Rightarrow> bytes \<Rightarrow> bytes" where
  "blake3RoundInput mix node =
     map (\<lambda>i. mix ! i XOR node ! i) [0..<32] @ map (\<lambda>i. mix ! i XOR node ! (32 + i)) [0..<32]"

definition sha3_512 :: "hashlib \<Rightarrow> bytes \<Rightarrow> bytes" where
  "sha3_512 L data = fit 64 (lib_sha3_512 L data)"

definition blake3_256 :: "hashlib \<Rightarrow> bytes \<Rightarrow> bytes" where
  "blake3_256 L data = fit 32 (lib_blake3_256 L data)"

text \<open>The read loop: \<open>k\<close> reads are left, \<open>r\<close> is the loop counter.\<close>

fun lattice_rounds ::
  "hashlib \<Rightarrow> accessor \<Rightarrow> nat \<Rightarrow> u64 \<Rightarrow> bytes \<Rightarrow> bytes \<Rightarrow> hash_scratch \<Rightarrow> (bytes \<times> hash_scratch) option"
where
  "lattice_rounds L acc 0 r mix node sc = Some (mix, sc)"
| "lattice_rounds L acc (Suc k) r mix node sc =
     (let sc = sc\<lparr>hs_fnvInput := blit 32 (put_le 8 r) (blit 0 mix (hs_fnvInput sc))\<rparr> in
      do {
        count \<leftarrow> acc_NodeCount acc;
        if count = 0 then None
        else do {
          node \<leftarrow> acc_ReadNode acc (fnv1a64 (hs_fnvInput sc) mod count) node;
          let sc = sc\<lparr>hs_blakeInput := blake3RoundInput mix node\<rparr>;
          lattice_rounds L acc k (r + 1) (blit 0 (blake3_256 L (hs_blakeInput sc)) mix) node sc
        }
      })"

definition lattice_finish :: "hashlib \<Rightarrow> bytes \<Rightarrow> bytes \<Rightarrow> hash_scratch \<Rightarrow> hash_result \<times> hash_scratch" where
  "lattice_finish L seed512 mix sc =
     (let sc = sc\<lparr>hs_finalInput := blit 64 mix (blit 0 seed512 (hs_finalInput sc))\<rparr>;
          final512 = sha3_512 L (hs_finalInput sc)
      in (\<lparr>Pow256 = take 32 final512, Full512 = final512\<rparr>, sc))"

definition lattice_path ::
  "hashlib \<Rightarrow> spec \<Rightarrow> bytes \<Rightarrow> nonce option \<Rightarrow> accessor \<Rightarrow> hash_scratch \<Rightarrow>
     (hash_result \<times> hash_scratch) option"
where
  "lattice_path L s header n acc sc =
     (let sc = EnsureSeedInput sc (length header) n;
          input = hs_seedInput sc @ seed_bytes header n;
          sc = sc\<lparr>hs_seedInput := input, hs_cap := max (hs_cap sc) (length input)\<rparr>;
          seed512 = sha3_512 L input
      in do {
        (mix, sc) \<leftarrow> lattice_rounds L acc (unat (ReadsPerHash s)) 0 (take 32 seed512)
                     (replicate 64 0) sc;
        Some (lattice_finish L seed512 mix sc)
      })"


section \<open>The strict-v2 hash\<close>

record tile_accessor =
  tacc_TileCount :: "u64 option"
  tacc_ReadTile :: "u64 \<Rightarrow> tensor_tile \<Rightarrow> tensor_tile option"

definition tensorView :: "dag \<Rightarrow> tile_accessor" where
  "tensorView d = \<lparr>tacc_TileCount = DAG_NodeCount d, tacc_ReadTile = (\<lambda>i _. DAG_ReadTensorTile d i)\<rparr>"

definition Stateless_tiles :: "hashlib \<Rightarrow> stateless_dag \<Rightarrow> tile_accessor" where
  "Stateless_tiles L d =
     \<lparr>tacc_TileCount = Stateless_NodeCount (Some d),
      tacc_ReadTile = (\<lambda>i out. Stateless_ReadTensorTile L (Some d) i out)\<rparr>"

definition RoundCommit :: "u32 \<Rightarrow> bytes \<Rightarrow> bytes" where
  "RoundCommit round state =
     sha256 (state @ [ucast round, ucast (drop_bit 8 round), ucast (drop_bit 16 round),
                      ucast (drop_bit 24 round)])"

definition lane :: "tensor_tile \<Rightarrow> bytes \<Rightarrow> u32 \<Rightarrow> nat \<Rightarrow> u32" where
  "lane tile state r i =
     foldl (\<lambda>acc j. acc + scast (MatrixA tile ! (i * 16 + j)) *
                          scast (MatrixB tile ! (j * 16 + (i + unat r) mod 16)))
       (Bias tile ! i + ucast (state ! i) - ucast (state ! (31 - i))) [0..<16]"

definition lane_bytes :: "tensor_tile \<Rightarrow> bytes \<Rightarrow> u32 \<Rightarrow> bytes" where
  "lane_bytes tile state r =
     concat (map (\<lambda>i. put_le 4 (lane tile state r i XOR ucast (Meta tile ! i)
       XOR ucast (Permute tile ! i) XOR r)) [0..<16])"

text \<open>What one round makes of the state once its tile is read.\<close>

definition strict_mix :: "spec \<Rightarrow> tensor_tile \<Rightarrow> u32 \<Rightarrow> bytes \<Rightarrow> bytes" where
  "strict_mix s tile r state =
     (let state = sha256 (state @ lane_bytes tile state r)
      in if 0 < RoundCommitInterval s \<and> (r + 1) mod RoundCommitInterval s = 0
         then RoundCommit (r + 1) state else state)"

fun strict_rounds :: "spec \<Rightarrow> tile_accessor \<Rightarrow> nat \<Rightarrow> u32 \<Rightarrow> bytes \<Rightarrow> bytes option" where
  "strict_rounds s acc 0 r state = Some state"
| "strict_rounds s acc (Suc k) r state =
     do {
       count \<leftarrow> tacc_TileCount acc;
       if count = 0 then None
       else do {
         tile \<leftarrow> tacc_ReadTile acc (get_le (take 8 state) mod count) zero_tile;
         strict_rounds s acc k (r + 1) (strict_mix s tile r state)
       }
     }"

definition strict_finish :: "bytes \<Rightarrow> bytes \<Rightarrow> hash_result" where
  "strict_finish seed state =
     (let final = sha256 state; dbl = sha256 (seed @ final)
      in \<lparr>Pow256 = final, Full512 = final @ dbl\<rparr>)"

definition StrictV2Hash ::
  "spec \<Rightarrow> bytes \<Rightarrow> nonce option \<Rightarrow> tile_accessor option \<Rightarrow> hash_result option" where
  "StrictV2Hash s header n dag =
     (case dag of
        None \<Rightarrow> Some zero_result
      | Some acc \<Rightarrow>
          do {
            count \<leftarrow> tacc_TileCount acc;
            if count = 0 then Some zero_result
            else
              let seed = sha256 (seed_bytes header n) in
              do {
                state \<leftarrow> strict_rounds s acc (unat (ComputeRounds s)) 0 seed;
                Some (strict_finish seed state)
              }
          })"

text \<open>The scratch is that of the caller, or a fresh one when the caller passes nil; the strict path
  and the early return leave it alone.\<close>

definition lattice_or_zero ::
  "hashlib \<Rightarrow> spec \<Rightarrow> bytes \<Rightarrow> nonce option \<Rightarrow> accessor option \<Rightarrow> hash_scratch option \<Rightarrow>
     (hash_result \<times> hash_scratch option) option"
where
  "lattice_or_zero L s header n accessor scratch =
     (case accessor of
        None \<Rightarrow> Some (zero_result, scratch)
      | Some acc \<Rightarrow>
          do {
            count \<leftarrow> acc_NodeCount acc;
            if count = 0 then Some (zero_result, scratch)
            else do {
              (h, sc) \<leftarrow> lattice_path L s header n acc
                (case scratch of None \<Rightarrow> NewHashScratch (length header) | Some sc \<Rightarrow> sc);
              Some (h, Some sc)
            }
          })"

definition LatticeHash ::
  "hashlib \<Rightarrow> spec \<Rightarrow> bytes \<Rightarrow> nonce option \<Rightarrow> accessor option \<Rightarrow> hash_scratch option \<Rightarrow>
     (hash_result \<times> hash_scratch option) option"
where
  "LatticeHash L s header n accessor scratch =
     (case if 2 \<le> AlgorithmVersion s then Option.bind accessor acc_underlying else None of
        Some d \<Rightarrow> map_option (\<lambda>h. (h, scratch)) (StrictV2Hash s header n (Some (tensorView d)))
      | None \<Rightarrow> lattice_or_zero L s header n accessor scratch)"


section \<open>Stateless hashing and verification\<close>

definition HashHeaderStateless ::
  "hashlib \<Rightarrow> spec \<Rightarrow> bytes \<Rightarrow> nonce option \<Rightarrow> bytes \<Rightarrow> (dag_error + hash_result) option" where
  "HashHeaderStateless L s header n epochSeed =
     (case NewStatelessDAG s epochSeed of
        Inl e \<Rightarrow> Some (Inl e)
      | Inr d \<Rightarrow>
          if 2 \<le> AlgorithmVersion s
          then map_option Inr (StrictV2Hash s header n (Some (Stateless_tiles L d)))
          else map_option (Inr \<circ> fst) (LatticeHash L s header n (Some (Stateless_accessor L d)) None))"

definition VerifyHeaderStateless ::
  "hashlib \<Rightarrow> spec \<Rightarrow> bytes \<Rightarrow> nonce option \<Rightarrow> bytes \<Rightarrow> target \<Rightarrow>
     (dag_error + hash_result \<times> bool) option" where
  "VerifyHeaderStateless L s header n epochSeed t =
     (case HashHeaderStateless L s header n epochSeed of
        None \<Rightarrow> None
      | Some (Inl e) \<Rightarrow> Some (Inl e)
      | Some (Inr h) \<Rightarrow> Some (Inr (h, LessOrEqualBE (Pow256 h) t)))"


section \<open>The hashes as functions of a node table\<close>

fun ref_rounds :: "hashlib \<Rightarrow> nat \<Rightarrow> (nat \<Rightarrow> bytes) \<Rightarrow> nat \<Rightarrow> u64 \<Rightarrow> bytes \<Rightarrow> bytes" where
  "ref_rounds L cnt nd 0 r mix = mix"
| "ref_rounds L cnt nd (Suc k) r mix =
     ref_rounds L cnt nd k (r + 1)
       (blake3_256 L (blake3RoundInput mix (nd (unat (fnv1a64 (mix @ put_le 8 r)) mod cnt))))"

definition lattice_reference ::
  "hashlib \<Rightarrow> spec \<Rightarrow> nat \<Rightarrow> (nat \<Rightarrow> bytes) \<Rightarrow> bytes \<Rightarrow> nonce option \<Rightarrow> hash_result" where
  "lattice_reference L s cnt nd header n =
     (let seed512 = sha3_512 L (seed_bytes header n);
          mix = ref_rounds L cnt nd (unat (ReadsPerHash s)) 0 (take 32 seed512);
          final512 = sha3_512 L (seed512 @ mix)
      in \<lparr>Pow256 = take 32 final512, Full512 = final512\<rparr>)"

fun ref_strict :: "spec \<Rightarrow> nat \<Rightarrow> (nat \<Rightarrow> bytes) \<Rightarrow> nat \<Rightarrow> u32 \<Rightarrow> bytes \<Rightarrow> bytes" where
  "ref_strict s cnt nd 0 r state = state"
| "ref_strict s cnt nd (Suc k) r state =
     ref_strict s cnt nd k (r + 1)
       (strict_mix s (raw_tile (nd (unat (get_le (take 8 state) :: u64) mod cnt))) r state)"

definition strict_reference :: "spec \<Rightarrow> nat \<Rightarrow> (nat \<Rightarrow> bytes) \<Rightarrow> bytes \<Rightarrow> nonce option \<Rightarrow> hash_result" where
  "strict_reference s cnt nd header n =
     (let seed = sha256 (seed_bytes header n)
      in strict_finish seed (ref_strict s cnt nd (unat (ComputeRounds s)) 0 seed))"

definition scratch_ok :: "hash_scratch \<Rightarrow> bool" where
  "scratch_ok sc \<longleftrightarrow> length (hs_finalInput sc) = 96 \<and> length (hs_fnvInput sc) = 40 \<and>
     length (hs_blakeInput sc) = 64"

lemma NewHashScratch_ok [simp]: "scratch_ok (NewHashScratch n)"
  by (simp add: scratch_ok_def NewHashScratch_def)

lemma Ensure_ok [simp]: "scratch_ok sc \<Longrightarrow> scratch_ok (EnsureSeedInput sc k n)"
  by (simp add: scratch_ok_def EnsureSeedInput_def Let_def)

lemma Ensure_empty [simp]: "hs_seedInput (EnsureSeedInput sc k n) = []"
  by (simp add: EnsureSeedInput_def Let_def)

text \<open>After \<open>EnsureSeedInput\<close> the appends of the header and of the nonce stay inside the buffer.\<close>

lemma Ensure_cap: "length (seed_bytes header n) \<le> hs_cap (EnsureSeedInput sc (length header) n)"
  by (simp add: EnsureSeedInput_def Let_def seed_bytes_def AppendTo_def split: option.splits)

lemma length_hash_words [simp, len_simps]:
  "length (sha3_512 L x) = 64" "length (blake3_256 L x) = 32"
  "length (blake3RoundInput mix node) = 64" "length (RoundCommit r st) = 32"
  by (simp_all add: sha3_512_def blake3_256_def blake3RoundInput_def RoundCommit_def)

lemma length_strict_mix [simp, len_simps]: "length (strict_mix s tile r state) = 32"
  by (simp add: strict_mix_def Let_def)

lemma blit_front: "length mix = length dst \<Longrightarrow> blit 0 mix dst = mix"
  by (simp add: blit_def)

lemma blit_two: "length mix = m \<Longrightarrow> length w = k \<Longrightarrow> length dst = m + k \<Longrightarrow>
    blit m w (blit 0 mix dst) = mix @ w"
  by (simp add: blit_def)

lemma unat_mod_of_nat: "0 < cnt \<Longrightarrow> cnt < 2 ^ 64 \<Longrightarrow>
    (h :: u64) mod of_nat cnt = of_nat (unat h mod cnt) \<and> unat h mod cnt < cnt"
  by (simp add: unat_mod unat_of_nat64 word_unat_eq_iff order_less_trans [OF mod_less_divisor])


section \<open>What a view of the DAG has to provide\<close>

locale node_source =
  fixes ok :: "'v \<Rightarrow> bool"
    and view :: "'v \<Rightarrow> accessor"
    and cnt :: "'v \<Rightarrow> nat"
    and nd :: "'v \<Rightarrow> nat \<Rightarrow> bytes"
  assumes cnt_range: "ok v \<Longrightarrow> 0 < cnt v \<and> cnt v < 2 ^ 64"
    and count: "ok v \<Longrightarrow> acc_NodeCount (view v) = Some (of_nat (cnt v))"
    and read: "ok v \<Longrightarrow> i < cnt v \<Longrightarrow> length out = 64 \<Longrightarrow>
      acc_ReadNode (view v) (of_nat i) out = Some (nd v i)"
    and node_length: "ok v \<Longrightarrow> i < cnt v \<Longrightarrow> length (nd v i) = 64"
begin

lemma count_nonzero: "ok v \<Longrightarrow> of_nat (cnt v) \<noteq> (0 :: u64)"
  using cnt_range [of v] unat_of_nat64 [of "cnt v"] by auto

lemma rounds:
  "ok v \<Longrightarrow> scratch_ok sc \<Longrightarrow> length mix = 32 \<Longrightarrow> length node = 64 \<Longrightarrow>
   \<exists>sc'. lattice_rounds L (view v) k r mix node sc = Some (ref_rounds L (cnt v) (nd v) k r mix, sc') \<and>
     scratch_ok sc' \<and> length (ref_rounds L (cnt v) (nd v) k r mix) = 32"
proof (induction k arbitrary: r mix node sc)
  case 0
  then show ?case by simp
next
  case (Suc k)
  let ?h = "fnv1a64 (mix @ put_le 8 r)"
  let ?i = "unat ?h mod cnt v"
  let ?sc = "sc\<lparr>hs_fnvInput := mix @ put_le 8 r,
    hs_blakeInput := blake3RoundInput mix (nd v ?i)\<rparr>"
  have fnv: "blit 32 (put_le 8 r) (blit 0 mix (hs_fnvInput sc)) = mix @ put_le 8 r"
    using Suc.prems by (intro blit_two) (simp_all add: scratch_ok_def)
  have i: "?h mod of_nat (cnt v) = of_nat ?i" "?i < cnt v"
    using unat_mod_of_nat cnt_range [OF Suc.prems(1)] by blast+
  have "\<exists>sc'. lattice_rounds L (view v) k (r + 1)
      (blake3_256 L (blake3RoundInput mix (nd v ?i))) (nd v ?i) ?sc =
        Some (ref_rounds L (cnt v) (nd v) (Suc k) r mix, sc') \<and> scratch_ok sc' \<and>
      length (ref_rounds L (cnt v) (nd v) (Suc k) r mix) = 32"
    unfolding ref_rounds.simps
    by (rule Suc.IH) (use Suc.prems i node_length in \<open>simp_all add: scratch_ok_def\<close>)
  then show ?case
    using Suc.prems i count_nonzero
    by (simp add: fnv Let_def count read blit_front)
qed

lemma path:
  assumes "ok v" "scratch_ok sc"
  shows "\<exists>sc'. lattice_path L s header n (view v) sc =
    Some (lattice_reference L s (cnt v) (nd v) header n, sc') \<and> scratch_ok sc'"
proof -
  let ?sc = "EnsureSeedInput sc (length header) n"
  let ?sc1 = "?sc\<lparr>hs_seedInput := seed_bytes header n,
    hs_cap := max (hs_cap ?sc) (length (seed_bytes header n))\<rparr>"
  have "scratch_ok ?sc1" using assms(2) Ensure_ok [of sc "length header" n] by (simp add: scratch_ok_def)
  let ?s5 = "sha3_512 L (seed_bytes header n)" and ?k = "unat (ReadsPerHash s)"
  let ?mix = "ref_rounds L (cnt v) (nd v) ?k 0 (take 32 ?s5)"
  have "\<exists>sc'. lattice_rounds L (view v) ?k 0 (take 32 ?s5) (replicate 64 0) ?sc1 = Some (?mix, sc') \<and>
      scratch_ok sc' \<and> length ?mix = 32"
    by (rule rounds [OF assms(1) \<open>scratch_ok ?sc1\<close>]) simp_all
  then obtain sc' where
    r: "lattice_rounds L (view v) ?k 0 (take 32 ?s5) (replicate 64 0) ?sc1 = Some (?mix, sc')"
      "scratch_ok sc'" "length ?mix = 32"
    by blast
  have fin: "blit 64 ?mix (blit 0 ?s5 (hs_finalInput sc')) = ?s5 @ ?mix"
    using r(2,3) by (intro blit_two) (simp_all add: scratch_ok_def)
  show ?thesis
    using r fin
    by (simp add: lattice_path_def Let_def lattice_finish_def lattice_reference_def scratch_ok_def)
qed

text \<open>The lattice hash of a view that does not expose its DAG, or of a profile of version 1.\<close>

lemma LatticeHash_reference:
  assumes ok: "ok v" and sc: "case sc of None \<Rightarrow> True | Some x \<Rightarrow> scratch_ok x"
    and plain: "AlgorithmVersion s < 2 \<or> acc_underlying (view v) = None"
  shows "map_option fst (LatticeHash L s header n (Some (view v)) sc) =
    Some (lattice_reference L s (cnt v) (nd v) header n)"
proof -
  let ?sc = "case sc of None \<Rightarrow> NewHashScratch (length header) | Some x \<Rightarrow> x"
  have "scratch_ok ?sc" using sc by (simp split: option.splits)
  from path [OF ok this, of L s header n] obtain sc' where
    "lattice_path L s header n (view v) ?sc = Some (lattice_reference L s (cnt v) (nd v) header n, sc')"
    by blast
  then show ?thesis
    using plain ok count_nonzero [OF ok]
    by (auto simp: LatticeHash_def lattice_or_zero_def count)
qed

end

locale tile_source =
  fixes ok :: "'v \<Rightarrow> bool"
    and tiles :: "'v \<Rightarrow> tile_accessor"
    and cnt :: "'v \<Rightarrow> nat"
    and nd :: "'v \<Rightarrow> nat \<Rightarrow> bytes"
  assumes cnt_range: "ok v \<Longrightarrow> 0 < cnt v \<and> cnt v < 2 ^ 64"
    and count: "ok v \<Longrightarrow> tacc_TileCount (tiles v) = Some (of_nat (cnt v))"
    and read: "ok v \<Longrightarrow> i < cnt v \<Longrightarrow>
      tacc_ReadTile (tiles v) (of_nat i) out = Some (raw_tile (nd v i))"
begin

lemma count_nonzero: "ok v \<Longrightarrow> of_nat (cnt v) \<noteq> (0 :: u64)"
  using cnt_range [of v] unat_of_nat64 [of "cnt v"] by auto

lemma rounds:
  "ok v \<Longrightarrow> strict_rounds s (tiles v) k r state = Some (ref_strict s (cnt v) (nd v) k r state)"
proof (induction k arbitrary: r state)
  case 0
  then show ?case by simp
next
  case (Suc k)
  let ?h = "get_le (take 8 state) :: u64"
  have "?h mod of_nat (cnt v) = of_nat (unat ?h mod cnt v)" "unat ?h mod cnt v < cnt v"
    using unat_mod_of_nat cnt_range [OF Suc.prems] by blast+
  then show ?case using Suc count_nonzero by (simp add: count read)
qed

lemma StrictV2Hash_reference:
  "ok v \<Longrightarrow> StrictV2Hash s header n (Some (tiles v)) =
     Some (strict_reference s (cnt v) (nd v) header n)"
  using count_nonzero [of v] by (simp add: StrictV2Hash_def strict_reference_def count rounds Let_def)

end

end
