(* ===== verification/HashAgreement.thy ===== *)
theory HashAgreement
  imports Hashing
begin

text \<open>
  The DAG of \<open>colossusx/dag.go\<close> and the stateless DAG of \<open>colossusx/dag_stateless.go\<close> keep the
  contracts of \<open>node_source\<close> and \<open>tile_source\<close>, so the hash computed over either is the same function
  of the header, the nonce and the epoch seed.
\<close>


section \<open>The DAG as a node table\<close>

definition DAG_table :: "dag \<Rightarrow> nat \<Rightarrow> bytes" where
  "DAG_table d i = take 64 (drop (64 * i) (backing d))"

lemma nodes_range: "nodes_of s \<noteq> 0 \<Longrightarrow> 0 < nodes_of s \<and> nodes_of s < 2 ^ 64"
  using unat_less64 [of "DAGSizeBytes s"] by (auto simp: nodes_of_def)

lemma DAG_Node_table:
  assumes ok: "dag_ok d" and i: "i < nodes_of (dag_spec d)"
  shows "DAG_Node d (of_nat i) = Some (DAG_table d i)" and "length (DAG_table d i) = 64"
proof -
  have f: "fits (dag_spec d) (backing d)" using ok by (simp add: dag_ok_def)
  have in_dag: "64 * i + 64 \<le> 64 * nodes_of (dag_spec d)" using i by simp
  then have i64: "64 * i + 64 < 2 ^ 64" using fitsD(5) [OF f] by linarith
  have lo: "unat (of_nat i * 64 :: u64) = 64 * i"
    using i64 by (subst unat_mult64) (simp_all add: unat_of_nat64)
  then have hi: "unat (of_nat i * 64 + 64 :: u64) = 64 * i + 64"
    using i64 by (subst unat_add64) simp_all
  have len: "64 * i + 64 \<le> length (backing d)" using in_dag fitsD(4) [OF f] by linarith
  show "DAG_Node d (of_nat i) = Some (DAG_table d i)"
    by (simp add: DAG_Node_def Let_def fitsD(1) [OF f] lo hi slice_Some len DAG_table_def)
  show "length (DAG_table d i) = 64" using len by (simp add: DAG_table_def)
qed

lemma dag_count: "dag_ok d \<Longrightarrow> DAG_NodeCount d = Some (of_nat (nodes_of (dag_spec d)))"
proof -
  assume "dag_ok d"
  then have f: "fits (dag_spec d) (backing d)" by (simp add: dag_ok_def)
  show "DAG_NodeCount d = Some (of_nat (nodes_of (dag_spec d)))"
    using fitsD(2,3) [OF f] by (simp add: DAG_NodeCount_def flip: fitsD(3) [OF f])
qed

interpretation dag_nodes: node_source dag_ok DAG_accessor "\<lambda>d. nodes_of (dag_spec d)" DAG_table
proof unfold_locales
  fix d :: dag and i and out :: bytes
  assume ok: "dag_ok d"
  then show "0 < nodes_of (dag_spec d) \<and> nodes_of (dag_spec d) < 2 ^ 64"
    by (intro nodes_range) (simp add: dag_ok_def)
  show "acc_NodeCount (DAG_accessor d) = Some (of_nat (nodes_of (dag_spec d)))"
    using dag_count [OF ok] by (simp add: DAG_accessor_def)
  assume i: "i < nodes_of (dag_spec d)"
  then show "length (DAG_table d i) = 64" by (rule DAG_Node_table(2) [OF ok])
  assume "length out = 64"
  then show "acc_ReadNode (DAG_accessor d) (of_nat i) out = Some (DAG_table d i)"
    using DAG_Node_table [OF ok i] by (simp add: DAG_accessor_def DAG_ReadNode_def blit_front)
qed

interpretation dag_tiles: tile_source dag_ok tensorView "\<lambda>d. nodes_of (dag_spec d)" DAG_table
proof unfold_locales
  fix d :: dag and i and out :: tensor_tile
  assume ok: "dag_ok d"
  then show "0 < nodes_of (dag_spec d) \<and> nodes_of (dag_spec d) < 2 ^ 64" by (rule dag_nodes.cnt_range)
  show "tacc_TileCount (tensorView d) = Some (of_nat (nodes_of (dag_spec d)))"
    using dag_count [OF ok] by (simp add: tensorView_def)
  assume i: "i < nodes_of (dag_spec d)"
  show "tacc_ReadTile (tensorView d) (of_nat i) out = Some (raw_tile (DAG_table d i))"
    using DAG_Node_table [OF ok i] by (simp add: tensorView_def DAG_ReadTensorTile_def tile_of_raw_def)
qed


section \<open>The stateless DAG as a node table\<close>

definition sd_ok :: "stateless_dag \<Rightarrow> bool" where
  "sd_ok d \<longleftrightarrow> Validate (sd_spec d) = None \<and> nodes_of (sd_spec d) \<noteq> 0"

definition sd_table :: "hashlib \<Rightarrow> stateless_dag \<Rightarrow> nat \<Rightarrow> bytes" where
  "sd_table L d = algorithm_nodes L (sd_spec d) (sd_seed d)"

lemma sd_fits: "sd_ok d \<Longrightarrow> fits (sd_spec d) (replicate (unat (DAGSizeBytes (sd_spec d))) 0)"
  by (auto simp: sd_ok_def fits_def nodes_of_def)

lemma sd_count: "sd_ok d \<Longrightarrow> Stateless_NodeCount (Some d) = Some (of_nat (nodes_of (sd_spec d)))"
  using fitsD(2) [OF sd_fits] by (simp add: Stateless_NodeCount_def flip: fitsD(3) [OF sd_fits])

lemma sd_read: "length out = 64 \<Longrightarrow> Stateless_ReadNode L (Some d) (of_nat i) out = sd_table L d i"
  by (simp add: Stateless_ReadNode_def sd_table_def algorithm_nodes_def algorithm_node_def
      strictNode_def researchNode_def blit_front)

interpretation sd_nodes: node_source sd_ok "Stateless_accessor L" "\<lambda>d. nodes_of (sd_spec d)" "sd_table L"
  for L
proof unfold_locales
  fix d :: stateless_dag and i and out :: bytes
  assume ok: "sd_ok d"
  show "0 < nodes_of (sd_spec d) \<and> nodes_of (sd_spec d) < 2 ^ 64" using ok by (intro nodes_range) (simp add: sd_ok_def)
  show "acc_NodeCount (Stateless_accessor L d) = Some (of_nat (nodes_of (sd_spec d)))"
    using sd_count [OF ok] by (simp add: Stateless_accessor_def)
  show "length (sd_table L d i) = 64" by (simp add: sd_table_def algorithm_nodes_def)
  assume "length out = 64"
  then show "acc_ReadNode (Stateless_accessor L d) (of_nat i) out = Some (sd_table L d i)"
    by (simp add: Stateless_accessor_def sd_read)
qed

interpretation sd_tiles: tile_source sd_ok "Stateless_tiles L" "\<lambda>d. nodes_of (sd_spec d)" "sd_table L"
  for L
proof unfold_locales
  fix d :: stateless_dag and i and out :: tensor_tile
  assume ok: "sd_ok d"
  then show "0 < nodes_of (sd_spec d) \<and> nodes_of (sd_spec d) < 2 ^ 64" by (rule sd_nodes.cnt_range)
  show "tacc_TileCount (Stateless_tiles L d) = Some (of_nat (nodes_of (sd_spec d)))"
    using sd_count [OF ok] by (simp add: Stateless_tiles_def)
  show "tacc_ReadTile (Stateless_tiles L d) (of_nat i) out = Some (raw_tile (sd_table L d i))"
    by (simp add: Stateless_tiles_def Stateless_ReadTensorTile_def sd_read tile_of_raw_def)
      (simp add: sd_table_def algorithm_nodes_def)
qed


section \<open>One hash\<close>

text \<open>The hash an epoch seed and a profile define, through whatever view it is computed.\<close>

definition algorithm_hash :: "hashlib \<Rightarrow> spec \<Rightarrow> bytes \<Rightarrow> bytes \<Rightarrow> nonce option \<Rightarrow> hash_result" where
  "algorithm_hash L s seed header n =
     (if 2 \<le> AlgorithmVersion s
      then strict_reference s (nodes_of s) (algorithm_nodes L s seed) header n
      else lattice_reference L s (nodes_of s) (algorithm_nodes L s seed) header n)"

lemma ref_rounds_cong:
  assumes "0 < cnt" and "\<forall>i < cnt. nd i = nd' i"
  shows "ref_rounds L cnt nd k r mix = ref_rounds L cnt nd' k r mix"
  using assms by (induction k arbitrary: r mix) simp_all

lemma ref_strict_cong:
  assumes "0 < cnt" and "\<forall>i < cnt. nd i = nd' i"
  shows "ref_strict s cnt nd k r st = ref_strict s cnt nd' k r st"
  using assms by (induction k arbitrary: r st) simp_all

lemma populated_table:
  assumes "populated L seed d" and "i < nodes_of (dag_spec d)"
  shows "DAG_table d i = algorithm_nodes L (dag_spec d) seed i"
  using assms DAG_Node_table(1) [of d i] by (simp add: populated_def)

lemma DAG_hash:
  assumes p: "populated L seed d" and sc: "case sc of None \<Rightarrow> True | Some x \<Rightarrow> scratch_ok x"
  shows "map_option fst (LatticeHash L (dag_spec d) header n (Some (DAG_accessor d)) sc) =
    Some (algorithm_hash L (dag_spec d) seed header n)"
proof -
  have ok: "dag_ok d" using p by (simp add: populated_def)
  have nz: "0 < nodes_of (dag_spec d)" using dag_nodes.cnt_range [OF ok] by simp
  have tab: "\<forall>i < nodes_of (dag_spec d). DAG_table d i = algorithm_nodes L (dag_spec d) seed i"
    using populated_table [OF p] by blast
  show ?thesis
  proof (cases "2 \<le> AlgorithmVersion (dag_spec d)")
    case True
    then show ?thesis
      using dag_tiles.StrictV2Hash_reference [OF ok, of "dag_spec d" header n]
      by (simp add: LatticeHash_def DAG_accessor_def algorithm_hash_def strict_reference_def
          ref_strict_cong [OF nz tab] option.map_comp)
  next
    case False
    then show ?thesis
      using dag_nodes.LatticeHash_reference [OF ok sc, of "dag_spec d" L header n] False
      by (auto simp: algorithm_hash_def lattice_reference_def ref_rounds_cong [OF nz tab] not_le)
  qed
qed

lemma stateless_hash:
  assumes v: "Validate s = None" and sz: "nodes_of s \<noteq> 0" and seed: "seed \<noteq> []"
  shows "HashHeaderStateless L s header n seed = Some (Inr (algorithm_hash L s seed header n))"
proof -
  let ?d = "\<lparr>sd_spec = s, sd_seed = seed\<rparr>"
  have ok: "sd_ok ?d" using v sz by (simp add: sd_ok_def)
  have new: "NewStatelessDAG s seed = Inr ?d" using v seed by (simp add: NewStatelessDAG_def)
  have plain: "acc_underlying (Stateless_accessor L ?d) = None" by (simp add: Stateless_accessor_def)
  have "StrictV2Hash s header n (Some (Stateless_tiles L ?d)) =
      Some (strict_reference s (nodes_of s) (sd_table L ?d) header n)"
    using sd_tiles.StrictV2Hash_reference [OF ok] by simp
  moreover have "map_option fst (LatticeHash L s header n (Some (Stateless_accessor L ?d)) None) =
      Some (lattice_reference L s (nodes_of s) (sd_table L ?d) header n)"
    using sd_nodes.LatticeHash_reference [where sc = None, OF ok] plain by simp
  ultimately show ?thesis
    by (auto simp: HashHeaderStateless_def new algorithm_hash_def sd_table_def)
qed


section \<open>Properties\<close>

text \<open>C1: Verification without a DAG agrees with mining on one: the hash computed on demand from the
  epoch seed is, for the research and for the strict algorithm, the hash read from any populated DAG
  of the profile, whatever the scratch object still holds, and neither computation panics.\<close>

theorem stateless_hash_agrees:
  assumes p: "populated L seed d" and seed: "seed \<noteq> []"
    and sc: "case sc of None \<Rightarrow> True | Some x \<Rightarrow> scratch_ok x"
  shows "\<exists>h. map_option fst (LatticeHash L (dag_spec d) header n (Some (DAG_accessor d)) sc) = Some h \<and>
    HashHeaderStateless L (dag_spec d) header n seed = Some (Inr h)"
proof -
  have "Validate (dag_spec d) = None" "nodes_of (dag_spec d) \<noteq> 0"
    using p by (simp_all add: populated_def dag_ok_def fits_def)
  with DAG_hash [OF p sc] stateless_hash [OF _ _ seed] show ?thesis by simp
qed

definition sample_dag :: dag where
  "sample_dag = \<lparr>dag_spec = tiny_spec\<lparr>DAGSizeBytes := 64\<rparr>,
     dag_alloc = Some \<lparr>alloc_bytes = replicate 64 0, alloc_name = ''go-heap''\<rparr>, dag_ownership = True\<rparr>"

lemma sample_dag_ok: "dag_ok sample_dag"
  by (simp add: dag_ok_def sample_dag_def backing_def fits_def nodes_of_def Validate_def Let_def initialDAGSize_def
      growthDAGSizePerEpoch_def ModeResearch_def ModeStrict_def StrictNodeSize_def)

lemma sample_populated:
  obtains d where "PopulateDAG sample_lib 1 sample_dag [7] 1 = Some (None, d)"
    "populated sample_lib [7] d" "dag_spec d = dag_spec sample_dag"
  using PopulateDAG_populates [OF sample_dag_ok, of "[7]" 1 1 sample_lib]
  by (auto simp: effective_workers_def)

theorem stateless_hash_agrees_witness:
  "\<exists>d h. PopulateDAG sample_lib 1 sample_dag [7] 1 = Some (None, d) \<and>
     map_option fst (LatticeHash sample_lib (dag_spec d) [1, 2] (Some 5) (Some (DAG_accessor d)) None) =
       Some h \<and>
     HashHeaderStateless sample_lib (dag_spec sample_dag) [1, 2] (Some 5) [7] = Some (Inr h)"
proof -
  obtain d where d: "PopulateDAG sample_lib 1 sample_dag [7] 1 = Some (None, d)"
    "populated sample_lib [7] d" "dag_spec d = dag_spec sample_dag"
    by (rule sample_populated)
  from stateless_hash_agrees [OF d(2), of None "[1, 2]" "Some 5"] d show ?thesis by auto
qed

text \<open>C36: A proof of work is accepted by the stateless verifier exactly when the number the 256-bit
  digest stands for is at most the target; the call fails exactly when the profile is invalid or the
  epoch seed is empty, and it never panics on a profile whose DAG has a node.\<close>

theorem stateless_verification:
  assumes sz: "nodes_of s \<noteq> 0" and t: "length t = 32"
  shows "VerifyHeaderStateless L s header n seed t =
    Some (case Validate s of
        Some e \<Rightarrow> Inl (DagSpecError e)
      | None \<Rightarrow>
          if seed = [] then Inl EpochSeedEmpty
          else let h = algorithm_hash L s seed header n in Inr (h, be_val (Pow256 h) \<le> be_val t))"
proof (cases "Validate s = None \<and> seed \<noteq> []")
  case True
  have "length (Pow256 (algorithm_hash L s seed header n)) = 32"
    by (simp add: algorithm_hash_def lattice_reference_def strict_reference_def strict_finish_def Let_def)
  then show ?thesis
    using True stateless_hash [OF _ sz, of seed L header n]
    by (simp add: VerifyHeaderStateless_def LessOrEqualBE_iff t Let_def)
next
  case False
  then show ?thesis
    by (auto simp: VerifyHeaderStateless_def HashHeaderStateless_def NewStatelessDAG_def
        split: option.splits)
qed

theorem stateless_verification_witness:
  "VerifyHeaderStateless sample_lib (dag_spec sample_dag) [1] None [7] (replicate 32 255) =
     Some (Inr (algorithm_hash sample_lib (dag_spec sample_dag) [7] [1] None, True))"
proof -
  have v: "Validate (dag_spec sample_dag) = None" and z: "nodes_of (dag_spec sample_dag) \<noteq> 0"
    using sample_dag_ok by (simp_all add: dag_ok_def fits_def)
  let ?h = "algorithm_hash sample_lib (dag_spec sample_dag) [7] [1] None"
  have "length (Pow256 ?h) = 32"
    by (simp add: algorithm_hash_def lattice_reference_def strict_reference_def strict_finish_def Let_def)
  then have "be_val (Pow256 ?h) < 256 ^ 32" using be_val_less [of "Pow256 ?h"] by simp
  moreover have "be_val (replicate 32 (255 :: byte)) + 1 = 256 ^ 32" by (rule be_val_max)
  ultimately show ?thesis
    using stateless_verification [OF z, of "replicate 32 255" sample_lib "[1]" None "[7]"] v
    by (simp add: Let_def)
qed

end
