(* ===== verification/Mining.thy ===== *)
theory Mining
  imports HashAgreement
begin

text \<open>
  The miner (\<open>colossusx/miner.go\<close>).  A backend is the record of the functions of its interface; a hash
  that panics is \<open>None\<close>.  The
  goroutines of \<open>Mine\<close> are an interleaving system: a worker is where it stands in its loop, and a step
  lets one worker take its next action on the shared state, the atomic counter, the \<open>found\<close> flag, the
  context and the result channel.  \<open>Mine\<close> returns when the channel holds a result or is closed.
  Elapsed time and the hash rate, which depend on the clock, are not modelled.
\<close>


section \<open>Backends and results\<close>

record hash_backend =
  hb_Mode :: string
  hb_Description :: string
  hb_Prepare :: "dag option \<Rightarrow> string option"
  hb_Hash :: "bytes \<Rightarrow> nonce \<Rightarrow> dag option \<Rightarrow> hash_result option"
  hb_HashBatch :: "(bytes \<Rightarrow> nonce \<Rightarrow> u64 \<Rightarrow> dag option \<Rightarrow> string + hash_result list) option"

record mine_result =
  mr_Nonce :: "nonce option"
  mr_Hashes :: u64
  mr_Hash256Hex :: string
  mr_Hash512Hex :: string
  mr_Backend :: string

record miner =
  mn_spec :: spec
  mn_dag :: "dag option"
  mn_workers :: nat
  mn_backend :: hash_backend

datatype miner_error = MinerSpecError spec_error | PrepareError string

definition NewMiner :: "nat \<Rightarrow> spec \<Rightarrow> dag option \<Rightarrow> int \<Rightarrow> hash_backend \<Rightarrow> miner_error + miner" where
  "NewMiner numCPU s d workers b =
     (let workers = effective_workers numCPU workers in
      case Validate s of
        Some e \<Rightarrow> Inl (MinerSpecError e)
      | None \<Rightarrow>
          (case hb_Prepare b d of
             Some e \<Rightarrow> Inl (PrepareError e)
           | None \<Rightarrow> Inr \<lparr>mn_spec = s, mn_dag = d, mn_workers = workers, mn_backend = b\<rparr>))"

definition result_of :: "miner \<Rightarrow> nonce option \<Rightarrow> u64 \<Rightarrow> hash_result \<Rightarrow> mine_result" where
  "result_of m n hashes h =
     \<lparr>mr_Nonce = n, mr_Hashes = hashes, mr_Hash256Hex = EncodeToString (Pow256 h),
      mr_Hash512Hex = EncodeToString (Full512 h), mr_Backend = hb_Mode (mn_backend m)\<rparr>"


section \<open>Batch mining and benchmarking\<close>

fun first_hit :: "target \<Rightarrow> nat \<Rightarrow> hash_result list \<Rightarrow> (nat \<times> hash_result) option" where
  "first_hit t i [] = None"
| "first_hit t i (h # hs) = (if LessOrEqualBE (Pow256 h) t then Some (i, h) else first_hit t (Suc i) hs)"

definition mineBatch ::
  "miner \<Rightarrow> bytes \<Rightarrow> target \<Rightarrow> nonce \<Rightarrow> u64 \<Rightarrow>
     (bytes \<Rightarrow> nonce \<Rightarrow> u64 \<Rightarrow> dag option \<Rightarrow> string + hash_result list) \<Rightarrow> mine_result option" where
  "mineBatch m header t start maxNonces batch =
     (let maxNonces = (if maxNonces = 0 then 100000 else maxNonces) in
      case batch header start maxNonces (mn_dag m) of
        Inl _ \<Rightarrow> None
      | Inr results \<Rightarrow>
          (case first_hit t 0 results of
             None \<Rightarrow> None
           | Some (i, h) \<Rightarrow> Some (result_of m (AddUint64 start (of_nat i)) (of_nat (i + 1)) h)))"

text \<open>The nonces the sequential loop of \<open>Benchmark\<close> hashes, from offset \<open>i\<close> on.\<close>

fun bench_nonces :: "nonce \<Rightarrow> nat \<Rightarrow> u64 \<Rightarrow> nonce list" where
  "bench_nonces start 0 i = []"
| "bench_nonces start (Suc k) i =
     (case AddUint64 start i of None \<Rightarrow> [] | Some n \<Rightarrow> n # bench_nonces start k (i + 1))"

text \<open>The result, and the hashes the call asked the backend for.\<close>

definition Benchmark :: "miner \<Rightarrow> bytes \<Rightarrow> nonce \<Rightarrow> u64 \<Rightarrow> mine_result \<times> hash_result option list" where
  "Benchmark m header start maxNonces =
     (let maxNonces = (if maxNonces = 0 then 100000 else maxNonces);
          hashed = (case hb_HashBatch (mn_backend m) of
              Some batch \<Rightarrow> (case batch header start maxNonces (mn_dag m) of Inl _ \<Rightarrow> [] | Inr rs \<Rightarrow> map Some rs)
            | None \<Rightarrow> map (\<lambda>n. hb_Hash (mn_backend m) header n (mn_dag m))
                       (bench_nonces start (unat maxNonces) 0))
      in (\<lparr>mr_Nonce = None, mr_Hashes = maxNonces, mr_Hash256Hex = [], mr_Hash512Hex = [],
           mr_Backend = hb_Mode (mn_backend m)\<rparr>, hashed))"


section \<open>The worker goroutines\<close>

datatype worker =
    Top nonce
  | Hashing nonce
  | Testing nonce hash_result
  | Sending nonce hash_result
  | Exited

record mine_state =
  ms_workers :: "worker list"
  ms_total :: u64
  ms_found :: bool
  ms_cancelled :: bool
  ms_channel :: "(nonce \<times> hash_result) option"

definition worker_start :: "nonce \<Rightarrow> nat \<Rightarrow> worker" where
  "worker_start start wid = (case AddUint64 start (of_nat wid) of None \<Rightarrow> Exited | Some n \<Rightarrow> Top n)"

definition mine_start :: "nonce \<Rightarrow> nat \<Rightarrow> mine_state" where
  "mine_start start workers =
     \<lparr>ms_workers = map (worker_start start) [0..<workers], ms_total = 0, ms_found = False,
      ms_cancelled = False, ms_channel = None\<rparr>"

definition limit_reached :: "nonce \<Rightarrow> u64 \<Rightarrow> nonce \<Rightarrow> bool" where
  "limit_reached start maxNonces n \<longleftrightarrow> 0 < maxNonces \<and> n - start \<ge> maxNonces"

text \<open>The next action of a worker.  \<open>hash\<close> is the backend's hash of the header on the miner's DAG,
  \<open>step\<close> the number of workers.  A send on the full channel blocks.\<close>

inductive mine_step ::
  "(nonce \<Rightarrow> hash_result option) \<Rightarrow> target \<Rightarrow> nonce \<Rightarrow> u64 \<Rightarrow> u64 \<Rightarrow> mine_state \<Rightarrow> mine_state \<Rightarrow> bool"
  for hash :: "nonce \<Rightarrow> hash_result option" and t :: target and start :: nonce and maxNonces step :: u64
where
  stop: "k < length (ms_workers st) \<Longrightarrow> ms_workers st ! k = Top n \<Longrightarrow>
    ms_cancelled st \<or> ms_found st \<or> limit_reached start maxNonces n \<Longrightarrow>
    mine_step hash t start maxNonces step st (st\<lparr>ms_workers := (ms_workers st)[k := Exited]\<rparr>)"
| go: "k < length (ms_workers st) \<Longrightarrow> ms_workers st ! k = Top n \<Longrightarrow>
    \<not> (ms_cancelled st \<or> ms_found st \<or> limit_reached start maxNonces n) \<Longrightarrow>
    mine_step hash t start maxNonces step st (st\<lparr>ms_workers := (ms_workers st)[k := Hashing n]\<rparr>)"
| hash: "k < length (ms_workers st) \<Longrightarrow> ms_workers st ! k = Hashing n \<Longrightarrow> hash n = Some h \<Longrightarrow>
    mine_step hash t start maxNonces step st
      (st\<lparr>ms_workers := (ms_workers st)[k := Testing n h], ms_total := ms_total st + 1\<rparr>)"
| swap: "k < length (ms_workers st) \<Longrightarrow> ms_workers st ! k = Testing n h \<Longrightarrow>
    LessOrEqualBE (Pow256 h) t \<Longrightarrow> \<not> ms_found st \<Longrightarrow>
    mine_step hash t start maxNonces step st
      (st\<lparr>ms_workers := (ms_workers st)[k := Sending n h], ms_found := True\<rparr>)"
| late: "k < length (ms_workers st) \<Longrightarrow> ms_workers st ! k = Testing n h \<Longrightarrow>
    LessOrEqualBE (Pow256 h) t \<Longrightarrow> ms_found st \<Longrightarrow>
    mine_step hash t start maxNonces step st (st\<lparr>ms_workers := (ms_workers st)[k := Exited]\<rparr>)"
| send: "k < length (ms_workers st) \<Longrightarrow> ms_workers st ! k = Sending n h \<Longrightarrow> ms_channel st = None \<Longrightarrow>
    mine_step hash t start maxNonces step st
      (st\<lparr>ms_workers := (ms_workers st)[k := Exited], ms_channel := Some (n, h), ms_cancelled := True\<rparr>)"
| miss: "k < length (ms_workers st) \<Longrightarrow> ms_workers st ! k = Testing n h \<Longrightarrow>
    \<not> LessOrEqualBE (Pow256 h) t \<Longrightarrow>
    mine_step hash t start maxNonces step st
      (st\<lparr>ms_workers := (ms_workers st)[k :=
         (case AddUint64 n step of None \<Rightarrow> Exited | Some n' \<Rightarrow> Top n')]\<rparr>)"

abbreviation mine_steps ::
  "(nonce \<Rightarrow> hash_result option) \<Rightarrow> target \<Rightarrow> nonce \<Rightarrow> u64 \<Rightarrow> u64 \<Rightarrow> mine_state \<Rightarrow> mine_state \<Rightarrow> bool" where
  "mine_steps hash t start maxNonces step \<equiv> (mine_step hash t start maxNonces step)\<^sup>*\<^sup>*"

text \<open>What the receive from the channel yields: nothing yet, closed, or the result.\<close>

definition all_exited :: "mine_state \<Rightarrow> bool" where
  "all_exited st \<longleftrightarrow> list_all (\<lambda>w. w = Exited) (ms_workers st)"

definition mine_outcome :: "mine_state \<Rightarrow> (nonce \<times> hash_result) option option" where
  "mine_outcome st =
     (case ms_channel st of
        Some msg \<Rightarrow> Some (Some msg)
      | None \<Rightarrow> if all_exited st then Some None else None)"

text \<open>The return values \<open>Mine\<close> can have.\<close>

inductive Mine :: "miner \<Rightarrow> bytes \<Rightarrow> target \<Rightarrow> nonce \<Rightarrow> u64 \<Rightarrow> mine_result option \<Rightarrow> bool"
  for m :: miner and header :: bytes and t :: target and start :: nonce and maxNonces :: u64
where
  batch: "hb_HashBatch (mn_backend m) = Some b \<Longrightarrow>
    Mine m header t start maxNonces (mineBatch m header t start maxNonces b)"
| found: "hb_HashBatch (mn_backend m) = None \<Longrightarrow>
    mine_steps (\<lambda>n. hb_Hash (mn_backend m) header n (mn_dag m)) t start maxNonces
      (of_nat (mn_workers m)) (mine_start start (mn_workers m)) st \<Longrightarrow>
    mine_outcome st = Some (Some (n, h)) \<Longrightarrow>
    Mine m header t start maxNonces (Some (result_of m (Some n) (ms_total st) h))"
| exhausted: "hb_HashBatch (mn_backend m) = None \<Longrightarrow>
    mine_steps (\<lambda>n. hb_Hash (mn_backend m) header n (mn_dag m)) t start maxNonces
      (of_nat (mn_workers m)) (mine_start start (mn_workers m)) st \<Longrightarrow>
    mine_outcome st = Some None \<Longrightarrow>
    Mine m header t start maxNonces None"

inductive_cases MineE: "Mine m header t start maxNonces r"

end
