(* ===== verification/MiningProofs.thy ===== *)
theory MiningProofs
  imports Mining
begin

text \<open>
  Correctness of the miner's search: a result it returns is a solution inside the range asked for, a
  search that ends without one has tried every nonce of the range, no send blocks and every run ends.
\<close>


section \<open>The invariant of the workers\<close>

definition hits :: "(nonce \<Rightarrow> hash_result option) \<Rightarrow> target \<Rightarrow> nat \<Rightarrow> bool" where
  "hits hash t x \<longleftrightarrow> (case hash (of_nat x) of None \<Rightarrow> False | Some h \<Rightarrow> LessOrEqualBE (Pow256 h) t)"

text \<open>The nonces a search may try, by number.\<close>

definition in_range :: "nonce \<Rightarrow> u64 \<Rightarrow> nat \<Rightarrow> bool" where
  "in_range start maxNonces x \<longleftrightarrow>
     unat start \<le> x \<and> x < 2 ^ 64 \<and> (maxNonces = 0 \<or> x - unat start < unat maxNonces)"

text \<open>Worker \<open>k\<close> of \<open>W\<close> is about to treat its \<open>m\<close>-th nonce and the earlier ones have missed.\<close>

definition reached :: "(nonce \<Rightarrow> hash_result option) \<Rightarrow> target \<Rightarrow> nonce \<Rightarrow> nat \<Rightarrow> nat \<Rightarrow> nonce \<Rightarrow> bool" where
  "reached hash t start W k n \<longleftrightarrow>
     (\<exists>m. unat n = unat start + k + m * W \<and> (\<forall>j < m. \<not> hits hash t (unat start + k + j * W)))"

definition swept :: "(nonce \<Rightarrow> hash_result option) \<Rightarrow> target \<Rightarrow> nonce \<Rightarrow> u64 \<Rightarrow> nat \<Rightarrow> nat \<Rightarrow> bool" where
  "swept hash t start maxNonces W k \<longleftrightarrow>
     (\<forall>j. in_range start maxNonces (unat start + k + j * W) \<longrightarrow> \<not> hits hash t (unat start + k + j * W))"

fun worker_inv ::
  "(nonce \<Rightarrow> hash_result option) \<Rightarrow> target \<Rightarrow> nonce \<Rightarrow> u64 \<Rightarrow> nat \<Rightarrow> bool \<Rightarrow> nat \<Rightarrow> worker \<Rightarrow> bool" where
  "worker_inv hash t start maxN W found k (Top n) = reached hash t start W k n"
| "worker_inv hash t start maxN W found k (Hashing n) =
     (reached hash t start W k n \<and> in_range start maxN (unat n))"
| "worker_inv hash t start maxN W found k (Testing n h) =
     (reached hash t start W k n \<and> in_range start maxN (unat n) \<and> hash n = Some h)"
| "worker_inv hash t start maxN W found k (Sending n h) =
     (in_range start maxN (unat n) \<and> hash n = Some h \<and> hits hash t (unat n) \<and> found)"
| "worker_inv hash t start maxN W found k Exited = (found \<or> swept hash t start maxN W k)"

definition is_sending :: "worker \<Rightarrow> bool" where
  "is_sending w = (case w of Sending _ _ \<Rightarrow> True | _ \<Rightarrow> False)"

lemma is_sending_simps [simp]:
  "\<not> is_sending (Top n)" "\<not> is_sending (Hashing n)" "\<not> is_sending (Testing n h)"
  "is_sending (Sending n h)" "\<not> is_sending Exited"
  by (simp_all add: is_sending_def)

definition senders :: "mine_state \<Rightarrow> nat" where
  "senders st = length (filter is_sending (ms_workers st))"

definition mine_inv :: "(nonce \<Rightarrow> hash_result option) \<Rightarrow> target \<Rightarrow> nonce \<Rightarrow> u64 \<Rightarrow> nat \<Rightarrow> mine_state \<Rightarrow> bool" where
  "mine_inv hash t start maxN W st \<longleftrightarrow>
     length (ms_workers st) = W \<and>
     (\<forall>k < W. worker_inv hash t start maxN W (ms_found st) k (ms_workers st ! k)) \<and>
     senders st + (if ms_channel st = None then 0 else 1) = (if ms_found st then 1 else 0) \<and>
     (ms_cancelled st \<longrightarrow> ms_found st) \<and>
     (\<forall>n h. ms_channel st = Some (n, h) \<longrightarrow>
        in_range start maxN (unat n) \<and> hash n = Some h \<and> hits hash t (unat n))"

lemma worker_inv_found:
  "worker_inv hash t start maxN W False k w \<Longrightarrow> worker_inv hash t start maxN W True k w"
  by (cases w) simp_all

lemma hits_word [simp]:
  "hash n = Some h \<Longrightarrow> hits hash t (unat n) \<longleftrightarrow> LessOrEqualBE (Pow256 h) t"
  by (simp add: hits_def)

lemma hits_iff: "hits hash t (unat n) \<longleftrightarrow> (\<exists>h. hash n = Some h \<and> LessOrEqualBE (Pow256 h) t)"
  by (simp add: hits_def split: option.split)

lemma not_limit_in_range:
  assumes "reached hash t start W k n" and "\<not> limit_reached start maxN n"
  shows "in_range start maxN (unat n)"
proof -
  have le: "unat start \<le> unat n" using assms(1) by (auto simp: reached_def)
  then have "unat (n - start) = unat n - unat start" by (simp add: unat_sub word_le_nat_alt)
  then show ?thesis
    using assms(2) le unat_less64 [of n]
    by (auto simp: in_range_def limit_reached_def word_le_nat_alt word_less_nat_alt unat_gt_0)
qed

lemma limit_swept:
  assumes r: "reached hash t start W k n" and "limit_reached start maxN n"
  shows "swept hash t start maxN W k"
proof -
  obtain m where m: "unat n = unat start + k + m * W"
    "\<forall>j < m. \<not> hits hash t (unat start + k + j * W)"
    using r by (auto simp: reached_def)
  have "unat (n - start) = unat n - unat start" using m(1) by (simp add: unat_sub word_le_nat_alt)
  then have lim: "unat maxN \<le> k + m * W" "maxN \<noteq> 0"
    using assms(2) m(1) by (auto simp: limit_reached_def word_le_nat_alt)
  have "\<not> in_range start maxN (unat start + k + j * W)" if "m \<le> j" for j
  proof -
    have "m * W \<le> j * W" using that by (rule mult_le_mono1)
    then have "\<not> k + j * W < unat maxN" using lim(1) by linarith
    then show ?thesis using lim(2) by (simp add: in_range_def)
  qed
  then show ?thesis unfolding swept_def using m(2) by (meson not_le)
qed

lemma next_worker:
  assumes r: "reached hash t start W k n" and miss: "\<not> hits hash t (unat n)" and W: "W < 2 ^ 64"
  shows "worker_inv hash t start maxN W found k
    (case AddUint64 n (of_nat W) of None \<Rightarrow> Exited | Some n' \<Rightarrow> Top n')"
proof -
  obtain m where m: "unat n = unat start + k + m * W"
    "\<forall>j < m. \<not> hits hash t (unat start + k + j * W)"
    using r by (auto simp: reached_def)
  have all: "\<forall>j < Suc m. \<not> hits hash t (unat start + k + j * W)"
    using m miss by (auto simp: less_Suc_eq)
  show ?thesis
  proof (cases "AddUint64 n (of_nat W)")
    case None
    then have "2 ^ 64 \<le> unat start + k + Suc m * W"
      using m(1) W by (simp add: AddUint64_None_iff unat_of_nat64 algebra_simps)
    moreover have "unat start + k + Suc m * W \<le> unat start + k + j * W" if "Suc m \<le> j" for j
      using mult_le_mono1 [OF that, of W] by simp
    ultimately have "\<not> in_range start maxN (unat start + k + j * W)" if "Suc m \<le> j" for j
      using that by (force simp: in_range_def)
    then show ?thesis using None all by (auto simp: swept_def) (metis not_less_eq_eq not_le)
  next
    case (Some n')
    then have "unat n' = unat start + k + Suc m * W"
      using m(1) W by (simp add: AddUint64_Some_iff unat_of_nat64 algebra_simps)
    then show ?thesis using Some all by (auto simp: reached_def simp del: mult_Suc)
  qed
qed

lemma start_worker:
  assumes "k < W" "W < 2 ^ 64"
  shows "worker_inv hash t start maxN W found k (worker_start start k)"
proof (cases "AddUint64 start (of_nat k)")
  case None
  then have "2 ^ 64 \<le> unat start + k" using assms by (simp add: AddUint64_None_iff unat_of_nat64)
  then show ?thesis using None by (simp add: worker_start_def swept_def in_range_def)
next
  case (Some n)
  then have "unat n = unat start + k + 0 * W" using assms by (simp add: AddUint64_Some_iff unat_of_nat64)
  then show ?thesis using Some by (auto simp: worker_start_def reached_def)
qed

lemma mine_inv_start:
  assumes "W < 2 ^ 64" shows "mine_inv hash t start maxN W (mine_start start W)"
proof -
  have "\<not> is_sending (worker_start start k)" for k
    by (simp add: worker_start_def split: option.splits)
  then have "senders (mine_start start W) = 0" by (simp add: senders_def mine_start_def)
  then show ?thesis using start_worker assms by (simp add: mine_inv_def mine_start_def)
qed

lemma senders_update:
  assumes "k < length ws"
  shows "length (filter is_sending (ws[k := w])) + (if is_sending (ws ! k) then 1 else 0) =
    length (filter is_sending ws) + (if is_sending w then 1 else 0)"
proof -
  have "length (filter is_sending ws) = length (filter is_sending (take k ws @ ws ! k # drop (Suc k) ws))"
    using assms by (simp flip: id_take_nth_drop)
  then show ?thesis using assms by (simp add: upd_conv_take_nth_drop)
qed

text \<open>Replacing one worker keeps the others' part of the invariant.\<close>

lemma workers_update:
  assumes "\<forall>k < W. worker_inv hash t start maxN W found k (ws ! k)" and "length ws = W"
    and "worker_inv hash t start maxN W found' j w" and "found \<longrightarrow> found'"
  shows "\<forall>k < W. worker_inv hash t start maxN W found' k (ws[j := w] ! k)"
proof (intro allI impI)
  fix k assume k: "k < W"
  show "worker_inv hash t start maxN W found' k (ws[j := w] ! k)"
  proof (cases "k = j")
    case True
    then show ?thesis using assms(2,3) k by simp
  next
    case False
    then show ?thesis
      using assms(1,2,4) k worker_inv_found by (cases found; cases found') auto
  qed
qed

lemma mine_step_inv:
  assumes step: "mine_step hash t start maxN (of_nat W) st st'" and inv: "mine_inv hash t start maxN W st"
    and W: "W < 2 ^ 64"
  shows "mine_inv hash t start maxN W st'"
proof -
  have ws: "\<forall>k < W. worker_inv hash t start maxN W (ms_found st) k (ms_workers st ! k)"
    and len: "length (ms_workers st) = W"
    using inv by (simp_all add: mine_inv_def)
  have upd: "\<forall>k < W. worker_inv hash t start maxN W f k ((ms_workers st)[j := w] ! k)"
    if "worker_inv hash t start maxN W f j w" "ms_found st \<longrightarrow> f" for f j w
    using workers_update [OF ws len that] .
  show ?thesis
    using step
  proof cases
    case (stop k n)
    then have "reached hash t start W k n" using ws len by force
    then have "worker_inv hash t start maxN W (ms_found st) k Exited"
      using stop inv limit_swept by (auto simp: mine_inv_def)
    with stop inv upd [OF this] senders_update [of k "ms_workers st" Exited] show ?thesis
      by (auto simp: mine_inv_def senders_def)
  next
    case (go k n)
    then have "reached hash t start W k n" using ws len by force
    then have "worker_inv hash t start maxN W (ms_found st) k (Hashing n)"
      using go not_limit_in_range by auto
    with go inv upd [OF this] senders_update [of k "ms_workers st" "Hashing n"] show ?thesis
      by (auto simp: mine_inv_def senders_def)
  next
    case (hash k n h)
    then have "worker_inv hash t start maxN W (ms_found st) k (Testing n h)"
      using ws len by force
    with hash inv upd [OF this] senders_update [of k "ms_workers st" "Testing n h"]
    show ?thesis by (auto simp: mine_inv_def senders_def)
  next
    case (swap k n h)
    then have "worker_inv hash t start maxN W True k (Sending n h)"
      using ws len by force
    with swap inv upd [OF this] senders_update [of k "ms_workers st" "Sending n h"] show ?thesis
      by (auto simp: mine_inv_def senders_def split: if_splits)
  next
    case (late k n h)
    then have "worker_inv hash t start maxN W (ms_found st) k Exited" by simp
    with late inv upd [OF this] senders_update [of k "ms_workers st" Exited] show ?thesis
      by (auto simp: mine_inv_def senders_def)
  next
    case (send k n h)
    then have s: "worker_inv hash t start maxN W (ms_found st) k (Sending n h)" using ws len by force
    then have "worker_inv hash t start maxN W (ms_found st) k Exited" by simp
    with send inv s upd [OF this] senders_update [of k "ms_workers st" Exited] show ?thesis
      by (auto simp: mine_inv_def senders_def)
  next
    case (miss k n h)
    let ?w = "case AddUint64 n (of_nat W) of None \<Rightarrow> Exited | Some n' \<Rightarrow> Top n'"
    have "worker_inv hash t start maxN W (ms_found st) k (Testing n h)" using miss ws len by force
    then have "worker_inv hash t start maxN W (ms_found st) k ?w"
      using miss by (intro next_worker W) auto
    moreover have "\<not> is_sending ?w" by (simp split: option.splits)
    ultimately show ?thesis
      using miss inv upd [of "ms_found st" k ?w] senders_update [of k "ms_workers st" ?w]
      by (auto simp: mine_inv_def senders_def)
  qed
qed

lemma mine_steps_inv:
  assumes "mine_steps hash t start maxN (of_nat W) (mine_start start W) st" and "W < 2 ^ 64"
  shows "mine_inv hash t start maxN W st"
  using assms(1)
  by (induction rule: rtranclp_induct) (auto intro: mine_inv_start mine_step_inv assms(2))


section \<open>Progress and termination\<close>

fun worker_left :: "worker \<Rightarrow> nat" where
  "worker_left (Top n) = 4 * (2 ^ 64 - unat n) + 4"
| "worker_left (Hashing n) = 4 * (2 ^ 64 - unat n) + 3"
| "worker_left (Testing n h) = 4 * (2 ^ 64 - unat n) + 2"
| "worker_left (Sending n h) = 1"
| "worker_left Exited = 0"

definition mine_left :: "mine_state \<Rightarrow> nat" where
  "mine_left st = sum_list (map worker_left (ms_workers st))"

lemma sum_list_replace:
  fixes f :: "'a \<Rightarrow> nat"
  assumes "k < length xs" and "f x < f (xs ! k)"
  shows "sum_list (map f (xs[k := x])) < sum_list (map f xs)"
proof -
  have "f (xs ! k) \<le> sum_list (map f xs)" using assms(1) by (intro member_le_sum_list) simp_all
  then show ?thesis using assms by (simp add: map_update sum_list_update)
qed

lemma next_left:
  assumes "0 < W" "W < 2 ^ 64"
  shows "worker_left (case AddUint64 n (of_nat W) of None \<Rightarrow> Exited | Some n' \<Rightarrow> Top n') <
    worker_left (Testing n h)"
proof (cases "AddUint64 n (of_nat W)")
  case (Some n')
  then have "unat n' = unat n + W" using assms by (simp add: AddUint64_Some_iff unat_of_nat64)
  then show ?thesis using Some assms unat_less64 [of n'] by simp
qed simp

lemma mine_step_left:
  assumes step: "mine_step hash t start maxN (of_nat W) st st'" and W: "0 < W" "W < 2 ^ 64"
  shows "mine_left st' < mine_left st"
  using step
proof cases
  case (miss k n h)
  then show ?thesis
    using next_left [OF W, of n h] by (auto simp: mine_left_def intro!: sum_list_replace)
qed (auto simp: mine_left_def intro!: sum_list_replace)

lemma mine_progress:
  assumes inv: "mine_inv hash t start maxN W st" and busy: "\<not> all_exited st"
    and total: "\<forall>n. hash n \<noteq> None"
  shows "\<exists>st'. mine_step hash t start maxN (of_nat W) st st'"
proof -
  obtain k where k: "k < length (ms_workers st)" "ms_workers st ! k \<noteq> Exited"
    using busy by (auto simp: all_exited_def list_all_length)
  show ?thesis
  proof (cases "ms_workers st ! k")
    case (Top n)
    then show ?thesis using k mine_step.stop mine_step.go by blast
  next
    case (Hashing n)
    moreover obtain h where "hash n = Some h" using total by blast
    ultimately show ?thesis using k mine_step.hash by blast
  next
    case (Testing n h)
    consider "\<not> LessOrEqualBE (Pow256 h) t" | "LessOrEqualBE (Pow256 h) t" "\<not> ms_found st"
      | "LessOrEqualBE (Pow256 h) t" "ms_found st" by blast
    then show ?thesis
      using mine_step.miss [OF k(1) Testing] mine_step.swap [OF k(1) Testing]
        mine_step.late [OF k(1) Testing] by cases blast+
  next
    case (Sending n h)
    then have "ms_workers st ! k \<in> set (filter is_sending (ms_workers st))"
      using nth_mem [OF k(1)] by simp
    then have "0 < senders st" unfolding senders_def by (rule length_pos_if_in_set)
    then have "ms_channel st = None"
      using inv by (auto simp: mine_inv_def split: if_splits)
    then show ?thesis using k Sending mine_step.send by blast
  qed (use k in simp)
qed

lemma mine_run:
  assumes "0 < W" "W < 2 ^ 64" and total: "\<forall>n. hash n \<noteq> None"
  shows "\<exists>st. mine_steps hash t start maxN (of_nat W) (mine_start start W) st \<and> all_exited st"
proof -
  let ?step = "mine_step hash t start maxN (of_nat W)"
  have step: "\<forall>s s'. mine_inv hash t start maxN W s \<and> ?step s s' \<longrightarrow>
      mine_inv hash t start maxN W s' \<and> mine_left s' < mine_left s"
    using mine_step_inv mine_step_left assms(1,2) by blast
  have progress: "\<forall>s. mine_inv hash t start maxN W s \<and> \<not> all_exited s \<longrightarrow> (\<exists>s'. ?step s s')"
    using mine_progress [OF _ _ total] by blast
  show ?thesis
    using measure_run [where m = mine_left, OF step progress mine_inv_start [OF assms(2)]] by blast
qed


section \<open>The result of a search\<close>

text \<open>Every nonce of the range belongs to one worker.\<close>

lemma swept_all:
  assumes "\<forall>k < W. swept hash t start maxN W k" and "0 < W" and x: "in_range start maxN x"
  shows "\<not> hits hash t x"
proof -
  let ?d = "x - unat start"
  have "x = unat start + ?d mod W + ?d div W * W" using x by (simp add: in_range_def)
  moreover have "?d mod W < W" using assms(2) by simp
  ultimately show ?thesis using assms(1) x unfolding swept_def by metis
qed

lemma outcome_correct:
  assumes inv: "mine_inv hash t start maxN W st" and W: "0 < W" and out: "mine_outcome st = Some r"
  shows "case r of
      Some (n, h) \<Rightarrow> in_range start maxN (unat n) \<and> hash n = Some h \<and> hits hash t (unat n)
    | None \<Rightarrow> \<forall>x. in_range start maxN x \<longrightarrow> \<not> hits hash t x"
proof (cases "ms_channel st")
  case None
  then have fin: "all_exited st" and r: "r = None"
    using out by (simp_all add: mine_outcome_def split: if_splits)
  have ex: "ms_workers st ! k = Exited" if "k < W" for k
    using fin that inv by (simp add: all_exited_def list_all_length mine_inv_def)
  have "senders st = 0" using fin by (auto simp: senders_def all_exited_def list_all_iff filter_empty_conv)
  then have "\<not> ms_found st" using inv None by (auto simp: mine_inv_def split: if_splits)
  then have "\<forall>k < W. swept hash t start maxN W k" using inv ex by (auto simp: mine_inv_def)
  then show ?thesis using swept_all W r by fastforce
next
  case (Some msg)
  then have "r = Some msg" using out by (simp add: mine_outcome_def)
  then show ?thesis using inv Some by (cases msg) (simp add: mine_inv_def)
qed

lemma Mine_correct:
  assumes mine: "Mine m header t start maxN r" and nb: "hb_HashBatch (mn_backend m) = None"
    and W: "0 < mn_workers m" "mn_workers m < 2 ^ 64"
  shows "case r of
      Some res \<Rightarrow> \<exists>n total h. res = result_of m (Some n) total h \<and> in_range start maxN (unat n) \<and>
        hb_Hash (mn_backend m) header n (mn_dag m) = Some h \<and> LessOrEqualBE (Pow256 h) t
    | None \<Rightarrow> \<forall>x. in_range start maxN x \<longrightarrow>
        \<not> hits (\<lambda>n. hb_Hash (mn_backend m) header n (mn_dag m)) t x"
  using mine
proof cases
  case (found st n h)
  have "in_range start maxN (unat n) \<and> hb_Hash (mn_backend m) header n (mn_dag m) = Some h \<and>
      LessOrEqualBE (Pow256 h) t"
    using outcome_correct [OF mine_steps_inv [OF found(3) W(2)] W(1) found(4)] by auto
  then show ?thesis unfolding found(1) option.case by blast
next
  case (exhausted st)
  from outcome_correct [OF mine_steps_inv [OF exhausted(3) W(2)] W(1) exhausted(4)] exhausted(1)
  show ?thesis by auto
qed (use nb in simp)

lemma Mine_returns:
  assumes W: "0 < mn_workers m" "mn_workers m < 2 ^ 64"
    and total: "\<forall>n. hb_Hash (mn_backend m) header n (mn_dag m) \<noteq> None"
  shows "\<exists>r. Mine m header t start maxN r"
proof (cases "hb_HashBatch (mn_backend m)")
  case (Some b)
  then show ?thesis by (blast intro: Mine.batch)
next
  case None
  let ?hash = "\<lambda>n. hb_Hash (mn_backend m) header n (mn_dag m)"
  obtain st where st: "mine_steps ?hash t start maxN (of_nat (mn_workers m))
      (mine_start start (mn_workers m)) st" "all_exited st"
    using mine_run [OF W total] by blast
  show ?thesis
  proof (cases "ms_channel st")
    case None
    then have "mine_outcome st = Some None" using st(2) by (simp add: mine_outcome_def)
    then show ?thesis using Mine.exhausted [OF \<open>hb_HashBatch _ = None\<close> st(1)] by blast
  next
    case (Some msg)
    then have "mine_outcome st = Some (Some (fst msg, snd msg))" by (simp add: mine_outcome_def)
    then show ?thesis using Mine.found [OF None st(1)] by blast
  qed
qed


section \<open>Batches\<close>

text \<open>The results a correct batch backend returns: one per nonce, up to the count or to the last
  nonce there is.\<close>

definition batch_results :: "(nonce \<Rightarrow> hash_result) \<Rightarrow> nonce \<Rightarrow> u64 \<Rightarrow> hash_result list" where
  "batch_results hash start count =
     map (\<lambda>i. hash (of_nat (unat start + i))) [0..<min (unat count) (2 ^ 64 - unat start)]"

lemma first_hit_None: "first_hit t i hs = None \<longleftrightarrow> (\<forall>j < length hs. \<not> LessOrEqualBE (Pow256 (hs ! j)) t)"
  by (induction t i hs rule: first_hit.induct) (auto simp: nth_Cons less_Suc_eq_0_disj split: nat.split)

lemma first_hit_Some:
  "first_hit t i hs = Some (k, h) \<Longrightarrow> i \<le> k \<and> k - i < length hs \<and> h = hs ! (k - i) \<and>
     LessOrEqualBE (Pow256 h) t \<and> (\<forall>j < k - i. \<not> LessOrEqualBE (Pow256 (hs ! j)) t)"
proof (induction t i hs rule: first_hit.induct)
  case (1 t i)
  then show ?case by simp
next
  case (2 t i h' hs)
  show ?case
  proof (cases "LessOrEqualBE (Pow256 h') t")
    case True
    then show ?thesis using 2(2) by simp
  next
    case False
    then have "first_hit t (Suc i) hs = Some (k, h)" using 2(2) by simp
    note ih = 2(1) [OF False this]
    have k: "k - i = Suc (k - Suc i)" using ih by auto
    show ?thesis
      unfolding k using ih False by (auto simp: less_Suc_eq_0_disj)
  qed
qed

definition batch_count :: "u64 \<Rightarrow> u64" where
  "batch_count maxNonces = (if maxNonces = 0 then 100000 else maxNonces)"

lemma batch_count_nonzero [simp]: "batch_count c \<noteq> 0"
  by (simp add: batch_count_def)

lemma batch_range:
  "in_range start (batch_count c) x \<longleftrightarrow>
     (\<exists>i < length (batch_results hash start (batch_count c)). x = unat start + i)"
  using unat_less64 [of start]
  by (auto simp: in_range_def batch_results_def intro!: exI [of _ "x - unat start"])


section \<open>Properties\<close>

text \<open>C31: What the parallel search returns is a solution: whatever the interleaving of the workers,
  the nonce of the result lies in the range asked for without wrapping, the digests reported are the
  backend's hash at that nonce, and the hash meets the target.\<close>

theorem mine_sound:
  assumes "Mine m header t start maxN (Some r)" and "hb_HashBatch (mn_backend m) = None"
    and "0 < mn_workers m" "mn_workers m < 2 ^ 63"
  shows "\<exists>n h. mr_Nonce r = Some n \<and> in_range start maxN (unat n) \<and>
    hb_Hash (mn_backend m) header n (mn_dag m) = Some h \<and> LessOrEqualBE (Pow256 h) t \<and>
    mr_Hash256Hex r = EncodeToString (Pow256 h) \<and> mr_Hash512Hex r = EncodeToString (Full512 h)"
proof -
  have "mn_workers m < 2 ^ 64" using assms(4) by simp
  from Mine_correct [OF assms(1-3) this] show ?thesis by (auto simp: result_of_def)
qed

text \<open>A miner whose backend finds a solution at nonce 9 only.\<close>

definition sample_backend :: hash_backend where
  "sample_backend = \<lparr>hb_Mode = ''cpu'', hb_Description = ''sample'', hb_Prepare = (\<lambda>_. None),
     hb_Hash = (\<lambda>_ n _. Some \<lparr>Pow256 = replicate 32 (if n = 9 then 0 else 2), Full512 = replicate 64 0\<rparr>),
     hb_HashBatch = None\<rparr>"

definition sample_miner :: miner where
  "sample_miner = \<lparr>mn_spec = tiny_spec, mn_dag = None, mn_workers = 3, mn_backend = sample_backend\<rparr>"

lemma sample_miner_simps [simp]:
  "mn_workers sample_miner = 3" "hb_HashBatch (mn_backend sample_miner) = None"
  "hb_Hash (mn_backend sample_miner) header n d =
     Some \<lparr>Pow256 = replicate 32 (if n = 9 then 0 else 2), Full512 = replicate 64 0\<rparr>"
  "hb_HashBatch sample_backend = None"
  by (simp_all add: sample_miner_def sample_backend_def)

lemma sample_hit: "LessOrEqualBE (replicate 32 (if n = 9 then 0 else 2)) (replicate 32 1) \<longleftrightarrow> n = (9 :: nonce)"
  by (cases "n = 9") (simp_all add: numeral_eq_Suc)

theorem mine_sound_witness:
  "\<exists>r. Mine sample_miner [] (replicate 32 1) 5 20 (Some r) \<and> mr_Nonce r = Some 9"
proof -
  have W: "0 < mn_workers sample_miner" "mn_workers sample_miner < 2 ^ 64"
    "mn_workers sample_miner < 2 ^ 63" by simp_all
  obtain r where r: "Mine sample_miner [] (replicate 32 1) 5 20 r" using Mine_returns [OF W(1,2)] by fastforce
  have "r \<noteq> None"
  proof
    assume "r = None"
    then have "\<not> in_range 5 20 9" using Mine_correct [OF r _ W(1,2)]
      by (auto simp: hits_def sample_hit)
    then show False by (simp add: in_range_def)
  qed
  then obtain res where res: "Mine sample_miner [] (replicate 32 1) 5 20 (Some res)" using r by auto
  from mine_sound [OF res _ W(1,3)] have "mr_Nonce res = Some 9" by (auto simp: sample_hit)
  with res show ?thesis by blast
qed

text \<open>C32: A search that gives up has looked everywhere: when \<open>Mine\<close> returns without a result, no nonce of
  the range, of the number asked for or up to the largest nonce, meets the target.\<close>

theorem mine_complete:
  assumes "Mine m header t start maxN None" and "hb_HashBatch (mn_backend m) = None"
    and "0 < mn_workers m" "mn_workers m < 2 ^ 63"
    and "in_range start maxN (unat n)"
  shows "hb_Hash (mn_backend m) header n (mn_dag m) = Some h \<Longrightarrow> \<not> LessOrEqualBE (Pow256 h) t"
proof -
  have "mn_workers m < 2 ^ 64" using assms(4) by simp
  from Mine_correct [OF assms(1-3) this] assms(5) show "\<not> LessOrEqualBE (Pow256 h) t"
    if "hb_Hash (mn_backend m) header n (mn_dag m) = Some h" using that by (auto simp: hits_iff)
qed

theorem mine_complete_witness:
  "Mine sample_miner [] (replicate 32 1) 10 20 None \<and> in_range 10 20 (unat (12 :: nonce)) \<and>
   \<not> LessOrEqualBE (Pow256 (the (hb_Hash (mn_backend sample_miner) [] 12 None))) (replicate 32 1)"
proof -
  have W: "0 < mn_workers sample_miner" "mn_workers sample_miner < 2 ^ 64"
    "mn_workers sample_miner < 2 ^ 63" by simp_all
  obtain r where r: "Mine sample_miner [] (replicate 32 1) 10 20 r" using Mine_returns [OF W(1,2)] by fastforce
  have "\<not> in_range 10 20 (unat (9 :: nonce))" by (simp add: in_range_def)
  then have "r = None" using Mine_correct [OF r _ W(1,2)] by (cases r) (auto simp: sample_hit)
  then have n: "Mine sample_miner [] (replicate 32 1) 10 20 None" using r by simp
  have i: "in_range 10 20 (unat (12 :: nonce))" by (simp add: in_range_def)
  have d: "mn_dag sample_miner = None" by (simp add: sample_miner_def)
  from mine_complete [OF n _ W(1,3) i] n i show ?thesis by (simp add: d)
qed

text \<open>C33: The search always returns.  As long as a worker is running some worker can act, so neither
  the compare-and-swap nor the send on the result channel can block, every action brings the end
  nearer, and so \<open>Mine\<close> has a return value for every target and range, provided the backend's hash does not panic.\<close>

theorem mine_returns:
  assumes W: "0 < mn_workers m" "mn_workers m < 2 ^ 63"
    and hash: "hash = (\<lambda>n. hb_Hash (mn_backend m) header n (mn_dag m))" and total: "\<forall>n. hash n \<noteq> None"
  shows "(\<exists>r. Mine m header t start maxN r) \<and>
    (\<forall>st. mine_steps hash t start maxN (of_nat (mn_workers m)) (mine_start start (mn_workers m)) st \<longrightarrow>
       (all_exited st \<or> (\<exists>st'. mine_step hash t start maxN (of_nat (mn_workers m)) st st')) \<and>
       (\<forall>st'. mine_step hash t start maxN (of_nat (mn_workers m)) st st' \<longrightarrow> mine_left st' < mine_left st))"
proof -
  have W': "mn_workers m < 2 ^ 64" using W by simp
  show ?thesis
    using Mine_returns [OF W(1) W' total [unfolded hash]] mine_progress [OF mine_steps_inv [OF _ W'] _ total]
      mine_step_left [OF _ W(1) W'] by blast
qed

theorem mine_returns_witness:
  "\<exists>r. Mine sample_miner [] (replicate 32 1) 0 0 r"
  using mine_returns [of sample_miner "\<lambda>n. hb_Hash (mn_backend sample_miner) [] n (mn_dag sample_miner)"]
  by simp

text \<open>Batch mining returns the first solution: over a backend that hashes the nonces of the
  batch in order, the result has the smallest nonce of the range that meets the target and counts the
  hashes up to it, and there is no result exactly when no nonce of the range meets the target.\<close>

theorem mine_batch_first:
  assumes b: "batch header start (batch_count maxN) (mn_dag m) =
      Inr (batch_results hash start (batch_count maxN))"
  shows "case mineBatch m header t start maxN batch of
      None \<Rightarrow> \<forall>x. in_range start (batch_count maxN) x \<longrightarrow> \<not> hits (Some \<circ> hash) t x
    | Some r \<Rightarrow> \<exists>x. in_range start (batch_count maxN) x \<and> hits (Some \<circ> hash) t x \<and>
        (\<forall>y < x. in_range start (batch_count maxN) y \<longrightarrow> \<not> hits (Some \<circ> hash) t y) \<and>
        r = result_of m (Some (of_nat x)) (of_nat (x - unat start + 1)) (hash (of_nat x))"
proof -
  let ?rs = "batch_results hash start (batch_count maxN)"
  note range = batch_range [of start maxN _ hash]
  have nth: "?rs ! i = hash (of_nat (unat start + i))" if "i < length ?rs" for i
    using that by (simp add: batch_results_def)
  have mb: "mineBatch m header t start maxN batch = (case first_hit t 0 ?rs of None \<Rightarrow> None
      | Some (i, h) \<Rightarrow> Some (result_of m (AddUint64 start (of_nat i)) (of_nat (i + 1)) h))"
    using b by (simp add: mineBatch_def Let_def batch_count_def split: if_splits)
  show ?thesis
  proof (cases "first_hit t 0 ?rs")
    case None
    then have "\<forall>j < length ?rs. \<not> LessOrEqualBE (Pow256 (?rs ! j)) t" by (simp add: first_hit_None)
    then show ?thesis using nth by (auto simp: mb None range hits_def)
  next
    case (Some p)
    then obtain i h where p: "first_hit t 0 ?rs = Some (i, h)" by (cases p) auto
    from first_hit_Some [OF p] have i: "i < length ?rs" "h = ?rs ! i" "LessOrEqualBE (Pow256 h) t"
      "\<forall>j < i. \<not> LessOrEqualBE (Pow256 (?rs ! j)) t" by auto
    have less: "unat start + i < 2 ^ 64" using i(1) unat_less64 [of start] by (auto simp: batch_results_def)
    have "AddUint64 start (of_nat i) = Some (of_nat (unat start + i))"
      using less unat_of_nat64 [of "unat start + i"] unat_of_nat64 [of i]
      by (simp only: AddUint64_Some_iff)
    moreover have "in_range start (batch_count maxN) (unat start + i)" using i(1) range by blast
    moreover have "hits (Some \<circ> hash) t (unat start + i)" using i nth by (simp add: hits_def)
    moreover have "\<not> hits (Some \<circ> hash) t y" if "y < unat start + i" "in_range start (batch_count maxN) y" for y
      using that i(4) nth by (auto simp: range hits_def)
    ultimately show ?thesis unfolding mb using p i nth by auto
  qed
qed

theorem mine_batch_first_witness:
  "\<exists>r. mineBatch sample_miner [] (replicate 32 1) 5 20
      (\<lambda>header start count d. Inr (batch_results (\<lambda>n. the (hb_Hash sample_backend header n d)) start count)) =
        Some r \<and> mr_Nonce r = Some 9 \<and> mr_Hashes r = 5"
proof -
  let ?hash = "\<lambda>n. the (hb_Hash sample_backend [] n None)"
  let ?batch = "\<lambda>header start count d.
    Inr (batch_results (\<lambda>n. the (hb_Hash sample_backend header n d)) start count) :: string + hash_result list"
  have hash: "LessOrEqualBE (Pow256 (?hash n)) (replicate 32 1) \<longleftrightarrow> n = 9" for n
    using sample_hit by (simp add: sample_backend_def)
  have b: "?batch [] 5 (batch_count 20) (mn_dag sample_miner) = Inr (batch_results ?hash 5 (batch_count 20))"
    by (simp add: sample_miner_def)
  have c: "batch_count 20 = 20" by (simp add: batch_count_def)
  have nine: "hits (Some \<circ> ?hash) (replicate 32 1) x \<longleftrightarrow> x = 9" if "x < 2 ^ 64" for x
    using that by (auto simp: hits_def hash word_unat_eq_iff unat_of_nat64)
  have r9: "in_range 5 20 9" by (simp add: in_range_def)
  show ?thesis
  proof (cases "mineBatch sample_miner [] (replicate 32 1) 5 20 ?batch")
    case None
    with mine_batch_first [where batch = ?batch and hash = ?hash, OF b, of "replicate 32 1"] r9 nine [of 9] c show ?thesis by simp
  next
    case (Some r)
    with mine_batch_first [where batch = ?batch and hash = ?hash, OF b, of "replicate 32 1"] c obtain x where
      x: "in_range 5 20 x" "hits (Some \<circ> ?hash) (replicate 32 1) x"
        "r = result_of sample_miner (Some (of_nat x)) (of_nat (x - 5 + 1)) (?hash (of_nat x))"
      by auto
    then have "x = 9" using nine [of x] by (simp add: in_range_def)
    then show ?thesis using Some x by (simp add: result_of_def)
  qed
qed

end
