(* ===== verification/Decimal.thy ===== *)
theory Decimal
  imports CX_Prelude "HOL-Library.List_Lexorder" "HOL-Library.Char_ord"
begin

text \<open>
  Decimal numerals as the program prints and reads them: \<open>strconv.FormatUint\<close>, \<open>strconv.ParseUint\<close>
  with base 10 and 64 bits, and \<open>String\<close> and \<open>SetString\<close> of \<open>big.Int\<close> with base 10.  Strings are
  ordered by their bytes, as Go's \<open><\<close> and \<open>sort.Strings\<close> order them.
\<close>


section \<open>Digits\<close>

definition digit_char :: "nat \<Rightarrow> char" where
  "digit_char d = char_of (48 + d)"

definition char_digit :: "char \<Rightarrow> nat option" where
  "char_digit c = (let k = of_char c in if 48 \<le> k \<and> k < 58 then Some (k - 48) else None)"

lemma char_digit_digit [simp]: "d < 10 \<Longrightarrow> char_digit (digit_char d) = Some d"
  by (simp add: char_digit_def digit_char_def)

fun digits :: "nat \<Rightarrow> string" where
  "digits n = (if n < 10 then [digit_char n] else digits (n div 10) @ [digit_char (n mod 10)])"

declare digits.simps [simp del]

fun undigits :: "nat \<Rightarrow> string \<Rightarrow> nat option" where
  "undigits acc [] = Some acc"
| "undigits acc (c # cs) =
     (case char_digit c of None \<Rightarrow> None | Some d \<Rightarrow> undigits (10 * acc + d) cs)"

lemma undigits_append:
  "undigits acc (xs @ ys) = (case undigits acc xs of None \<Rightarrow> None | Some a \<Rightarrow> undigits a ys)"
  by (induction acc xs rule: undigits.induct) (simp_all split: option.splits)

lemma undigits_digits [simp]: "undigits 0 (digits n) = Some n"
proof (induction n rule: digits.induct)
  case (1 n)
  then show ?case
    by (cases "n < 10") (simp_all add: digits.simps [of n] undigits_append)
qed

lemma digits_nonempty [simp]: "digits n \<noteq> []"
  by (subst digits.simps) simp

lemma hd_digits: "\<exists>d < 10. hd (digits n) = digit_char d"
proof (induction n rule: digits.induct)
  case (1 n)
  then show ?case
    by (cases "n < 10") (simp_all add: digits.simps [of n], blast)
qed

lemma digits_sign [simp]: "hd (digits n) \<noteq> CHR ''-''" "hd (digits n) \<noteq> CHR ''+''"
proof -
  obtain d where d: "d < 10" "hd (digits n) = digit_char d" using hd_digits by blast
  have "char_digit (hd (digits n)) \<noteq> None" using d by simp
  moreover have "char_digit CHR ''-'' = None" "char_digit CHR ''+'' = None"
    by (simp_all add: char_digit_def)
  ultimately show "hd (digits n) \<noteq> CHR ''-''" "hd (digits n) \<noteq> CHR ''+''" by metis+
qed


section \<open>64-bit numbers and big integers\<close>

definition FormatUint :: "u64 \<Rightarrow> string" where
  "FormatUint w = digits (unat w)"

definition ParseUint :: "string \<Rightarrow> u64 option" where
  "ParseUint s =
     (if s = [] then None
      else case undigits 0 s of
          None \<Rightarrow> None
        | Some n \<Rightarrow> if n < 2 ^ 64 then Some (of_nat n) else None)"

definition big_String :: "int \<Rightarrow> string" where
  "big_String z = (if z < 0 then CHR ''-'' # digits (nat (- z)) else digits (nat z))"

definition big_SetString :: "string \<Rightarrow> int option" where
  "big_SetString s =
     (let body = (if s \<noteq> [] \<and> (hd s = CHR ''-'' \<or> hd s = CHR ''+'') then tl s else s)
      in if body = [] then None
         else case undigits 0 body of
             None \<Rightarrow> None
           | Some n \<Rightarrow> Some (if hd s = CHR ''-'' then - int n else int n))"

lemma Parse_Format [simp]: "ParseUint (FormatUint w) = Some w"
  using unat_less64 [of w] by (simp add: ParseUint_def FormatUint_def)

lemma FormatUint_inj [simp]: "FormatUint a = FormatUint b \<longleftrightarrow> a = b"
  by (metis Parse_Format option.inject)

lemma SetString_String [simp]: "big_SetString (big_String z) = Some z"
  by (auto simp: big_SetString_def big_String_def Let_def)

lemma big_String_nonempty [simp]: "big_String z \<noteq> []"
  by (simp add: big_String_def)

end
