(* ===== verification/Strings.thy ===== *)
theory Strings
  imports CX_Prelude "HOL-Library.Sublist"
begin

text \<open>
  The functions of Go's \<open>strings\<close> package the program uses, on the ASCII strings it uses them for:
  \<open>ToLower\<close>, \<open>TrimSpace\<close>, \<open>Contains\<close> and \<open>Split\<close> at a comma.
\<close>

definition lower_char :: "char \<Rightarrow> char" where
  "lower_char c = (let k = of_char c :: nat in if 65 \<le> k \<and> k \<le> 90 then char_of (k + 32) else c)"

definition ToLower :: "string \<Rightarrow> string" where
  "ToLower s = map lower_char s"

definition is_space :: "char \<Rightarrow> bool" where
  "is_space c = (let k = of_char c :: nat in k = 32 \<or> 9 \<le> k \<and> k \<le> 13)"

definition TrimSpace :: "string \<Rightarrow> string" where
  "TrimSpace s = rev (dropWhile is_space (rev (dropWhile is_space s)))"

definition Contains :: "string \<Rightarrow> string \<Rightarrow> bool" where
  "Contains s sub = list_ex (prefix sub) (suffixes s)"

text \<open>Splitting at every occurrence of one character.\<close>

fun split_char :: "char \<Rightarrow> string \<Rightarrow> string list" where
  "split_char sep [] = [[]]"
| "split_char sep (c # cs) =
     (if c = sep then [] # split_char sep cs
      else case split_char sep cs of [] \<Rightarrow> [[c]] | p # ps \<Rightarrow> (c # p) # ps)"

lemma Contains_iff: "Contains s sub \<longleftrightarrow> (\<exists>a b. s = a @ sub @ b)"
proof
  assume "Contains s sub"
  then obtain x where "suffix x s" "prefix sub x" by (auto simp: Contains_def list_ex_iff)
  then show "\<exists>a b. s = a @ sub @ b" by (auto simp: suffix_def prefix_def)
next
  assume "\<exists>a b. s = a @ sub @ b"
  then obtain a b where "s = a @ sub @ b" by blast
  then have "suffix (sub @ b) s" by (rule suffixI)
  then have "sub @ b \<in> set (suffixes s)" by (simp only: in_set_suffixes)
  moreover have "prefix sub (sub @ b)" by (rule prefixI) (rule refl)
  ultimately show "Contains s sub" unfolding Contains_def list_ex_iff by (rule rev_bexI)
qed

lemma dropWhile_hd: "dropWhile P xs \<noteq> [] \<Longrightarrow> \<not> P (hd (dropWhile P xs))"
  by (rule hd_dropWhile) auto

lemma TrimSpace_hd: "TrimSpace s \<noteq> [] \<Longrightarrow> \<not> is_space (hd (TrimSpace s)) \<and> \<not> is_space (last (TrimSpace s))"
proof -
  define a where "a = dropWhile is_space s"
  define b where "b = dropWhile is_space (rev a)"
  assume ne: "TrimSpace s \<noteq> []"
  then have b: "b \<noteq> []" "TrimSpace s = rev b" by (simp_all add: TrimSpace_def a_def b_def)
  have "\<not> is_space (hd b)" unfolding b_def using b(1) dropWhile_hd b_def by metis
  moreover have "\<not> is_space (hd (rev b))"
  proof -
    obtain c where "rev a = c @ b" unfolding b_def by (metis takeWhile_dropWhile_id)
    then have "a = rev b @ rev c" by (metis rev_append rev_rev_ident)
    then have "a \<noteq> []" "hd a = hd (rev b)" using b(1) by simp_all
    then show ?thesis using dropWhile_hd a_def by metis
  qed
  ultimately show ?thesis using b by (simp add: last_rev)
qed

lemma split_char_nonempty [simp]: "split_char sep s \<noteq> []"
  by (cases s) (simp_all split: list.split)

lemma split_char_no_sep: "p \<in> set (split_char sep s) \<Longrightarrow> sep \<notin> set p"
  by (induction s arbitrary: p) (auto split: if_splits list.splits)

text \<open>Joining with a separator, the inverse of splitting.\<close>

fun join_char :: "char \<Rightarrow> string list \<Rightarrow> string" where
  "join_char sep [] = []"
| "join_char sep [p] = p"
| "join_char sep (p # q # ps) = p @ sep # join_char sep (q # ps)"

lemma split_char_append: "sep \<notin> set p \<Longrightarrow> split_char sep (p @ sep # s) = p # split_char sep s"
  by (induction p) auto

lemma split_char_single: "sep \<notin> set p \<Longrightarrow> split_char sep p = [p]"
  by (induction p) auto

lemma split_join:
  "ps \<noteq> [] \<Longrightarrow> \<forall>p \<in> set ps. sep \<notin> set p \<Longrightarrow> split_char sep (join_char sep ps) = ps"
  by (induction sep ps rule: join_char.induct) (simp_all add: split_char_append split_char_single)

lemma TrimSpace_subset: "set (TrimSpace s) \<subseteq> set s"
  by (auto simp: TrimSpace_def dest!: set_dropWhileD)

lemma TrimSpace_id: "s \<noteq> [] \<Longrightarrow> \<not> is_space (hd s) \<Longrightarrow> \<not> is_space (last s) \<Longrightarrow> TrimSpace s = s"
  by (simp add: TrimSpace_def dropWhile_eq_self_iff [THEN iffD2] hd_rev)

lemma TrimSpace_twice [simp]: "TrimSpace (TrimSpace s) = TrimSpace s"
proof (cases "TrimSpace s = []")
  case False
  then show ?thesis using TrimSpace_hd [OF False] TrimSpace_id by blast
next
  case True
  moreover have "TrimSpace [] = []" by (simp add: TrimSpace_def)
  ultimately show ?thesis by simp
qed

end
