(* ===== verification/Json.thy ===== *)
theory Json
  imports Decimal Strings
begin

text \<open>
  JSON text, as \<open>encoding/json\<close> writes it (\<open>Marshal\<close>, \<open>MarshalIndent\<close>) and reads it (\<open>Unmarshal\<close>).
  A number is an integer, a negative zero, or a literal with a fraction or an exponent, which is its
  digits and a power of ten: nothing reads more of the literal than that.  A string is its bytes; what
  is not UTF-8 in it is replaced by U+FFFD, when it is written and when it is read.
\<close>


section \<open>Values and their text\<close>

datatype json =
    JNull
  | JBool bool
  | JNum int
  | JNegZero
  | JDec bool nat int
  | JStr string
  | JArr "json list"
  | JObj "(string \<times> json) list"

definition QUOTE :: char where "QUOTE = CHR 0x22"
definition BACKSLASH :: char where "BACKSLASH = CHR 0x5C"

text \<open>The UTF-8 encoding of a code point, and the length of the encoding a text starts with: 0 when it
  does not start with one, as \<open>utf8.DecodeRune\<close> decides.\<close>

definition utf8 :: "nat \<Rightarrow> string" where
  "utf8 k =
     (if k < 0x80 then [char_of k]
      else if k < 0x800 then [char_of (0xC0 + k div 64), char_of (0x80 + k mod 64)]
      else if k < 0x10000
      then [char_of (0xE0 + k div 4096), char_of (0x80 + k div 64 mod 64), char_of (0x80 + k mod 64)]
      else [char_of (0xF0 + k div 262144), char_of (0x80 + k div 4096 mod 64),
            char_of (0x80 + k div 64 mod 64), char_of (0x80 + k mod 64)])"

definition byte_in :: "nat \<Rightarrow> nat \<Rightarrow> string \<Rightarrow> bool" where
  "byte_in lo hi s \<longleftrightarrow> (case s of [] \<Rightarrow> False | c # _ \<Rightarrow> lo \<le> of_char c \<and> of_char c \<le> hi)"

definition second_ok :: "nat \<Rightarrow> string \<Rightarrow> bool" where
  "second_ok k s \<longleftrightarrow>
     byte_in (if k = 0xE0 then 0xA0 else if k = 0xF0 then 0x90 else 0x80)
       (if k = 0xED then 0x9F else if k = 0xF4 then 0x8F else 0xBF) s"

fun rune_size :: "string \<Rightarrow> nat" where
  "rune_size [] = 0"
| "rune_size (c # r) =
     (let k = of_char c :: nat in
      if k < 0x80 then 1
      else if k < 0xC2 \<or> 0xF4 < k \<or> \<not> second_ok k r then 0
      else if k < 0xE0 then 2
      else if \<not> byte_in 0x80 0xBF (drop 1 r) then 0
      else if k < 0xF0 then 3
      else if \<not> byte_in 0x80 0xBF (drop 2 r) then 0
      else 4)"

declare rune_size.simps(2) [simp del]

text \<open>A text as a sequence of encoded code points, and of bytes that belong to none.\<close>

function pieces :: "string \<Rightarrow> string option list" where
  "pieces s =
     (case s of
        [] \<Rightarrow> []
      | c # r \<Rightarrow>
          (let n = rune_size s
           in if n = 0 then None # pieces r else Some (take n s) # pieces (drop n s)))"
  by pat_completeness auto
termination by (relation "measure length") auto

declare pieces.simps [simp del]

definition piece_text :: "string option \<Rightarrow> string" where
  "piece_text p = (case p of None \<Rightarrow> utf8 0xFFFD | Some r \<Rightarrow> r)"

definition repair :: "string \<Rightarrow> string" where
  "repair s = concat (map piece_text (pieces s))"

definition utf8_ok :: "string \<Rightarrow> bool" where
  "utf8_ok s \<longleftrightarrow> None \<notin> set (pieces s)"

text \<open>The bytes that are escaped; the ones special in HTML are too, and the two line separators of
  JavaScript.\<close>

definition escape :: "char \<Rightarrow> string" where
  "escape c =
     (let k = of_char c :: nat in
      if c = QUOTE \<or> c = BACKSLASH then [BACKSLASH, c]
      else if k = 8 then [BACKSLASH, CHR ''b'']
      else if k = 12 then [BACKSLASH, CHR ''f'']
      else if k = 10 then [BACKSLASH, CHR ''n'']
      else if k = 13 then [BACKSLASH, CHR ''r'']
      else if k = 9 then [BACKSLASH, CHR ''t'']
      else if k < 32 \<or> c \<in> {CHR ''<'', CHR ''>'', CHR ''&''}
      then [BACKSLASH, CHR ''u'', CHR ''0'', CHR ''0'', hex_digit (k div 16), hex_digit (k mod 16)]
      else [c])"

definition escape_piece :: "string option \<Rightarrow> string" where
  "escape_piece p =
     (case p of
        None \<Rightarrow> BACKSLASH # ''ufffd''
      | Some r \<Rightarrow>
          if length r = 1 then escape (hd r)
          else if r = utf8 0x2028 then BACKSLASH # ''u2028''
          else if r = utf8 0x2029 then BACKSLASH # ''u2029''
          else r)"

definition jstring :: "string \<Rightarrow> string" where
  "jstring s = QUOTE # concat (map escape_piece (pieces s)) @ [QUOTE]"

fun jtext :: "json \<Rightarrow> string" where
  "jtext JNull = ''null''"
| "jtext (JBool b) = (if b then ''true'' else ''false'')"
| "jtext (JNum i) = big_String i"
| "jtext JNegZero = ''-0''"
| "jtext (JDec neg m e) = (if neg then ''-'' else []) @ digits m @ CHR ''e'' # big_String e"
| "jtext (JStr s) = jstring s"
| "jtext (JArr xs) = CHR ''['' # join_char CHR '','' (map jtext xs) @ [CHR '']'']"
| "jtext (JObj ms) = CHR ''{'' # join_char CHR '','' (map (\<lambda>(k, v). jstring k @ CHR '':'' # jtext v) ms) @ [CHR ''}'']"

text \<open>\<open>MarshalIndent\<close> with no prefix and two blanks: every element and member on a line of its own.\<close>

definition newline :: "nat \<Rightarrow> string" where
  "newline d = CHR 0x0A # replicate (2 * d) CHR '' ''"

fun jindent :: "nat \<Rightarrow> json \<Rightarrow> string" where
  "jindent d (JArr xs) =
     (if xs = [] then ''[]''
      else CHR ''['' # join_char CHR '','' (map (\<lambda>x. newline (Suc d) @ jindent (Suc d) x) xs) @
        newline d @ '']'')"
| "jindent d (JObj ms) =
     (if ms = [] then ''{}''
      else CHR ''{'' # join_char CHR '',''
          (map (\<lambda>(k, v). newline (Suc d) @ jstring k @ '': '' @ jindent (Suc d) v) ms) @
        newline d @ ''}'')"
| "jindent d j = jtext j"


section \<open>Reading\<close>

definition json_space :: "char \<Rightarrow> bool" where
  "json_space c \<longleftrightarrow> (let k = of_char c :: nat in k = 32 \<or> k = 9 \<or> k = 10 \<or> k = 13)"

definition skip_ws :: "string \<Rightarrow> string" where
  "skip_ws s = dropWhile json_space s"

definition is_digit :: "char \<Rightarrow> bool" where
  "is_digit c \<longleftrightarrow> char_digit c \<noteq> None"

text \<open>The fraction and the exponent of a literal: \<open>None\<close> for one without digits.\<close>

definition read_fraction :: "string \<Rightarrow> (string \<times> string) option" where
  "read_fraction s =
     (if s \<noteq> [] \<and> hd s = CHR ''.'' then
        (let ds = takeWhile is_digit (tl s)
         in if ds = [] then None else Some (ds, dropWhile is_digit (tl s)))
      else Some ([], s))"

definition read_exponent :: "string \<Rightarrow> (int option \<times> string) option" where
  "read_exponent s =
     (if s \<noteq> [] \<and> hd s \<in> {CHR ''e'', CHR ''E''} then
        (let neg = (take 1 (tl s) = ''-''); t = (if neg \<or> take 1 (tl s) = ''+'' then tl (tl s) else tl s);
             ds = takeWhile is_digit t
         in if ds = [] then None
            else map_option (\<lambda>n. (Some (if neg then - int n else int n), dropWhile is_digit t)) (undigits 0 ds))
      else Some (None, s))"

text \<open>The number with digits \<open>m\<close>, \<open>k\<close> of them after the point.\<close>

definition number_of :: "bool \<Rightarrow> nat \<Rightarrow> nat \<Rightarrow> int option \<Rightarrow> json" where
  "number_of neg m k x =
     (case x of
        Some e \<Rightarrow> JDec neg m (e - int k)
      | None \<Rightarrow>
          if 0 < k then JDec neg m (- int k)
          else if neg \<and> m = 0 then JNegZero
          else JNum (if neg then - int m else int m))"

text \<open>A literal: its integer part has no leading zero.\<close>

definition read_number :: "string \<Rightarrow> (json \<times> string) option" where
  "read_number s =
     (let neg = (s \<noteq> [] \<and> hd s = CHR ''-''); t = (if neg then tl s else s); ds = takeWhile is_digit t
      in if ds = [] \<or> (hd ds = CHR ''0'' \<and> tl ds \<noteq> []) then None
         else (case read_fraction (dropWhile is_digit t) of
             None \<Rightarrow> None
           | Some (fs, u) \<Rightarrow>
               (case read_exponent u of
                  None \<Rightarrow> None
                | Some (x, v) \<Rightarrow>
                    map_option (\<lambda>m. (number_of neg m (length fs) x, v)) (undigits 0 (ds @ fs)))))"

text \<open>A string is read in two steps: its raw text up to the closing quote, then the escapes.\<close>

fun raw_string :: "string \<Rightarrow> (string \<times> string) option" where
  "raw_string [] = None"
| "raw_string (c # r) =
     (if c = QUOTE then Some ([], r)
      else if c = BACKSLASH then
        (case r of
           [] \<Rightarrow> None
         | e # r' \<Rightarrow> map_option (\<lambda>(s, t). (c # e # s, t)) (raw_string r'))
      else if (of_char c :: nat) < 32 then None
      else map_option (\<lambda>(s, t). (c # s, t)) (raw_string r))"

definition hex_val :: "char \<Rightarrow> nat option" where
  "hex_val c =
     (let k = of_char c in
      if 48 \<le> k \<and> k < 58 then Some (k - 48)
      else if 97 \<le> k \<and> k < 103 then Some (k - 87)
      else if 65 \<le> k \<and> k < 71 then Some (k - 55) else None)"

text \<open>The four hexadecimal digits after \<open>\u\<close>.\<close>

fun hex4 :: "string \<Rightarrow> nat option" where
  "hex4 (a # b # c # d # _) =
     (case (hex_val a, hex_val b, hex_val c, hex_val d) of
        (Some w, Some x, Some y, Some z) \<Rightarrow> Some (((w * 16 + x) * 16 + y) * 16 + z)
      | _ \<Rightarrow> None)"
| "hex4 _ = None"

definition unescape :: "char \<Rightarrow> char option" where
  "unescape e =
     (if e \<in> {QUOTE, BACKSLASH, CHR ''/''} then Some e
      else if e = CHR ''b'' then Some (CHR 0x08) else if e = CHR ''f'' then Some (CHR 0x0C)
      else if e = CHR ''n'' then Some (CHR 0x0A) else if e = CHR ''r'' then Some (CHR 0x0D)
      else if e = CHR ''t'' then Some (CHR 0x09) else None)"

text \<open>A surrogate escape is joined with a following one, or replaced by U+FFFD.\<close>

definition low_surrogate :: "string \<Rightarrow> nat option" where
  "low_surrogate s =
     (if take 2 s = [BACKSLASH, CHR ''u'']
      then (case hex4 (drop 2 s) of
              Some l \<Rightarrow> if 0xDC00 \<le> l \<and> l < 0xE000 then Some l else None
            | None \<Rightarrow> None)
      else None)"

function unquote :: "string \<Rightarrow> string option" where
  "unquote s =
     (case s of
        [] \<Rightarrow> Some []
      | c # r \<Rightarrow>
          if c \<noteq> BACKSLASH then
            (let n = rune_size s
             in if n = 0 then map_option ((@) (utf8 0xFFFD)) (unquote r)
                else map_option ((@) (take n s)) (unquote (drop n s)))
          else (case r of
              [] \<Rightarrow> None
            | e # r' \<Rightarrow>
                if e \<noteq> CHR ''u'' then
                  (case unescape e of
                     None \<Rightarrow> None | Some x \<Rightarrow> map_option (Cons x) (unquote r'))
                else (case hex4 r' of
                    None \<Rightarrow> None
                  | Some k \<Rightarrow>
                      if k < 0xD800 \<or> 0xE000 \<le> k
                      then map_option ((@) (utf8 k)) (unquote (drop 4 r'))
                      else (case (if k < 0xDC00 then low_surrogate (drop 4 r') else None) of
                          Some l \<Rightarrow>
                            map_option ((@) (utf8 (0x10000 + (k - 0xD800) * 1024 + (l - 0xDC00))))
                              (unquote (drop 10 r'))
                        | None \<Rightarrow> map_option ((@) (utf8 0xFFFD)) (unquote (drop 4 r'))))))"
  by pat_completeness auto
termination by (relation "measure length") auto

declare unquote.simps [simp del]

text \<open>The text after an opening quote.\<close>

definition read_string :: "string \<Rightarrow> (string \<times> string) option" where
  "read_string s =
     (case raw_string s of
        None \<Rightarrow> None | Some (raw, rest) \<Rightarrow> map_option (\<lambda>x. (x, rest)) (unquote raw))"

definition strip :: "string \<Rightarrow> string \<Rightarrow> string option" where
  "strip p s = (if take (length p) s = p then Some (drop (length p) s) else None)"

text \<open>A value, the elements of an array up to its closing bracket, and the members of an object up
  to its closing brace.  The fuel bounds the number of values and separators.\<close>

fun p_value :: "nat \<Rightarrow> string \<Rightarrow> (json \<times> string) option"
  and p_elems :: "nat \<Rightarrow> string \<Rightarrow> (json list \<times> string) option"
  and p_members :: "nat \<Rightarrow> string \<Rightarrow> ((string \<times> json) list \<times> string) option" where
  "p_value 0 s = None"
| "p_value (Suc n) s =
     (case skip_ws s of
        [] \<Rightarrow> None
      | c # r \<Rightarrow>
          if c = QUOTE then map_option (\<lambda>(x, t). (JStr x, t)) (read_string r)
          else if c = CHR ''['' then
            (case strip '']'' (skip_ws r) of
               Some t \<Rightarrow> Some (JArr [], t)
             | None \<Rightarrow> map_option (\<lambda>(xs, t). (JArr xs, t)) (p_elems n r))
          else if c = CHR ''{'' then
            (case strip ''}'' (skip_ws r) of
               Some t \<Rightarrow> Some (JObj [], t)
             | None \<Rightarrow> map_option (\<lambda>(ms, t). (JObj ms, t)) (p_members n r))
          else if c = CHR ''n'' then map_option (\<lambda>t. (JNull, t)) (strip ''ull'' r)
          else if c = CHR ''t'' then map_option (\<lambda>t. (JBool True, t)) (strip ''rue'' r)
          else if c = CHR ''f'' then map_option (\<lambda>t. (JBool False, t)) (strip ''alse'' r)
          else read_number (c # r))"
| "p_elems 0 s = None"
| "p_elems (Suc n) s =
     (case p_value n s of
        None \<Rightarrow> None
      | Some (x, t) \<Rightarrow>
          (case skip_ws t of
             [] \<Rightarrow> None
           | c # r \<Rightarrow>
               if c = CHR '']'' then Some ([x], r)
               else if c = CHR '','' then map_option (\<lambda>(xs, u). (x # xs, u)) (p_elems n r)
               else None))"
| "p_members 0 s = None"
| "p_members (Suc n) s =
     (case skip_ws s of
        [] \<Rightarrow> None
      | c # r \<Rightarrow>
          if c \<noteq> QUOTE then None
          else (case read_string r of
              None \<Rightarrow> None
            | Some (k, t) \<Rightarrow>
                (case strip '':'' (skip_ws t) of
                   None \<Rightarrow> None
                 | Some t \<Rightarrow>
                     (case p_value n t of
                        None \<Rightarrow> None
                      | Some (x, t) \<Rightarrow>
                          (case skip_ws t of
                             [] \<Rightarrow> None
                           | c # r \<Rightarrow>
                               if c = CHR ''}'' then Some ([(k, x)], r)
                               else if c = CHR '','' then map_option (\<lambda>(ms, u). ((k, x) # ms, u)) (p_members n r)
                               else None)))))"

text \<open>How deep the arrays and objects of a value are nested.  \<open>Unmarshal\<close> reads no text nested deeper
  than 10000 (\<open>maxNestingDepth\<close>).\<close>

fun jdepth :: "json \<Rightarrow> nat" where
  "jdepth (JArr xs) = Suc (foldr max (map jdepth xs) 0)"
| "jdepth (JObj ms) = Suc (foldr max (map (\<lambda>(k, v). jdepth v) ms) 0)"
| "jdepth j = 0"

text \<open>A whole text: one value, with blanks around it.  Every value and separator takes a character, so
  the length of the text is fuel enough.\<close>

definition json_parse :: "string \<Rightarrow> json option" where
  "json_parse s =
     (case p_value (Suc (length s)) s of
        Some (x, t) \<Rightarrow> if skip_ws t = [] \<and> jdepth x \<le> 10000 then Some x else None
      | None \<Rightarrow> None)"

end
