(* ===== verification/JsonProofs.thy ===== *)
theory JsonProofs
  imports Json
begin

text \<open>
  Reading what was written.  \<open>json_text j s\<close> says that \<open>s\<close> is a text of the value \<open>j\<close>, with the blanks
  that JSON allows; the reader reads every such text, and both printers write one.  The fuel of the
  reader is enough for every text that any fuel reads.
\<close>


section \<open>Escaped bytes\<close>

lemma quote_simps [simp]: "QUOTE \<noteq> BACKSLASH" "BACKSLASH \<noteq> QUOTE"
  by (simp_all add: QUOTE_def BACKSLASH_def)

lemma hex_digit_facts:
  assumes "d < 16"
  shows "hex_val (hex_digit d) = Some d" "hex_digit d \<noteq> QUOTE" "hex_digit d \<noteq> BACKSLASH"
    "32 \<le> (of_char (hex_digit d) :: nat)"
proof -
  have "list_all (\<lambda>d. hex_val (hex_digit d) = Some d \<and> hex_digit d \<noteq> QUOTE \<and> hex_digit d \<noteq> BACKSLASH \<and>
      32 \<le> (of_char (hex_digit d) :: nat)) [0..<16]" by code_simp
  then show "hex_val (hex_digit d) = Some d" "hex_digit d \<noteq> QUOTE" "hex_digit d \<noteq> BACKSLASH"
    "32 \<le> (of_char (hex_digit d) :: nat)"
    using assms by (simp_all only: list_all_iff set_upt atLeastLessThan_iff) simp_all
qed

lemma char_less: "(of_char c :: nat) < 256"
  using of_char_mod_256 [of c, where ?'a = nat] by (metis mod_less_divisor zero_less_numeral)

lemma unescape_simps:
  "unescape QUOTE = Some QUOTE" "unescape BACKSLASH = Some BACKSLASH"
  "unescape CHR ''b'' = Some (CHR 0x08)" "unescape CHR ''f'' = Some (CHR 0x0C)"
  "unescape CHR ''n'' = Some (CHR 0x0A)" "unescape CHR ''r'' = Some (CHR 0x0D)"
  "unescape CHR ''t'' = Some (CHR 0x09)"
  by (simp_all add: unescape_def QUOTE_def BACKSLASH_def)

lemma char_nibbles: "of_char c div 16 < (16 :: nat)" "of_char c mod 16 < (16 :: nat)"
  using char_less [of c] by (simp_all add: less_mult_imp_div_less)

lemma control_chars:
  "(of_char c :: nat) = 8 \<Longrightarrow> c = CHR 0x08" "(of_char c :: nat) = 12 \<Longrightarrow> c = CHR 0x0C"
  "(of_char c :: nat) = 10 \<Longrightarrow> c = CHR 0x0A" "(of_char c :: nat) = 13 \<Longrightarrow> c = CHR 0x0D"
  "(of_char c :: nat) = 9 \<Longrightarrow> c = CHR 0x09"
  by (rule of_char_eq_iff [where 'a = nat, THEN iffD1], simp)+

lemma escape_control:
  "escape CHR 0x08 = [BACKSLASH, CHR ''b'']" "escape CHR 0x0C = [BACKSLASH, CHR ''f'']"
  "escape CHR 0x0A = [BACKSLASH, CHR ''n'']" "escape CHR 0x0D = [BACKSLASH, CHR ''r'']"
  "escape CHR 0x09 = [BACKSLASH, CHR ''t'']"
  by code_simp+

text \<open>The three shapes of an escaped byte.\<close>

lemma escape_cases:
  obtains (short) e where "escape c = [BACKSLASH, e]" "e \<noteq> CHR ''u''" "unescape e = Some c"
  | (unicode) "escape c = [BACKSLASH, CHR ''u'', CHR ''0'', CHR ''0'', hex_digit (of_char c div 16), hex_digit (of_char c mod 16)]"
      "(of_char c :: nat) < 128"
  | (plain) "escape c = [c]" "c \<noteq> QUOTE" "c \<noteq> BACKSLASH" "32 \<le> (of_char c :: nat)"
proof -
  let ?k = "of_char c :: nat"
  have special: "c \<in> {CHR ''<'', CHR ''>'', CHR ''&''} \<Longrightarrow> ?k < 128" by auto
  have u: "QUOTE \<noteq> CHR ''u''" "BACKSLASH \<noteq> CHR ''u''" by (simp_all add: QUOTE_def BACKSLASH_def)
  consider "c = QUOTE" | "c = BACKSLASH" | "?k = 8" | "?k = 12" | "?k = 10" | "?k = 13" | "?k = 9"
    | "c \<noteq> QUOTE" "c \<noteq> BACKSLASH" "?k \<notin> {8, 12, 10, 13, 9}" "?k < 32 \<or> c \<in> {CHR ''<'', CHR ''>'', CHR ''&''}"
    | "c \<noteq> QUOTE" "c \<noteq> BACKSLASH" "?k \<notin> {8, 12, 10, 13, 9}" "\<not> (?k < 32 \<or> c \<in> {CHR ''<'', CHR ''>'', CHR ''&''})"
    by blast
  then show ?thesis
  proof cases
    case 1
    then show ?thesis using short [of QUOTE] u unescape_simps by (simp add: escape_def)
  next
    case 2
    then show ?thesis using short [of BACKSLASH] u unescape_simps by (simp add: escape_def)
  next
    case 3
    from control_chars(1) [OF 3] show ?thesis
      using short [of "CHR ''b''"] unescape_simps escape_control by simp
  next
    case 4
    from control_chars(2) [OF 4] show ?thesis
      using short [of "CHR ''f''"] unescape_simps escape_control by simp
  next
    case 5
    from control_chars(3) [OF 5] show ?thesis
      using short [of "CHR ''n''"] unescape_simps escape_control by simp
  next
    case 6
    from control_chars(4) [OF 6] show ?thesis
      using short [of "CHR ''r''"] unescape_simps escape_control by simp
  next
    case 7
    from control_chars(5) [OF 7] show ?thesis
      using short [of "CHR ''t''"] unescape_simps escape_control by simp
  next
    case 8
    moreover have "?k < 128" using 8(4) special by linarith
    ultimately show ?thesis using unicode by (simp add: escape_def Let_def)
  next
    case 9
    then show ?thesis using plain by (simp add: escape_def Let_def)
  qed
qed

lemma raw_escape: "raw_string (escape c @ t) = map_option (\<lambda>(s, u). (escape c @ s, u)) (raw_string t)"
proof (cases c rule: escape_cases)
  case (short e)
  then show ?thesis by (cases "raw_string t") auto
next
  case unicode
  note d = char_nibbles [of c]
  have u: "(of_char CHR ''0'' :: nat) = 48" "CHR ''0'' \<noteq> QUOTE" "CHR ''0'' \<noteq> BACKSLASH"
    by (simp_all add: QUOTE_def BACKSLASH_def)
  show ?thesis using hex_digit_facts [OF d(1)] hex_digit_facts [OF d(2)] u
    by (cases "raw_string t") (auto simp: unicode(1))
next
  case plain
  then show ?thesis by (cases "raw_string t") auto
qed

lemma byte_in_nth: "byte_in lo hi (drop i s) \<longleftrightarrow> i < length s \<and> lo \<le> of_char (s ! i) \<and> of_char (s ! i) \<le> hi"
proof (cases "i < length s")
  case True
  then have "drop i s = s ! i # drop (Suc i) s" by (rule Cons_nth_drop_Suc [symmetric])
  then show ?thesis using True by (simp add: byte_in_def)
qed (simp add: byte_in_def)

lemma byte_in_Nil [simp]: "\<not> byte_in lo hi []"
  by (simp add: byte_in_def)

lemma byte_in_take: "byte_in lo hi (drop i r) \<Longrightarrow> i < m \<Longrightarrow> byte_in lo hi (drop i (take m r @ t))"
  unfolding byte_in_nth by (auto simp: nth_append)

lemma byte_in_mono: "byte_in lo hi s \<Longrightarrow> lo' \<le> lo \<Longrightarrow> hi \<le> hi' \<Longrightarrow> byte_in lo' hi' s"
  by (auto simp: byte_in_def split: list.splits)

lemma second_ok_take: "second_ok k r \<Longrightarrow> 0 < m \<Longrightarrow> second_ok k (take m r @ t)"
  using byte_in_take [of _ _ 0 r m t] by (simp add: second_ok_def)

lemma second_ok_high: "second_ok k r \<Longrightarrow> byte_in 128 255 (drop 0 r)"
  by (auto simp: second_ok_def elim: byte_in_mono split: if_splits)

lemma rune_size_length: "rune_size s \<le> length s"
proof (cases s)
  case (Cons c r)
  then show ?thesis
    using second_ok_high [of "of_char c" r]
    by (auto simp: rune_size.simps(2) Let_def byte_in_nth Suc_le_eq split: if_splits)
qed simp


section \<open>Code points\<close>

definition rune :: "string \<Rightarrow> bool" where
  "rune r \<longleftrightarrow> r \<noteq> [] \<and> rune_size r = length r"

lemma rune_size_take: "rune_size s \<noteq> 0 \<Longrightarrow> rune_size (take (rune_size s) s @ t) = rune_size s"
proof (cases s)
  case (Cons c r)
  assume "rune_size s \<noteq> 0"
  then show ?thesis
    using second_ok_take [of "of_char c" r _ t] byte_in_take [of _ _ 1 r _ t] byte_in_take [of _ _ 2 r _ t]
    by (auto simp: Cons Let_def rune_size.simps(2) simp del: take_append split: if_splits)
qed simp

lemma rune_append: "rune r \<Longrightarrow> rune_size (r @ t) = length r"
  using rune_size_take [of r t] by (simp add: rune_def)

lemma rune_taken: "rune_size s \<noteq> 0 \<Longrightarrow> rune (take (rune_size s) s)"
  using rune_size_take [of s "[]"] rune_size_length [of s] by (auto simp: rune_def min_def)

lemma rune_ascii [simp]: "rune [c] \<longleftrightarrow> (of_char c :: nat) < 128"
  by (auto simp: rune_def Let_def rune_size.simps(2))

lemma rune_cases:
  assumes "rune r"
  obtains (ascii) c where "r = [c]" "(of_char c :: nat) < 128"
  | (high) "1 < length r" "\<forall>c \<in> set r. 128 \<le> (of_char c :: nat)"
proof (cases r)
  case (Cons c u)
  show thesis
  proof (cases "(of_char c :: nat) < 128")
    case True
    then show ?thesis using assms ascii [of c] by (simp add: rune_def Cons rune_size.simps(2))
  next
    case False
    note high = second_ok_high [of "of_char c" u] byte_in_mono [of 128 191 "drop 1 u" 128 255]
      byte_in_mono [of 128 191 "drop 2 u" 128 255]
    consider "length u = 1" "byte_in 128 255 (drop 0 u)"
      | "length u = 2" "byte_in 128 255 (drop 0 u)" "byte_in 128 255 (drop 1 u)"
      | "length u = 3" "byte_in 128 255 (drop 0 u)" "byte_in 128 255 (drop 1 u)" "byte_in 128 255 (drop 2 u)"
      using assms False high by (auto simp: rune_def rune_size.simps(2) Cons Let_def split: if_splits)
    then have "(\<forall>i < length u. 128 \<le> (of_char (u ! i) :: nat)) \<and> 0 < length u"
      unfolding byte_in_nth by cases (auto simp: less_Suc_eq numeral_2_eq_2 numeral_3_eq_3)
    then have "1 < length r \<and> (\<forall>c \<in> set r. 128 \<le> (of_char c :: nat))"
      using False by (auto simp: Cons in_set_conv_nth)
    then show ?thesis using that(2) by blast
  qed
qed (use assms in \<open>simp add: rune_def\<close>)

definition piece_ok :: "string option \<Rightarrow> bool" where
  "piece_ok p \<longleftrightarrow> (case p of None \<Rightarrow> True | Some r \<Rightarrow> rune r)"

lemma pieces_unfold:
  "pieces (c # r) = (let n = rune_size (c # r) in
     if n = 0 then None # pieces r else Some (take n (c # r)) # pieces (drop n (c # r)))"
  by (subst pieces.simps) simp

lemma pieces_simps [simp]: "pieces [] = []" "rune r \<Longrightarrow> pieces (r @ t) = Some r # pieces t"
proof -
  show "pieces [] = []" by (simp add: pieces.simps)
  assume "rune r"
  moreover from this obtain c u where "r = c # u" by (cases r) (simp_all add: rune_def)
  ultimately show "pieces (r @ t) = Some r # pieces t"
    using pieces_unfold [of c "u @ t"] rune_append [of r t] by simp
qed

lemma pieces_ascii [simp]: "(of_char c :: nat) < 128 \<Longrightarrow> pieces (c # s) = Some [c] # pieces s"
  using pieces_simps(2) [of "[c]" s] by simp

lemma pieces_ok: "p \<in> set (pieces s) \<Longrightarrow> piece_ok p"
proof (induction s rule: pieces.induct)
  case (1 s)
  show ?case
  proof (cases s)
    case (Cons c r)
    show ?thesis
    proof (cases "rune_size s = 0")
      case True
      then show ?thesis using 1 by (auto simp: Cons pieces_unfold piece_ok_def)
    next
      case False
      then show ?thesis
        using 1(2) 1(3) rune_taken [OF False] by (auto simp: Cons pieces_unfold Let_def piece_ok_def)
    qed
  qed (use 1 in simp)
qed

lemma repair_utf8: "utf8_ok s \<Longrightarrow> repair s = s"
proof (induction s rule: pieces.induct)
  case (1 s)
  show ?case
  proof (cases s)
    case (Cons c r)
    have "rune_size s \<noteq> 0" "utf8_ok (drop (rune_size s) s)"
      using "1.prems" by (auto simp: utf8_ok_def Cons pieces_unfold Let_def split: if_splits)
    moreover from this have "repair (drop (rune_size s) s) = drop (rune_size s) s"
      using "1.IH"(2) [OF Cons refl] by blast
    ultimately show ?thesis by (simp add: repair_def Cons pieces_unfold Let_def piece_text_def)
  qed (simp add: repair_def)
qed

lemma rune_replacement: "rune (utf8 0xFFFD)"
  by (simp add: rune_def utf8_def rune_size.simps(2) second_ok_def byte_in_def Let_def)

lemma piece_text_Some [simp]: "piece_text (Some r) = r"
  by (simp add: piece_text_def)

lemma repair_idem [simp]: "repair (repair s) = repair s"
proof -
  have "rune (piece_text p)" if "p \<in> set (pieces s)" for p
    using pieces_ok [OF that] rune_replacement by (auto simp: piece_ok_def piece_text_def split: option.splits)
  then have "pieces (concat (map piece_text ps)) = map (\<lambda>p. Some (piece_text p)) ps" if "set ps \<subseteq> set (pieces s)" for ps
    using that by (induction ps) auto
  then have "pieces (repair s) = map (\<lambda>p. Some (piece_text p)) (pieces s)" by (simp add: repair_def)
  then show ?thesis by (simp add: repair_def comp_def)
qed

lemma utf8_ascii [simp]: "list_all (\<lambda>c. (of_char c :: nat) < 128) s \<Longrightarrow> utf8_ok s"
  by (induction s) (simp_all add: utf8_ok_def)

lemma rune_nonempty: "rune r \<Longrightarrow> r \<noteq> []"
  by (simp add: rune_def)


section \<open>Strings\<close>

lemma raw_high:
  "\<forall>c \<in> set r. 128 \<le> (of_char c :: nat) \<Longrightarrow>
    raw_string (r @ t) = map_option (\<lambda>(s, u). (r @ s, u)) (raw_string t)"
proof (induction r)
  case (Cons c r)
  moreover have "c \<noteq> QUOTE" "c \<noteq> BACKSLASH" using Cons.prems by (auto simp: QUOTE_def BACKSLASH_def)
  ultimately show ?case by (cases "raw_string t") auto
qed (cases "raw_string t", auto)

lemma hex4_replaced:
  "hex4 ''fffd'' = Some 0xFFFD" "hex4 ''2028'' = Some 0x2028" "hex4 ''2029'' = Some 0x2029"
  by (simp_all add: hex_val_def)

text \<open>The shapes of an escaped piece of text.\<close>

lemma escape_piece_cases:
  assumes "piece_ok p"
  obtains (ascii) c where "p = Some [c]" "(of_char c :: nat) < 128" "escape_piece p = escape c"
  | (replaced) ds k where "p = None \<or> p = Some (utf8 k)" "escape_piece p = BACKSLASH # CHR ''u'' # ds"
      "ds \<in> {''fffd'', ''2028'', ''2029''}" "hex4 ds = Some k" "piece_text p = utf8 k"
  | (plain) r where "p = Some r" "rune r" "escape_piece p = r" "\<forall>c \<in> set r. 128 \<le> (of_char c :: nat)"
proof (cases p)
  case None
  show ?thesis
    by (rule that(2) [where ds = "''fffd''" and k = "0xFFFD"]) (simp_all add: None escape_piece_def piece_text_def hex4_replaced del: hex4.simps)
next
  case (Some r)
  then have "rune r" using assms by (simp add: piece_ok_def)
  then show ?thesis
  proof (cases rule: rune_cases)
    case (ascii c)
    then show ?thesis using Some that(1) [of c] by (simp add: escape_piece_def)
  next
    case high
    consider "r = utf8 0x2028" | "r = utf8 0x2029" "r \<noteq> utf8 0x2028" | "r \<noteq> utf8 0x2028" "r \<noteq> utf8 0x2029"
      by blast
    then show ?thesis
    proof cases
      case 1
      have "length r \<noteq> 1" using high by simp
      then show ?thesis
        using 1 by (intro that(2) [where ds = "''2028''" and k = "0x2028"])
          (simp_all only: Some escape_piece_def piece_text_def hex4_replaced option.case if_True if_False simp_thms insert_iff)
    next
      case 2
      have "length r \<noteq> 1" using high by simp
      then show ?thesis
        using 2 by (intro that(2) [where ds = "''2029''" and k = "0x2029"])
          (simp_all only: Some escape_piece_def piece_text_def hex4_replaced option.case if_True if_False simp_thms insert_iff)
    next
      case 3
      have "length r \<noteq> 1" using high by simp
      then have "escape_piece p = r" using 3 by (simp only: Some escape_piece_def option.case if_False)
      then show ?thesis by (rule that(3) [OF Some \<open>rune r\<close> _ high(2)])
    qed
  qed
qed

lemma raw_piece:
  assumes "piece_ok p"
  shows "raw_string (escape_piece p @ t) = map_option (\<lambda>(s, u). (escape_piece p @ s, u)) (raw_string t)"
  using assms
proof (cases p rule: escape_piece_cases)
  case (ascii c)
  then show ?thesis by (simp add: raw_escape)
next
  case (replaced ds k)
  then show ?thesis by (cases "raw_string t") (auto simp: QUOTE_def BACKSLASH_def)
next
  case (plain r)
  then show ?thesis by (simp add: raw_high)
qed

lemma unquote_rune:
  assumes "rune r" "hd r \<noteq> BACKSLASH"
  shows "unquote (r @ t) = map_option ((@) r) (unquote t)"
proof -
  obtain c u where r: "r = c # u" using rune_nonempty [OF assms(1)] by (cases r) auto
  show ?thesis
    using assms rune_append [OF assms(1), of t] by (subst unquote.simps) (simp add: r Let_def)
qed

lemma unquote_simps [simp]:
  "unquote [] = Some []"
  "(of_char c :: nat) < 128 \<Longrightarrow> c \<noteq> BACKSLASH \<Longrightarrow> unquote (c # r) = map_option (Cons c) (unquote r)"
  "e \<noteq> CHR ''u'' \<Longrightarrow> unescape e = Some x \<Longrightarrow> unquote (BACKSLASH # e # r) = map_option (Cons x) (unquote r)"
  using unquote_rune [of "[c]" r] by (simp_all add: fun_eq_iff unquote.simps cong: option.map_cong)

lemma unquote_unicode:
  "hex4 r = Some k \<Longrightarrow> k < 0xD800 \<or> 0xE000 \<le> k \<Longrightarrow>
    unquote (BACKSLASH # CHR ''u'' # r) = map_option ((@) (utf8 k)) (unquote (drop 4 r))"
  by (subst unquote.simps, simp only: list.case, simp only: simp_thms if_False, simp only: option.case,
      simp only: simp_thms if_True)

lemma unquote_escape: "(of_char c :: nat) < 128 \<Longrightarrow> unquote (escape c @ t) = map_option (Cons c) (unquote t)"
proof (cases c rule: escape_cases)
  case (short e)
  then show ?thesis by simp
next
  case unicode
  let ?k = "of_char c :: nat"
  let ?r = "CHR ''0'' # CHR ''0'' # hex_digit (?k div 16) # hex_digit (?k mod 16) # t"
  note d = char_nibbles [of c]
  have "hex_val CHR ''0'' = Some 0" by (simp add: hex_val_def)
  then have "hex4 ?r = Some (?k div 16 * 16 + ?k mod 16)" using hex_digit_facts(1) [OF d(1)] hex_digit_facts(1) [OF d(2)] by simp
  then have "hex4 ?r = Some ?k" by simp
  moreover have "utf8 ?k = [c]" using unicode(2) by (simp add: utf8_def)
  moreover have "drop 4 ?r = t" by simp
  ultimately have "unquote (BACKSLASH # CHR ''u'' # ?r) = map_option ((@) [c]) (unquote t)"
    using unicode(2) unquote_unicode [of ?r ?k] by simp
  moreover have "(@) [c] = Cons c" by (rule ext) simp
  ultimately show ?thesis by (simp add: unicode(1))
next
  case plain
  assume "(of_char c :: nat) < 128"
  then show ?thesis using plain by simp
qed

lemma unquote_piece:
  assumes "piece_ok p"
  shows "unquote (escape_piece p @ t) = map_option ((@) (piece_text p)) (unquote t)"
  using assms
proof (cases p rule: escape_piece_cases)
  case (ascii c)
  moreover have "(@) [c] = Cons c" by (rule ext) simp
  ultimately show ?thesis by (simp add: unquote_escape piece_text_def)
next
  case (replaced ds k)
  have "hex4 (ds @ t) = Some k" "drop 4 (ds @ t) = t" "k < 0xD800 \<or> 0xE000 \<le> k"
    using replaced(3,4) by (auto simp: hex_val_def)
  then show ?thesis using replaced unquote_unicode [of "ds @ t" k] by simp
next
  case (plain r)
  moreover have "hd r \<noteq> BACKSLASH"
    using plain(2,4) hd_in_set [OF rune_nonempty [OF plain(2)]] by (auto simp: BACKSLASH_def)
  ultimately show ?thesis by (simp add: unquote_rune piece_text_def)
qed

lemma read_jstring: "read_string (concat (map escape_piece (pieces s)) @ QUOTE # rest) = Some (repair s, rest)"
proof -
  have ps: "list_all piece_ok (pieces s)" using pieces_ok by (simp add: list_all_iff)
  have "raw_string (concat (map escape_piece ps) @ QUOTE # rest) = Some (concat (map escape_piece ps), rest)"
    if "list_all piece_ok ps" for ps
    using that by (induction ps) (simp_all add: raw_piece)
  moreover have "unquote (concat (map escape_piece ps)) = Some (concat (map piece_text ps))"
    if "list_all piece_ok ps" for ps
    using that by (induction ps) (simp_all add: unquote_piece)
  ultimately show ?thesis using ps by (simp add: read_string_def repair_def)
qed


section \<open>Numbers\<close>

lemma is_digit_char [simp]: "d < 10 \<Longrightarrow> is_digit (digit_char d)"
  by (simp add: is_digit_def)

lemma digits_all: "c \<in> set (digits n) \<Longrightarrow> is_digit c"
proof (induction n rule: digits.induct)
  case (1 n)
  then show ?case by (cases "n < 10") (auto simp: digits.simps [of n])
qed

lemma digits_zero: "digits n = ''0'' \<Longrightarrow> n = 0"
proof -
  assume "digits n = ''0''"
  then have "undigits 0 ''0'' = Some n" using undigits_digits by metis
  moreover have "char_digit CHR ''0'' = Some 0" by (simp add: char_digit_def)
  ultimately show "n = 0" by simp
qed

lemma digits_leading: "hd (digits n) = CHR ''0'' \<Longrightarrow> tl (digits n) = []"
proof (induction n rule: digits.induct)
  case (1 n)
  show ?case
  proof (cases "n < 10")
    case True
    then show ?thesis by (simp add: digits.simps [of n])
  next
    case False
    then have h: "hd (digits (n div 10)) = CHR ''0''" using 1(2) by (simp add: digits.simps [of n])
    then have "tl (digits (n div 10)) = []" using 1(1) False by blast
    then have "digits (n div 10) = [CHR ''0'']" using h by (metis digits_nonempty list.collapse)
    then have "undigits 0 [CHR ''0''] = Some (n div 10)" using undigits_digits by metis
    moreover have "char_digit CHR ''0'' = Some 0" by (simp add: char_digit_def)
    ultimately have "n div 10 = 0" by simp
    then show ?thesis using False by simp
  qed
qed

text \<open>What may follow a number.\<close>

definition after_number :: "string \<Rightarrow> bool" where
  "after_number rest \<longleftrightarrow>
     (case rest of [] \<Rightarrow> True | c # _ \<Rightarrow> \<not> is_digit c \<and> c \<notin> {CHR ''.'', CHR ''e'', CHR ''E''})"

definition ends_digits :: "string \<Rightarrow> bool" where
  "ends_digits s \<longleftrightarrow> (case s of [] \<Rightarrow> True | c # _ \<Rightarrow> \<not> is_digit c)"

lemma after_number_ends: "after_number s \<Longrightarrow> ends_digits s"
  by (simp add: after_number_def ends_digits_def split: list.splits)

lemma undigits_all: "undigits a ds = Some n \<Longrightarrow> \<forall>c \<in> set ds. is_digit c"
  by (induction a ds rule: undigits.induct) (auto simp: is_digit_def split: option.splits)

lemma undigits_suffix: "undigits 0 (ds @ fs) = Some n \<Longrightarrow> \<forall>c \<in> set fs. is_digit c"
  using undigits_all [of 0 "ds @ fs" n] by simp

text \<open>A run of digits is read up to what ends it.\<close>

lemma read_run:
  assumes "\<forall>c \<in> set ds. is_digit c" "ends_digits t"
  shows "takeWhile is_digit (ds @ t) = ds" "dropWhile is_digit (ds @ t) = t"
proof -
  have "takeWhile is_digit t = []" "dropWhile is_digit t = t"
    using assms(2) by (auto simp: ends_digits_def split: list.splits)
  then show "takeWhile is_digit (ds @ t) = ds" "dropWhile is_digit (ds @ t) = t"
    using assms(1) by (simp_all add: takeWhile_append2 dropWhile_append2)
qed

text \<open>The texts of a fraction and of an exponent.\<close>

definition fraction_text :: "string \<Rightarrow> string" where
  "fraction_text fs = (if fs = [] then [] else CHR ''.'' # fs)"

inductive exponent_text :: "int option \<Rightarrow> string \<Rightarrow> bool" where
  exponent_none: "exponent_text None []"
| exponent_bare: "c \<in> {CHR ''e'', CHR ''E''} \<Longrightarrow> ds \<noteq> [] \<Longrightarrow> undigits 0 ds = Some n \<Longrightarrow>
    exponent_text (Some (int n)) (c # ds)"
| exponent_plus: "c \<in> {CHR ''e'', CHR ''E''} \<Longrightarrow> ds \<noteq> [] \<Longrightarrow> undigits 0 ds = Some n \<Longrightarrow>
    exponent_text (Some (int n)) (c # CHR ''+'' # ds)"
| exponent_minus: "c \<in> {CHR ''e'', CHR ''E''} \<Longrightarrow> ds \<noteq> [] \<Longrightarrow> undigits 0 ds = Some n \<Longrightarrow>
    exponent_text (Some (- int n)) (c # CHR ''-'' # ds)"

lemma not_digit [simp]:
  "\<not> is_digit CHR ''.''" "\<not> is_digit CHR ''e''" "\<not> is_digit CHR ''E''" "\<not> is_digit CHR ''+''" "\<not> is_digit CHR ''-''"
  by (simp_all add: is_digit_def char_digit_def)

lemma digit_not_sign: "is_digit c \<Longrightarrow> c \<noteq> CHR ''-'' \<and> c \<noteq> CHR ''+'' \<and> c \<noteq> CHR ''.''"
  by (auto simp: is_digit_def char_digit_def)

lemma read_exponent_text:
  assumes "exponent_text x s" "after_number rest"
  shows "read_exponent (s @ rest) = Some (x, rest)"
  using assms(1)
proof cases
  case exponent_none
  then show ?thesis using assms(2) by (auto simp: read_exponent_def after_number_def split: list.splits)
next
  case (exponent_bare c ds n)
  note run = read_run [OF undigits_all [OF exponent_bare(5)] after_number_ends [OF assms(2)]]
  obtain d r where d: "ds = d # r" using exponent_bare(4) by (cases ds) auto
  then have "d \<noteq> CHR ''-''" "d \<noteq> CHR ''+''" using undigits_all [OF exponent_bare(5)] digit_not_sign by auto
  then show ?thesis using exponent_bare run by (auto simp: read_exponent_def d)
next
  case (exponent_plus c ds n)
  note run = read_run [OF undigits_all [OF exponent_plus(5)] after_number_ends [OF assms(2)]]
  show ?thesis using exponent_plus run by (auto simp: read_exponent_def)
next
  case (exponent_minus c ds n)
  note run = read_run [OF undigits_all [OF exponent_minus(5)] after_number_ends [OF assms(2)]]
  show ?thesis using exponent_minus run by (auto simp: read_exponent_def)
qed

lemma exponent_ends:
  assumes "exponent_text x s" "after_number rest"
  shows "ends_digits (s @ rest)" "s @ rest \<noteq> [] \<Longrightarrow> hd (s @ rest) \<noteq> CHR ''.''"
  using assms by (auto simp: ends_digits_def after_number_def elim!: exponent_text.cases split: list.splits)

lemma read_fraction_text:
  assumes "\<forall>c \<in> set fs. is_digit c" "ends_digits t" "t \<noteq> [] \<Longrightarrow> hd t \<noteq> CHR ''.''"
  shows "read_fraction (fraction_text fs @ t) = Some (fs, t)" "ends_digits (fraction_text fs @ t)"
  using assms(2,3) read_run [OF assms(1,2)]
  by (auto simp: read_fraction_def fraction_text_def) (simp add: ends_digits_def)

text \<open>A literal.\<close>

definition literal_text :: "bool \<Rightarrow> nat \<Rightarrow> string \<Rightarrow> string \<Rightarrow> string" where
  "literal_text neg n fs s = (if neg then ''-'' else []) @ digits n @ fraction_text fs @ s"

lemma read_literal:
  assumes m: "undigits 0 (digits n @ fs) = Some m" and x: "exponent_text x s" and r: "after_number rest"
  shows "read_number (literal_text neg n fs s @ rest) = Some (number_of neg m (length fs) x, rest)"
proof -
  let ?t = "fraction_text fs @ s @ rest"
  note e = exponent_ends [OF x r]
  note f = read_fraction_text [OF undigits_suffix [OF m] e]
  have run: "takeWhile is_digit (digits n @ ?t) = digits n" "dropWhile is_digit (digits n @ ?t) = ?t"
    by (rule read_run; use digits_all f(2) in blast)+
  have lead: "\<not> (hd (digits n) = CHR ''0'' \<and> tl (digits n) \<noteq> [])" using digits_leading by blast
  have sign: "hd (digits n @ ?t) \<noteq> CHR ''-''" using digits_sign(1) [of n] by simp
  show ?thesis
    using lead sign f(1) read_exponent_text [OF x r] m
    by (cases neg) (simp_all add: read_number_def literal_text_def run Let_def del: hd_append2)
qed

lemma number_of_int: "number_of (i < 0) (nat \<bar>i\<bar>) 0 None = JNum i"
  by (simp add: number_of_def)

lemma big_String_literal: "big_String i = literal_text (i < 0) (nat \<bar>i\<bar>) [] []"
  by (simp add: big_String_def literal_text_def fraction_text_def)

lemma literal_start: "\<exists>c r. literal_text neg n fs s = c # r \<and> (c = CHR ''-'' \<or> is_digit c)"
proof (cases neg)
  case False
  then have "literal_text neg n fs s = hd (digits n) # tl (digits n) @ fraction_text fs @ s"
    by (simp add: literal_text_def flip: append_Cons)
  moreover have "is_digit (hd (digits n))" by (rule digits_all [OF hd_in_set [OF digits_nonempty]])
  ultimately show ?thesis by blast
qed (simp add: literal_text_def)


section \<open>The texts of a value\<close>

definition blank :: "string \<Rightarrow> bool" where
  "blank ws \<longleftrightarrow> list_all json_space ws"

inductive json_text :: "json \<Rightarrow> string \<Rightarrow> bool"
  and json_elems :: "json list \<Rightarrow> string \<Rightarrow> bool"
  and json_members :: "(string \<times> json) list \<Rightarrow> string \<Rightarrow> bool"
where
  text_null: "json_text JNull ''null''"
| text_bool: "json_text (JBool b) (if b then ''true'' else ''false'')"
| text_literal: "undigits 0 (digits n @ fs) = Some m \<Longrightarrow> exponent_text x s \<Longrightarrow>
    json_text (number_of neg m (length fs) x) (literal_text neg n fs s)"
| text_str: "json_text (JStr (repair s)) (jstring s)"
| text_blank: "json_text j s \<Longrightarrow> blank ws \<Longrightarrow> json_text j (ws @ s)"
| text_arr0: "json_text (JArr []) ''[]''"
| text_arr: "json_elems xs s \<Longrightarrow> json_text (JArr xs) (CHR ''['' # s @ '']'')"
| text_obj0: "json_text (JObj []) ''{}''"
| text_obj: "json_members ms s \<Longrightarrow> json_text (JObj ms) (CHR ''{'' # s @ ''}'')"
| elems_last: "json_text x s \<Longrightarrow> blank ws \<Longrightarrow> json_elems [x] (s @ ws)"
| elems_more: "json_text x s \<Longrightarrow> json_elems xs t \<Longrightarrow> json_elems (x # xs) (s @ CHR '','' # t)"
| members_last: "blank vs \<Longrightarrow> json_text x s \<Longrightarrow> blank ws \<Longrightarrow>
    json_members [(repair k, x)] (vs @ jstring k @ CHR '':'' # s @ ws)"
| members_more: "blank vs \<Longrightarrow> json_text x s \<Longrightarrow> json_members ms t \<Longrightarrow>
    json_members ((repair k, x) # ms) (vs @ jstring k @ CHR '':'' # s @ CHR '','' # t)"

lemma blank_simps [simp]: "blank []" "blank (c # ws) \<longleftrightarrow> json_space c \<and> blank ws"
  by (simp_all add: blank_def)

lemma skip_ws_cons [simp]: "\<not> json_space c \<Longrightarrow> skip_ws (c # r) = c # r"
  by (simp add: skip_ws_def)

lemma skip_ws_blank [simp]: "blank ws \<Longrightarrow> skip_ws (ws @ s) = skip_ws s"
  by (induction ws) (simp_all add: skip_ws_def)

lemma p_value_blank [simp]: "blank ws \<Longrightarrow> p_value n (ws @ s) = p_value n s"
  by (cases n) simp_all

lemma p_members_blank [simp]: "blank ws \<Longrightarrow> p_members n (ws @ s) = p_members n s"
  by (cases n) simp_all

lemma not_space [simp]:
  "\<not> json_space QUOTE" "\<not> json_space CHR ''[''" "\<not> json_space CHR '']''" "\<not> json_space CHR ''{''"
  "\<not> json_space CHR ''}''" "\<not> json_space CHR '':''" "\<not> json_space CHR '',''" "\<not> json_space CHR ''n''"
  "\<not> json_space CHR ''t''" "\<not> json_space CHR ''f''" "json_space CHR 0x0A" "json_space CHR '' ''"
  by (simp_all add: json_space_def QUOTE_def)

lemma after_number_simps [simp]:
  "after_number []" "after_number (CHR '','' # r)" "after_number (CHR '']'' # r)" "after_number (CHR ''}'' # r)"
  by (simp_all add: after_number_def is_digit_def char_digit_def)

lemma after_number_blank [simp]: "blank ws \<Longrightarrow> after_number r \<Longrightarrow> after_number (ws @ r)"
  by (cases ws) (auto simp: after_number_def is_digit_def char_digit_def json_space_def Let_def)

lemma number_start:
  assumes "c = CHR ''-'' \<or> is_digit c"
  shows "\<not> json_space c" "c \<notin> {QUOTE, CHR ''['', CHR ''{'', CHR ''n'', CHR ''t'', CHR ''f'', CHR '']'', CHR ''}''}"
  using assms by (auto simp: is_digit_def char_digit_def json_space_def Let_def QUOTE_def)

text \<open>What a text starts with: not a bracket that closes.\<close>

lemma text_start:
  "json_text j s \<Longrightarrow> s \<noteq> [] \<and> strip '']'' (skip_ws (s @ t)) = None \<and> strip ''}'' (skip_ws (s @ t)) = None"
  "json_elems xs s \<Longrightarrow> strip '']'' (skip_ws (s @ t)) = None"
  "json_members ms s \<Longrightarrow> strip ''}'' (skip_ws (s @ t)) = None"
proof (induction arbitrary: t and t and t rule: json_text_json_elems_json_members.inducts)
  case (text_literal n fs m x s neg)
  obtain c r where c: "literal_text neg n fs s = c # r" "c = CHR ''-'' \<or> is_digit c" using literal_start by blast
  show ?case using number_start [OF c(2)] by (simp add: c(1) strip_def)
qed (auto simp: strip_def jstring_def QUOTE_def json_space_def)

text \<open>The reader reads every text of a value, whatever follows it.\<close>

lemma text_read:
  "json_text j s \<Longrightarrow> length s \<le> n \<Longrightarrow> after_number rest \<Longrightarrow> p_value n (s @ rest) = Some (j, rest)"
  "json_elems xs s \<Longrightarrow> length s < n \<Longrightarrow> p_elems n (s @ CHR '']'' # rest) = Some (xs, rest)"
  "json_members ms s \<Longrightarrow> length s < n \<Longrightarrow> p_members n (s @ CHR ''}'' # rest) = Some (ms, rest)"
proof (induction arbitrary: n rest and n rest and n rest rule: json_text_json_elems_json_members.inducts)
  case text_null
  then show ?case by (cases n) (simp_all add: strip_def QUOTE_def)
next
  case (text_bool b)
  then show ?case by (cases n; cases b) (simp_all add: strip_def QUOTE_def)
next
  case (text_literal k fs m x s neg)
  obtain c r where c: "literal_text neg k fs s = c # r" "c = CHR ''-'' \<or> is_digit c" using literal_start by blast
  then obtain l where "n = Suc l" using text_literal.prems by (cases n) auto
  then show ?case
    using number_start [OF c(2)] read_literal [OF text_literal.hyps text_literal.prems(2), of neg] by (simp add: c(1))
next
  case (text_str s)
  then show ?case by (cases n) (simp_all add: jstring_def read_jstring)
next
  case (text_arr xs s)
  then obtain m where n: "n = Suc m" by (cases n) auto
  have "p_elems m (s @ CHR '']'' # rest) = Some (xs, rest)" using text_arr by (simp add: n)
  then show ?case using text_start(2) [OF text_arr.hyps(1)] by (simp add: n QUOTE_def)
next
  case (text_obj ms s)
  then obtain m where n: "n = Suc m" by (cases n) auto
  have "p_members m (s @ CHR ''}'' # rest) = Some (ms, rest)" using text_obj by (simp add: n)
  then show ?case using text_start(3) [OF text_obj.hyps(1)] by (simp add: n QUOTE_def)
next
  case (elems_last x s ws)
  then obtain m where n: "n = Suc m" by (cases n) auto
  show ?case using elems_last by (simp add: n)
next
  case (elems_more x s xs t)
  then obtain m where n: "n = Suc m" by (cases n) auto
  show ?case using elems_more by (simp add: n)
next
  case (members_last vs x s ws k)
  then obtain m where n: "n = Suc m" by (cases n) auto
  show ?case using members_last by (simp add: n jstring_def read_jstring strip_def)
next
  case (members_more vs x s ms t k)
  then obtain m where n: "n = Suc m" by (cases n) auto
  show ?case using members_more by (simp add: n jstring_def read_jstring strip_def)
next
  case (text_blank j s ws)
  then show ?case by simp
next
  case text_arr0
  then show ?case by (cases n) (simp_all add: strip_def QUOTE_def)
next
  case text_obj0
  then show ?case by (cases n) (simp_all add: strip_def QUOTE_def)
qed


section \<open>The printers\<close>

text \<open>What a printed value is read back as: its strings are repaired.\<close>

fun jrepair :: "json \<Rightarrow> json" where
  "jrepair (JStr s) = JStr (repair s)"
| "jrepair (JArr xs) = JArr (map jrepair xs)"
| "jrepair (JObj ms) = JObj (map (\<lambda>(k, v). (repair k, jrepair v)) ms)"
| "jrepair j = j"

lemma join_char_Cons: "join_char c (x # xs) = x @ (if xs = [] then [] else c # join_char c xs)"
  by (cases xs) simp_all

lemma elems_join:
  "xs \<noteq> [] \<Longrightarrow> \<forall>x \<in> set xs. json_text (f x) (g x) \<Longrightarrow> blank ws \<Longrightarrow>
    json_elems (map f xs) (join_char CHR '','' (map g xs) @ ws)"
  by (induction xs rule: list_nonempty_induct)
    (auto simp: join_char_Cons intro: elems_last elems_more)

lemma members_join:
  "ms \<noteq> [] \<Longrightarrow> \<forall>m \<in> set ms. json_text (f (snd m)) (g (snd m)) \<Longrightarrow> blank vs \<Longrightarrow> blank ws \<Longrightarrow>
    json_members (map (\<lambda>(k, v). (repair k, f v)) ms)
      (join_char CHR '','' (map (\<lambda>(k, v). vs @ jstring k @ CHR '':'' # g v) ms) @ ws)"
  by (induction ms rule: list_nonempty_induct)
    (auto simp: join_char_Cons case_prod_unfold intro: members_last members_more)

lemma text_num: "json_text (JNum i) (big_String i)"
  using text_literal [where fs = "[]" and n = "nat \<bar>i\<bar>" and neg = "i < 0", OF _ exponent_none]
  by (simp add: big_String_literal number_of_int)

lemma text_neg_zero: "json_text JNegZero ''-0''"
proof -
  have "digits 0 = ''0''" by code_simp
  then show ?thesis
    using text_literal [where fs = "[]" and n = 0 and neg = True, OF _ exponent_none] undigits_digits [of 0]
    by (simp add: literal_text_def fraction_text_def number_of_def)
qed

lemma exponent_String: "exponent_text (Some e) (CHR ''e'' # big_String e)"
  using exponent_bare [of "CHR ''e''" "digits (nat e)"] exponent_minus [of "CHR ''e''" "digits (nat (- e))"]
  by (cases "e < 0") (simp_all add: big_String_def)

lemma text_dec: "json_text (JDec neg m e) ((if neg then ''-'' else []) @ digits m @ CHR ''e'' # big_String e)"
  using text_literal [where fs = "[]" and n = m and neg = neg, OF _ exponent_String [of e]]
  by (simp add: literal_text_def fraction_text_def number_of_def)

lemmas scalar_texts =
  text_null text_bool [of True, simplified] text_bool [of False, simplified] text_num text_neg_zero text_dec text_str

lemma jtext_text: "json_text (jrepair j) (jtext j)"
proof (induction j)
  case (JArr xs)
  then show ?case
    using text_arr [OF elems_join [of xs jrepair jtext "[]"]] text_arr0 by (cases "xs = []") simp_all
next
  case (JObj ms)
  then have "\<forall>m \<in> set ms. json_text (jrepair (snd m)) (jtext (snd m))" by (auto simp: prod_set_simps)
  then show ?case
    using text_obj [OF members_join [of ms jrepair jtext "[]" "[]"]] text_obj0 by (cases "ms = []") simp_all
qed (simp_all add: scalar_texts scalar_texts(6) [where neg = True, simplified] scalar_texts(6) [where neg = False, simplified])

lemma newline_blank [simp]: "blank (newline d)"
  by (simp add: newline_def blank_def list_all_iff)

lemma jindent_text: "json_text (jrepair j) (jindent d j)"
proof (induction j arbitrary: d)
  case (JArr xs)
  let ?g = "\<lambda>x. newline (Suc d) @ jindent (Suc d) x"
  have "\<forall>x \<in> set xs. json_text (jrepair x) (?g x)" using JArr by (simp add: text_blank)
  then show ?case
    using text_arr [OF elems_join [of xs jrepair ?g "newline d"]] text_arr0 by (cases "xs = []") simp_all
next
  case (JObj ms)
  let ?g = "\<lambda>v. CHR '' '' # jindent (Suc d) v"
  have "\<forall>m \<in> set ms. json_text (jrepair (snd m)) (?g (snd m))"
    using JObj text_blank [of _ _ "'' ''"] by (fastforce simp: prod_set_simps)
  then show ?case
    using text_obj [OF members_join [of ms jrepair ?g "newline (Suc d)" "newline d"]] text_obj0
    by (cases "ms = []") simp_all
qed (simp_all add: scalar_texts)

text \<open>Reading back what was written, when it is not nested too deep.\<close>

lemma foldr_max_le: "foldr max (map f xs) (0 :: nat) \<le> d \<longleftrightarrow> (\<forall>x \<in> set xs. f x \<le> d)"
  by (induction xs) auto

lemma jdepth_le:
  "jdepth (JArr xs) \<le> d \<longleftrightarrow> 0 < d \<and> (\<forall>x \<in> set xs. jdepth x \<le> d - 1)"
  "jdepth (JObj ms) \<le> d \<longleftrightarrow> 0 < d \<and> (\<forall>(k, v) \<in> set ms. jdepth v \<le> d - 1)"
  using foldr_max_le [of jdepth xs "d - 1"] foldr_max_le [of "\<lambda>(k, v). jdepth v" ms "d - 1"]
  by (cases d; simp add: case_prod_unfold)+

lemma jdepth_repair [simp]: "jdepth (jrepair j) = jdepth j"
proof (induction j)
  case (JArr xs)
  then have "map (jdepth \<circ> jrepair) xs = map jdepth xs" by simp
  then show ?case by (simp only: jrepair.simps jdepth.simps map_map)
next
  case (JObj ms)
  then have "map ((\<lambda>(k, v). jdepth v) \<circ> (\<lambda>(k, v). (repair k, jrepair v))) ms = map (\<lambda>(k, v). jdepth v) ms"
    by (fastforce simp: prod_set_simps)
  then show ?case by (simp only: jrepair.simps jdepth.simps map_map)
qed simp_all

lemma json_parse_read: "json_text j s \<Longrightarrow> jdepth j \<le> 10000 \<Longrightarrow> json_parse s = Some j"
  using text_read(1) [of j s "Suc (length s)" "[]"] by (simp add: json_parse_def skip_ws_def)

lemma json_parse_text [simp]: "jdepth j \<le> 10000 \<Longrightarrow> json_parse (jtext j) = Some (jrepair j)"
  by (rule json_parse_read [OF jtext_text]) simp

lemma json_parse_indent [simp]: "jdepth j \<le> 10000 \<Longrightarrow> json_parse (jindent d j) = Some (jrepair j)"
  by (rule json_parse_read [OF jindent_text]) simp


section \<open>The fuel is enough\<close>

lemma skip_ws_length: "length (skip_ws s) \<le> length s"
  by (simp add: skip_ws_def length_dropWhile_le)

lemma raw_string_length: "raw_string s = Some (x, t) \<Longrightarrow> length t < length s"
proof (induction s arbitrary: x t rule: length_induct)
  case (1 s)
  then obtain c r where s: "s = c # r" by (cases s) auto
  show ?case
  proof (cases "c = QUOTE")
    case False
    then obtain u y where u: "raw_string u = Some (y, t)" "u = r \<or> (\<exists>e. r = e # u)"
      using 1(2) by (auto simp: s split: if_splits list.splits)
    then have "length u < length s" by (auto simp: s)
    then have "length t < length u" using 1(1) u(1) by blast
    then show ?thesis using \<open>length u < length s\<close> by simp
  qed (use 1(2) s in simp)
qed

lemma read_string_length: "read_string s = Some (x, t) \<Longrightarrow> length t < length s"
  by (auto simp: read_string_def dest: raw_string_length split: option.splits)

lemma read_fraction_length: "read_fraction s = Some (fs, u) \<Longrightarrow> length u \<le> length s"
  using length_dropWhile_le [of is_digit "tl s"] by (auto simp: read_fraction_def Let_def split: if_splits)

lemma read_exponent_length: "read_exponent s = Some (x, u) \<Longrightarrow> length u \<le> length s"
  using length_dropWhile_le [of is_digit "tl s"] length_dropWhile_le [of is_digit "tl (tl s)"]
  by (auto simp: read_exponent_def Let_def split: if_splits)

lemma read_number_length:
  assumes "read_number s = Some (x, t)"
  shows "length t < length s"
proof -
  define u where "u = (if s \<noteq> [] \<and> hd s = CHR ''-'' then tl s else s)"
  obtain fs v y where t: "takeWhile is_digit u \<noteq> []" "read_fraction (dropWhile is_digit u) = Some (fs, v)"
    "read_exponent v = Some (y, t)"
    using assms unfolding read_number_def Let_def u_def by (auto split: if_splits option.splits)
  have "length u = length (takeWhile is_digit u) + length (dropWhile is_digit u)"
    by (metis length_append takeWhile_dropWhile_id)
  then have "length (dropWhile is_digit u) < length u" using t(1) by simp
  then have "length t < length u"
    using read_fraction_length [OF t(2)] read_exponent_length [OF t(3)] by linarith
  then show ?thesis by (auto simp: u_def split: if_splits)
qed

lemma strip_length:
  assumes "strip p s = Some t"
  shows "length s = length p + length t"
proof -
  have "take (length p) s = p" "t = drop (length p) s" using assms by (simp_all add: strip_def split: if_splits)
  then show ?thesis by (metis append_take_drop_id length_append)
qed

definition enough :: "(nat \<Rightarrow> string \<Rightarrow> ('a \<times> string) option) \<Rightarrow> string \<Rightarrow> 'a \<Rightarrow> string \<Rightarrow> bool" where
  "enough p s x t \<longleftrightarrow> length t < length s \<and> (\<forall>m. length s - length t \<le> m \<longrightarrow> p m s = Some (x, t))"

lemma enoughI:
  assumes "length t < length s" "\<And>m. length s - length t \<le> Suc m \<Longrightarrow> p (Suc m) s = Some (x, t)"
  shows "enough p s x t"
  unfolding enough_def
proof (intro conjI allI impI)
  fix m assume m: "length s - length t \<le> m"
  then obtain k where "m = Suc k" using assms(1) by (cases m) auto
  then show "p m s = Some (x, t)" using assms(2) m by simp
qed (rule assms(1))

lemma enoughD: "enough p s x t \<Longrightarrow> length s - length t \<le> m \<Longrightarrow> p m s = Some (x, t)"
  by (simp add: enough_def)

lemma enough_length: "enough p s x t \<Longrightarrow> length t < length s"
  by (simp add: enough_def)

lemma fuel_enough:
  "p_value n s = Some (x, t) \<Longrightarrow> enough p_value s x t"
  "p_elems n s = Some (xs, t) \<Longrightarrow> enough p_elems s xs t"
  "p_members n s = Some (ms, t) \<Longrightarrow> enough p_members s ms t"
proof (induction n s and n s and n s arbitrary: x t and xs t and ms t rule: p_value_p_elems_p_members.induct)
  case (2 n s)
  obtain c r where c: "skip_ws s = c # r" using 2(3) by (cases "skip_ws s") auto
  have le: "length r < length s" using skip_ws_length [of s] c by simp
  show ?case
  proof (cases "c = CHR ''['' \<and> strip '']'' (skip_ws r) = None")
    case True
    then obtain xs where xs: "p_elems n r = Some (xs, t)" "x = JArr xs"
      using 2(3) c by (auto simp: QUOTE_def)
    have e: "enough p_elems r xs t" using 2(1) [OF c] True xs(1) by (simp add: QUOTE_def)
    show ?thesis
      using True le enough_length [OF e] enoughD [OF e] by (intro enoughI) (simp_all add: c xs(2) QUOTE_def)
  next
    case not_array: False
    show ?thesis
    proof (cases "c = CHR ''{'' \<and> strip ''}'' (skip_ws r) = None")
      case True
      then obtain ms where ms: "p_members n r = Some (ms, t)" "x = JObj ms"
        using 2(3) c by (auto simp: QUOTE_def)
      have e: "enough p_members r ms t" using 2(2) [OF c] True ms(1) by (simp add: QUOTE_def)
      show ?thesis
        using True le enough_length [OF e] enoughD [OF e] by (intro enoughI) (simp_all add: c ms(2) QUOTE_def)
    next
      case False
      have "p_value (Suc m) s = Some (x, t)" for m
        using 2(3) not_array False by (auto simp: c split: if_splits option.splits)
      moreover have "length t < length s"
        using 2(3) not_array False le skip_ws_length [of r] skip_ws_length [of s]
        by (auto simp: c dest!: read_string_length strip_length read_number_length split: if_splits option.splits)
      ultimately show ?thesis by (intro enoughI)
    qed
  qed
next
  case (4 n s)
  obtain y u where y: "p_value n s = Some (y, u)" using 4(3) by (cases "p_value n s") auto
  obtain c r where c: "skip_ws u = c # r" using 4(3) y by (cases "skip_ws u") auto
  have e: "enough p_value s y u" by (rule 4(1) [OF y])
  have le: "length r < length u" using skip_ws_length [of u] c by simp
  show ?case
  proof (cases "c = CHR '']''")
    case True
    then have "xs = [y]" "t = r" using 4(3) y c by simp_all
    then show ?thesis
      using True c le enough_length [OF e] enoughD [OF e] by (intro enoughI) simp_all
  next
    case False
    then obtain ys where ys: "c = CHR '',''" "p_elems n r = Some (ys, t)" "xs = y # ys"
      using 4(3) y c by (auto split: if_splits)
    have f: "enough p_elems r ys t" using 4(2) [OF y _ c] False ys by simp
    show ?thesis
      using ys c le enough_length [OF e] enough_length [OF f] enoughD [OF e] enoughD [OF f]
      by (intro enoughI) simp_all
  qed
next
  case (6 n s)
  obtain c r where c: "skip_ws s = c # r" "c = QUOTE"
    using 6(3) by (cases "skip_ws s") (auto split: if_splits)
  obtain k u where k: "read_string r = Some (k, u)" using 6(3) c by (cases "read_string r") auto
  obtain v where v: "strip '':'' (skip_ws u) = Some v"
    using 6(3) c k by (cases "strip '':'' (skip_ws u)") auto
  obtain y w where y: "p_value n v = Some (y, w)" using 6(3) c k v by (cases "p_value n v") auto
  obtain d q where d: "skip_ws w = d # q" using 6(3) c k v y by (cases "skip_ws w") auto
  have e: "enough p_value v y w" using 6(1) [OF c(1) _ k _ v y] c(2) by simp
  have le: "length q < length w" "length v < length s"
    using skip_ws_length [of w] skip_ws_length [of s] skip_ws_length [of u] c d
      read_string_length [OF k] strip_length [OF v] by simp_all
  show ?case
  proof (cases "d = CHR ''}''")
    case True
    then have "ms = [(k, y)]" "t = q" using 6(3) c k v y d by simp_all
    then show ?thesis
      using True c k v d le enough_length [OF e] enoughD [OF e] by (intro enoughI) simp_all
  next
    case False
    then obtain ns where ns: "d = CHR '',''" "p_members n q = Some (ns, t)" "ms = (k, y) # ns"
      using 6(3) c k v y d by (auto split: if_splits)
    have f: "enough p_members q ns t"
      using 6(2) [OF c(1) _ k _ v y _ d] c(2) False ns by simp
    show ?thesis
      using ns c k v d le enough_length [OF e] enough_length [OF f] enoughD [OF e] enoughD [OF f]
      by (intro enoughI) simp_all
  qed
qed simp_all

text \<open>So \<open>json_parse\<close> reads every text that any fuel reads, up to the depth.\<close>

lemma json_parse_complete:
  assumes "p_value n s = Some (x, t)" and "skip_ws t = []" and "jdepth x \<le> 10000"
  shows "json_parse s = Some x"
  using enoughD [OF fuel_enough(1) [OF assms(1)], of "Suc (length s)"] assms(2,3) by (simp add: json_parse_def)

end
