(* ===== verification/BlockTypes.thy ===== *)
theory BlockTypes
  imports DagSpec NonceTarget Sha256
begin

text \<open>
  Blocks and their encoding (\<open>pkg/types/types.go\<close>).  A hash and a target are their 32 bytes; the
  lengths the Go array types guarantee are the predicate \<open>header_ok\<close>.  A 64-bit timestamp is a word
  that the code compares as signed.
\<close>


section \<open>Types\<close>

type_synonym hash = bytes
type_synonym i64w = "64 word"

record block_header =
  hVersion :: u32
  hAlgorithmVersion :: u32
  hHeight :: u64
  hParentHash :: hash
  hTimestamp :: i64w
  hTarget :: target
  hNonce :: u64
  hEpochSeed :: hash
  hDAGSizeBytes :: u64
  hTxRoot :: hash
  hStateRoot :: hash

record block =
  Header :: block_header
  Transactions :: "string list"

record genesis_config =
  gcChainID :: string
  gcMessage :: string
  gcTimestamp :: i64w
  gcBits :: target
  gcSpec :: spec
  gcExtraData :: string

record chain_config =
  ccNetworkID :: string
  ccSpec :: spec

definition zero_hash :: hash where
  "zero_hash = replicate 32 0"

definition zero_header :: block_header where
  "zero_header = \<lparr>hVersion = 0, hAlgorithmVersion = 0, hHeight = 0, hParentHash = zero_hash,
     hTimestamp = 0, hTarget = zero_hash, hNonce = 0, hEpochSeed = zero_hash, hDAGSizeBytes = 0,
     hTxRoot = zero_hash, hStateRoot = zero_hash\<rparr>"

definition zero_block :: block where
  "zero_block = \<lparr>Header = zero_header, Transactions = []\<rparr>"


section \<open>Hashes as text\<close>

datatype hash_error = HashHex hex_error | HashLength nat

definition hash_String :: "hash \<Rightarrow> string" where
  "hash_String h = EncodeToString h"

text \<open>The conversion of \<open>UnmarshalJSON\<close>, after the JSON string has been read.\<close>

definition hash_Unmarshal :: "string \<Rightarrow> hash_error + hash" where
  "hash_Unmarshal s =
     (case DecodeString s of
        Inl e \<Rightarrow> Inl (HashHex e)
      | Inr d \<Rightarrow> if length d \<noteq> 32 then Inl (HashLength (length d)) else Inr d)"


section \<open>Header encoding\<close>

definition EncodeForMining :: "block_header \<Rightarrow> bytes" where
  "EncodeForMining h =
     put_be 4 (hVersion h) @ put_be 4 (hAlgorithmVersion h) @ put_be 8 (hHeight h) @ hParentHash h @
     put_be 8 (hTimestamp h) @ hTarget h @ hEpochSeed h @ put_be 8 (hDAGSizeBytes h) @ hTxRoot h @
     hStateRoot h"

definition Encode :: "block_header \<Rightarrow> bytes" where
  "Encode h = EncodeForMining h @ put_be 8 (hNonce h)"

definition HeaderHash :: "block_header \<Rightarrow> hash" where
  "HeaderHash h = sha256 (Encode h)"

definition BlockHash :: "block \<Rightarrow> hash" where
  "BlockHash b = HeaderHash (Header b)"

text \<open>The epoch seed; \<open>None\<close> is the panic of the division by a zero epoch length.\<close>

definition EpochSeedForHeight :: "spec \<Rightarrow> u64 \<Rightarrow> hash option" where
  "EpochSeedForHeight s h =
     (if EpochBlocks s = 0 then None
      else case DAGSizeForHeight s h of
          None \<Rightarrow> None
        | Some sz \<Rightarrow> Some (sha256 (put_be 8 (h div EpochBlocks s) @ put_be 8 sz)))"

definition string_bytes :: "string \<Rightarrow> bytes" where
  "string_bytes s = map of_char s"

definition NewGenesisBlock :: "genesis_config \<Rightarrow> block option" where
  "NewGenesisBlock cfg =
     (case ResolvedForHeight (gcSpec cfg) 0 of
        None \<Rightarrow> None
      | Some resolved \<Rightarrow>
          (case EpochSeedForHeight resolved 0 of
             None \<Rightarrow> None
           | Some seed \<Rightarrow> Some \<lparr>
               Header = \<lparr>hVersion = 1, hAlgorithmVersion = AlgorithmVersion resolved, hHeight = 0,
                 hParentHash = zero_hash, hTimestamp = gcTimestamp cfg, hTarget = gcBits cfg,
                 hNonce = 0, hEpochSeed = seed, hDAGSizeBytes = DAGSizeBytes resolved,
                 hTxRoot = sha256 (string_bytes (gcMessage cfg)),
                 hStateRoot = sha256 (string_bytes (gcExtraData cfg))\<rparr>,
               Transactions = []\<rparr>))"


section \<open>Well-formed headers\<close>

definition header_ok :: "block_header \<Rightarrow> bool" where
  "header_ok h \<longleftrightarrow> length (hParentHash h) = 32 \<and> length (hTarget h) = 32 \<and>
     length (hEpochSeed h) = 32 \<and> length (hTxRoot h) = 32 \<and> length (hStateRoot h) = 32"

lemma header_okD:
  assumes "header_ok h"
  shows "length (hParentHash h) = 32" "length (hTarget h) = 32" "length (hEpochSeed h) = 32"
    "length (hTxRoot h) = 32" "length (hStateRoot h) = 32"
  using assms by (simp_all add: header_ok_def)

lemma length_BlockHash [simp, len_simps]: "length (BlockHash b) = 32" "length (HeaderHash h) = 32"
  by (simp_all add: BlockHash_def HeaderHash_def)

lemma length_zero_hash [simp, len_simps]: "length zero_hash = 32"
  by (simp add: zero_hash_def)

lemma length_epoch_seed: "EpochSeedForHeight s h = Some seed \<Longrightarrow> length seed = 32"
  by (auto simp: EpochSeedForHeight_def split: if_splits option.splits)

lemma length_Encode [simp]:
  assumes "header_ok h"
  shows "length (EncodeForMining h) = 192" "length (Encode h) = 200"
  using header_okD [OF assms] by (simp_all add: EncodeForMining_def Encode_def)

lemma EncodeForMining_inj:
  assumes a: "header_ok a" and b: "header_ok b" and eq: "EncodeForMining a = EncodeForMining b"
  shows "a = b\<lparr>hNonce := hNonce a\<rparr>"
proof -
  have "put_be 4 (hVersion a) = put_be 4 (hVersion b)"
    "put_be 4 (hAlgorithmVersion a) = put_be 4 (hAlgorithmVersion b)"
    "put_be 8 (hHeight a) = put_be 8 (hHeight b)" "hParentHash a = hParentHash b"
    "put_be 8 (hTimestamp a) = put_be 8 (hTimestamp b)" "hTarget a = hTarget b"
    "hEpochSeed a = hEpochSeed b" "put_be 8 (hDAGSizeBytes a) = put_be 8 (hDAGSizeBytes b)"
    "hTxRoot a = hTxRoot b" "hStateRoot a = hStateRoot b"
    using eq header_okD [OF a] header_okD [OF b] by (simp_all add: EncodeForMining_def)
  then show ?thesis by (cases a; cases b) (auto dest: put_be_inj [rotated])
qed


section \<open>Properties\<close>

text \<open>C40: The header encodings have fixed lengths and are injective: two headers with the same mining
  encoding differ at most in the nonce, two headers with the same full encoding are equal, and the
  mining encoding of a header does not depend on the nonce the miner is looking for.\<close>

theorem header_encoding_injective:
  assumes "header_ok a" "header_ok b"
  shows "length (EncodeForMining a) = 192 \<and> length (Encode a) = 200 \<and>
    (Encode a = Encode b \<longleftrightarrow> a = b) \<and>
    (EncodeForMining a = EncodeForMining b \<longleftrightarrow> a = b\<lparr>hNonce := hNonce a\<rparr>)"
proof -
  have nonce: "EncodeForMining (h\<lparr>hNonce := x\<rparr>) = EncodeForMining h" for h :: block_header and x
    by (simp add: EncodeForMining_def)
  have "a = b\<lparr>hNonce := hNonce a\<rparr> \<Longrightarrow> EncodeForMining a = EncodeForMining b" using nonce by metis
  moreover have "Encode a = Encode b \<Longrightarrow> a = b"
  proof -
    assume e: "Encode a = Encode b"
    then have m: "EncodeForMining a = EncodeForMining b"
      and "put_be 8 (hNonce a) = put_be 8 (hNonce b)"
      using assms by (simp_all add: Encode_def)
    then have "hNonce a = hNonce b" by (intro put_be_inj [of 8 "hNonce a" "hNonce b"]) simp
    then show "a = b" using EncodeForMining_inj [OF assms m] by simp
  qed
  ultimately show ?thesis
    using EncodeForMining_inj [OF assms] length_Encode [OF assms(1)] by blast
qed

theorem header_encoding_injective_witness:
  "Encode zero_header \<noteq> Encode (zero_header\<lparr>hHeight := 1\<rparr>) \<and> length (Encode zero_header) = 200"
  using header_encoding_injective [of zero_header "zero_header\<lparr>hHeight := 1\<rparr>"]
  by (simp add: header_ok_def zero_header_def)

text \<open>The genesis block of a valid profile exists and carries the epoch parameters every node
  recomputes from its own profile: the version, the DAG size and the epoch seed of height 0.\<close>

theorem genesis_parameters:
  assumes v: "Validate (gcSpec cfg) = None"
  shows "\<exists>g sz. NewGenesisBlock cfg = Some g \<and> DAGSizeForHeight (gcSpec cfg) 0 = Some sz \<and>
    hHeight (Header g) = 0 \<and> hParentHash (Header g) = zero_hash \<and>
    hAlgorithmVersion (Header g) = AlgorithmVersion (gcSpec cfg) \<and> hDAGSizeBytes (Header g) = sz \<and>
    EpochSeedForHeight (gcSpec cfg) 0 = Some (hEpochSeed (Header g)) \<and>
    (length (gcBits cfg) = 32 \<longrightarrow> header_ok (Header g))"
proof -
  let ?s = "gcSpec cfg"
  let ?r = "?s\<lparr>DAGSizeBytes := initialDAGSize ?s\<rparr>"
  have e: "EpochBlocks ?s \<noteq> 0" "initialDAGSize ?s \<noteq> 0"
    by (rule Validate_common(4) [OF v], rule Validate_common(1) [OF v])
  then have i: "initialDAGSize ?r = initialDAGSize ?s" by (simp add: initialDAGSize_def)
  have at0: "DAGSizeForHeight x 0 = Some (initialDAGSize x)" for x
    by (simp add: DAGSizeForHeight_def DAGSizeForEpoch_def Let_def)
  have sz: "DAGSizeForHeight ?s 0 = Some (initialDAGSize ?s)" by (rule at0)
  have r: "DAGSizeForHeight ?r 0 = Some (initialDAGSize ?s)" by (simp only: at0 i)
  have res: "ResolvedForHeight ?s 0 = Some ?r" by (simp add: ResolvedForHeight_def sz)
  have seed: "EpochSeedForHeight ?r 0 = EpochSeedForHeight ?s 0"
    by (simp add: EpochSeedForHeight_def sz r)
  obtain sd where sd: "EpochSeedForHeight ?s 0 = Some sd"
    using e(1) by (simp add: EpochSeedForHeight_def sz)
  show ?thesis
    using length_epoch_seed [OF sd] unfolding NewGenesisBlock_def res seed option.case sd sz
    by (simp add: header_ok_def)
qed

definition sample_genesis :: genesis_config where
  "sample_genesis = \<lparr>gcChainID = ''devnet'', gcMessage = ''hello'', gcTimestamp = 100,
     gcBits = replicate 32 1, gcSpec = tiny_spec, gcExtraData = ''mode=research''\<rparr>"

theorem genesis_parameters_witness:
  "\<exists>g. NewGenesisBlock sample_genesis = Some g \<and> hDAGSizeBytes (Header g) = 64 \<and> header_ok (Header g)"
proof -
  have "DAGSizeForHeight tiny_spec 0 = Some 64"
    by (simp add: DAGSizeForHeight_def DAGSizeForEpoch_def initialDAGSize_def)
  with genesis_parameters [of sample_genesis] show ?thesis by (auto simp: sample_genesis_def)
qed

end
