(* ===== verification/BlockJson.thy ===== *)
theory BlockJson
  imports JsonProofs BlockTypes
begin

text \<open>
  Blocks as JSON (the fields of \<open>pkg/types/types.go\<close>), on the wire, in files and in the chain store.
  Decoding works on the value of a struct field that is already there, as \<open>Unmarshal\<close> does: \<open>null\<close> and
  a missing field leave it alone.
\<close>


section \<open>Decoding into a field\<close>

definition dec_str :: "json \<Rightarrow> string \<Rightarrow> string option" where
  "dec_str j v = (case j of JStr s \<Rightarrow> Some s | JNull \<Rightarrow> Some v | _ \<Rightarrow> None)"

definition dec_uint :: "json \<Rightarrow> 'a::len word \<Rightarrow> 'a word option" where
  "dec_uint j v =
     (case j of
        JNum i \<Rightarrow> if 0 \<le> i \<and> i < 2 ^ LENGTH('a) then Some (word_of_int i) else None
      | JNull \<Rightarrow> Some v | _ \<Rightarrow> None)"

text \<open>\<open>ParseInt\<close> reads a negative zero, \<open>ParseUint\<close> does not.\<close>

definition dec_int :: "json \<Rightarrow> i64w \<Rightarrow> i64w option" where
  "dec_int j v =
     (case j of
        JNum i \<Rightarrow> if - (2 ^ 63) \<le> i \<and> i < 2 ^ 63 then Some (word_of_int i) else None
      | JNegZero \<Rightarrow> Some 0
      | JNull \<Rightarrow> Some v | _ \<Rightarrow> None)"

text \<open>A hash has its own \<open>UnmarshalJSON\<close>, for which \<open>null\<close> is the empty string.\<close>

definition dec_hash :: "json \<Rightarrow> hash \<Rightarrow> hash option" where
  "dec_hash j v =
     (case j of
        JStr s \<Rightarrow> (case hash_Unmarshal s of Inl _ \<Rightarrow> None | Inr h \<Rightarrow> Some h)
      | _ \<Rightarrow> None)"

text \<open>An array of bytes: elements beyond the 32 are skipped, missing ones are zero.\<close>

definition dec_target :: "json \<Rightarrow> target \<Rightarrow> target option" where
  "dec_target j v =
     (case j of
        JArr xs \<Rightarrow>
          map_option (\<lambda>bs. bs @ replicate (32 - length bs) 0)
            (those (map (\<lambda>(x, b). dec_uint x b) (zip xs v)))
      | JNull \<Rightarrow> Some v | _ \<Rightarrow> None)"

text \<open>A slice: an element is decoded into the one at its place, or into a zero value.\<close>

definition dec_list :: "(json \<Rightarrow> 'a \<Rightarrow> 'a option) \<Rightarrow> 'a \<Rightarrow> json \<Rightarrow> 'a list \<Rightarrow> 'a list option" where
  "dec_list d z j v =
     (case j of
        JArr xs \<Rightarrow> those (map (\<lambda>(i, x). d x (if i < length v then v ! i else z)) (enumerate 0 xs))
      | JNull \<Rightarrow> Some [] | _ \<Rightarrow> None)"

abbreviation dec_strings :: "json \<Rightarrow> string list \<Rightarrow> string list option" where
  "dec_strings \<equiv> dec_list dec_str []"

text \<open>A struct: each member goes to the field of its name, in lower case or not; others are ignored.  Two
  letters outside ASCII fold to one inside: the long s and the Kelvin sign.\<close>

definition fold_piece :: "string option \<Rightarrow> string" where
  "fold_piece p =
     (if p = Some (utf8 0x17F) then ''s'' else if p = Some (utf8 0x212A) then ''k''
      else ToLower (piece_text p))"

definition fold_name :: "string \<Rightarrow> string" where
  "fold_name k = concat (map fold_piece (pieces k))"

type_synonym 'a fields = "(string \<times> (json \<Rightarrow> 'a \<Rightarrow> 'a option)) list"

fun dec_members :: "'a fields \<Rightarrow> (string \<times> json) list \<Rightarrow> 'a \<Rightarrow> 'a option" where
  "dec_members fs [] v = Some v"
| "dec_members fs ((k, x) # ms) v =
     (case map_of fs (fold_name k) of
        None \<Rightarrow> dec_members fs ms v
      | Some d \<Rightarrow> (case d x v of None \<Rightarrow> None | Some v \<Rightarrow> dec_members fs ms v))"

definition dec_struct :: "'a fields \<Rightarrow> json \<Rightarrow> 'a \<Rightarrow> 'a option" where
  "dec_struct fs j v = (case j of JObj ms \<Rightarrow> dec_members fs ms v | JNull \<Rightarrow> Some v | _ \<Rightarrow> None)"


section \<open>Blocks\<close>

definition enc_hash :: "hash \<Rightarrow> json" where
  "enc_hash h = JStr (hash_String h)"

definition enc_target :: "target \<Rightarrow> json" where
  "enc_target t = JArr (map (\<lambda>b. JNum (uint b)) t)"

definition enc_header :: "block_header \<Rightarrow> json" where
  "enc_header h = JObj [
     (''version'', JNum (uint (hVersion h))), (''algorithm_version'', JNum (uint (hAlgorithmVersion h))),
     (''height'', JNum (uint (hHeight h))), (''parent_hash'', enc_hash (hParentHash h)),
     (''timestamp'', JNum (sint (hTimestamp h))), (''target'', enc_target (hTarget h)),
     (''nonce'', JNum (uint (hNonce h))), (''epoch_seed'', enc_hash (hEpochSeed h)),
     (''dag_size_bytes'', JNum (uint (hDAGSizeBytes h))), (''tx_root'', enc_hash (hTxRoot h)),
     (''state_root'', enc_hash (hStateRoot h))]"

definition header_fields :: "block_header fields" where
  "header_fields = [
     (''version'', \<lambda>j h. map_option (\<lambda>x. h\<lparr>hVersion := x\<rparr>) (dec_uint j (hVersion h))),
     (''algorithm_version'', \<lambda>j h. map_option (\<lambda>x. h\<lparr>hAlgorithmVersion := x\<rparr>) (dec_uint j (hAlgorithmVersion h))),
     (''height'', \<lambda>j h. map_option (\<lambda>x. h\<lparr>hHeight := x\<rparr>) (dec_uint j (hHeight h))),
     (''parent_hash'', \<lambda>j h. map_option (\<lambda>x. h\<lparr>hParentHash := x\<rparr>) (dec_hash j (hParentHash h))),
     (''timestamp'', \<lambda>j h. map_option (\<lambda>x. h\<lparr>hTimestamp := x\<rparr>) (dec_int j (hTimestamp h))),
     (''target'', \<lambda>j h. map_option (\<lambda>x. h\<lparr>hTarget := x\<rparr>) (dec_target j (hTarget h))),
     (''nonce'', \<lambda>j h. map_option (\<lambda>x. h\<lparr>hNonce := x\<rparr>) (dec_uint j (hNonce h))),
     (''epoch_seed'', \<lambda>j h. map_option (\<lambda>x. h\<lparr>hEpochSeed := x\<rparr>) (dec_hash j (hEpochSeed h))),
     (''dag_size_bytes'', \<lambda>j h. map_option (\<lambda>x. h\<lparr>hDAGSizeBytes := x\<rparr>) (dec_uint j (hDAGSizeBytes h))),
     (''tx_root'', \<lambda>j h. map_option (\<lambda>x. h\<lparr>hTxRoot := x\<rparr>) (dec_hash j (hTxRoot h))),
     (''state_root'', \<lambda>j h. map_option (\<lambda>x. h\<lparr>hStateRoot := x\<rparr>) (dec_hash j (hStateRoot h)))]"

definition enc_block :: "block \<Rightarrow> json" where
  "enc_block b = JObj ((''header'', enc_header (Header b)) #
     (if Transactions b = [] then [] else [(''transactions'', JArr (map JStr (Transactions b)))]))"

definition block_fields :: "block fields" where
  "block_fields = [
     (''header'', \<lambda>j b. map_option (\<lambda>x. b\<lparr>Header := x\<rparr>) (dec_struct header_fields j (Header b))),
     (''transactions'', \<lambda>j b. map_option (\<lambda>x. b\<lparr>Transactions := x\<rparr>) (dec_strings j (Transactions b)))]"


section \<open>Reading a block back\<close>

lemma dec_hash_enc [simp]: "length h = 32 \<Longrightarrow> dec_hash (enc_hash h) v = Some h"
  by (simp add: dec_hash_def enc_hash_def hash_Unmarshal_def hash_String_def)

lemma dec_uint_exact [simp]: "dec_uint (JNum (uint w)) v = Some (w :: 'a::len word)"
  using unsigned_less [of w, where ?'a = int] by (simp add: dec_uint_def)

lemma dec_int_exact [simp]: "dec_int (JNum (sint w)) v = Some w"
  using sint_ge [of w] sint_lt [of w] by (simp add: dec_int_def)

lemma dec_target_enc [simp]:
  assumes "length t = 32" "length v = 32"
  shows "dec_target (enc_target t) v = Some t"
proof -
  have z: "zip (map (\<lambda>b. JNum (uint b)) t) v = map (\<lambda>(b, y). (JNum (uint b), y)) (zip t v)"
    by (simp add: zip_map1)
  have "those (map (\<lambda>(x, b). dec_uint x b) (zip (map (\<lambda>b. JNum (uint b)) t) v)) = Some (map fst (zip t v))"
    unfolding z map_map by (rule those_map_Some) auto
  then show ?thesis using assms by (simp add: dec_target_def enc_target_def)
qed

lemma dec_list_enc:
  assumes "\<And>x v. x \<in> set xs \<Longrightarrow> v \<in> insert z (set vs) \<Longrightarrow> d (f x) v = Some x"
  shows "dec_list d z (JArr (map f xs)) vs = Some xs"
proof -
  have "those (map (\<lambda>(i, x). d x (if i < length vs then vs ! i else z)) (enumerate 0 (map f xs))) =
      those (map (\<lambda>(i, x). d (f x) (if i < length vs then vs ! i else z)) (enumerate 0 xs))"
    by (simp add: enumerate_eq_zip zip_map2 comp_def case_prod_unfold cong: if_cong)
  also have "\<dots> = Some (map snd (enumerate 0 xs))"
    by (rule those_map_Some) (auto simp: in_set_enumerate_eq intro!: assms)
  finally show ?thesis by (simp add: dec_list_def)
qed

lemma dec_str_enc [simp]: "dec_str (JStr s) v = Some s"
  by (simp add: dec_str_def)

lemma dec_strings_enc [simp]: "dec_strings (JArr (map JStr xs)) v = Some xs"
  by (rule dec_list_enc) simp

text \<open>Text in which every byte is ASCII, such as a key or a number, is not repaired.\<close>

lemma repair_ascii [simp]: "list_all (\<lambda>c. (of_char c :: nat) < 128) s \<Longrightarrow> repair s = s"
  by (simp add: repair_utf8)

lemma repair_hash [simp]: "repair (hash_String h) = hash_String h"
proof -
  have "(of_char (hex_digit d) :: nat) < 128" if "d < 16" for d
  proof -
    have "list_all (\<lambda>d. (of_char (hex_digit d) :: nat) < 128) [0..<16]" by code_simp
    then show ?thesis using that by (simp only: list_all_iff set_upt atLeastLessThan_iff) simp
  qed
  moreover have "unat (drop_bit 4 b) < 16" "unat (b AND 15) < 16" for b :: byte
    using high_nibble_less [of b] low_nibble_less [of b] by (simp_all add: word_less_nat_alt)
  ultimately have "list_all (\<lambda>c. (of_char c :: nat) < 128) (hash_String h)"
    by (auto simp: hash_String_def EncodeToString_def list_all_iff)
  then show ?thesis by simp
qed

lemma jrepair_hash [simp]: "jrepair (enc_hash h) = enc_hash h"
  by (simp add: enc_hash_def)

lemma jrepair_target [simp]: "jrepair (enc_target t) = enc_target t"
  by (simp add: enc_target_def comp_def)

lemma jrepair_header [simp]: "jrepair (enc_header h) = enc_header h"
  by (simp add: enc_header_def)

definition repair_block :: "block \<Rightarrow> block" where
  "repair_block b = b\<lparr>Transactions := map repair (Transactions b)\<rparr>"

lemma jrepair_block [simp]: "jrepair (enc_block b) = enc_block (repair_block b)"
  by (simp add: enc_block_def repair_block_def comp_def)

text \<open>A key in lower case is the name of its field.\<close>

definition plain_key :: "string \<Rightarrow> bool" where
  "plain_key k \<longleftrightarrow> list_all (\<lambda>c. (of_char c :: nat) < 128 \<and> lower_char c = c) k"

lemma fold_plain [simp]: "plain_key k \<Longrightarrow> fold_name k = k"
proof (induction k)
  case (Cons c k)
  have "length (utf8 0x17F) \<noteq> length [c]" "length (utf8 0x212A) \<noteq> length [c]"
    by (simp_all only: utf8_def) simp_all
  then have "utf8 0x17F \<noteq> [c]" "utf8 0x212A \<noteq> [c]" by metis+
  then show ?case
    using Cons by (simp add: plain_key_def fold_name_def fold_piece_def piece_text_def ToLower_def)
qed (simp add: fold_name_def)

lemma block_keys:
  "list_all plain_key (map fst header_fields @ map fst block_fields)"
  by code_simp

lemmas block_key [simp] =
  block_keys [unfolded header_fields_def block_fields_def list.map fst_conv append.simps list.pred_inject]

text \<open>How deep a block is nested.\<close>

lemma jdepth_enc:
  "jdepth (enc_hash h) = 0" "jdepth (enc_target t) \<le> 1" "jdepth (enc_header e) \<le> 2" "jdepth (enc_block b) \<le> 3"
proof -
  show h: "jdepth (enc_hash h) = 0" for h by (simp add: enc_hash_def)
  show t: "jdepth (enc_target t) \<le> 1" for t by (simp add: enc_target_def jdepth_le del: jdepth.simps(1))
  show e: "jdepth (enc_header e) \<le> 2" for e
    using t [of "hTarget e"] by (simp add: enc_header_def jdepth_le h del: jdepth.simps(1,2))
  show "jdepth (enc_block b) \<le> 3"
    using e [of "Header b"] by (auto simp add: enc_block_def jdepth_le simp del: jdepth.simps(1,2))
qed

lemma jdepth_small [simp]: "jdepth (enc_header e) \<le> 10000" "jdepth (enc_block b) \<le> 10000"
  using jdepth_enc(3) [of e] jdepth_enc(4) [of b] by simp_all

text \<open>One member at a time, so that a struct is decoded by rewriting.\<close>

lemma dec_member:
  assumes "map_of fs (fold_name k) = Some d"
  shows "dec_members fs ((k, x) # ms) v = Option.bind (d x v) (dec_members fs ms)"
  using assms by (simp split: option.split)

lemma header_back:
  assumes "header_ok h"
  shows "dec_struct header_fields (enc_header h) (Header zero_block) = Some h"
proof -
  have "length (hTarget (Header zero_block)) = 32" by (simp add: zero_block_def zero_header_def)
  then show ?thesis
    using assms by (simp add: dec_struct_def enc_header_def header_fields_def header_ok_def)
qed

lemma block_back:
  assumes "header_ok (Header b)"
  shows "dec_struct block_fields (enc_block b) zero_block = Some b"
proof -
  have e: "Transactions zero_block = []" by (simp add: zero_block_def)
  show ?thesis
    unfolding dec_struct_def enc_block_def json.case
    using header_back [OF assms] e
    by (cases "Transactions b = []")
      (simp_all add: dec_member block_fields_def del: dec_members.simps(2))
qed

end
