(* ===== verification/ChainStore.thy ===== *)
theory ChainStore
  imports BlockTypes Decimal "HOL-Library.AList"
begin

text \<open>
  The chain store: the interface \<open>chain.Store\<close> and the in-memory store (\<open>pkg/chain/memory.go\<close>).  A Go
  map is an association list read by \<open>map_of\<close> and written by \<open>AList.update\<close>; a \<open>*big.Int\<close> is an
  integer.  The interface is the record of its methods, over any type of store; an operation that
  changes the store returns it.  The locale \<open>chain_store\<close> states what the methods promise in terms of
  an abstract chain, and the in-memory store is shown to keep that contract.

  The mutex of the store makes each method atomic, so a method is one function on the state.
\<close>


section \<open>The interface\<close>

datatype store_error = ErrBlockNotFound | ErrHeightNotFound u64 | ErrIO

record 's store_ops =
  so_StoreBlock :: "'s \<Rightarrow> block \<Rightarrow> int \<Rightarrow> store_error option \<times> 's"
  so_GetBlock :: "'s \<Rightarrow> hash \<Rightarrow> store_error + block"
  so_GetHeader :: "'s \<Rightarrow> hash \<Rightarrow> store_error + block_header"
  so_GetBlockByHeight :: "'s \<Rightarrow> u64 \<Rightarrow> store_error + block"
  so_CurrentTip :: "'s \<Rightarrow> store_error + block \<times> int"
  so_SetCurrentTip :: "'s \<Rightarrow> hash \<Rightarrow> store_error option \<times> 's"
  so_TotalWork :: "'s \<Rightarrow> hash \<Rightarrow> store_error + int"
  so_HasBlock :: "'s \<Rightarrow> hash \<Rightarrow> bool"


section \<open>The in-memory store\<close>

record memory_store =
  ms_genesisHash :: hash
  ms_currentTip :: hash
  ms_blocks :: "(hash \<times> block) list"
  ms_heights :: "(u64 \<times> hash) list"
  ms_totalWork :: "(hash \<times> int) list"

definition NewMemoryStore :: memory_store where
  "NewMemoryStore = \<lparr>ms_genesisHash = zero_hash, ms_currentTip = zero_hash, ms_blocks = [],
     ms_heights = [], ms_totalWork = []\<rparr>"

definition Memory_StoreBlock ::
  "memory_store \<Rightarrow> block \<Rightarrow> int \<Rightarrow> store_error option \<times> memory_store" where
  "Memory_StoreBlock m block totalWork =
     (let hash = BlockHash block;
          m = m\<lparr>ms_blocks := AList.update hash block (ms_blocks m)\<rparr>;
          m = m\<lparr>ms_heights := AList.update (hHeight (Header block)) hash (ms_heights m)\<rparr>;
          m = m\<lparr>ms_totalWork := AList.update hash totalWork (ms_totalWork m)\<rparr>;
          m = (if hHeight (Header block) = 0 \<and> ms_genesisHash m = zero_hash
               then m\<lparr>ms_genesisHash := hash\<rparr> else m);
          m = (if ms_currentTip m = zero_hash then m\<lparr>ms_currentTip := hash\<rparr> else m)
      in (None, m))"

definition Memory_GetBlock :: "memory_store \<Rightarrow> hash \<Rightarrow> store_error + block" where
  "Memory_GetBlock m hash =
     (case map_of (ms_blocks m) hash of None \<Rightarrow> Inl ErrBlockNotFound | Some b \<Rightarrow> Inr b)"

definition Memory_GetHeader :: "memory_store \<Rightarrow> hash \<Rightarrow> store_error + block_header" where
  "Memory_GetHeader m hash =
     (case Memory_GetBlock m hash of Inl e \<Rightarrow> Inl e | Inr b \<Rightarrow> Inr (Header b))"

text \<open>Reading a missing key of a Go map yields the zero value.\<close>

definition Memory_GetBlockByHeight :: "memory_store \<Rightarrow> u64 \<Rightarrow> store_error + block" where
  "Memory_GetBlockByHeight m height =
     (case map_of (ms_heights m) height of
        None \<Rightarrow> Inl (ErrHeightNotFound height)
      | Some hash \<Rightarrow> Inr (case map_of (ms_blocks m) hash of None \<Rightarrow> zero_block | Some b \<Rightarrow> b))"

definition Memory_CurrentTip :: "memory_store \<Rightarrow> store_error + block \<times> int" where
  "Memory_CurrentTip m =
     (if ms_currentTip m = zero_hash then Inl ErrBlockNotFound
      else Inr (case map_of (ms_blocks m) (ms_currentTip m) of None \<Rightarrow> zero_block | Some b \<Rightarrow> b,
                case map_of (ms_totalWork m) (ms_currentTip m) of None \<Rightarrow> 0 | Some w \<Rightarrow> w))"

definition Memory_SetCurrentTip :: "memory_store \<Rightarrow> hash \<Rightarrow> store_error option \<times> memory_store" where
  "Memory_SetCurrentTip m hash =
     (if map_of (ms_blocks m) hash = None then (Some ErrBlockNotFound, m)
      else (None, m\<lparr>ms_currentTip := hash\<rparr>))"

definition Memory_TotalWork :: "memory_store \<Rightarrow> hash \<Rightarrow> store_error + int" where
  "Memory_TotalWork m hash =
     (case map_of (ms_totalWork m) hash of None \<Rightarrow> Inl ErrBlockNotFound | Some w \<Rightarrow> Inr w)"

definition Memory_HasBlock :: "memory_store \<Rightarrow> hash \<Rightarrow> bool" where
  "Memory_HasBlock m hash \<longleftrightarrow> map_of (ms_blocks m) hash \<noteq> None"

definition memory_ops :: "memory_store store_ops" where
  "memory_ops = \<lparr>so_StoreBlock = Memory_StoreBlock, so_GetBlock = Memory_GetBlock,
     so_GetHeader = Memory_GetHeader, so_GetBlockByHeight = Memory_GetBlockByHeight,
     so_CurrentTip = Memory_CurrentTip, so_SetCurrentTip = Memory_SetCurrentTip,
     so_TotalWork = Memory_TotalWork, so_HasBlock = Memory_HasBlock\<rparr>"


section \<open>The contract\<close>

text \<open>The abstract chain: the stored blocks with their cumulative work, and the tip.\<close>

record chain =
  ch_blocks :: "hash \<Rightarrow> (block \<times> int) option"
  ch_tip :: "hash option"

definition chain_store_block :: "chain \<Rightarrow> block \<Rightarrow> int \<Rightarrow> chain" where
  "chain_store_block c b w =
     c\<lparr>ch_blocks := (ch_blocks c)(BlockHash b \<mapsto> (b, w)),
       ch_tip := (case ch_tip c of None \<Rightarrow> Some (BlockHash b) | Some t \<Rightarrow> Some t)\<rparr>"

text \<open>Blocks are filed under their own hash, which is never zero, and the tip is a stored block.\<close>

definition chain_ok :: "chain \<Rightarrow> bool" where
  "chain_ok c \<longleftrightarrow>
     (\<forall>h b w. ch_blocks c h = Some (b, w) \<longrightarrow> BlockHash b = h \<and> h \<noteq> zero_hash) \<and>
     (\<forall>t. ch_tip c = Some t \<longrightarrow> ch_blocks c t \<noteq> None)"

lemma chain_store_block_ok:
  "chain_ok c \<Longrightarrow> BlockHash b \<noteq> zero_hash \<Longrightarrow> chain_ok (chain_store_block c b w)"
  by (auto simp: chain_ok_def chain_store_block_def split: option.splits)

locale chain_store =
  fixes ops :: "'s store_ops"
    and ok :: "'s \<Rightarrow> bool"
    and abs :: "'s \<Rightarrow> chain"
  assumes abs_ok: "ok s \<Longrightarrow> chain_ok (abs s)"
    and HasBlock: "ok s \<Longrightarrow> so_HasBlock ops s h \<longleftrightarrow> ch_blocks (abs s) h \<noteq> None"
    and GetHeader: "ok s \<Longrightarrow> so_GetHeader ops s h =
      (case ch_blocks (abs s) h of None \<Rightarrow> Inl ErrBlockNotFound | Some (b, _) \<Rightarrow> Inr (Header b))"
    and GetBlock: "ok s \<Longrightarrow> so_GetBlock ops s h =
      (case ch_blocks (abs s) h of None \<Rightarrow> Inl ErrBlockNotFound | Some (b, _) \<Rightarrow> Inr b)"
    and TotalWork: "ok s \<Longrightarrow> so_TotalWork ops s h =
      (case ch_blocks (abs s) h of None \<Rightarrow> Inl ErrBlockNotFound | Some (_, w) \<Rightarrow> Inr w)"
    and CurrentTip: "ok s \<Longrightarrow> so_CurrentTip ops s =
      (case ch_tip (abs s) of None \<Rightarrow> Inl ErrBlockNotFound | Some t \<Rightarrow> Inr (the (ch_blocks (abs s) t)))"
    and StoreBlock: "ok s \<Longrightarrow> BlockHash b \<noteq> zero_hash \<Longrightarrow> so_StoreBlock ops s b w = (e, s') \<Longrightarrow>
      ok s' \<and> abs s' = chain_store_block (abs s) b w"
    and SetCurrentTip: "ok s \<Longrightarrow> so_SetCurrentTip ops s h = (e, s') \<Longrightarrow>
      ok s' \<and> (if ch_blocks (abs s) h = None then e = Some ErrBlockNotFound \<and> abs s' = abs s
               else abs s' = (abs s)\<lparr>ch_tip := Some h\<rparr>)"
begin

text \<open>Tips are stored blocks, filed under their own hash.\<close>

lemma tip_block:
  assumes "ok s" and "so_CurrentTip ops s = Inr (b, w)"
  shows "ch_tip (abs s) = Some (BlockHash b) \<and> ch_blocks (abs s) (BlockHash b) = Some (b, w)"
  using assms CurrentTip [OF assms(1)] abs_ok [OF assms(1)]
  by (force simp: chain_ok_def split: option.splits)

lemma lookup_after_store:
  assumes "ok s" and "BlockHash b \<noteq> zero_hash" and "so_StoreBlock ops s b w = (e, s')"
  shows "so_GetBlock ops s' (BlockHash b) = Inr b \<and> so_TotalWork ops s' (BlockHash b) = Inr w \<and>
    so_HasBlock ops s' (BlockHash b) \<and>
    (\<forall>h. h \<noteq> BlockHash b \<longrightarrow> so_GetBlock ops s' h = so_GetBlock ops s h \<and>
       so_TotalWork ops s' h = so_TotalWork ops s h \<and> so_HasBlock ops s' h = so_HasBlock ops s h)"
  using StoreBlock [OF assms] assms(1)
  by (simp add: GetBlock TotalWork HasBlock chain_store_block_def)

end


section \<open>The in-memory store keeps the contract\<close>

definition memory_ok :: "memory_store \<Rightarrow> bool" where
  "memory_ok m \<longleftrightarrow>
     (\<forall>h b. map_of (ms_blocks m) h = Some b \<longrightarrow> BlockHash b = h \<and> h \<noteq> zero_hash) \<and>
     (\<forall>h. map_of (ms_blocks m) h = None \<longleftrightarrow> map_of (ms_totalWork m) h = None) \<and>
     (ms_currentTip m \<noteq> zero_hash \<longrightarrow> map_of (ms_blocks m) (ms_currentTip m) \<noteq> None)"

definition memory_chain :: "memory_store \<Rightarrow> chain" where
  "memory_chain m =
     \<lparr>ch_blocks = (\<lambda>h. case map_of (ms_blocks m) h of
         None \<Rightarrow> None | Some b \<Rightarrow> Some (b, the (map_of (ms_totalWork m) h))),
      ch_tip = (if ms_currentTip m = zero_hash then None else Some (ms_currentTip m))\<rparr>"

lemma memory_cases:
  assumes "memory_ok m"
  obtains (missing) "map_of (ms_blocks m) h = None" "map_of (ms_totalWork m) h = None"
    "ch_blocks (memory_chain m) h = None"
  | (stored) b w where "map_of (ms_blocks m) h = Some b" "map_of (ms_totalWork m) h = Some w"
    "ch_blocks (memory_chain m) h = Some (b, w)"
proof (cases "map_of (ms_blocks m) h")
  case None
  moreover from this have "map_of (ms_totalWork m) h = None"
    using assms unfolding memory_ok_def by blast
  ultimately show ?thesis using missing by (simp add: memory_chain_def)
next
  case (Some b)
  moreover from this obtain w where "map_of (ms_totalWork m) h = Some w"
    using assms unfolding memory_ok_def by (metis option.exhaust)
  ultimately show ?thesis using stored by (simp add: memory_chain_def)
qed

lemma memory_chain_ok: "memory_ok m \<Longrightarrow> chain_ok (memory_chain m)"
proof -
  assume m: "memory_ok m"
  have "BlockHash b = h \<and> h \<noteq> zero_hash" if "ch_blocks (memory_chain m) h = Some (b, w)" for h b w
    using that m by (rule_tac memory_cases [OF m, of h]) (auto simp: memory_ok_def)
  moreover have "ch_blocks (memory_chain m) t \<noteq> None" if "ch_tip (memory_chain m) = Some t" for t
    using that m by (rule_tac memory_cases [OF m, of t]) (auto simp: memory_ok_def memory_chain_def split: if_splits)
  ultimately show ?thesis by (simp add: chain_ok_def)
qed

lemma memory_new_ok: "memory_ok NewMemoryStore" "memory_chain NewMemoryStore = \<lparr>ch_blocks = Map.empty, ch_tip = None\<rparr>"
  by (simp_all add: memory_ok_def memory_chain_def NewMemoryStore_def)

lemma memory_store_ok:
  assumes m: "memory_ok m" and nz: "BlockHash b \<noteq> zero_hash"
    and st: "Memory_StoreBlock m b w = (e, m')"
  shows "memory_ok m'" and "memory_chain m' = chain_store_block (memory_chain m) b w"
proof -
  have m': "map_of (ms_blocks m') = (map_of (ms_blocks m))(BlockHash b \<mapsto> b)"
    "map_of (ms_totalWork m') = (map_of (ms_totalWork m))(BlockHash b \<mapsto> w)"
    "ms_currentTip m' = (if ms_currentTip m = zero_hash then BlockHash b else ms_currentTip m)"
    using st by (auto simp: Memory_StoreBlock_def Let_def update_conv split: if_splits)
  show "memory_ok m'" using m nz by (auto simp: memory_ok_def m')
  have "ch_blocks (memory_chain m') = (ch_blocks (memory_chain m))(BlockHash b \<mapsto> (b, w))"
    by (rule ext) (simp add: memory_chain_def m' split: option.split)
  moreover have "ch_tip (memory_chain m') = ch_tip (chain_store_block (memory_chain m) b w)"
    using m nz by (simp add: memory_chain_def m'(3) chain_store_block_def)
  ultimately show "memory_chain m' = chain_store_block (memory_chain m) b w"
    by (simp add: chain_store_block_def split: option.splits)
qed

lemma memory_tip_ok:
  assumes m: "memory_ok m" and h: "map_of (ms_blocks m) h = Some b"
  shows "memory_ok (m\<lparr>ms_currentTip := h\<rparr>) \<and>
    memory_chain (m\<lparr>ms_currentTip := h\<rparr>) = (memory_chain m)\<lparr>ch_tip := Some h\<rparr>"
proof -
  have "h \<noteq> zero_hash" using assms unfolding memory_ok_def by blast
  moreover have "memory_ok (m\<lparr>ms_currentTip := h\<rparr>)"
    using assms unfolding memory_ok_def by simp
  ultimately show ?thesis by (simp add: memory_chain_def fun_eq_iff cong: option.case_cong)
qed

interpretation memory: chain_store memory_ops memory_ok memory_chain
proof unfold_locales
  fix s :: memory_store and h b w e s'
  assume s: "memory_ok s"
  show "chain_ok (memory_chain s)" by (rule memory_chain_ok [OF s])
  show "so_HasBlock memory_ops s h \<longleftrightarrow> ch_blocks (memory_chain s) h \<noteq> None"
    by (simp add: memory_ops_def Memory_HasBlock_def memory_chain_def split: option.splits)
  show "so_GetBlock memory_ops s h =
      (case ch_blocks (memory_chain s) h of None \<Rightarrow> Inl ErrBlockNotFound | Some (b, _) \<Rightarrow> Inr b)"
    by (simp add: memory_ops_def Memory_GetBlock_def memory_chain_def split: option.splits)
  show "so_GetHeader memory_ops s h =
      (case ch_blocks (memory_chain s) h of None \<Rightarrow> Inl ErrBlockNotFound | Some (b, _) \<Rightarrow> Inr (Header b))"
    by (simp add: memory_ops_def Memory_GetHeader_def Memory_GetBlock_def memory_chain_def
        split: option.splits)
  show "so_TotalWork memory_ops s h =
      (case ch_blocks (memory_chain s) h of None \<Rightarrow> Inl ErrBlockNotFound | Some (_, w) \<Rightarrow> Inr w)"
    by (rule memory_cases [OF s, of h]) (simp_all add: memory_ops_def Memory_TotalWork_def)
  show "so_CurrentTip memory_ops s = (case ch_tip (memory_chain s) of
      None \<Rightarrow> Inl ErrBlockNotFound | Some t \<Rightarrow> Inr (the (ch_blocks (memory_chain s) t)))"
  proof (cases "ms_currentTip s = zero_hash")
    case True
    then show ?thesis by (simp add: memory_ops_def Memory_CurrentTip_def memory_chain_def)
  next
    case False
    then have tip: "ch_tip (memory_chain s) = Some (ms_currentTip s)" by (simp add: memory_chain_def)
    from False s have "map_of (ms_blocks s) (ms_currentTip s) \<noteq> None"
      unfolding memory_ok_def by blast
    then obtain b w where "map_of (ms_blocks s) (ms_currentTip s) = Some b"
      "map_of (ms_totalWork s) (ms_currentTip s) = Some w"
      "ch_blocks (memory_chain s) (ms_currentTip s) = Some (b, w)"
      using memory_cases [OF s, of "ms_currentTip s"] by metis
    then show ?thesis by (simp add: memory_ops_def Memory_CurrentTip_def False tip)
  qed
  show "memory_ok s' \<and> memory_chain s' = chain_store_block (memory_chain s) b w"
    if "BlockHash b \<noteq> zero_hash" "so_StoreBlock memory_ops s b w = (e, s')"
    using memory_store_ok [OF s] that by (simp add: memory_ops_def)
  show "memory_ok s' \<and> (if ch_blocks (memory_chain s) h = None
      then e = Some ErrBlockNotFound \<and> memory_chain s' = memory_chain s
      else memory_chain s' = (memory_chain s)\<lparr>ch_tip := Some h\<rparr>)"
    if "so_SetCurrentTip memory_ops s h = (e, s')"
  proof (rule memory_cases [OF s, of h])
    assume "map_of (ms_blocks s) h = None" "ch_blocks (memory_chain s) h = None"
    then show ?thesis using that s by (simp add: memory_ops_def Memory_SetCurrentTip_def)
  next
    fix b w assume "map_of (ms_blocks s) h = Some b" "ch_blocks (memory_chain s) h = Some (b, w)"
    then show ?thesis
      using that memory_tip_ok [OF s] by (auto simp: memory_ops_def Memory_SetCurrentTip_def)
  qed
qed

end
