(* ===== verification/Consensus.thy ===== *)
theory Consensus
  imports ChainStore MiningProofs Strings
begin

text \<open>
  The validator (\<open>pkg/consensus/validator.go\<close>): header and block validation, cumulative work, the
  choice of the tip, block insertion, sealing, and the caches of DAGs.

  The DAGs the validator creates live in a heap, a list of DAGs; a \<open>*cx.DAG\<close> in a cache is an index
  into it.  The clock is an argument.  A result is \<open>None\<close> when the code panics.  A method holds the
  validator's mutex whenever it touches the caches, so it is one function on the validator's state.
\<close>


section \<open>State\<close>

record validator =
  v_config :: chain_config
  v_backend :: hash_backend
  v_workers :: nat
  v_sharedDAGs :: "(string \<times> nat) list"
  v_fallbackDAGs :: "(string \<times> nat) list"
  v_allocator :: "allocator option"
  v_miningBackend :: "hash_backend option"
  v_miningAllocator :: "allocator option"
  v_heap :: "dag list"

datatype epoch_detail = AlgorithmMismatch | SizeMismatch | SeedMismatch
datatype parent_detail = GenesisParent | ParentMissing store_error | ParentHeight
datatype time_detail = NotAfterParent | TooFarAhead

datatype consensus_error =
    ErrInvalidEpoch epoch_detail
  | ErrInvalidTarget
  | ErrInvalidParent parent_detail
  | ErrInvalidTimestamp time_detail
  | ErrInvalidPoW
  | DAGFailed dag_error
  | StoreFailed store_error
  | SpecFailed spec_error
  | PrepareFailed string
  | MinerFailed miner_error
  | NoSolution
  | UnexpectedNonce


section \<open>The reference backend and the slice allocator\<close>

definition sliceAllocator :: allocator where
  "sliceAllocator = \<lparr>
     allocator_Alloc = (\<lambda>sz. Inr \<lparr>alloc_bytes = replicate (unat sz) 0, alloc_name = ''go-slice''\<rparr>),
     allocator_Name = ''go-slice'', allocator_CanReuse = Some True\<rparr>"

text \<open>A nil DAG is dereferenced, which panics.\<close>

definition CPU_Hash :: "hashlib \<Rightarrow> bytes \<Rightarrow> nonce \<Rightarrow> dag option \<Rightarrow> hash_result option" where
  "CPU_Hash L header n d =
     (case d of
        None \<Rightarrow> None
      | Some x \<Rightarrow>
          if 2 \<le> AlgorithmVersion (dag_spec x)
          then StrictV2Hash (dag_spec x) header (Some n) (Some (tensorView x))
          else map_option fst
                 (LatticeHash L (dag_spec x) header (Some n) (Some (DAG_accessor x)) None))"

definition CPUBackend :: "hashlib \<Rightarrow> hash_backend" where
  "CPUBackend L = \<lparr>hb_Mode = ''cpu'', hb_Description = ''consensus cpu backend'',
     hb_Prepare = (\<lambda>_. None), hb_Hash = CPU_Hash L, hb_HashBatch = None\<rparr>"

definition NewValidator ::
  "hashlib \<Rightarrow> nat \<Rightarrow> chain_config \<Rightarrow> hash_backend option \<Rightarrow> int \<Rightarrow> consensus_error + validator" where
  "NewValidator L numCPU cfg backend workers =
     (case Validate (ccSpec cfg) of
        Some e \<Rightarrow> Inl (SpecFailed e)
      | None \<Rightarrow>
          let backend = (case backend of None \<Rightarrow> CPUBackend L | Some b \<Rightarrow> b)
          in Inr \<lparr>v_config = cfg, v_backend = backend, v_workers = effective_workers numCPU workers,
                  v_sharedDAGs = [], v_fallbackDAGs = [], v_allocator = Some sliceAllocator,
                  v_miningBackend = Some backend, v_miningAllocator = Some sliceAllocator,
                  v_heap = []\<rparr>)"


section \<open>Closing DAGs\<close>

text \<open>Closing the DAG a pointer refers to; the freed allocations are returned.\<close>

definition close_ptr :: "nat \<Rightarrow> dag list \<Rightarrow> dag list \<times> allocation list" where
  "close_ptr i heap =
     (if i < length heap then let (d, freed) = DAG_Close (heap ! i) in (heap[i := d], freed)
      else (heap, []))"

fun close_all :: "(string \<times> nat) list \<Rightarrow> dag list \<Rightarrow> dag list \<times> allocation list" where
  "close_all [] heap = (heap, [])"
| "close_all ((_, i) # ps) heap =
     (let (heap, f) = close_ptr i heap; (heap, fs) = close_all ps heap in (heap, f @ fs))"

definition SetMiningBackend ::
  "validator \<Rightarrow> hash_backend option \<Rightarrow> allocator option \<Rightarrow> validator \<times> allocation list" where
  "SetMiningBackend v backend al =
     (let v = (if backend \<noteq> None then v\<lparr>v_miningBackend := backend\<rparr> else v);
          v = (if al \<noteq> None then v\<lparr>v_miningAllocator := al\<rparr> else v);
          (heap, freed) = close_all (v_sharedDAGs v) (v_heap v)
      in (v\<lparr>v_sharedDAGs := [], v_heap := heap\<rparr>, freed))"

text \<open>\<open>Close\<close> skips a pointer it has seen before.\<close>

fun close_unseen ::
  "nat list \<Rightarrow> (string \<times> nat) list \<Rightarrow> dag list \<Rightarrow> nat list \<times> dag list \<times> allocation list" where
  "close_unseen seen [] heap = (seen, heap, [])"
| "close_unseen seen ((_, i) # ps) heap =
     (if i \<in> set seen then close_unseen seen ps heap
      else let (heap, f) = close_ptr i heap;
               (seen, heap, fs) = close_unseen (i # seen) ps heap
           in (seen, heap, f @ fs))"

definition Validator_Close :: "validator \<Rightarrow> validator \<times> allocation list" where
  "Validator_Close v =
     (let (seen, heap, fs) = close_unseen [] (v_fallbackDAGs v) (v_heap v);
          (seen, heap, gs) = close_unseen seen (v_sharedDAGs v) heap
      in (v\<lparr>v_fallbackDAGs := [], v_sharedDAGs := [], v_heap := heap\<rparr>, fs @ gs))"


section \<open>Choosing an allocator and a cache\<close>

definition MiningBackend :: "validator \<Rightarrow> hash_backend" where
  "MiningBackend v = (case v_miningBackend v of None \<Rightarrow> v_backend v | Some b \<Rightarrow> b)"

definition allocatorName :: "allocator option \<Rightarrow> string" where
  "allocatorName al = (case al of None \<Rightarrow> [] | Some a \<Rightarrow> allocator_Name a)"

definition miningAllocatorOrDefault :: "validator \<Rightarrow> allocator option" where
  "miningAllocatorOrDefault v =
     (case v_miningAllocator v of Some a \<Rightarrow> Some a | None \<Rightarrow> v_allocator v)"

definition canValidationReuseMiningDAG :: "validator \<Rightarrow> bool" where
  "canValidationReuseMiningDAG v =
     (case miningAllocatorOrDefault v of
        None \<Rightarrow> False
      | Some a \<Rightarrow>
          (case allocator_CanReuse a of
             Some r \<Rightarrow> r
           | None \<Rightarrow>
               let name = ToLower (TrimSpace (allocator_Name a)) in
               name \<in> set [[], ''go'', ''go-slice'', ''go-heap'', ''auto'', ''pinned'', ''pinned-host''] \<or>
               Contains name ''unified''))"

definition sharedDAGCacheKey :: "block_header \<Rightarrow> string" where
  "sharedDAGCacheKey h = hash_String (hEpochSeed h) @ ''/'' @ FormatUint (hDAGSizeBytes h)"

definition fallbackValidationDAGCacheKey :: "block_header \<Rightarrow> allocator option \<Rightarrow> string" where
  "fallbackValidationDAGCacheKey h al =
     sharedDAGCacheKey h @ ''/'' @ allocatorName al @ ''/validation''"

text \<open>\<open>cachedDAGForHeader\<close>, for a cache given as its contents: the result, the cache and the heap.  On
  success the pointer is in the cache; when populating fails the new DAG is closed again.\<close>

definition cachedDAGForHeader ::
  "hashlib \<Rightarrow> nat \<Rightarrow> validator \<Rightarrow> block_header \<Rightarrow> allocator option \<Rightarrow> (string \<times> nat) list \<Rightarrow> string \<Rightarrow>
     ((consensus_error + nat) \<times> (string \<times> nat) list \<times> dag list) option"
where
  "cachedDAGForHeader L numCPU v h al cache key =
     (case map_of cache key of
        Some i \<Rightarrow> Some (Inr i, cache, v_heap v)
      | None \<Rightarrow>
          do {
            s \<leftarrow> ResolvedForHeight (ccSpec (v_config v)) (hHeight h);
            let s = s\<lparr>DAGSizeBytes := hDAGSizeBytes h\<rparr>;
            (case fst (NewDAGWithAllocator s al) of
               Inl e \<Rightarrow> Some (Inl (DAGFailed e), cache, v_heap v)
             | Inr d \<Rightarrow>
                 do {
                   (e, d) \<leftarrow> PopulateDAG L numCPU d (hEpochSeed h) (int (v_workers v));
                   (case e of
                      Some e \<Rightarrow> Some (Inl (DAGFailed e), cache, v_heap v @ [fst (DAG_Close d)])
                    | None \<Rightarrow> Some (Inr (length (v_heap v)),
                                    AList.update key (length (v_heap v)) cache, v_heap v @ [d]))
                 })
          })"

definition sharedMiningDAGForHeader ::
  "hashlib \<Rightarrow> nat \<Rightarrow> validator \<Rightarrow> block_header \<Rightarrow> ((consensus_error + nat) \<times> validator) option" where
  "sharedMiningDAGForHeader L numCPU v h =
     do {
       (r, cache, heap) \<leftarrow> cachedDAGForHeader L numCPU v h (miningAllocatorOrDefault v)
                             (v_sharedDAGs v) (sharedDAGCacheKey h);
       Some (r, v\<lparr>v_sharedDAGs := cache, v_heap := heap\<rparr>)
     }"

definition validationDAGForHeader ::
  "hashlib \<Rightarrow> nat \<Rightarrow> validator \<Rightarrow> block_header \<Rightarrow> ((consensus_error + nat) \<times> validator) option" where
  "validationDAGForHeader L numCPU v h =
     (if canValidationReuseMiningDAG v then sharedMiningDAGForHeader L numCPU v h
      else do {
        (r, cache, heap) \<leftarrow> cachedDAGForHeader L numCPU v h (v_allocator v) (v_fallbackDAGs v)
                              (fallbackValidationDAGCacheKey h (v_allocator v));
        Some (r, v\<lparr>v_fallbackDAGs := cache, v_heap := heap\<rparr>)
      })"


section \<open>Validation\<close>

definition validatePoW ::
  "hashlib \<Rightarrow> nat \<Rightarrow> validator \<Rightarrow> block_header \<Rightarrow> (consensus_error option \<times> validator) option" where
  "validatePoW L numCPU v h =
     do {
       (r, v) \<leftarrow> validationDAGForHeader L numCPU v h;
       (case r of
          Inl e \<Rightarrow> Some (Some e, v)
        | Inr i \<Rightarrow>
            do {
              hash \<leftarrow> hb_Hash (v_backend v) (EncodeForMining h) (hNonce h)
                        (if i < length (v_heap v) then Some (v_heap v ! i) else None);
              Some (if LessOrEqualBE (Pow256 hash) (hTarget h) then None else Some ErrInvalidPoW, v)
            })
     }"

text \<open>The checks of a child against its parent.\<close>

definition check_parent ::
  "'s store_ops \<Rightarrow> 's \<Rightarrow> block_header \<Rightarrow> consensus_error option" where
  "check_parent ops store h =
     (if hHeight h = 0 then
        (if hParentHash h \<noteq> zero_hash then Some (ErrInvalidParent GenesisParent) else None)
      else case so_GetHeader ops store (hParentHash h) of
          Inl e \<Rightarrow> Some (ErrInvalidParent (ParentMissing e))
        | Inr parent \<Rightarrow>
            if hHeight parent + 1 \<noteq> hHeight h then Some (ErrInvalidParent ParentHeight)
            else if sint (hTimestamp h) \<le> sint (hTimestamp parent)
            then Some (ErrInvalidTimestamp NotAfterParent)
            else None)"

definition ValidateHeader ::
  "hashlib \<Rightarrow> nat \<Rightarrow> i64w \<Rightarrow> 's store_ops \<Rightarrow> validator \<Rightarrow> 's \<Rightarrow> block_header \<Rightarrow>
     (consensus_error option \<times> validator) option"
where
  "ValidateHeader L numCPU now ops v store h =
     (let s = ccSpec (v_config v) in
      if hAlgorithmVersion h \<noteq> AlgorithmVersion s
      then Some (Some (ErrInvalidEpoch AlgorithmMismatch), v)
      else do {
        expectedDAGSize \<leftarrow> DAGSizeForHeight s (hHeight h);
        if hDAGSizeBytes h \<noteq> expectedDAGSize then Some (Some (ErrInvalidEpoch SizeMismatch), v)
        else do {
          expectedSeed \<leftarrow> EpochSeedForHeight s (hHeight h);
          if expectedSeed \<noteq> hEpochSeed h then Some (Some (ErrInvalidEpoch SeedMismatch), v)
          else if hTarget h = replicate 32 0 then Some (Some ErrInvalidTarget, v)
          else case check_parent ops store h of
              Some e \<Rightarrow> Some (Some e, v)
            | None \<Rightarrow>
                if sint (hTimestamp h) > sint (now + 2 * 60 * 60)
                then Some (Some (ErrInvalidTimestamp TooFarAhead), v)
                else validatePoW L numCPU v h
        }
      })"

definition ValidateBlock ::
  "hashlib \<Rightarrow> nat \<Rightarrow> i64w \<Rightarrow> 's store_ops \<Rightarrow> validator \<Rightarrow> 's \<Rightarrow> block \<Rightarrow>
     (consensus_error option \<times> validator) option"
where
  "ValidateBlock L numCPU now ops v store b = ValidateHeader L numCPU now ops v store (Header b)"


section \<open>Work and the choice of the tip\<close>

definition CalcBlockWork :: "target \<Rightarrow> int" where
  "CalcBlockWork t =
     (let max = 2 ^ 256; targetInt = int (be_val t)
      in if targetInt = 0 then 0 else max div (targetInt + 1))"

definition SelectBestChainByTotalWork :: "hash \<Rightarrow> int \<Rightarrow> hash \<Rightarrow> int \<Rightarrow> hash" where
  "SelectBestChainByTotalWork currentHash currentWork candidateHash candidateWork =
     (if candidateWork > currentWork then candidateHash
      else if candidateWork < currentWork then currentHash
      else if hash_String candidateHash < hash_String currentHash then candidateHash
      else currentHash)"


section \<open>Insertion\<close>

text \<open>What follows validation; the result is an error, or the work and whether the tip has moved.\<close>

definition insert_validated ::
  "'s store_ops \<Rightarrow> 's \<Rightarrow> block \<Rightarrow> (consensus_error + int \<times> bool) \<times> 's" where
  "insert_validated ops store b =
     (let blockHash = BlockHash b in
      if so_HasBlock ops store blockHash then
        (case so_TotalWork ops store blockHash of
           Inl e \<Rightarrow> (Inl (StoreFailed e), store)
         | Inr work \<Rightarrow> (Inr (work, False), store))
      else
        let blockWork = CalcBlockWork (hTarget (Header b)) in
        case (if hHeight (Header b) > 0
              then (case so_TotalWork ops store (hParentHash (Header b)) of
                      Inl e \<Rightarrow> Inl e | Inr w \<Rightarrow> Inr (blockWork + w))
              else Inr blockWork) of
          Inl e \<Rightarrow> (Inl (StoreFailed e), store)
        | Inr totalWork \<Rightarrow>
            (case so_StoreBlock ops store b totalWork of
               (Some e, store) \<Rightarrow> (Inl (StoreFailed e), store)
             | (None, store) \<Rightarrow>
                 (case so_CurrentTip ops store of
                    Inl _ \<Rightarrow>
                      (case so_SetCurrentTip ops store blockHash of
                         (Some e, store) \<Rightarrow> (Inl (StoreFailed e), store)
                       | (None, store) \<Rightarrow> (Inr (totalWork, True), store))
                  | Inr (current, currentWork) \<Rightarrow>
                      if SelectBestChainByTotalWork (BlockHash current) currentWork blockHash totalWork
                           = blockHash
                      then (case so_SetCurrentTip ops store blockHash of
                              (Some e, store) \<Rightarrow> (Inl (StoreFailed e), store)
                            | (None, store) \<Rightarrow> (Inr (totalWork, True), store))
                      else (Inr (totalWork, False), store))))"

definition InsertBlock ::
  "hashlib \<Rightarrow> nat \<Rightarrow> i64w \<Rightarrow> 's store_ops \<Rightarrow> validator \<Rightarrow> 's \<Rightarrow> block \<Rightarrow>
     ((consensus_error + int \<times> bool) \<times> validator \<times> 's) option"
where
  "InsertBlock L numCPU now ops v store b =
     do {
       (e, v) \<leftarrow> ValidateBlock L numCPU now ops v store b;
       (case e of
          Some e \<Rightarrow> Some (Inl e, v, store)
        | None \<Rightarrow> let (r, store) = insert_validated ops store b in Some (r, v, store))
     }"


section \<open>Sealing\<close>

definition sealSkipPrepareBackend :: "hash_backend \<Rightarrow> hash_backend" where
  "sealSkipPrepareBackend b = b\<lparr>hb_Prepare := (\<lambda>_. None), hb_HashBatch := None\<rparr>"

text \<open>The results a call of \<open>SealBlock\<close> can have; the search is the nondeterministic \<open>Mine\<close>.\<close>

inductive SealBlock ::
  "hashlib \<Rightarrow> nat \<Rightarrow> validator \<Rightarrow> block \<Rightarrow> u64 \<Rightarrow>
     (consensus_error + block \<times> mine_result) \<Rightarrow> validator \<Rightarrow> bool"
  for L :: hashlib and numCPU :: nat and v :: validator and b :: block and maxNonces :: u64
where
  dag_fails: "sharedMiningDAGForHeader L numCPU v (Header b) = Some (Inl e, v') \<Longrightarrow>
    SealBlock L numCPU v b maxNonces (Inl e) v'"
| prepare_fails: "sharedMiningDAGForHeader L numCPU v (Header b) = Some (Inr i, v') \<Longrightarrow>
    hb_Prepare (MiningBackend v) (Some (v_heap v' ! i)) = Some e \<Longrightarrow>
    SealBlock L numCPU v b maxNonces (Inl (PrepareFailed e)) v'"
| miner_fails: "sharedMiningDAGForHeader L numCPU v (Header b) = Some (Inr i, v') \<Longrightarrow>
    hb_Prepare (MiningBackend v) (Some (v_heap v' ! i)) = None \<Longrightarrow>
    NewMiner numCPU (ccSpec (v_config v')) (Some (v_heap v' ! i)) (int (v_workers v'))
      (sealSkipPrepareBackend (MiningBackend v)) = Inl e \<Longrightarrow>
    SealBlock L numCPU v b maxNonces (Inl (MinerFailed e)) v'"
| no_solution: "sharedMiningDAGForHeader L numCPU v (Header b) = Some (Inr i, v') \<Longrightarrow>
    hb_Prepare (MiningBackend v) (Some (v_heap v' ! i)) = None \<Longrightarrow>
    NewMiner numCPU (ccSpec (v_config v')) (Some (v_heap v' ! i)) (int (v_workers v'))
      (sealSkipPrepareBackend (MiningBackend v)) = Inr m \<Longrightarrow>
    Mine m (EncodeForMining (Header b)) (hTarget (Header b)) 0 maxNonces None \<Longrightarrow>
    SealBlock L numCPU v b maxNonces (Inl NoSolution) v'"
| sealed: "sharedMiningDAGForHeader L numCPU v (Header b) = Some (Inr i, v') \<Longrightarrow>
    hb_Prepare (MiningBackend v) (Some (v_heap v' ! i)) = None \<Longrightarrow>
    NewMiner numCPU (ccSpec (v_config v')) (Some (v_heap v' ! i)) (int (v_workers v'))
      (sealSkipPrepareBackend (MiningBackend v)) = Inr m \<Longrightarrow>
    Mine m (EncodeForMining (Header b)) (hTarget (Header b)) 0 maxNonces (Some res) \<Longrightarrow>
    mr_Nonce res = Some n \<Longrightarrow>
    SealBlock L numCPU v b maxNonces
      (Inr (b\<lparr>Header := (Header b)\<lparr>hNonce := n\<rparr>\<rparr>, res)) v'"
| no_nonce: "sharedMiningDAGForHeader L numCPU v (Header b) = Some (Inr i, v') \<Longrightarrow>
    hb_Prepare (MiningBackend v) (Some (v_heap v' ! i)) = None \<Longrightarrow>
    NewMiner numCPU (ccSpec (v_config v')) (Some (v_heap v' ! i)) (int (v_workers v'))
      (sealSkipPrepareBackend (MiningBackend v)) = Inr m \<Longrightarrow>
    Mine m (EncodeForMining (Header b)) (hTarget (Header b)) 0 maxNonces (Some res) \<Longrightarrow>
    mr_Nonce res = None \<Longrightarrow>
    SealBlock L numCPU v b maxNonces (Inl UnexpectedNonce) v'"

end
