(* ===== verification/DiskStore.thy ===== *)
theory DiskStore
  imports ChainStore BlockJson
begin

text \<open>
  The persistent chain store (\<open>pkg/chain/store_disk.go\<close>, \<open>pkg/chain/codec.go\<close>).  The store carries
  the file system it writes to: the bytes of the files by name, and a script of faults, one per flush,
  that decides which open, write or rename fails, and after how many bytes a write does.
\<close>


section \<open>Snapshots and files\<close>

record snapshot =
  sn_GenesisHash :: string
  sn_CurrentTip :: string
  sn_Blocks :: "(string \<times> block) list"
  sn_Heights :: "(string \<times> string) list"
  sn_TotalWork :: "(string \<times> string) list"

datatype io_fault = NoFault | OpenFault | WriteFault nat | RenameFault

record file_system =
  fs_files :: "(string \<times> string) list"
  fs_faults :: "io_fault list"
  fs_mkdir_fails :: bool
  fs_read_fails :: bool

datatype disk_error =
    DatadirRequired | MkdirFailed | ReadFailed | BadSnapshot | BadHash hash_error | BadHeight | BadWork

definition empty_snapshot :: snapshot where
  "empty_snapshot = \<lparr>sn_GenesisHash = [], sn_CurrentTip = [], sn_Blocks = [], sn_Heights = [],
     sn_TotalWork = []\<rparr>"

text \<open>A map is written with its keys in order; what is read is added to the map that is there.\<close>

definition enc_map :: "(string \<times> string) list \<Rightarrow> json" where
  "enc_map m = JObj (map (\<lambda>(k, v). (k, JStr v)) (sort_key fst m))"

fun dec_entries :: "(string \<times> json) list \<Rightarrow> (string \<times> string) list \<Rightarrow> (string \<times> string) list option" where
  "dec_entries [] m = Some m"
| "dec_entries ((k, x) # ms) m =
     (case dec_str x [] of None \<Rightarrow> None | Some v \<Rightarrow> dec_entries ms (AList.update k v m))"

definition dec_map :: "json \<Rightarrow> (string \<times> string) list \<Rightarrow> (string \<times> string) list option" where
  "dec_map j m = (case j of JObj ms \<Rightarrow> dec_entries ms m | JNull \<Rightarrow> Some [] | _ \<Rightarrow> None)"

definition enc_record :: "string \<times> block \<Rightarrow> json" where
  "enc_record r = JObj [(''hash'', JStr (fst r)), (''block'', enc_block (snd r))]"

definition record_fields :: "(string \<times> block) fields" where
  "record_fields = [
     (''hash'', \<lambda>j r. map_option (\<lambda>x. (x, snd r)) (dec_str j (fst r))),
     (''block'', \<lambda>j r. map_option (\<lambda>x. (fst r, x)) (dec_struct block_fields j (snd r)))]"

definition enc_snapshot :: "snapshot \<Rightarrow> json" where
  "enc_snapshot s = JObj [
     (''genesis_hash'', JStr (sn_GenesisHash s)), (''current_tip'', JStr (sn_CurrentTip s)),
     (''blocks'', JArr (map enc_record (sn_Blocks s))),
     (''heights'', enc_map (sn_Heights s)), (''total_work'', enc_map (sn_TotalWork s))]"

definition snapshot_fields :: "snapshot fields" where
  "snapshot_fields = [
     (''genesis_hash'', \<lambda>j s. map_option (\<lambda>x. s\<lparr>sn_GenesisHash := x\<rparr>) (dec_str j (sn_GenesisHash s))),
     (''current_tip'', \<lambda>j s. map_option (\<lambda>x. s\<lparr>sn_CurrentTip := x\<rparr>) (dec_str j (sn_CurrentTip s))),
     (''blocks'', \<lambda>j s. map_option (\<lambda>x. s\<lparr>sn_Blocks := x\<rparr>)
        (dec_list (dec_struct record_fields) ([], zero_block) j (sn_Blocks s))),
     (''heights'', \<lambda>j s. map_option (\<lambda>x. s\<lparr>sn_Heights := x\<rparr>) (dec_map j (sn_Heights s))),
     (''total_work'', \<lambda>j s. map_option (\<lambda>x. s\<lparr>sn_TotalWork := x\<rparr>) (dec_map j (sn_TotalWork s)))]"

definition marshalSnapshot :: "snapshot \<Rightarrow> string" where
  "marshalSnapshot s = jindent 0 (enc_snapshot s)"

definition unmarshalSnapshot :: "string \<Rightarrow> disk_error + snapshot" where
  "unmarshalSnapshot data =
     (if data = [] then Inr empty_snapshot
      else case Option.bind (json_parse data) (\<lambda>j. dec_struct snapshot_fields j empty_snapshot) of
          None \<Rightarrow> Inl BadSnapshot
        | Some s \<Rightarrow> Inr s)"

definition hashFromString :: "string \<Rightarrow> disk_error + hash" where
  "hashFromString s =
     (if s = [] then Inr zero_hash
      else case DecodeString s of
          Inl e \<Rightarrow> Inl (BadHash (HashHex e))
        | Inr d \<Rightarrow> if length d \<noteq> 32 then Inl (BadHash (HashLength (length d))) else Inr d)"

definition bigIntToString :: "int option \<Rightarrow> string" where
  "bigIntToString v = (case v of None \<Rightarrow> ''0'' | Some z \<Rightarrow> big_String z)"

definition bigIntFromString :: "string \<Rightarrow> disk_error + int" where
  "bigIntFromString s =
     (if s = [] then Inr 0 else case big_SetString s of None \<Rightarrow> Inl BadWork | Some z \<Rightarrow> Inr z)"


section \<open>The store\<close>

record disk_store = memory_store +
  ds_path :: string
  ds_fs :: file_system

definition flush_snapshot :: "disk_store \<Rightarrow> snapshot" where
  "flush_snapshot d =
     (let hashes = sort (map (\<lambda>(hash, _). hash_String hash) (ms_blocks d));
          byString = map (\<lambda>(hash, _). (hash_String hash, hash)) (ms_blocks d)
      in \<lparr>sn_GenesisHash = hash_String (ms_genesisHash d),
          sn_CurrentTip = hash_String (ms_currentTip d),
          sn_Blocks = map (\<lambda>hs.
            let hash = (case map_of byString hs of None \<Rightarrow> zero_hash | Some h \<Rightarrow> h)
            in (hs, case map_of (ms_blocks d) hash of None \<Rightarrow> zero_block | Some b \<Rightarrow> b)) hashes,
          sn_Heights = map (\<lambda>(height, hash). (FormatUint height, hash_String hash)) (ms_heights d),
          sn_TotalWork = map (\<lambda>(hash, work). (hash_String hash, bigIntToString (Some work)))
            (ms_totalWork d)\<rparr>)"

text \<open>The file-system states a flush passes through: the temporary file is truncated, written byte by
  byte, and renamed over the store's file.\<close>

definition tmp_path :: "string \<Rightarrow> string" where
  "tmp_path path = path @ ''.tmp''"

definition written :: "string \<Rightarrow> string \<Rightarrow> nat \<Rightarrow> (string \<times> string) list \<Rightarrow> (string \<times> string) list" where
  "written path data k files = AList.update (tmp_path path) (take k data) files"

definition renamed :: "string \<Rightarrow> string \<Rightarrow> (string \<times> string) list \<Rightarrow> (string \<times> string) list" where
  "renamed path data files =
     AList.delete (tmp_path path) (AList.update path data (AList.update (tmp_path path) data files))"

definition flush_stages :: "string \<Rightarrow> string \<Rightarrow> (string \<times> string) list \<Rightarrow> (string \<times> string) list list" where
  "flush_stages path data files =
     files # map (\<lambda>k. written path data k files) [0..<Suc (length data)] @ [renamed path data files]"

definition flushLocked :: "disk_store \<Rightarrow> store_error option \<times> disk_store" where
  "flushLocked d =
     (let fs = ds_fs d;
          data = marshalSnapshot (flush_snapshot d);
          fault = (case fs_faults fs of [] \<Rightarrow> NoFault | f # _ \<Rightarrow> f);
          ended = (\<lambda>files. d\<lparr>ds_fs := fs\<lparr>fs_faults := tl (fs_faults fs), fs_files := files\<rparr>\<rparr>)
      in case fault of
          OpenFault \<Rightarrow> (Some ErrIO, ended (fs_files fs))
        | WriteFault k \<Rightarrow> (Some ErrIO, ended (written (ds_path d) data k (fs_files fs)))
        | RenameFault \<Rightarrow> (Some ErrIO, ended (written (ds_path d) data (length data) (fs_files fs)))
        | NoFault \<Rightarrow> (None, ended (renamed (ds_path d) data (fs_files fs))))"

definition Disk_StoreBlock :: "disk_store \<Rightarrow> block \<Rightarrow> int \<Rightarrow> store_error option \<times> disk_store" where
  "Disk_StoreBlock d block totalWork =
     (let hash = BlockHash block;
          d = d\<lparr>ms_blocks := AList.update hash block (ms_blocks d)\<rparr>;
          d = d\<lparr>ms_heights := AList.update (hHeight (Header block)) hash (ms_heights d)\<rparr>;
          d = d\<lparr>ms_totalWork := AList.update hash totalWork (ms_totalWork d)\<rparr>;
          d = (if hHeight (Header block) = 0 \<and> ms_genesisHash d = zero_hash
               then d\<lparr>ms_genesisHash := hash\<rparr> else d);
          d = (if ms_currentTip d = zero_hash then d\<lparr>ms_currentTip := hash\<rparr> else d)
      in flushLocked d)"

definition Disk_GetBlock :: "disk_store \<Rightarrow> hash \<Rightarrow> store_error + block" where
  "Disk_GetBlock d hash =
     (case map_of (ms_blocks d) hash of None \<Rightarrow> Inl ErrBlockNotFound | Some b \<Rightarrow> Inr b)"

definition Disk_GetHeader :: "disk_store \<Rightarrow> hash \<Rightarrow> store_error + block_header" where
  "Disk_GetHeader d hash =
     (case Disk_GetBlock d hash of Inl e \<Rightarrow> Inl e | Inr b \<Rightarrow> Inr (Header b))"

definition Disk_GetBlockByHeight :: "disk_store \<Rightarrow> u64 \<Rightarrow> store_error + block" where
  "Disk_GetBlockByHeight d height =
     (case map_of (ms_heights d) height of
        None \<Rightarrow> Inl (ErrHeightNotFound height)
      | Some hash \<Rightarrow> Inr (case map_of (ms_blocks d) hash of None \<Rightarrow> zero_block | Some b \<Rightarrow> b))"

definition Disk_CurrentTip :: "disk_store \<Rightarrow> store_error + block \<times> int" where
  "Disk_CurrentTip d =
     (if ms_currentTip d = zero_hash then Inl ErrBlockNotFound
      else Inr (case map_of (ms_blocks d) (ms_currentTip d) of None \<Rightarrow> zero_block | Some b \<Rightarrow> b,
                case map_of (ms_totalWork d) (ms_currentTip d) of None \<Rightarrow> 0 | Some w \<Rightarrow> w))"

definition Disk_SetCurrentTip :: "disk_store \<Rightarrow> hash \<Rightarrow> store_error option \<times> disk_store" where
  "Disk_SetCurrentTip d hash =
     (if map_of (ms_blocks d) hash = None then (Some ErrBlockNotFound, d)
      else flushLocked (d\<lparr>ms_currentTip := hash\<rparr>))"

definition Disk_TotalWork :: "disk_store \<Rightarrow> hash \<Rightarrow> store_error + int" where
  "Disk_TotalWork d hash =
     (case map_of (ms_totalWork d) hash of None \<Rightarrow> Inl ErrBlockNotFound | Some w \<Rightarrow> Inr w)"

definition Disk_HasBlock :: "disk_store \<Rightarrow> hash \<Rightarrow> bool" where
  "Disk_HasBlock d hash \<longleftrightarrow> map_of (ms_blocks d) hash \<noteq> None"

definition disk_ops :: "disk_store store_ops" where
  "disk_ops = \<lparr>so_StoreBlock = Disk_StoreBlock, so_GetBlock = Disk_GetBlock,
     so_GetHeader = Disk_GetHeader, so_GetBlockByHeight = Disk_GetBlockByHeight,
     so_CurrentTip = Disk_CurrentTip, so_SetCurrentTip = Disk_SetCurrentTip,
     so_TotalWork = Disk_TotalWork, so_HasBlock = Disk_HasBlock\<rparr>"


section \<open>Loading\<close>

text \<open>The maps of a snapshot are read in the order of its text, where the code's order is not fixed: it
  only matters when two keys stand for the same hash or height, which no flush writes.\<close>

fun load_blocks :: "(string \<times> block) list \<Rightarrow> (hash \<times> block) list \<Rightarrow> disk_error + (hash \<times> block) list" where
  "load_blocks [] m = Inr m"
| "load_blocks ((hs, b) # rs) m =
     (case hashFromString hs of Inl e \<Rightarrow> Inl e | Inr h \<Rightarrow> load_blocks rs (AList.update h b m))"

fun load_heights :: "(string \<times> string) list \<Rightarrow> (u64 \<times> hash) list \<Rightarrow> disk_error + (u64 \<times> hash) list" where
  "load_heights [] m = Inr m"
| "load_heights ((height, hs) # rs) m =
     (case ParseUint height of
        None \<Rightarrow> Inl BadHeight
      | Some k \<Rightarrow> (case hashFromString hs of
            Inl e \<Rightarrow> Inl e | Inr h \<Rightarrow> load_heights rs (AList.update k h m)))"

fun load_work :: "(string \<times> string) list \<Rightarrow> (hash \<times> int) list \<Rightarrow> disk_error + (hash \<times> int) list" where
  "load_work [] m = Inr m"
| "load_work ((hs, ws) # rs) m =
     (case hashFromString hs of
        Inl e \<Rightarrow> Inl e
      | Inr h \<Rightarrow> (case bigIntFromString ws of
            Inl e \<Rightarrow> Inl e | Inr w \<Rightarrow> load_work rs (AList.update h w m)))"

definition load :: "disk_store \<Rightarrow> disk_error + disk_store" where
  "load d =
     (if fs_read_fails (ds_fs d) then Inl ReadFailed
      else case map_of (fs_files (ds_fs d)) (ds_path d) of
        None \<Rightarrow> Inr d
      | Some data \<Rightarrow>
          (case unmarshalSnapshot data of Inl e \<Rightarrow> Inl e | Inr sn \<Rightarrow>
          (case hashFromString (sn_GenesisHash sn) of Inl e \<Rightarrow> Inl e | Inr g \<Rightarrow>
          (case hashFromString (sn_CurrentTip sn) of Inl e \<Rightarrow> Inl e | Inr t \<Rightarrow>
          (case load_blocks (sn_Blocks sn) (ms_blocks d) of Inl e \<Rightarrow> Inl e | Inr bs \<Rightarrow>
          (case load_heights (sn_Heights sn) (ms_heights d) of Inl e \<Rightarrow> Inl e | Inr hs \<Rightarrow>
          (case load_work (sn_TotalWork sn) (ms_totalWork d) of Inl e \<Rightarrow> Inl e | Inr ws \<Rightarrow>
             Inr (d\<lparr>ms_genesisHash := g, ms_currentTip := t, ms_blocks := bs, ms_heights := hs,
                    ms_totalWork := ws\<rparr>))))))))"

text \<open>\<open>filepath.Join\<close> also cleans the path it returns, which is only used as a file name here.\<close>

definition chain_file :: "string \<Rightarrow> string" where
  "chain_file datadir = datadir @ ''/chain.json''"

definition NewDiskStore :: "string \<Rightarrow> file_system \<Rightarrow> disk_error + disk_store" where
  "NewDiskStore datadir fs =
     (if datadir = [] then Inl DatadirRequired
      else if fs_mkdir_fails fs then Inl MkdirFailed
      else load \<lparr>ms_genesisHash = zero_hash, ms_currentTip = zero_hash, ms_blocks = [],
        ms_heights = [], ms_totalWork = [], ds_path = chain_file datadir, ds_fs = fs\<rparr>)"

end
