(* ===== verification/Samples.thy ===== *)
theory Samples
  imports BlockTypes
begin

text \<open>
  A concrete block for the worked examples: the genesis block of the one-node profile with the easiest
  target.  Its epoch seed and its hash are evaluated by the kernel from \<open>sha256\<close>.
\<close>

definition sample_seed :: hash where
  "sample_seed = [8, 39, 253, 5, 68, 45, 82, 121, 163, 124, 96, 32, 126, 33, 160, 225, 21, 133, 66, 126, 235, 223, 75, 42, 10, 53, 222, 210, 58, 124, 217, 237]"

lemma sample_seed: "EpochSeedForHeight tiny_spec 0 = Some sample_seed"
proof -
  have "sha256 (put_be 8 (0 :: u64) @ put_be 8 (64 :: u64)) = sample_seed" by code_simp
  moreover have "DAGSizeForHeight tiny_spec 0 = Some 64"
    by (simp add: DAGSizeForHeight_def DAGSizeForEpoch_def initialDAGSize_def)
  ultimately show ?thesis by (simp add: EpochSeedForHeight_def)
qed

definition sample_header :: block_header where
  "sample_header = \<lparr>hVersion = 1, hAlgorithmVersion = 1, hHeight = 0, hParentHash = replicate 32 0,
     hTimestamp = 100, hTarget = replicate 32 255, hNonce = 0, hEpochSeed = sample_seed,
     hDAGSizeBytes = 64, hTxRoot = replicate 32 0, hStateRoot = replicate 32 0\<rparr>"

definition sample_block :: block where
  "sample_block = \<lparr>Header = sample_header, Transactions = []\<rparr>"

text \<open>The hash of the block, one compression step per lemma.\<close>

definition sample_words :: "u32 list" where
  "sample_words = [1, 1, 0, 0, 0, 0, 0, 0, 0, 0, 0, 0, 0, 100, 4294967295, 4294967295, 4294967295, 4294967295, 4294967295, 4294967295, 4294967295, 4294967295, 136838405, 1143820921, 2742837280, 2116133089, 361054846, 3957279530, 171302610, 981260781, 0, 64, 0, 0, 0, 0, 0, 0, 0, 0, 0, 0, 0, 0, 0, 0, 0, 0, 0, 0, 2147483648, 0, 0, 0, 0, 0, 0, 0, 0, 0, 0, 0, 0, 1600]"

definition sample_state1 :: "u32 list" where
  "sample_state1 = [2944658837, 2816400957, 851639072, 2543676393, 268348181, 4279223807, 435624653, 1003324787]"

definition sample_state2 :: "u32 list" where
  "sample_state2 = [2788209039, 3901531064, 2606725994, 624106155, 2294952485, 4151107269, 1348139097, 2729491646]"

definition sample_state3 :: "u32 list" where
  "sample_state3 = [3037452624, 1623095759, 4086577577, 2584570605, 1469986774, 1778721310, 1492547158, 3857991793]"

definition sample_state4 :: "u32 list" where
  "sample_state4 = [1989014409, 3883617547, 3012341235, 175982214, 1488947080, 914528271, 126330357, 1365621958]"

lemma sample_padded: "words_be (sha_pad (Encode sample_header)) = sample_words"
  by code_simp

lemma sample_step1: "sha_block sha_init (take 16 (drop 0 sample_words)) = sample_state1"
  by code_simp

lemma sample_step2: "sha_block sample_state1 (take 16 (drop 16 sample_words)) = sample_state2"
  by code_simp

lemma sample_step3: "sha_block sample_state2 (take 16 (drop 32 sample_words)) = sample_state3"
  by code_simp

lemma sample_step4: "sha_block sample_state3 (take 16 (drop 48 sample_words)) = sample_state4"
  by code_simp

definition sample_hash :: hash where
  "sample_hash = [118, 141, 243, 137, 231, 123, 77, 11, 179, 140, 173, 243, 10, 125, 70, 134, 88, 191, 135, 136, 54, 130, 152, 15, 7, 135, 165, 245, 81, 101, 188, 198]"

lemma sample_hash: "BlockHash sample_block = sample_hash"
proof -
  have "sha_blocks 4 sha_init sample_words = sample_state4"
    using sample_step1 sample_step2 sample_step3 sample_step4
    by (simp add: eval_nat_numeral(3) numeral_eq_Suc(1))
  moreover have "concat (map (put_be 4) sample_state4) = sample_hash" by code_simp
  moreover have "length sample_words div 16 = 4" by code_simp
  ultimately show ?thesis
    by (simp add: BlockHash_def HeaderHash_def sha256_def sample_block_def sample_padded)
qed

lemma sample_hash_nonzero [simp]: "BlockHash sample_block \<noteq> zero_hash"
  unfolding sample_hash by code_simp

lemma sample_header_ok: "header_ok sample_header"
  by (simp add: header_ok_def sample_header_def sample_seed_def)

end
