(* ===== verification/DiskProofs.thy ===== *)
theory DiskProofs
  imports DiskStore Samples "HOL-Library.Multiset"
begin

text \<open>
  Correctness of the persistent store: it keeps the contract of \<open>chain_store\<close>, what it writes loads
  back to the same store, and a crash in the middle of a flush leaves a file that loads.
\<close>


section \<open>The persistent store keeps the contract\<close>

abbreviation mem :: "disk_store \<Rightarrow> memory_store" where
  "mem d \<equiv> memory_store.truncate d"

lemma mem_simps [simp]:
  "ms_genesisHash (mem d) = ms_genesisHash d" "ms_currentTip (mem d) = ms_currentTip d"
  "ms_blocks (mem d) = ms_blocks d" "ms_heights (mem d) = ms_heights d"
  "ms_totalWork (mem d) = ms_totalWork d"
  by (simp_all add: memory_store.truncate_def)

lemma mem_updates [simp]:
  "mem (d\<lparr>ms_blocks := bs\<rparr>) = (mem d)\<lparr>ms_blocks := bs\<rparr>"
  "mem (d\<lparr>ms_heights := hs\<rparr>) = (mem d)\<lparr>ms_heights := hs\<rparr>"
  "mem (d\<lparr>ms_totalWork := ws\<rparr>) = (mem d)\<lparr>ms_totalWork := ws\<rparr>"
  "mem (d\<lparr>ms_genesisHash := g\<rparr>) = (mem d)\<lparr>ms_genesisHash := g\<rparr>"
  "mem (d\<lparr>ms_currentTip := t\<rparr>) = (mem d)\<lparr>ms_currentTip := t\<rparr>"
  "mem (d\<lparr>ds_fs := f\<rparr>) = mem d"
  by (simp_all add: memory_store.truncate_def)

lemma flush_mem [simp]: "mem (snd (flushLocked d)) = mem d"
  by (simp add: flushLocked_def Let_def split: io_fault.split)

lemma Disk_StoreBlock_mem: "mem (snd (Disk_StoreBlock d b w)) = snd (Memory_StoreBlock (mem d) b w)"
  by (simp add: Disk_StoreBlock_def Memory_StoreBlock_def Let_def)

lemma Disk_reads_mem:
  "Disk_GetBlock d h = Memory_GetBlock (mem d) h" "Disk_GetHeader d h = Memory_GetHeader (mem d) h"
  "Disk_GetBlockByHeight d k = Memory_GetBlockByHeight (mem d) k"
  "Disk_CurrentTip d = Memory_CurrentTip (mem d)" "Disk_TotalWork d h = Memory_TotalWork (mem d) h"
  "Disk_HasBlock d h = Memory_HasBlock (mem d) h"
  by (simp_all add: Disk_GetBlock_def Memory_GetBlock_def Disk_GetHeader_def Memory_GetHeader_def
      Disk_GetBlockByHeight_def Memory_GetBlockByHeight_def Disk_CurrentTip_def Memory_CurrentTip_def
      Disk_TotalWork_def Memory_TotalWork_def Disk_HasBlock_def Memory_HasBlock_def
      cong: option.case_cong)

lemma Disk_SetCurrentTip_mem:
  "mem (snd (Disk_SetCurrentTip d h)) = snd (Memory_SetCurrentTip (mem d) h)"
  "map_of (ms_blocks d) h = None \<Longrightarrow> fst (Disk_SetCurrentTip d h) = Some ErrBlockNotFound"
  by (simp_all add: Disk_SetCurrentTip_def Memory_SetCurrentTip_def)

interpretation disk: chain_store disk_ops "\<lambda>d. memory_ok (mem d)" "\<lambda>d. memory_chain (mem d)"
proof unfold_locales
  fix s :: disk_store and h b w e s'
  assume s: "memory_ok (mem s)"
  note sel = disk_ops_def memory_ops_def Disk_reads_mem
  show "chain_ok (memory_chain (mem s))" by (rule memory_chain_ok [OF s])
  show "so_HasBlock disk_ops s h \<longleftrightarrow> ch_blocks (memory_chain (mem s)) h \<noteq> None"
    using memory.HasBlock [OF s, of h] by (simp add: sel)
  show "so_GetBlock disk_ops s h = (case ch_blocks (memory_chain (mem s)) h of
      None \<Rightarrow> Inl ErrBlockNotFound | Some (b, _) \<Rightarrow> Inr b)"
    using memory.GetBlock [OF s, of h] by (simp add: sel)
  show "so_GetHeader disk_ops s h = (case ch_blocks (memory_chain (mem s)) h of
      None \<Rightarrow> Inl ErrBlockNotFound | Some (b, _) \<Rightarrow> Inr (Header b))"
    using memory.GetHeader [OF s, of h] by (simp add: sel)
  show "so_TotalWork disk_ops s h = (case ch_blocks (memory_chain (mem s)) h of
      None \<Rightarrow> Inl ErrBlockNotFound | Some (_, w) \<Rightarrow> Inr w)"
    using memory.TotalWork [OF s, of h] by (simp add: sel)
  show "so_CurrentTip disk_ops s = (case ch_tip (memory_chain (mem s)) of
      None \<Rightarrow> Inl ErrBlockNotFound | Some t \<Rightarrow> Inr (the (ch_blocks (memory_chain (mem s)) t)))"
    using memory.CurrentTip [OF s] by (simp add: sel)
  show "memory_ok (mem s') \<and> memory_chain (mem s') = chain_store_block (memory_chain (mem s)) b w"
    if "BlockHash b \<noteq> zero_hash" "so_StoreBlock disk_ops s b w = (e, s')"
  proof -
    have "mem s' = snd (Memory_StoreBlock (mem s) b w)"
      using that(2) Disk_StoreBlock_mem [of s b w] by (simp add: disk_ops_def)
    then show ?thesis
      using memory_store_ok [OF s that(1), of w] by (cases "Memory_StoreBlock (mem s) b w") simp
  qed
  show "memory_ok (mem s') \<and> (if ch_blocks (memory_chain (mem s)) h = None
      then e = Some ErrBlockNotFound \<and> memory_chain (mem s') = memory_chain (mem s)
      else memory_chain (mem s') = (memory_chain (mem s))\<lparr>ch_tip := Some h\<rparr>)"
    if st: "so_SetCurrentTip disk_ops s h = (e, s')"
  proof -
    have eq: "mem s' = snd (Memory_SetCurrentTip (mem s) h)" "e = fst (Disk_SetCurrentTip s h)"
      using st Disk_SetCurrentTip_mem(1) [of s h] by (simp_all add: disk_ops_def)
    obtain e' m' where m': "so_SetCurrentTip memory_ops (mem s) h = (e', m')" by force
    then have "mem s' = m'" using eq(1) by (simp add: memory_ops_def)
    moreover have "ch_blocks (memory_chain (mem s)) h = None \<Longrightarrow> e = Some ErrBlockNotFound"
      using Disk_SetCurrentTip_mem(2) [of s h] eq(2) by (simp add: memory_chain_def split: option.splits)
    ultimately show ?thesis using memory.SetCurrentTip [OF s m'] by (auto split: if_splits)
  qed
qed


section \<open>Well-formed persistent stores\<close>

definition hash_ok :: "hash \<Rightarrow> bool" where
  "hash_ok h \<longleftrightarrow> length h = 32"

definition disk_ok :: "disk_store \<Rightarrow> bool" where
  "disk_ok d \<longleftrightarrow> memory_ok (mem d) \<and>
     distinct (map fst (ms_blocks d)) \<and> distinct (map fst (ms_heights d)) \<and>
     distinct (map fst (ms_totalWork d)) \<and>
     list_all (hash_ok \<circ> fst) (ms_blocks d) \<and> list_all ((header_ok \<circ> Header) \<circ> snd) (ms_blocks d) \<and>
     list_all (hash_ok \<circ> snd) (ms_heights d) \<and>
     list_all (hash_ok \<circ> fst) (ms_totalWork d) \<and>
     hash_ok (ms_genesisHash d) \<and> hash_ok (ms_currentTip d)"

lemma list_all_update:
  "list_all (P \<circ> fst) xs \<Longrightarrow> P k \<Longrightarrow> list_all (P \<circ> fst) (AList.update k v xs)"
  "list_all (Q \<circ> snd) xs \<Longrightarrow> Q v \<Longrightarrow> list_all (Q \<circ> snd) (AList.update k v xs)"
  by (induction xs) auto

lemma flush_fields [simp]:
  "ms_blocks (snd (flushLocked d)) = ms_blocks d" "ms_heights (snd (flushLocked d)) = ms_heights d"
  "ms_totalWork (snd (flushLocked d)) = ms_totalWork d"
  "ms_genesisHash (snd (flushLocked d)) = ms_genesisHash d"
  "ms_currentTip (snd (flushLocked d)) = ms_currentTip d" "ds_path (snd (flushLocked d)) = ds_path d"
  by (simp_all add: flushLocked_def Let_def split: io_fault.splits)

lemma flush_disk_ok [simp]: "disk_ok (snd (flushLocked d)) = disk_ok d"
  by (simp add: disk_ok_def)

lemma hash_ok_simps [simp]: "hash_ok (BlockHash b)" "hash_ok zero_hash"
  by (simp_all add: hash_ok_def)

lemma disk_store_ok:
  assumes d: "disk_ok d" and nz: "BlockHash b \<noteq> zero_hash" and h: "header_ok (Header b)"
  shows "disk_ok (snd (Disk_StoreBlock d b w))"
proof -
  have "memory_ok (mem (snd (Disk_StoreBlock d b w)))"
    using memory_store_ok(1) [OF _ nz, of "mem d" w] d Disk_StoreBlock_mem [of d b w]
    by (cases "Memory_StoreBlock (mem d) b w") (simp add: disk_ok_def)
  moreover have "ms_blocks (snd (Disk_StoreBlock d b w)) = AList.update (BlockHash b) b (ms_blocks d)"
    "ms_heights (snd (Disk_StoreBlock d b w)) =
       AList.update (hHeight (Header b)) (BlockHash b) (ms_heights d)"
    "ms_totalWork (snd (Disk_StoreBlock d b w)) = AList.update (BlockHash b) w (ms_totalWork d)"
    "hash_ok (ms_genesisHash (snd (Disk_StoreBlock d b w)))"
    "hash_ok (ms_currentTip (snd (Disk_StoreBlock d b w)))"
    using d by (simp_all add: Disk_StoreBlock_def Let_def disk_ok_def)
  ultimately show ?thesis
    using d h by (simp add: disk_ok_def distinct_update list_all_update)
qed

lemma disk_tip_ok:
  assumes d: "disk_ok d" shows "disk_ok (snd (Disk_SetCurrentTip d h))"
proof (cases "map_of (ms_blocks d) h")
  case None
  then show ?thesis using d by (simp add: Disk_SetCurrentTip_def)
next
  case (Some b)
  then have "hash_ok h" using d map_of_SomeD [OF Some] by (auto simp: disk_ok_def list_all_iff)
  then show ?thesis
    using d Some memory_tip_ok [of "mem d" h b] by (simp add: Disk_SetCurrentTip_def disk_ok_def)
qed


section \<open>Writing and reading back\<close>

lemma hash_back [simp]: "hash_ok h \<Longrightarrow> hashFromString (hash_String h) = Inr h"
proof -
  assume h: "hash_ok h"
  then have "EncodeToString h \<noteq> []" by (metis hash_ok_def length_EncodeToString list.size(3) mult_eq_0_iff zero_neq_numeral)
  then show ?thesis using h by (simp add: hashFromString_def hash_String_def hash_ok_def)
qed

lemma work_back [simp]: "bigIntFromString (bigIntToString (Some w)) = Inr w"
  by (simp add: bigIntFromString_def bigIntToString_def)

definition updates :: "('k \<times> 'v) list \<Rightarrow> ('k \<times> 'v) list \<Rightarrow> ('k \<times> 'v) list" where
  "updates xs m = foldl (\<lambda>m (k, v). AList.update k v m) m xs"

lemma map_of_updates: "distinct (map fst xs) \<Longrightarrow> map_of (updates xs m) = map_of m ++ map_of xs"
proof (induction xs arbitrary: m)
  case Nil
  then show ?case by (simp add: updates_def)
next
  case (Cons x xs)
  obtain k v where x: "x = (k, v)" by force
  have "map_of (updates (x # xs) m) = map_of (AList.update k v m) ++ map_of xs"
    using Cons by (simp add: updates_def x)
  moreover have "k \<notin> dom (map_of xs)" using Cons.prems by (simp add: x dom_map_of_conv_image_fst)
  ultimately show ?case
    by (auto simp: x update_conv map_add_def fun_eq_iff split: option.splits)
qed

lemma load_blocks_back:
  "list_all (hash_ok \<circ> fst) xs \<Longrightarrow>
    load_blocks (map (\<lambda>(h, b). (hash_String h, b)) xs) m = Inr (updates xs m)"
  by (induction xs arbitrary: m) (auto simp: updates_def)

lemma load_heights_back:
  "list_all (hash_ok \<circ> snd) xs \<Longrightarrow>
    load_heights (map (\<lambda>(k, h). (FormatUint k, hash_String h)) xs) m = Inr (updates xs m)"
  by (induction xs arbitrary: m) (auto simp: updates_def)

lemma load_work_back:
  "list_all (hash_ok \<circ> fst) xs \<Longrightarrow>
    load_work (map (\<lambda>(h, w). (hash_String h, bigIntToString (Some w))) xs) m = Inr (updates xs m)"
  by (induction xs arbitrary: m) (auto simp: updates_def)

text \<open>The block records of a snapshot are the block map, in the order of the hashes' text.\<close>

lemma hash_String_inj [simp]: "hash_String a = hash_String b \<longleftrightarrow> a = b"
  by (simp add: hash_String_def)

lemma byString_lookup:
  "map_of (map (\<lambda>(h, _). (hash_String h, h)) bs) (hash_String h) =
    (if h \<in> fst ` set bs then Some h else None)"
  by (induction bs) auto

lemma snapshot_blocks:
  assumes "distinct (map fst (ms_blocks d))"
  obtains xs where "sn_Blocks (flush_snapshot d) = map (\<lambda>(h, b). (hash_String h, b)) xs"
    "set xs = set (ms_blocks d)" "distinct (map fst xs)"
proof -
  let ?bs = "ms_blocks d"
  let ?key = "\<lambda>(h, _). hash_String h"
  define hs where "hs = map (\<lambda>s. the (map_of (map (\<lambda>(h, _). (hash_String h, h)) ?bs) s)) (sort (map ?key ?bs))"
  define xs where "xs = map (\<lambda>h. (h, the (map_of ?bs h))) hs"
  let ?by = "map (\<lambda>(h, _). (hash_String h, h)) ?bs"
  have look: "\<exists>h. map_of ?by s = Some h \<and> hash_String h = s \<and> h \<in> fst ` set ?bs"
    if s: "s \<in> set (sort (map ?key ?bs))" for s
  proof -
    obtain h b where "s = hash_String h" "(h, b) \<in> set ?bs" using s by (auto simp: case_prod_unfold)
    then show ?thesis by (force simp: byString_lookup)
  qed
  have hs_str: "map hash_String hs = sort (map ?key ?bs)"
    unfolding hs_def map_map comp_def by (rule map_idI) (use look in force)
  have dist: "distinct hs"
  proof -
    have "distinct (map ?key ?bs)"
      using assms by (simp add: case_prod_unfold comp_def distinct_map inj_on_def)
    then show ?thesis using hs_str by (metis distinct_map distinct_sort)
  qed
  have set_hs: "set hs = fst ` set ?bs"
  proof -
    have "hash_String ` set hs = hash_String ` fst ` set ?bs"
      using arg_cong [OF hs_str, of set] by (simp add: image_image case_prod_unfold)
    then show ?thesis by (simp add: inj_image_eq_iff inj_def)
  qed
  show thesis
  proof (rule that)
    have "sn_Blocks (flush_snapshot d) = map (\<lambda>s. (s, case map_of ?bs (the (map_of
        (map (\<lambda>(h, _). (hash_String h, h)) ?bs) s)) of None \<Rightarrow> zero_block | Some b \<Rightarrow> b)) (map hash_String hs)"
      unfolding hs_str by (simp add: flush_snapshot_def Let_def del: set_sort) (use look in force)
    also have "\<dots> = map (\<lambda>(h, b). (hash_String h, b)) xs"
      using set_hs map_of_eq_None_iff [of ?bs]
      by (auto simp: xs_def byString_lookup split: option.splits)
    finally show "sn_Blocks (flush_snapshot d) = map (\<lambda>(h, b). (hash_String h, b)) xs" .
    show "distinct (map fst xs)" using dist by (simp add: xs_def comp_def)
    show "set xs = set ?bs"
      using assms unfolding xs_def set_map set_hs
      by (force simp: image_iff)
  qed
qed

definition same_store :: "disk_store \<Rightarrow> disk_store \<Rightarrow> bool" where
  "same_store e d \<longleftrightarrow> ms_genesisHash e = ms_genesisHash d \<and> ms_currentTip e = ms_currentTip d \<and>
     map_of (ms_blocks e) = map_of (ms_blocks d) \<and> map_of (ms_heights e) = map_of (ms_heights d) \<and>
     map_of (ms_totalWork e) = map_of (ms_totalWork d)"

lemma same_store_chain:
  assumes "same_store e d"
  shows "memory_chain (mem e) = memory_chain (mem d)" "memory_ok (mem e) = memory_ok (mem d)"
  using assms
  by (simp_all add: same_store_def memory_chain_def memory_ok_def cong: option.case_cong)

section \<open>The text of a snapshot\<close>

lemma update_new: "k \<notin> fst ` set m \<Longrightarrow> AList.update k v m = m @ [(k, v)]"
  by (induction m) auto

lemma dec_entries_back:
  "distinct (map fst m @ map fst ms) \<Longrightarrow> dec_entries (map (\<lambda>(k, v). (k, JStr v)) ms) m = Some (m @ ms)"
  by (induction ms arbitrary: m) (auto simp: update_new)

lemma sort_key_set [simp]: "set (sort_key f xs) = set xs"
  by simp

lemma sort_key_distinct: "distinct (map g xs) \<Longrightarrow> distinct (map g (sort_key f xs))"
  by (metis mset_map mset_sort mset_eq_imp_distinct_iff)

lemma dec_map_back: "distinct (map fst m) \<Longrightarrow> dec_map (enc_map m) [] = Some (sort_key fst m)"
  using dec_entries_back [of "[]" "sort_key fst m"] sort_key_distinct [of fst m fst]
  by (simp add: dec_map_def enc_map_def)

lemma snapshot_keys:
  "list_all plain_key (map fst snapshot_fields @ map fst record_fields)"
  by code_simp

lemmas snapshot_key [simp] = snapshot_keys [unfolded snapshot_fields_def record_fields_def
    list.map fst_conv append.simps list.pred_inject]

lemma dec_record_back:
  "header_ok (Header (snd r)) \<Longrightarrow> dec_struct record_fields (enc_record r) ([], zero_block) = Some r"
  unfolding dec_struct_def [of record_fields] enc_record_def json.case
  using block_back [of "snd r"]
  by (simp add: dec_member record_fields_def del: dec_members.simps(2))

text \<open>A snapshot whose strings are plain text is read back with its maps in order and its
  transactions repaired.\<close>

definition plain :: "string \<Rightarrow> bool" where
  "plain s \<longleftrightarrow> repair s = s"

abbreviation repair_record :: "string \<times> block \<Rightarrow> string \<times> block" where
  "repair_record \<equiv> map_prod id repair_block"

lemma jrepair_record: "plain (fst r) \<Longrightarrow> jrepair (enc_record r) = enc_record (repair_record r)"
  by (simp add: enc_record_def plain_def)

lemma jrepair_map:
  "\<forall>(k, v) \<in> set m. plain k \<and> plain v \<Longrightarrow> jrepair (enc_map m) = enc_map m"
  by (auto simp: enc_map_def plain_def)

lemma jrepair_snapshot:
  assumes "plain (sn_GenesisHash s)" "plain (sn_CurrentTip s)" "\<forall>r \<in> set (sn_Blocks s). plain (fst r)"
    and "\<forall>(k, v) \<in> set (sn_Heights s). plain k \<and> plain v" "\<forall>(k, v) \<in> set (sn_TotalWork s). plain k \<and> plain v"
  shows "jrepair (enc_snapshot s) = enc_snapshot (s\<lparr>sn_Blocks := map repair_record (sn_Blocks s)\<rparr>)"
  using assms jrepair_map [OF assms(4)] jrepair_map [OF assms(5)]
  by (simp add: enc_snapshot_def jrepair_record) (simp add: plain_def)

lemma dec_snapshot_back:
  assumes "\<forall>r \<in> set (sn_Blocks s). header_ok (Header (snd r))"
    and "distinct (map fst (sn_Heights s))" "distinct (map fst (sn_TotalWork s))"
  shows "dec_struct snapshot_fields (enc_snapshot s) empty_snapshot =
    Some (s\<lparr>sn_Heights := sort_key fst (sn_Heights s), sn_TotalWork := sort_key fst (sn_TotalWork s)\<rparr>)"
proof -
  have "dec_list (dec_struct record_fields) ([], zero_block) (JArr (map enc_record (sn_Blocks s))) [] =
      Some (sn_Blocks s)"
    by (rule dec_list_enc) (use assms(1) dec_record_back in auto)
  then show ?thesis
    unfolding dec_struct_def [of snapshot_fields] enc_snapshot_def json.case
    using dec_map_back [OF assms(2)] dec_map_back [OF assms(3)]
    by (simp add: dec_member snapshot_fields_def empty_snapshot_def del: dec_members.simps(2))
qed

lemma jdepth_snapshot: "jdepth (enc_snapshot s) \<le> 6"
proof -
  have "jdepth (enc_record r) \<le> 4" for r
    using jdepth_enc(4) [of "snd r"] by (simp add: enc_record_def jdepth_le del: jdepth.simps(1,2))
  moreover have "jdepth (enc_map m) \<le> 1" for m
    by (auto simp add: enc_map_def jdepth_le simp del: jdepth.simps(1,2))
  ultimately show ?thesis
    using order_trans [of "jdepth (enc_record _)" 4]
      order_trans [of "jdepth (enc_map _)" 1 5]
    by (simp add: enc_snapshot_def jdepth_le del: jdepth.simps(1,2))
qed

lemma unmarshal_marshal:
  assumes "plain (sn_GenesisHash s)" "plain (sn_CurrentTip s)" "\<forall>r \<in> set (sn_Blocks s). plain (fst r)"
    and "\<forall>(k, v) \<in> set (sn_Heights s). plain k \<and> plain v" "\<forall>(k, v) \<in> set (sn_TotalWork s). plain k \<and> plain v"
    and h: "\<forall>r \<in> set (sn_Blocks s). header_ok (Header (snd r))"
    and "distinct (map fst (sn_Heights s))" "distinct (map fst (sn_TotalWork s))"
  shows "unmarshalSnapshot (marshalSnapshot s) = Inr (s\<lparr>sn_Blocks := map repair_record (sn_Blocks s),
    sn_Heights := sort_key fst (sn_Heights s), sn_TotalWork := sort_key fst (sn_TotalWork s)\<rparr>)"
proof -
  let ?s = "s\<lparr>sn_Blocks := map repair_record (sn_Blocks s)\<rparr>"
  have "\<forall>r \<in> set (sn_Blocks ?s). header_ok (Header (snd r))" using h by (simp add: repair_block_def)
  then have "dec_struct snapshot_fields (enc_snapshot ?s) empty_snapshot =
      Some (?s\<lparr>sn_Heights := sort_key fst (sn_Heights s), sn_TotalWork := sort_key fst (sn_TotalWork s)\<rparr>)"
    using dec_snapshot_back [of ?s] assms by simp
  moreover have "marshalSnapshot s \<noteq> []" by (simp add: marshalSnapshot_def enc_snapshot_def)
  moreover have "jdepth (enc_snapshot s) \<le> 10000" using jdepth_snapshot [of s] by simp
  ultimately show ?thesis
    by (simp add: unmarshalSnapshot_def) (simp add: marshalSnapshot_def jrepair_snapshot [OF assms(1-5)])
qed

lemma digit_ascii: "is_digit c \<Longrightarrow> (of_char c :: nat) < 128"
  by (auto simp: is_digit_def char_digit_def Let_def split: if_splits)

lemma digits_plain: "list_all (\<lambda>c. (of_char c :: nat) < 128) (digits n)"
  using digits_all digit_ascii by (auto simp: list_all_iff)

lemma snapshot_plain [simp]:
  "plain (hash_String h)" "plain (FormatUint k)" "plain (bigIntToString (Some w))"
  using digits_plain by (simp_all add: plain_def FormatUint_def bigIntToString_def big_String_def)


section \<open>Loading what was written\<close>

text \<open>The store with its transactions repaired, which is the store itself when they are UTF-8.\<close>

definition repair_store :: "disk_store \<Rightarrow> disk_store" where
  "repair_store d = d\<lparr>ms_blocks := map (\<lambda>(h, b). (h, repair_block b)) (ms_blocks d)\<rparr>"

lemma repair_store_id:
  assumes "\<forall>(h, b) \<in> set (ms_blocks d). list_all utf8_ok (Transactions b)"
  shows "repair_store d = d"
proof -
  have "repair_block b = b" if "list_all utf8_ok (Transactions b)" for b
    using that by (simp add: repair_block_def list_all_iff repair_utf8 map_idI)
  then have "map (\<lambda>(h, b). (h, repair_block b)) (ms_blocks d) = ms_blocks d"
    using assms by (intro map_idI) auto
  then show ?thesis by (cases d) (simp add: repair_store_def)
qed

lemma sort_key_map: "sort_key fst (map (\<lambda>x. (f x, g x)) xs) = map (\<lambda>x. (f x, g x)) (sort_key f xs)"
proof -
  have "insort_key fst (f x, g x) (map (\<lambda>x. (f x, g x)) ys) = map (\<lambda>x. (f x, g x)) (insort_key f x ys)" for x ys
    by (induction ys) auto
  then show ?thesis by (induction xs) (simp_all add: sort_key_def)
qed

lemma map_of_sort_key: "distinct (map fst xs) \<Longrightarrow> map_of (sort_key f xs) = map_of xs"
  using map_of_inject_set [of "sort_key f xs" xs] sort_key_distinct [of fst xs f] by simp

lemma load_snapshot:
  assumes d: "disk_ok d" and dir: "dir \<noteq> []"
    and io: "\<not> fs_mkdir_fails fs" "\<not> fs_read_fails fs"
    and cont: "map_of (fs_files fs) (chain_file dir) = Some (marshalSnapshot (flush_snapshot d))"
  shows "\<exists>e. NewDiskStore dir fs = Inr e \<and> same_store e (repair_store d) \<and> ds_fs e = fs \<and> ds_path e = chain_file dir"
proof -
  let ?sn = "flush_snapshot d"
  let ?text = "\<lambda>(h, b). (hash_String h, b)"
  obtain xs where xs: "sn_Blocks ?sn = map ?text xs"
    "set xs = set (ms_blocks d)" "distinct (map fst xs)"
    using snapshot_blocks [of d] d by (auto simp: disk_ok_def)
  let ?ys = "map (\<lambda>(h, b). (h, repair_block b)) xs"
  let ?hs = "sort_key (\<lambda>(k, h). FormatUint k) (ms_heights d)"
  let ?ws = "sort_key (\<lambda>(h, w). hash_String h) (ms_totalWork d)"
  let ?sn' = "?sn\<lparr>sn_Blocks := map ?text ?ys, sn_Heights := map (\<lambda>(k, h). (FormatUint k, hash_String h)) ?hs,
      sn_TotalWork := map (\<lambda>(h, w). (hash_String h, bigIntToString (Some w))) ?ws\<rparr>"
  have maps: "sn_Heights ?sn = map (\<lambda>(k, h). (FormatUint k, hash_String h)) (ms_heights d)"
    "sn_TotalWork ?sn = map (\<lambda>(h, w). (hash_String h, bigIntToString (Some w))) (ms_totalWork d)"
    by (simp_all add: flush_snapshot_def Let_def)
  have sorted: "sort_key fst (sn_Heights ?sn) = sn_Heights ?sn'"
    "sort_key fst (sn_TotalWork ?sn) = sn_TotalWork ?sn'"
    unfolding maps by (simp_all add: case_prod_unfold sort_key_map)
  have dist: "distinct (map fst (sn_Heights ?sn))" "distinct (map fst (sn_TotalWork ?sn))"
    using d unfolding maps disk_ok_def
    by (auto simp: comp_def case_prod_unfold distinct_map inj_on_def)
  have blocks: "map repair_record (sn_Blocks ?sn) = sn_Blocks ?sn'"
    by (simp add: xs(1) case_prod_unfold comp_def map_prod_def)
  have ok: "\<forall>r \<in> set (sn_Blocks ?sn). header_ok (Header (snd r))"
    using d xs(2) by (auto simp: xs(1) disk_ok_def list_all_iff)
  have "unmarshalSnapshot (marshalSnapshot ?sn) = Inr ?sn'"
    unfolding unmarshal_marshal [OF _ _ _ _ _ ok dist] sorted blocks
    by (subst unmarshal_marshal [OF _ _ _ _ _ ok dist, unfolded sorted blocks])
      (auto simp: maps xs(1), simp_all add: flush_snapshot_def Let_def)
  moreover have "list_all (hash_ok \<circ> fst) ?ys" "list_all (hash_ok \<circ> snd) ?hs" "list_all (hash_ok \<circ> fst) ?ws"
    using d xs(2) by (auto simp: disk_ok_def list_all_iff)
  moreover from this have "load_blocks (map ?text ?ys) [] = Inr (updates ?ys [])"
    "load_heights (sn_Heights ?sn') [] = Inr (updates ?hs [])"
    "load_work (sn_TotalWork ?sn') [] = Inr (updates ?ws [])"
    by (simp_all add: load_blocks_back load_heights_back load_work_back del: map_map)
  moreover have "hashFromString (sn_GenesisHash ?sn) = Inr (ms_genesisHash d)"
    "hashFromString (sn_CurrentTip ?sn) = Inr (ms_currentTip d)"
    using d by (simp_all add: flush_snapshot_def Let_def disk_ok_def)
  moreover have "map_of xs = map_of (ms_blocks d)"
    using map_of_inject_set [OF xs(3)] d xs(2) by (simp add: disk_ok_def)
  moreover have "distinct (map fst ?ys)" using xs(3) by (simp add: comp_def case_prod_unfold)
  moreover have "distinct (map fst ?hs)" "distinct (map fst ?ws)"
    "map_of ?hs = map_of (ms_heights d)" "map_of ?ws = map_of (ms_totalWork d)"
    using d by (simp_all add: disk_ok_def sort_key_distinct map_of_sort_key)
  ultimately show ?thesis
    using dir io cont
    by (simp add: NewDiskStore_def load_def same_store_def repair_store_def map_of_updates map_of_map del: map_map)
qed

lemma tmp_neq [simp]: "tmp_path p \<noteq> p" "p \<noteq> tmp_path p"
  by (simp_all add: tmp_path_def)

lemma stage_files:
  "map_of (written path data k files) path = map_of files path"
  "map_of (renamed path data files) path = Some data"
  by (simp_all add: written_def renamed_def update_conv delete_conv)

lemma stages_main:
  "fs \<in> set (flush_stages path data files) \<Longrightarrow>
    map_of fs path = map_of files path \<or> map_of fs path = Some data"
  by (auto simp: flush_stages_def stage_files simp del: upt_Suc)

lemma flush_in_stages:
  "fs_files (ds_fs (snd (flushLocked d))) \<in>
    set (flush_stages (ds_path d) (marshalSnapshot (flush_snapshot d)) (fs_files (ds_fs d)))"
proof -
  let ?data = "marshalSnapshot (flush_snapshot d)" and ?files = "fs_files (ds_fs d)"
  have "written (ds_path d) ?data k ?files \<in> set (flush_stages (ds_path d) ?data ?files)" for k
  proof (cases "k \<le> length ?data")
    case True
    then show ?thesis by (auto simp: flush_stages_def less_Suc_eq_le simp del: upt_Suc)
  next
    case False
    then have "written (ds_path d) ?data k ?files = written (ds_path d) ?data (length ?data) ?files"
      by (simp add: written_def)
    then show ?thesis by (auto simp: flush_stages_def less_Suc_eq_le simp del: upt_Suc)
  qed
  moreover have "?files \<in> set (flush_stages (ds_path d) ?data ?files)"
    "renamed (ds_path d) ?data ?files \<in> set (flush_stages (ds_path d) ?data ?files)"
    by (simp_all add: flush_stages_def)
  ultimately show ?thesis by (simp add: flushLocked_def Let_def split: io_fault.split)
qed


section \<open>Properties\<close>

text \<open>A store with one block on a disk without faults.\<close>

definition sample_disk0 :: disk_store where
  "sample_disk0 = \<lparr>ms_genesisHash = zero_hash, ms_currentTip = zero_hash, ms_blocks = [],
     ms_heights = [], ms_totalWork = [], ds_path = chain_file ''data'',
     ds_fs = \<lparr>fs_files = [], fs_faults = [], fs_mkdir_fails = False, fs_read_fails = False\<rparr>\<rparr>"

definition sample_disk :: disk_store where
  "sample_disk = snd (Disk_StoreBlock sample_disk0 sample_block 7)"

lemma sample_disk0_ok: "disk_ok sample_disk0" "NewDiskStore ''data'' (ds_fs sample_disk0) = Inr sample_disk0"
  by (simp_all add: disk_ok_def sample_disk0_def memory_ok_def NewDiskStore_def load_def)

lemma sample_disk_ok: "disk_ok sample_disk"
  unfolding sample_disk_def by (rule disk_store_ok [OF sample_disk0_ok(1) sample_hash_nonzero])
    (simp add: sample_block_def sample_header_ok)

lemma sample_disk_fields:
  "ds_path sample_disk = chain_file ''data''" "ms_currentTip sample_disk = BlockHash sample_block"
  "\<not> fs_mkdir_fails (ds_fs sample_disk)" "\<not> fs_read_fails (ds_fs sample_disk)"
  "fs_faults (ds_fs sample_disk) = []"
  by (simp_all add: sample_disk_def Disk_StoreBlock_def sample_disk0_def Let_def flushLocked_def)

lemma sample_repair: "repair_store sample_disk = sample_disk"
  by (rule repair_store_id)
    (simp add: sample_disk_def Disk_StoreBlock_def sample_disk0_def Let_def sample_block_def)

lemma sample_flush:
  "flushLocked sample_disk = (None, snd (flushLocked sample_disk))"
  "\<not> fs_mkdir_fails (ds_fs (snd (flushLocked sample_disk)))"
  "\<not> fs_read_fails (ds_fs (snd (flushLocked sample_disk)))"
  using sample_disk_fields by (simp_all add: flushLocked_def Let_def)

text \<open>Both stores are finite maps with a tip: after a block is stored, looking its hash up returns
  that block and the cumulative work given, whether or not the write to disk succeeded, and every
  other lookup is unchanged.\<close>

theorem stores_lookup_after_store:
  assumes "memory_ok m" "memory_ok (mem d)" and nz: "BlockHash b \<noteq> zero_hash"
  shows "(let m' = snd (Memory_StoreBlock m b w) in
      Memory_GetBlock m' (BlockHash b) = Inr b \<and> Memory_TotalWork m' (BlockHash b) = Inr w \<and>
      (\<forall>h. h \<noteq> BlockHash b \<longrightarrow> Memory_GetBlock m' h = Memory_GetBlock m h \<and>
         Memory_TotalWork m' h = Memory_TotalWork m h)) \<and>
    (let d' = snd (Disk_StoreBlock d b w) in
      Disk_GetBlock d' (BlockHash b) = Inr b \<and> Disk_TotalWork d' (BlockHash b) = Inr w \<and>
      (\<forall>h. h \<noteq> BlockHash b \<longrightarrow> Disk_GetBlock d' h = Disk_GetBlock d h \<and>
         Disk_TotalWork d' h = Disk_TotalWork d h))"
  using memory.lookup_after_store [OF assms(1) nz, of w] disk.lookup_after_store [OF assms(2) nz, of w]
  by (simp add: memory_ops_def disk_ops_def Let_def prod_eq_iff)

theorem stores_lookup_after_store_witness:
  "Memory_GetBlock (snd (Memory_StoreBlock NewMemoryStore sample_block 7)) sample_hash = Inr sample_block \<and>
   Disk_TotalWork (snd (Disk_StoreBlock sample_disk0 sample_block 7)) sample_hash = Inr 7"
proof -
  have "memory_ok (mem sample_disk0)" using sample_disk0_ok(1) by (simp add: disk_ok_def)
  from stores_lookup_after_store [OF memory_new_ok(1) this sample_hash_nonzero, of 7]
  show ?thesis by (simp add: sample_hash Let_def)
qed

text \<open>C38: What the disk store writes it reads back: after a flush that reports no error, opening the
  data directory again parses the JSON text of the snapshot and yields the same genesis, the same tip,
  and the same maps of blocks, heights and cumulative work, through the hexadecimal and decimal keys of
  the snapshot; only what is not UTF-8 in a transaction is replaced.\<close>

theorem disk_store_roundtrip:
  assumes d: "disk_ok d" and path: "ds_path d = chain_file dir" "dir \<noteq> []"
    and flush: "flushLocked d = (None, d')"
    and io: "\<not> fs_mkdir_fails (ds_fs d')" "\<not> fs_read_fails (ds_fs d')"
  shows "\<exists>e. NewDiskStore dir (ds_fs d') = Inr e \<and> same_store e (repair_store d)"
proof -
  have "fs_files (ds_fs d') = renamed (ds_path d) (marshalSnapshot (flush_snapshot d)) (fs_files (ds_fs d))"
    using flush by (auto simp: flushLocked_def Let_def split: io_fault.splits)
  then have "map_of (fs_files (ds_fs d')) (chain_file dir) = Some (marshalSnapshot (flush_snapshot d))"
    using path(1) by (simp add: stage_files)
  from load_snapshot [OF d path(2) io this] show ?thesis by blast
qed

theorem disk_store_roundtrip_witness:
  "\<exists>e. NewDiskStore ''data'' (ds_fs (snd (flushLocked sample_disk))) = Inr e \<and>
     same_store e sample_disk \<and> ms_currentTip e = sample_hash"
proof -
  from disk_store_roundtrip [OF sample_disk_ok sample_disk_fields(1) _ sample_flush]
  obtain e where "NewDiskStore ''data'' (ds_fs (snd (flushLocked sample_disk))) = Inr e"
    "same_store e (repair_store sample_disk)" by auto
  then show ?thesis using sample_disk_fields(2) sample_repair by (auto simp: same_store_def sample_hash)
qed

text \<open>C39: A crash during a flush loses at most the change being written: in every state of the file
  system that a flush passes through, down to the bytes of the temporary file, opening the store
  yields either the state being written or exactly what it would have yielded before the flush; a
  flush that fails to open, write or rename ends in one of these states.\<close>

theorem disk_store_crash_atomic:
  assumes d: "disk_ok d" and path: "ds_path d = chain_file dir" "dir \<noteq> []"
    and stage: "files \<in> set (flush_stages (ds_path d) (marshalSnapshot (flush_snapshot d)) (fs_files fs))"
    and io: "\<not> fs_mkdir_fails fs" "\<not> fs_read_fails fs"
  shows "((\<exists>e. NewDiskStore dir (fs\<lparr>fs_files := files\<rparr>) = Inr e \<and> same_store e (repair_store d)) \<or>
    (case (NewDiskStore dir (fs\<lparr>fs_files := files\<rparr>), NewDiskStore dir fs) of
       (Inr e, Inr e') \<Rightarrow> same_store e e' | (Inl x, Inl x') \<Rightarrow> x = x' | _ \<Rightarrow> False)) \<and>
    fs_files (ds_fs (snd (flushLocked d))) \<in>
      set (flush_stages (ds_path d) (marshalSnapshot (flush_snapshot d)) (fs_files (ds_fs d)))"
proof (intro conjI flush_in_stages)
  let ?fs = "fs\<lparr>fs_files := files\<rparr>"
  let ?same = "case (NewDiskStore dir ?fs, NewDiskStore dir fs) of
       (Inr e, Inr e') \<Rightarrow> same_store e e' | (Inl x, Inl x') \<Rightarrow> x = x' | _ \<Rightarrow> False"
  consider "map_of files (chain_file dir) = Some (marshalSnapshot (flush_snapshot d))"
    | "map_of files (chain_file dir) = map_of (fs_files fs) (chain_file dir)"
    using stages_main [OF stage] path(1) by auto
  then show "(\<exists>e. NewDiskStore dir ?fs = Inr e \<and> same_store e (repair_store d)) \<or> ?same"
  proof cases
    case 1
    then show ?thesis using load_snapshot [OF d path(2), of ?fs] io by auto
  next
    case 2
    then have ?same
      by (simp add: NewDiskStore_def load_def same_store_def split: option.split sum.split)
    then show ?thesis by blast
  qed
qed

theorem disk_store_crash_atomic_witness:
  "let torn = AList.update (tmp_path (chain_file ''data'')) (take 40 (marshalSnapshot (flush_snapshot sample_disk))) [] in
   \<exists>e. NewDiskStore ''data'' \<lparr>fs_files = torn, fs_faults = [], fs_mkdir_fails = False,
       fs_read_fails = False\<rparr> = Inr e \<and> (same_store e sample_disk \<or> same_store e sample_disk0)"
proof -
  let ?data = "marshalSnapshot (flush_snapshot sample_disk)"
  let ?torn = "AList.update (tmp_path (chain_file ''data'')) (take 40 ?data) []"
  let ?fs = "ds_fs sample_disk0"
  have fs: "?fs\<lparr>fs_files := ?torn\<rparr> = \<lparr>fs_files = ?torn, fs_faults = [], fs_mkdir_fails = False,
      fs_read_fails = False\<rparr>" "\<not> fs_mkdir_fails ?fs" "\<not> fs_read_fails ?fs"
    by (simp_all add: sample_disk0_def)
  have "40 < length ?data"
    by (simp add: marshalSnapshot_def enc_snapshot_def jstring_def escape_piece_def escape_def newline_def
        QUOTE_def BACKSLASH_def Let_def)
  then have stage: "?torn \<in> set (flush_stages (ds_path sample_disk) ?data (fs_files ?fs))"
    by (auto simp: flush_stages_def written_def sample_disk_fields(1) sample_disk0_def simp del: upt_Suc
        intro!: image_eqI [of _ _ 40])
  from disk_store_crash_atomic [OF sample_disk_ok sample_disk_fields(1) _ stage fs(2,3)]
  show ?thesis
    unfolding Let_def fs(1) [symmetric] sample_disk0_ok(2) sample_repair by (auto split: sum.splits)
qed

end
