(* ===== verification/ChainRules.thy ===== *)
theory ChainRules
  imports Consensus DiskProofs
begin

text \<open>
  Block insertion, over the contract of the chain store: what \<open>InsertBlock\<close> does after validation is
  an operation on the abstract chain, every chain it builds is a tree of valid links with the right
  cumulative work, and its tip is the best block, so two nodes with the same blocks agree on it.
\<close>


section \<open>Work and the order of blocks\<close>

text \<open>The rank of a block in the fork choice: its work, then the smaller text of its hash.  The ranks are
  a linear order, and \<open>SelectBestChainByTotalWork\<close> picks the greater one.\<close>

datatype rank = Rank int string

instantiation rank :: linorder
begin

definition less_rank :: "rank \<Rightarrow> rank \<Rightarrow> bool" where
  "less_rank x y = (case x of Rank w h \<Rightarrow> case y of Rank w' h' \<Rightarrow> w < w' \<or> w = w' \<and> h' < h)"

definition less_eq_rank :: "rank \<Rightarrow> rank \<Rightarrow> bool" where
  "less_eq_rank x y = (x = y \<or> x < (y :: rank))"

instance
  by standard (auto simp: less_rank_def less_eq_rank_def split: rank.splits)

end

definition better :: "hash \<Rightarrow> int \<Rightarrow> hash \<Rightarrow> int \<Rightarrow> bool" where
  "better h w h' w' \<longleftrightarrow> Rank w' (hash_String h') < Rank w (hash_String h)"

lemma better_iff: "better h w h' w' \<longleftrightarrow> w' < w \<or> w = w' \<and> hash_String h < hash_String h'"
  by (auto simp: better_def less_rank_def)

lemma Select_better:
  "SelectBestChainByTotalWork cur cw cand w = (if better cand w cur cw then cand else cur)"
  by (auto simp: SelectBestChainByTotalWork_def better_iff)

lemma better_trans: "better a u b v \<Longrightarrow> better b v c w \<Longrightarrow> better a u c w"
  unfolding better_def by (rule less_trans)

lemma better_irrefl [simp]: "\<not> better h w h w"
  by (simp add: better_def)

lemma better_asym: "better h w h' w' \<Longrightarrow> \<not> better h' w' h w"
  unfolding better_def by (rule order_less_not_sym)

lemma better_total: "h \<noteq> h' \<Longrightarrow> better h w h' w' \<or> better h' w' h w"
  unfolding better_def using less_linear [of "Rank w (hash_String h)" "Rank w' (hash_String h')"] by auto

lemma CalcBlockWork_bounds:
  assumes "length t = 32" and "be_val t \<noteq> 0"
  shows "1 \<le> CalcBlockWork t" and "CalcBlockWork t \<le> 2 ^ 255"
proof -
  have t: "int (be_val t) + 1 \<le> 2 ^ 256"
  proof -
    have "be_val t < 256 ^ 32" using be_val_less [of t] assms(1) by simp
    then have "int (be_val t) < int (256 ^ 32)" by (simp only: of_nat_less_iff)
    then show ?thesis by simp
  qed
  have w: "CalcBlockWork t = 2 ^ 256 div (int (be_val t) + 1)"
    using assms(2) by (simp add: CalcBlockWork_def Let_def)
  have "(2 :: int) ^ 256 div 2 ^ 256 \<le> 2 ^ 256 div (int (be_val t) + 1)"
    using t by (intro zdiv_mono2) simp_all
  then show "1 \<le> CalcBlockWork t" by (simp add: w)
  have "(2 :: int) ^ 256 div (int (be_val t) + 1) \<le> 2 ^ 256 div 2"
    using assms(2) by (intro zdiv_mono2) simp_all
  then show "CalcBlockWork t \<le> 2 ^ 255" by (simp add: w)
qed


section \<open>Insertion as an operation on the chain\<close>

definition block_total_work :: "chain \<Rightarrow> block \<Rightarrow> int" where
  "block_total_work c b =
     CalcBlockWork (hTarget (Header b)) +
       (if hHeight (Header b) > 0 then snd (the (ch_blocks c (hParentHash (Header b)))) else 0)"

definition chain_insert :: "chain \<Rightarrow> block \<Rightarrow> chain" where
  "chain_insert c b =
     (if ch_blocks c (BlockHash b) \<noteq> None then c
      else let w = block_total_work c b in
        c\<lparr>ch_blocks := (ch_blocks c)(BlockHash b \<mapsto> (b, w)),
          ch_tip := (case ch_tip c of
              None \<Rightarrow> Some (BlockHash b)
            | Some t \<Rightarrow>
                if better (BlockHash b) w t (snd (the (ch_blocks c t))) then Some (BlockHash b)
                else Some t)\<rparr>)"

text \<open>The links and the work of the blocks of a chain.\<close>

definition linked :: "chain \<Rightarrow> block \<Rightarrow> bool" where
  "linked c b \<longleftrightarrow> hHeight (Header b) = 0 \<or>
     (\<exists>p w. ch_blocks c (hParentHash (Header b)) = Some (p, w) \<and>
        hHeight (Header p) + 1 = hHeight (Header b) \<and>
        sint (hTimestamp (Header p)) < sint (hTimestamp (Header b)))"

definition tree_ok :: "chain \<Rightarrow> bool" where
  "tree_ok c \<longleftrightarrow> (\<forall>h b w. ch_blocks c h = Some (b, w) \<longrightarrow> linked c b \<and> w = block_total_work c b)"

definition best_tip :: "chain \<Rightarrow> bool" where
  "best_tip c \<longleftrightarrow>
     (case ch_tip c of
        None \<Rightarrow> ch_blocks c = Map.empty
      | Some t \<Rightarrow> \<exists>b w. ch_blocks c t = Some (b, w) \<and>
          (\<forall>h b' w'. ch_blocks c h = Some (b', w') \<and> h \<noteq> t \<longrightarrow> better t w h w'))"

definition chain_inv :: "chain \<Rightarrow> bool" where
  "chain_inv c \<longleftrightarrow> chain_ok c \<and> tree_ok c \<and> best_tip c"

lemma chain_insert_ok: "chain_ok c \<Longrightarrow> BlockHash b \<noteq> zero_hash \<Longrightarrow> chain_ok (chain_insert c b)"
  by (auto simp: chain_ok_def chain_insert_def Let_def split: option.splits)

lemma chain_insert_tree:
  assumes t: "tree_ok c" and b: "linked c b"
  shows "tree_ok (chain_insert c b)"
proof (cases "ch_blocks c (BlockHash b)")
  case (Some x)
  then show ?thesis using t by (simp add: chain_insert_def)
next
  case None
  let ?c = "chain_insert c b"
  have blocks: "ch_blocks ?c = (ch_blocks c)(BlockHash b \<mapsto> (b, block_total_work c b))"
    using None by (simp add: chain_insert_def Let_def)
  have keep: "linked ?c x \<and> block_total_work ?c x = block_total_work c x"
    if lx: "linked c x" for x
  proof (cases "hHeight (Header x) = 0")
    case True
    then show ?thesis by (simp add: linked_def block_total_work_def)
  next
    case False
    then obtain p w where p: "ch_blocks c (hParentHash (Header x)) = Some (p, w)"
      using lx by (auto simp: linked_def)
    then have "ch_blocks ?c (hParentHash (Header x)) = Some (p, w)" using blocks None by auto
    then show ?thesis using lx p by (auto simp: linked_def block_total_work_def)
  qed
  show ?thesis
    unfolding tree_ok_def blocks using t b keep by (auto simp: tree_ok_def)
qed

lemma chain_insert_best:
  assumes ok: "chain_ok c" and best: "best_tip c"
  shows "best_tip (chain_insert c b)"
proof (cases "ch_blocks c (BlockHash b)")
  case (Some x)
  then show ?thesis using best by (simp add: chain_insert_def)
next
  case None
  let ?h = "BlockHash b" and ?w = "block_total_work c b"
  have blocks: "ch_blocks (chain_insert c b) = (ch_blocks c)(?h \<mapsto> (b, ?w))"
    using None by (simp add: chain_insert_def Let_def)
  show ?thesis
  proof (cases "ch_tip c")
    case no_tip: None
    then have "ch_blocks c = Map.empty" using best by (simp add: best_tip_def)
    moreover have "ch_tip (chain_insert c b) = Some ?h" using None no_tip by (simp add: chain_insert_def Let_def)
    ultimately show ?thesis using blocks by (simp add: best_tip_def)
  next
    case (Some t)
    then obtain tb tw where t: "ch_blocks c t = Some (tb, tw)"
      "\<forall>h b' w'. ch_blocks c h = Some (b', w') \<and> h \<noteq> t \<longrightarrow> better t tw h w'"
      using best by (auto simp: best_tip_def)
    have neq: "t \<noteq> ?h" using t(1) None by auto
    show ?thesis
    proof (cases "better ?h ?w t tw")
      case True
      then have "ch_tip (chain_insert c b) = Some ?h"
        using None Some t(1) by (simp add: chain_insert_def Let_def)
      moreover have "better ?h ?w h w'" if "ch_blocks c h = Some (b', w')" for h b' w'
        using True t(1,2) that better_trans [OF True] by (cases "h = t") auto
      ultimately show ?thesis using blocks by (auto simp: best_tip_def)
    next
      case False
      then have "ch_tip (chain_insert c b) = Some t"
        using None Some t(1) by (simp add: chain_insert_def Let_def)
      moreover have "better t tw ?h ?w" using False better_total [OF neq] by blast
      ultimately show ?thesis using blocks t neq by (auto simp: best_tip_def)
    qed
  qed
qed

text \<open>A chain that keeps the invariant has one possible tip.\<close>

lemma best_tip_unique:
  assumes "best_tip c" "best_tip c'" and eq: "ch_blocks c = ch_blocks c'"
  shows "ch_tip c = ch_tip c'"
proof (cases "ch_tip c")
  case None
  then show ?thesis using assms by (cases "ch_tip c'") (auto simp: best_tip_def)
next
  case (Some t)
  then obtain b w where t: "ch_blocks c t = Some (b, w)"
    "\<forall>h b' w'. ch_blocks c h = Some (b', w') \<and> h \<noteq> t \<longrightarrow> better t w h w'"
    using assms(1) by (auto simp: best_tip_def)
  then obtain t' where t': "ch_tip c' = Some t'" using assms by (cases "ch_tip c'") (auto simp: best_tip_def)
  then obtain b' w' where "ch_blocks c t' = Some (b', w')"
    "\<forall>h b'' w''. ch_blocks c h = Some (b'', w'') \<and> h \<noteq> t' \<longrightarrow> better t' w' h w''"
    using assms(2) eq by (auto simp: best_tip_def)
  then have "t = t'" using t better_asym by metis
  then show ?thesis using Some t' by simp
qed

context chain_store
begin

lemma check_parent_linked:
  assumes "ok s" and "check_parent ops s (Header b) = None"
  shows "linked (abs s) b"
  using assms by (auto simp: check_parent_def linked_def GetHeader split: if_splits sum.splits option.splits)

text \<open>A successful insertion is \<open>chain_insert\<close>, and says whether the block has become the tip.\<close>

lemma insert_refines:
  assumes s: "ok s" and nz: "BlockHash b \<noteq> zero_hash" and lk: "linked (abs s) b"
    and ins: "insert_validated ops s b = (Inr (w, became), s')"
  shows "ok s' \<and> abs s' = chain_insert (abs s) b \<and>
    (became \<longleftrightarrow> ch_blocks (abs s) (BlockHash b) = None \<and> ch_tip (abs s') = Some (BlockHash b)) \<and>
    snd (the (ch_blocks (abs s') (BlockHash b))) = w"
proof (cases "ch_blocks (abs s) (BlockHash b)")
  case (Some x)
  then show ?thesis
    using ins s by (auto simp: insert_validated_def Let_def HasBlock TotalWork chain_insert_def
        split: sum.splits prod.splits)
next
  case None
  let ?h = "BlockHash b" and ?w = "block_total_work (abs s) b"
  have tw: "(if hHeight (Header b) > 0
      then (case so_TotalWork ops s (hParentHash (Header b)) of
              Inl e \<Rightarrow> Inl e | Inr w \<Rightarrow> Inr (CalcBlockWork (hTarget (Header b)) + w))
      else Inr (CalcBlockWork (hTarget (Header b)))) = Inr ?w"
    using lk s by (auto simp: linked_def block_total_work_def TotalWork word_gt_0)
  obtain e1 s1 where st: "so_StoreBlock ops s b ?w = (e1, s1)" by force
  then have e1: "e1 = None" using ins None s tw
    by (cases e1) (simp_all add: insert_validated_def Let_def HasBlock)
  have s1: "ok s1" "abs s1 = chain_store_block (abs s) b ?w" using StoreBlock [OF s nz st] by simp_all
  have in1: "ch_blocks (abs s1) ?h = Some (b, ?w)" by (simp add: s1 chain_store_block_def)
  obtain t where t: "ch_tip (abs s1) = Some t"
    by (cases "ch_tip (abs s)") (simp_all add: s1 chain_store_block_def)
  then obtain tb twk where tb: "ch_blocks (abs s1) t = Some (tb, twk)" "BlockHash tb = t"
    using abs_ok [OF s1(1)] by (force simp: chain_ok_def)
  have cur: "so_CurrentTip ops s1 = Inr (tb, twk)" using CurrentTip [OF s1(1)] t tb by simp
  obtain e2 s2 where st2: "so_SetCurrentTip ops s1 ?h = (e2, s2)" by force
  have s2: "ok s2" "abs s2 = (abs s1)\<lparr>ch_tip := Some ?h\<rparr>"
    using SetCurrentTip [OF s1(1) st2] in1 by auto
  have res: "insert_validated ops s b =
      (if SelectBestChainByTotalWork t twk ?h ?w = ?h
       then (case e2 of Some e \<Rightarrow> (Inl (StoreFailed e), s2) | None \<Rightarrow> (Inr (?w, True), s2))
       else (Inr (?w, False), s1))"
    unfolding insert_validated_def Let_def tw
    using None s by (simp add: HasBlock st e1 cur tb st2 split: option.splits)
  show ?thesis
  proof (cases "t = ?h \<or> better ?h ?w t twk")
    case True
    then have sel: "SelectBestChainByTotalWork t twk ?h ?w = ?h" by (auto simp: Select_better)
    then have "s' = s2" "became" "w = ?w" using res ins by (auto split: option.splits)
    moreover have "abs s2 = chain_insert (abs s) b"
    proof (cases "ch_tip (abs s)")
      case no_tip: None
      then show ?thesis using None by (simp add: s2 s1 chain_store_block_def chain_insert_def Let_def)
    next
      case (Some t0)
      then have "t0 = t" using t by (simp add: s1 chain_store_block_def)
      moreover have "t \<noteq> ?h" using Some None \<open>t0 = t\<close> abs_ok [OF s] by (auto simp: chain_ok_def)
      ultimately show ?thesis
        using Some None True tb(1) by (simp add: s2 s1 chain_store_block_def chain_insert_def Let_def)
    qed
    moreover have "ch_tip (abs s2) = Some ?h" "ch_blocks (abs s2) ?h = Some (b, ?w)"
      using s2 in1 by simp_all
    ultimately show ?thesis using s2(1) None by simp
  next
    case False
    then have sel: "SelectBestChainByTotalWork t twk ?h ?w \<noteq> ?h" by (auto simp: Select_better)
    then have "s' = s1" "\<not> became" "w = ?w" using res ins by auto
    moreover have "ch_tip (abs s) = Some t"
      using False t by (auto simp: s1 chain_store_block_def split: option.splits)
    moreover from this have "abs s1 = chain_insert (abs s) b"
      using None False tb(1) by (auto simp: s1 chain_store_block_def chain_insert_def Let_def)
    ultimately show ?thesis using s1(1) None False t in1 by simp
  qed
qed

lemma insert_inv:
  assumes s: "ok s" "chain_inv (abs s)" and nz: "BlockHash b \<noteq> zero_hash"
    and cp: "check_parent ops s (Header b) = None"
    and ins: "insert_validated ops s b = (Inr (w, became), s')"
  shows "ok s' \<and> chain_inv (abs s') \<and> abs s' = chain_insert (abs s) b \<and>
    (became \<longleftrightarrow> ch_blocks (abs s) (BlockHash b) = None \<and> ch_tip (abs s') = Some (BlockHash b)) \<and>
    snd (the (ch_blocks (abs s') (BlockHash b))) = w"
proof -
  have lk: "linked (abs s) b" by (rule check_parent_linked [OF s(1) cp])
  have r: "ok s' \<and> abs s' = chain_insert (abs s) b \<and>
      (became \<longleftrightarrow> ch_blocks (abs s) (BlockHash b) = None \<and> ch_tip (abs s') = Some (BlockHash b)) \<and>
      snd (the (ch_blocks (abs s') (BlockHash b))) = w"
    by (rule insert_refines [OF s(1) nz lk ins])
  moreover have "chain_inv (chain_insert (abs s) b)"
    using s(2) nz lk chain_insert_ok chain_insert_tree chain_insert_best by (simp add: chain_inv_def)
  ultimately show ?thesis by metis
qed

end


section \<open>Agreement on the tip\<close>

abbreviation block_of :: "chain \<Rightarrow> hash \<Rightarrow> block option" where
  "block_of c h \<equiv> map_option fst (ch_blocks c h)"

text \<open>The work of the blocks of a tree is determined by the blocks.\<close>

lemma tree_work_unique:
  assumes c: "tree_ok c" and c': "tree_ok c'" and eq: "\<forall>h. block_of c h = block_of c' h"
  shows "ch_blocks c h = Some (b, w) \<Longrightarrow> ch_blocks c' h = Some (b, w') \<Longrightarrow> w = w'"
proof (induction "unat (hHeight (Header b))" arbitrary: h b w w' rule: less_induct)
  case less
  have w: "w = block_total_work c b" "w' = block_total_work c' b" and lk: "linked c b"
    using less.prems c c' by (auto simp: tree_ok_def)
  show ?case
  proof (cases "hHeight (Header b) = 0")
    case True
    then show ?thesis by (simp add: w block_total_work_def)
  next
    case False
    then obtain p pw where p: "ch_blocks c (hParentHash (Header b)) = Some (p, pw)"
      "hHeight (Header p) + 1 = hHeight (Header b)" using lk by (auto simp: linked_def)
    have "block_of c' (hParentHash (Header b)) = Some p" using eq p(1) by (metis fst_conv option.map(2))
    then obtain pw' where p': "ch_blocks c' (hParentHash (Header b)) = Some (p, pw')" by auto
    have "unat (hHeight (Header p)) < unat (hHeight (Header b))"
    proof -
      have "unat (hHeight (Header p)) = unat (hHeight (Header b) - 1)"
        using p(2) by (metis add_diff_cancel_right')
      moreover have "unat (hHeight (Header b) - 1) < unat (hHeight (Header b))"
        using False by (simp add: unat_minus_one unat_gt_0)
      ultimately show ?thesis by simp
    qed
    from less.hyps [OF this p(1) p'] show ?thesis by (simp add: w block_total_work_def p(1) p')
  qed
qed

lemma tree_unique:
  assumes "tree_ok c" "tree_ok c'" "\<forall>h. block_of c h = block_of c' h"
  shows "ch_blocks c = ch_blocks c'"
proof
  fix h
  show "ch_blocks c h = ch_blocks c' h"
  proof (cases "ch_blocks c h")
    case None
    then show ?thesis using assms(3) by (metis option.map_disc_iff)
  next
    case (Some x)
    obtain b w where x: "ch_blocks c h = Some (b, w)" using Some by (cases x) auto
    then have "block_of c' h = Some b" using assms(3) by (metis fst_conv option.map(2))
    then obtain w' where "ch_blocks c' h = Some (b, w')" by auto
    then show ?thesis using tree_work_unique [OF assms x] x by simp
  qed
qed

lemma block_of_insert:
  "block_of (chain_insert c b) h =
    (case block_of c h of Some x \<Rightarrow> Some x | None \<Rightarrow> if BlockHash b = h then Some b else None)"
  by (auto simp: chain_insert_def Let_def split: option.split)

lemma block_of_inserts:
  "block_of (foldl chain_insert c bs) h =
    (case block_of c h of Some x \<Rightarrow> Some x | None \<Rightarrow> find (\<lambda>b. BlockHash b = h) bs)"
proof (induction bs arbitrary: c)
  case Nil
  then show ?case by (simp split: option.split)
next
  case (Cons b bs)
  show ?case by (simp add: Cons block_of_insert split: option.split)
qed

lemma find_same:
  assumes "set bs = set bs'" and "inj_on BlockHash (set bs)"
  shows "find (\<lambda>b. BlockHash b = h) bs = find (\<lambda>b. BlockHash b = h) bs'"
proof (cases "\<exists>b \<in> set bs. BlockHash b = h")
  case True
  then obtain b where b: "b \<in> set bs" "BlockHash b = h" by blast
  have "find (\<lambda>b. BlockHash b = h) xs = Some b" if "set xs = set bs" for xs
  proof -
    have "find (\<lambda>b. BlockHash b = h) xs \<noteq> None" using b that by (auto simp: find_None_iff)
    then obtain b' where f: "find (\<lambda>b. BlockHash b = h) xs = Some b'" by blast
    then have "b' \<in> set bs" "BlockHash b' = h" using that by (auto simp: find_Some_iff)
    then show ?thesis using f b assms(2) by (metis inj_onD)
  qed
  then show ?thesis using assms(1) by metis
next
  case False
  then have "find (\<lambda>b. BlockHash b = h) bs = None" "find (\<lambda>b. BlockHash b = h) bs' = None"
    using assms(1) by (auto simp: find_None_iff)
  then show ?thesis by simp
qed

text \<open>Inserting blocks one after the other, each accepted, at the clock readings given.\<close>

fun insert_all ::
  "hashlib \<Rightarrow> nat \<Rightarrow> 's store_ops \<Rightarrow> validator \<Rightarrow> 's \<Rightarrow> (i64w \<times> block) list \<Rightarrow> (validator \<times> 's) option" where
  "insert_all L numCPU ops v store [] = Some (v, store)"
| "insert_all L numCPU ops v store ((now, b) # bs) =
     (case InsertBlock L numCPU now ops v store b of
        Some (Inr _, v, store) \<Rightarrow> insert_all L numCPU ops v store bs
      | _ \<Rightarrow> None)"

lemma ValidateHeader_parent:
  "ValidateHeader L numCPU now ops v store h = Some (None, v') \<Longrightarrow> check_parent ops store h = None"
  by (auto simp: ValidateHeader_def Let_def split: if_splits option.splits Option.bind_splits)

lemma InsertBlock_validated:
  assumes "InsertBlock L numCPU now ops v store b = Some (Inr r, v', store')"
  shows "check_parent ops store (Header b) = None" "insert_validated ops store b = (Inr r, store')"
    "ValidateHeader L numCPU now ops v store (Header b) = Some (None, v')"
  using assms ValidateHeader_parent
  by (auto simp: InsertBlock_def ValidateBlock_def case_prod_unfold Let_def prod_eq_iff
      split: Option.bind_splits option.splits)

context chain_store
begin

lemma insert_all_inv:
  assumes "ok s" "chain_inv (abs s)" "\<forall>(_, b) \<in> set bs. BlockHash b \<noteq> zero_hash"
    and "insert_all L numCPU ops v s bs = Some (v', s')"
  shows "ok s' \<and> chain_inv (abs s') \<and> abs s' = foldl chain_insert (abs s) (map snd bs)"
  using assms
proof (induction bs arbitrary: v s)
  case Nil
  then show ?case by simp
next
  case (Cons x bs)
  obtain now b where x: "x = (now, b)" by force
  from Cons.prems(4) obtain w t v1 s1 where
    i: "InsertBlock L numCPU now ops v s b = Some (Inr (w, t), v1, s1)"
    and r: "insert_all L numCPU ops v1 s1 bs = Some (v', s')"
    by (auto simp: x split: option.splits sum.splits prod.splits)
  have nz: "BlockHash b \<noteq> zero_hash" using Cons.prems(3) x by auto
  have s1: "ok s1" "chain_inv (abs s1)" "abs s1 = chain_insert (abs s) b"
    using insert_inv [OF Cons.prems(1,2) nz InsertBlock_validated(1,2) [OF i]] by blast+
  have "\<forall>(_, b) \<in> set bs. BlockHash b \<noteq> zero_hash" using Cons.prems(3) by auto
  then have "ok s'" "chain_inv (abs s')" "abs s' = foldl chain_insert (abs s1) (map snd bs)"
    using Cons.IH [OF s1(1,2) _ r] by blast+
  then show ?case using s1(3) x by simp
qed

end

lemma same_blocks_same_tip:
  assumes "chain_inv c" "chain_inv c'" and "\<forall>h. block_of c h = block_of c' h"
  shows "ch_tip c = ch_tip c' \<and> ch_blocks c = ch_blocks c'"
  using assms tree_unique best_tip_unique unfolding chain_inv_def by blast

end
