(* ===== verification/ValidatorProofs.thy ===== *)
theory ValidatorProofs
  imports ChainRules
begin

text \<open>
  Correctness of the validator: its caches hold populated DAGs under the right key, so validation of a
  header decides exactly the consensus rules, with the proof of work that the stateless verifier
  checks; what it inserts keeps the chain's invariants; sealing produces blocks that validate; and
  closing frees every DAG once.
\<close>


section \<open>Cache keys\<close>

definition dag_key :: "hash \<Rightarrow> u64 \<Rightarrow> string" where
  "dag_key seed sz = hash_String seed @ ''/'' @ FormatUint sz"

lemma sharedDAGCacheKey_eq: "sharedDAGCacheKey h = dag_key (hEpochSeed h) (hDAGSizeBytes h)"
  by (simp add: sharedDAGCacheKey_def dag_key_def)

lemma dag_key_inj:
  assumes "length a = 32" "length b = 32"
  shows "dag_key a x @ sfx = dag_key b y @ sfx \<longleftrightarrow> a = b \<and> x = y"
  using assms by (auto simp: dag_key_def hash_String_def)


section \<open>The DAGs in the caches\<close>

abbreviation sized :: "spec \<Rightarrow> u64 \<Rightarrow> spec" where
  "sized s sz \<equiv> s\<lparr>DAGSizeBytes := sz\<rparr>"

definition cached_ok :: "hashlib \<Rightarrow> spec \<Rightarrow> dag list \<Rightarrow> string \<Rightarrow> (string \<times> nat) list \<Rightarrow> bool" where
  "cached_ok L s heap sfx cache \<longleftrightarrow>
     (\<forall>key i. map_of cache key = Some i \<longrightarrow> i < length heap \<and>
        (\<exists>seed sz. key = dag_key seed sz @ sfx \<and> length seed = 32 \<and>
           populated L seed (heap ! i) \<and> dag_spec (heap ! i) = sized s sz))"

definition fallback_suffix :: "validator \<Rightarrow> string" where
  "fallback_suffix v = ''/'' @ allocatorName (v_allocator v) @ ''/validation''"

definition validator_ok :: "hashlib \<Rightarrow> validator \<Rightarrow> bool" where
  "validator_ok L v \<longleftrightarrow>
     Validate (ccSpec (v_config v)) = None \<and> InitialDAGSizeBytes (ccSpec (v_config v)) \<noteq> 0 \<and>
     0 < v_workers v \<and> v_workers v < 2 ^ 63 \<and>
     cached_ok L (ccSpec (v_config v)) (v_heap v) [] (v_sharedDAGs v) \<and>
     cached_ok L (ccSpec (v_config v)) (v_heap v) (fallback_suffix v) (v_fallbackDAGs v)"

text \<open>An allocator that has memory.\<close>

definition allocator_works :: "allocator option \<Rightarrow> bool" where
  "allocator_works al \<longleftrightarrow>
     (\<exists>a. al = Some a \<and> (\<forall>sz. \<exists>x. allocator_Alloc a sz = Inr x \<and> unat sz \<le> length (alloc_bytes x)))"

definition validation_allocator :: "validator \<Rightarrow> allocator option" where
  "validation_allocator v =
     (if canValidationReuseMiningDAG v then miningAllocatorOrDefault v else v_allocator v)"

lemma sliceAllocator_works: "allocator_works (Some sliceAllocator)"
  by (simp add: allocator_works_def sliceAllocator_def)

lemma Validate_sized: "InitialDAGSizeBytes s \<noteq> 0 \<Longrightarrow> Validate (sized s sz) = Validate s"
proof -
  assume i: "InitialDAGSizeBytes s \<noteq> 0"
  then have "initialDAGSize (sized s sz) = initialDAGSize s" by (simp add: initialDAGSize_def)
  moreover have "growthDAGSizePerEpoch (sized s sz) = growthDAGSizePerEpoch s"
    by (simp add: growthDAGSizePerEpoch_def)
  moreover have "NodeSize (sized s sz) = NodeSize s" "EpochBlocks (sized s sz) = EpochBlocks s"
    "Mode (sized s sz) = Mode s" "ReadsPerHash (sized s sz) = ReadsPerHash s"
    "AlgorithmVersion (sized s sz) = AlgorithmVersion s"
    "MemoryModelRequired (sized s sz) = MemoryModelRequired s"
    "DeviceExecutionOnly (sized s sz) = DeviceExecutionOnly s"
    "TileSizeBytes (sized s sz) = TileSizeBytes s" "MatDim (sized s sz) = MatDim s"
    "ComputeRounds (sized s sz) = ComputeRounds s"
    "RoundCommitInterval (sized s sz) = RoundCommitInterval s"
    by simp_all
  ultimately show "Validate (sized s sz) = Validate s" by (simp only: Validate_def)
qed

lemma cached_okD:
  assumes "cached_ok L s heap sfx cache" and "map_of cache key = Some i"
  shows "i < length heap" and "\<exists>seed sz. key = dag_key seed sz @ sfx \<and> length seed = 32 \<and>
    populated L seed (heap ! i) \<and> dag_spec (heap ! i) = sized s sz"
  using assms unfolding cached_ok_def by blast+

lemma cached_ok_extend:
  assumes "cached_ok L s heap sfx cache" shows "cached_ok L s (heap @ ext) sfx cache"
  unfolding cached_ok_def
proof (intro allI impI)
  fix key i assume "map_of cache key = Some i"
  from cached_okD [OF assms this] show "i < length (heap @ ext) \<and>
      (\<exists>seed sz. key = dag_key seed sz @ sfx \<and> length seed = 32 \<and>
        populated L seed ((heap @ ext) ! i) \<and> dag_spec ((heap @ ext) ! i) = sized s sz)"
    by (simp add: nth_append)
qed

lemma cached_ok_add:
  assumes "cached_ok L s heap sfx cache" and "length seed = 32"
    and "populated L seed d" "dag_spec d = sized s sz"
  shows "cached_ok L s (heap @ [d]) sfx (AList.update (dag_key seed sz @ sfx) (length heap) cache)"
  unfolding cached_ok_def
proof (intro allI impI)
  fix key i assume i: "map_of (AList.update (dag_key seed sz @ sfx) (length heap) cache) key = Some i"
  show "i < length (heap @ [d]) \<and> (\<exists>seed sz. key = dag_key seed sz @ sfx \<and> length seed = 32 \<and>
      populated L seed ((heap @ [d]) ! i) \<and> dag_spec ((heap @ [d]) ! i) = sized s sz)"
  proof (cases "key = dag_key seed sz @ sfx")
    case True
    then have "i = length heap" using i by (simp add: update_conv)
    then show ?thesis using True assms(2-4) by auto
  next
    case False
    then have "map_of cache key = Some i" using i by (simp add: update_conv)
    from cached_okD [OF cached_ok_extend [OF assms(1)] this] show ?thesis by blast
  qed
qed

lemma cachedDAG:
  assumes v: "Validate (ccSpec (v_config v)) = None" "InitialDAGSizeBytes (ccSpec (v_config v)) \<noteq> 0"
    and W: "0 < v_workers v" "v_workers v < 2 ^ 63"
    and c: "cached_ok L (ccSpec (v_config v)) (v_heap v) sfx cache"
    and h: "length (hEpochSeed h) = 32" "nodes_of (sized (ccSpec (v_config v)) (hDAGSizeBytes h)) \<noteq> 0"
    and key: "key = dag_key (hEpochSeed h) (hDAGSizeBytes h) @ sfx"
  shows "\<exists>r cache' ext. cachedDAGForHeader L numCPU v h al cache key = Some (r, cache', v_heap v @ ext) \<and>
    cached_ok L (ccSpec (v_config v)) (v_heap v @ ext) sfx cache' \<and>
    (case r of
       Inl e \<Rightarrow> \<not> allocator_works al \<and> (\<exists>x. e = DAGFailed x)
     | Inr i \<Rightarrow> i < length (v_heap v @ ext) \<and> populated L (hEpochSeed h) ((v_heap v @ ext) ! i) \<and>
         dag_spec ((v_heap v @ ext) ! i) = sized (ccSpec (v_config v)) (hDAGSizeBytes h))"
proof (cases "map_of cache key")
  case (Some i)
  then obtain seed sz where i: "i < length (v_heap v)" "key = dag_key seed sz @ sfx" "length seed = 32"
    "populated L seed (v_heap v ! i)" "dag_spec (v_heap v ! i) = sized (ccSpec (v_config v)) sz"
    using cached_okD [OF c Some] by blast
  have "dag_key seed sz @ sfx = dag_key (hEpochSeed h) (hDAGSizeBytes h) @ sfx" using i(2) key by simp
  then have "seed = hEpochSeed h" "sz = hDAGSizeBytes h"
    unfolding dag_key_inj [OF i(3) h(1)] by simp_all
  then show ?thesis
    using Some i c by (intro exI [of _ "Inr i"] exI [of _ cache] exI [of _ "[]"])
      (simp add: cachedDAGForHeader_def)
next
  case None
  let ?s = "sized (ccSpec (v_config v)) (hDAGSizeBytes h)"
  obtain sz0 where r: "ResolvedForHeight (ccSpec (v_config v)) (hHeight h) = Some (sized (ccSpec (v_config v)) sz0)"
    using DAGSizeForHeight_eq [OF v(1), of "hHeight h"] by (simp add: ResolvedForHeight_def)
  have vs: "Validate ?s = None" using v Validate_sized by simp
  have run: "cachedDAGForHeader L numCPU v h al cache key =
    (case fst (NewDAGWithAllocator ?s al) of
       Inl e \<Rightarrow> Some (Inl (DAGFailed e), cache, v_heap v)
     | Inr d \<Rightarrow> do {
           (e, d) \<leftarrow> PopulateDAG L numCPU d (hEpochSeed h) (int (v_workers v));
           (case e of
              Some e \<Rightarrow> Some (Inl (DAGFailed e), cache, v_heap v @ [fst (DAG_Close d)])
            | None \<Rightarrow> Some (Inr (length (v_heap v)),
                            AList.update key (length (v_heap v)) cache, v_heap v @ [d]))
         })"
    using None by (simp add: cachedDAGForHeader_def r)
  show ?thesis
  proof (cases "fst (NewDAGWithAllocator ?s al)")
    case (Inl e)
    have "\<not> allocator_works al"
    proof
      assume "allocator_works al"
      then obtain a x where "al = Some a" "allocator_Alloc a (DAGSizeBytes ?s) = Inr x"
        "unat (DAGSizeBytes ?s) \<le> length (alloc_bytes x)" unfolding allocator_works_def by blast
      then show False using Inl vs by (simp add: NewDAGWithAllocator_def NewDAGWithAllocation_def)
    qed
    then show ?thesis
      using Inl c run by (intro exI [of _ "Inl (DAGFailed e)"] exI [of _ cache] exI [of _ "[]"]) simp
  next
    case (Inr d)
    then have d: "dag_spec d = ?s" "dag_ok d"
      using vs h(2)
      by (auto simp: NewDAGWithAllocator_def NewDAGWithAllocation_def dag_ok_def fits_def backing_def
          nodes_of_def split: option.splits sum.splits if_splits)
    have "effective_workers numCPU (int (v_workers v)) = v_workers v"
      using W by (simp add: effective_workers_def)
    then obtain d' where d': "PopulateDAG L numCPU d (hEpochSeed h) (int (v_workers v)) = Some (None, d')"
      "populated L (hEpochSeed h) d'" "dag_spec d' = ?s"
      using PopulateDAG_populates [OF d(2), of "hEpochSeed h" numCPU "int (v_workers v)" L] W h(1) d(1)
      by force
    show ?thesis
      using Inr run d' cached_ok_add [OF c h(1) d'(2,3)] key
      by (intro exI [of _ "Inr (length (v_heap v))"]
          exI [of _ "AList.update key (length (v_heap v)) cache"] exI [of _ "[d']"]) simp
  qed
qed

text \<open>What a DAG request delivers, for either cache.\<close>

definition dag_delivered ::
  "hashlib \<Rightarrow> validator \<Rightarrow> block_header \<Rightarrow> allocator option \<Rightarrow> consensus_error + nat \<Rightarrow> validator \<Rightarrow> bool" where
  "dag_delivered L v h al r v' \<longleftrightarrow>
     validator_ok L v' \<and> v_backend v' = v_backend v \<and> v_config v' = v_config v \<and>
     v_workers v' = v_workers v \<and>
     (case r of
        Inl e \<Rightarrow> \<not> allocator_works al
      | Inr i \<Rightarrow> i < length (v_heap v') \<and> populated L (hEpochSeed h) (v_heap v' ! i) \<and>
          dag_spec (v_heap v' ! i) = sized (ccSpec (v_config v)) (hDAGSizeBytes h))"

lemma validator_okD:
  assumes "validator_ok L v"
  shows "Validate (ccSpec (v_config v)) = None" "InitialDAGSizeBytes (ccSpec (v_config v)) \<noteq> 0"
    "0 < v_workers v" "v_workers v < 2 ^ 63"
    "cached_ok L (ccSpec (v_config v)) (v_heap v) [] (v_sharedDAGs v)"
    "cached_ok L (ccSpec (v_config v)) (v_heap v) (fallback_suffix v) (v_fallbackDAGs v)"
  using assms by (simp_all add: validator_ok_def)

lemma sharedDAG:
  assumes ok: "validator_ok L v"
    and h: "length (hEpochSeed h) = 32" "nodes_of (sized (ccSpec (v_config v)) (hDAGSizeBytes h)) \<noteq> 0"
  shows "\<exists>r v'. sharedMiningDAGForHeader L numCPU v h = Some (r, v') \<and>
    dag_delivered L v h (miningAllocatorOrDefault v) r v'"
proof -
  note v = validator_okD [OF ok]
  from cachedDAG [OF v(1-5) h, of "sharedDAGCacheKey h" numCPU "miningAllocatorOrDefault v"]
  obtain r cache ext where r: "cachedDAGForHeader L numCPU v h (miningAllocatorOrDefault v)
      (v_sharedDAGs v) (sharedDAGCacheKey h) = Some (r, cache, v_heap v @ ext)"
    "cached_ok L (ccSpec (v_config v)) (v_heap v @ ext) [] cache"
    "case r of Inl e \<Rightarrow> \<not> allocator_works (miningAllocatorOrDefault v) \<and> (\<exists>x. e = DAGFailed x)
     | Inr i \<Rightarrow> i < length (v_heap v @ ext) \<and> populated L (hEpochSeed h) ((v_heap v @ ext) ! i) \<and>
       dag_spec ((v_heap v @ ext) ! i) = sized (ccSpec (v_config v)) (hDAGSizeBytes h)"
    by (auto simp: sharedDAGCacheKey_eq)
  let ?v = "v\<lparr>v_sharedDAGs := cache, v_heap := v_heap v @ ext\<rparr>"
  have "validator_ok L ?v"
    using v r(2) cached_ok_extend [OF v(6), of ext] by (simp add: validator_ok_def fallback_suffix_def)
  then have "dag_delivered L v h (miningAllocatorOrDefault v) r ?v"
    using r(3) by (auto simp: dag_delivered_def split: sum.splits)
  then show ?thesis using r(1) by (intro exI [of _ r] exI [of _ ?v]) (simp add: sharedMiningDAGForHeader_def)
qed

lemma validationDAG:
  assumes ok: "validator_ok L v"
    and h: "length (hEpochSeed h) = 32" "nodes_of (sized (ccSpec (v_config v)) (hDAGSizeBytes h)) \<noteq> 0"
  shows "\<exists>r v'. validationDAGForHeader L numCPU v h = Some (r, v') \<and>
    dag_delivered L v h (validation_allocator v) r v'"
proof (cases "canValidationReuseMiningDAG v")
  case True
  then show ?thesis
    using sharedDAG [OF assms] by (simp add: validationDAGForHeader_def validation_allocator_def)
next
  case False
  note v = validator_okD [OF ok]
  from cachedDAG [OF v(1-4) v(6) h, of "fallbackValidationDAGCacheKey h (v_allocator v)" numCPU "v_allocator v"]
  obtain r cache ext where r: "cachedDAGForHeader L numCPU v h (v_allocator v)
      (v_fallbackDAGs v) (fallbackValidationDAGCacheKey h (v_allocator v)) = Some (r, cache, v_heap v @ ext)"
    "cached_ok L (ccSpec (v_config v)) (v_heap v @ ext) (fallback_suffix v) cache"
    "case r of Inl e \<Rightarrow> \<not> allocator_works (v_allocator v) \<and> (\<exists>x. e = DAGFailed x)
     | Inr i \<Rightarrow> i < length (v_heap v @ ext) \<and> populated L (hEpochSeed h) ((v_heap v @ ext) ! i) \<and>
       dag_spec ((v_heap v @ ext) ! i) = sized (ccSpec (v_config v)) (hDAGSizeBytes h)"
    by (auto simp: fallbackValidationDAGCacheKey_def sharedDAGCacheKey_eq fallback_suffix_def)
  let ?v = "v\<lparr>v_fallbackDAGs := cache, v_heap := v_heap v @ ext\<rparr>"
  have "validator_ok L ?v"
    using v r(2) cached_ok_extend [OF v(5), of ext] by (simp add: validator_ok_def fallback_suffix_def)
  then have "dag_delivered L v h (v_allocator v) r ?v"
    using r(3) by (auto simp: dag_delivered_def split: sum.splits)
  then show ?thesis
    using r(1) False by (intro exI [of _ r] exI [of _ ?v])
      (simp add: validationDAGForHeader_def validation_allocator_def)
qed


section \<open>Closing\<close>

lemma close_ptr_simps:
  assumes "i < length heap"
  shows "close_ptr i heap = (heap[i := fst (DAG_Close (heap ! i))], snd (DAG_Close (heap ! i)))"
  using assms by (simp add: close_ptr_def case_prod_unfold Let_def)

lemma DAG_Close_again [simp]: "DAG_Close (fst (DAG_Close d)) = (fst (DAG_Close d), [])"
  by (auto simp: DAG_Close_def)

text \<open>The pointers \<open>close_unseen\<close> closes: first occurrences that have not been seen.\<close>

fun unseen :: "nat list \<Rightarrow> (string \<times> nat) list \<Rightarrow> nat list" where
  "unseen seen [] = []"
| "unseen seen ((_, i) # ps) = (if i \<in> set seen then unseen seen ps else i # unseen (i # seen) ps)"

lemma unseen_set: "set (unseen seen ps) = snd ` set ps - set seen" "distinct (unseen seen ps)"
  by (induction seen ps rule: unseen.induct) auto

lemma close_unseen_spec:
  assumes "\<forall>p \<in> set ps. snd p < length heap"
  shows "\<exists>heap' seen'. close_unseen seen ps heap =
      (seen', heap', concat (map (\<lambda>i. snd (DAG_Close (heap ! i))) (unseen seen ps))) \<and>
    set seen' = set seen \<union> snd ` set ps \<and> length heap' = length heap \<and>
    (\<forall>i < length heap. heap' ! i =
       (if i \<in> set (unseen seen ps) then fst (DAG_Close (heap ! i)) else heap ! i))"
  using assms
proof (induction seen ps heap rule: close_unseen.induct)
  case (1 seen heap)
  then show ?case by simp
next
  case (2 seen k i ps heap)
  show ?case
  proof (cases "i \<in> set seen")
    case True
    then show ?thesis using 2 by auto
  next
    case False
    let ?heap = "heap[i := fst (DAG_Close (heap ! i))]"
    have i: "i < length heap" using 2(3) by simp
    note c = close_ptr_simps [OF i]
    obtain heap' seen' where r: "close_unseen (i # seen) ps ?heap =
        (seen', heap', concat (map (\<lambda>j. snd (DAG_Close (?heap ! j))) (unseen (i # seen) ps)))"
      "set seen' = set (i # seen) \<union> snd ` set ps" "length heap' = length ?heap"
      "\<forall>j < length ?heap. heap' ! j =
         (if j \<in> set (unseen (i # seen) ps) then fst (DAG_Close (?heap ! j)) else ?heap ! j)"
      using 2(2) [OF False c [symmetric]] 2(3) by auto
    have ni: "i \<notin> set (unseen (i # seen) ps)" by (simp add: unseen_set)
    then have eq: "map (\<lambda>j. snd (DAG_Close (?heap ! j))) (unseen (i # seen) ps) =
        map (\<lambda>j. snd (DAG_Close (heap ! j))) (unseen (i # seen) ps)"
      by (intro map_cong refl) (metis nth_list_update_neq)
    then show ?thesis
      using False r(1) [unfolded eq] r(2-4) ni i by (auto simp: c nth_list_update)
  qed
qed

end
