(* ===== verification/ConsensusProps.thy ===== *)
theory ConsensusProps
  imports ValidatorProofs
begin

text \<open>
  The properties of the validator: exactness of header validation, insertion, agreement on the tip,
  sealing and closing.
\<close>


section \<open>Header validation\<close>

text \<open>The proof of work of a header, as the stateless verifier checks it.\<close>

definition stateless_pow :: "hashlib \<Rightarrow> spec \<Rightarrow> block_header \<Rightarrow> bool" where
  "stateless_pow L s h \<longleftrightarrow>
     (\<exists>r. VerifyHeaderStateless L (sized s (hDAGSizeBytes h)) (EncodeForMining h) (Some (hNonce h))
            (hEpochSeed h) (hTarget h) = Some (Inr (r, True)))"

text \<open>A header's place in the chain: the genesis block has no parent; any other block is one above a
  parent the store has, and later.\<close>

definition follows_parent :: "'s store_ops \<Rightarrow> 's \<Rightarrow> block_header \<Rightarrow> bool" where
  "follows_parent ops store h \<longleftrightarrow>
     (if hHeight h = 0 then hParentHash h = zero_hash
      else \<exists>p. so_GetHeader ops store (hParentHash h) = Inr p \<and> hHeight h = hHeight p + 1 \<and>
        sint (hTimestamp p) < sint (hTimestamp h))"

lemma check_parent_iff: "check_parent ops store h = None \<longleftrightarrow> follows_parent ops store h"
  by (cases "so_GetHeader ops store (hParentHash h)")
    (auto simp: check_parent_def follows_parent_def not_le)

text \<open>The consensus rules for a header.\<close>

definition header_rules ::
  "hashlib \<Rightarrow> i64w \<Rightarrow> spec \<Rightarrow> 's store_ops \<Rightarrow> 's \<Rightarrow> block_header \<Rightarrow> bool" where
  "header_rules L now s ops store h \<longleftrightarrow>
     hAlgorithmVersion h = AlgorithmVersion s \<and>
     DAGSizeForHeight s (hHeight h) = Some (hDAGSizeBytes h) \<and>
     EpochSeedForHeight s (hHeight h) = Some (hEpochSeed h) \<and>
     be_val (hTarget h) \<noteq> 0 \<and>
     follows_parent ops store h \<and>
     sint (hTimestamp h) \<le> sint (now + 2 * 60 * 60) \<and>
     stateless_pow L s h"

lemma size_has_nodes:
  assumes v: "Validate s = None" and sz: "DAGSizeForHeight s h = Some sz"
  shows "nodes_of (sized s sz) \<noteq> 0"
proof -
  let ?e = "unat h div unat (EpochBlocks s)"
  have i: "initialDAGSize s \<noteq> 0" "initialDAGSize s mod 64 = 0"
    by (rule Validate_common(1) [OF v], rule Validate_common(5) [OF v])
  have "64 dvd unat (initialDAGSize s)" by (rule iffD1 [OF dvd_unat_64 i(2)])
  moreover have "0 < unat (initialDAGSize s)" by (rule iffD2 [OF unat_gt_0 i(1)])
  ultimately have "64 \<le> unat (initialDAGSize s)" by (rule dvd_imp_le)
  then have "64 \<le> min (ideal_size s ?e) (2 ^ 64 - 64)" by (simp add: ideal_size_def)
  moreover have "unat sz = min (ideal_size s ?e) (2 ^ 64 - 64)"
    using sz DAGSizeForHeight_eq [OF v, of h] by (simp only: unat_height_size option.inject)
      (metis option.inject unat_height_size)
  ultimately show ?thesis by (simp add: nodes_of_def)
qed

lemma be_val_zero: "length t = 32 \<Longrightarrow> be_val t = 0 \<longleftrightarrow> t = replicate 32 0"
proof -
  have z: "be_val (replicate n 0) = 0" for n by (induction n) simp_all
  assume "length t = 32"
  then show ?thesis using be_val_inj [of t "replicate 32 0"] z [of 32] by auto
qed

lemma CPU_Hash_populated:
  assumes "populated L seed d"
  shows "CPU_Hash L header n (Some d) = Some (algorithm_hash L (dag_spec d) seed header (Some n))"
proof -
  have "map_option fst (LatticeHash L (dag_spec d) header (Some n) (Some (DAG_accessor d)) None) =
      Some (algorithm_hash L (dag_spec d) seed header (Some n))"
    by (rule DAG_hash [OF assms]) simp
  then show ?thesis
    by (auto simp: CPU_Hash_def LatticeHash_def DAG_accessor_def option.map_comp comp_def split: if_splits)
qed

lemma stateless_pow_iff:
  assumes s: "Validate s = None" "InitialDAGSizeBytes s \<noteq> 0"
    and sz: "nodes_of (sized s (hDAGSizeBytes h)) \<noteq> 0" and h: "header_ok h"
  shows "stateless_pow L s h \<longleftrightarrow> LessOrEqualBE (Pow256 (algorithm_hash L (sized s (hDAGSizeBytes h))
    (hEpochSeed h) (EncodeForMining h) (Some (hNonce h)))) (hTarget h)"
proof -
  have seed: "hEpochSeed h \<noteq> []" using header_okD(3) [OF h] by auto
  have v: "Validate (sized s (hDAGSizeBytes h)) = None" using s Validate_sized by simp
  show ?thesis
    using stateless_hash [OF v sz seed, of L "EncodeForMining h" "Some (hNonce h)"]
    by (auto simp: stateless_pow_def VerifyHeaderStateless_def)
qed

lemma validatePoW_exact:
  assumes ok: "validator_ok L v" and cpu: "v_backend v = CPUBackend L" and h: "header_ok h"
    and sz: "nodes_of (sized (ccSpec (v_config v)) (hDAGSizeBytes h)) \<noteq> 0"
  shows "\<exists>e v'. validatePoW L numCPU v h = Some (e, v') \<and> validator_ok L v' \<and>
    v_backend v' = CPUBackend L \<and> v_config v' = v_config v \<and>
    (e = None \<longrightarrow> stateless_pow L (ccSpec (v_config v)) h) \<and>
    (stateless_pow L (ccSpec (v_config v)) h \<and> allocator_works (validation_allocator v) \<longrightarrow> e = None)"
proof -
  obtain r v' where dd: "validationDAGForHeader L numCPU v h = Some (r, v')"
      "dag_delivered L v h (validation_allocator v) r v'"
    using validationDAG [OF ok header_okD(3) [OF h] sz, of numCPU] by blast
  then have r: "validationDAGForHeader L numCPU v h = Some (r, v')" "validator_ok L v'"
    "v_backend v' = v_backend v" "v_config v' = v_config v"
    "case r of Inl e \<Rightarrow> \<not> allocator_works (validation_allocator v)
     | Inr i \<Rightarrow> i < length (v_heap v') \<and> populated L (hEpochSeed h) (v_heap v' ! i) \<and>
         dag_spec (v_heap v' ! i) = sized (ccSpec (v_config v)) (hDAGSizeBytes h)"
    by (simp_all add: dag_delivered_def)
  have s: "Validate (ccSpec (v_config v)) = None" "InitialDAGSizeBytes (ccSpec (v_config v)) \<noteq> 0"
    using ok by (simp_all add: validator_ok_def)
  show ?thesis
  proof (cases r)
    case (Inl e)
    then show ?thesis using r cpu by (simp add: validatePoW_def)
  next
    case (Inr i)
    then have i: "populated L (hEpochSeed h) (v_heap v' ! i)"
      "dag_spec (v_heap v' ! i) = sized (ccSpec (v_config v)) (hDAGSizeBytes h)"
      "i < length (v_heap v')"
      using r(5) by simp_all
    have "hb_Hash (v_backend v') (EncodeForMining h) (hNonce h) (Some (v_heap v' ! i)) =
        Some (algorithm_hash L (sized (ccSpec (v_config v)) (hDAGSizeBytes h)) (hEpochSeed h)
          (EncodeForMining h) (Some (hNonce h)))"
      using r(3) cpu CPU_Hash_populated [OF i(1)] i(2) by (simp add: CPUBackend_def)
    then show ?thesis
      using r cpu Inr i(3) stateless_pow_iff [OF s sz h] by (simp add: validatePoW_def)
  qed
qed

lemma ValidateHeader_exact:
  assumes ok: "validator_ok L v" and cpu: "v_backend v = CPUBackend L" and h: "header_ok h"
  shows "\<exists>e v'. ValidateHeader L numCPU now ops v store h = Some (e, v') \<and> validator_ok L v' \<and>
    v_backend v' = CPUBackend L \<and> v_config v' = v_config v \<and>
    (e = None \<longrightarrow> header_rules L now (ccSpec (v_config v)) ops store h) \<and>
    (header_rules L now (ccSpec (v_config v)) ops store h \<and> allocator_works (validation_allocator v)
       \<longrightarrow> e = None)"
proof -
  let ?s = "ccSpec (v_config v)"
  have s: "Validate ?s = None" "EpochBlocks ?s \<noteq> 0"
    using ok Validate_common(4) by (simp_all add: validator_ok_def)
  obtain sz where sz: "DAGSizeForHeight ?s (hHeight h) = Some sz" using DAGSizeForHeight_eq [OF s(1)] by blast
  then obtain seed where seed: "EpochSeedForHeight ?s (hHeight h) = Some seed"
    using s(2) by (simp add: EpochSeedForHeight_def)
  have tz: "hTarget h = replicate 32 0 \<longleftrightarrow> be_val (hTarget h) = 0"
    using be_val_zero [OF header_okD(2) [OF h]] by simp
  show ?thesis
  proof (cases "hAlgorithmVersion h = AlgorithmVersion ?s \<and> hDAGSizeBytes h = sz \<and> seed = hEpochSeed h \<and>
      be_val (hTarget h) \<noteq> 0 \<and> check_parent ops store h = None \<and>
      sint (hTimestamp h) \<le> sint (now + 2 * 60 * 60)")
    case True
    have "nodes_of (sized ?s (hDAGSizeBytes h)) \<noteq> 0" using size_has_nodes [OF s(1) sz] True by simp
    from validatePoW_exact [OF ok cpu h this, of numCPU] show ?thesis
      using True by (simp add: ValidateHeader_def Let_def sz seed tz header_rules_def
          check_parent_iff [symmetric])
  next
    case False
    then have "\<exists>e. ValidateHeader L numCPU now ops v store h = Some (Some e, v)"
      by (auto simp: ValidateHeader_def Let_def sz seed tz not_le split: option.split)
    then show ?thesis using False ok cpu by (auto simp: header_rules_def check_parent_iff sz seed)
  qed
qed


section \<open>A validator to try things on\<close>

definition sample_config :: chain_config where
  "sample_config = \<lparr>ccNetworkID = ''devnet'', ccSpec = tiny_spec\<rparr>"

definition sample_validator :: validator where
  "sample_validator = \<lparr>v_config = sample_config, v_backend = CPUBackend sample_lib, v_workers = 2,
     v_sharedDAGs = [], v_fallbackDAGs = [], v_allocator = Some sliceAllocator,
     v_miningBackend = Some (CPUBackend sample_lib), v_miningAllocator = Some sliceAllocator, v_heap = []\<rparr>"

lemma sample_validator_new:
  "NewValidator sample_lib 4 sample_config None 2 = Inr sample_validator"
  by (simp add: NewValidator_def sample_validator_def sample_config_def effective_workers_def Let_def)

lemma sample_validator_ok: "validator_ok sample_lib sample_validator"
  by (simp add: validator_ok_def sample_validator_def sample_config_def cached_ok_def)

lemma sample_validator_fields [simp]:
  "v_backend sample_validator = CPUBackend sample_lib" "v_config sample_validator = sample_config"
  "ccSpec sample_config = tiny_spec"
  by (simp_all add: sample_validator_def sample_config_def)

lemma sample_allocators:
  "allocator_works (validation_allocator sample_validator)"
  "allocator_works (miningAllocatorOrDefault sample_validator)"
  using sliceAllocator_works
  by (simp_all add: validation_allocator_def canValidationReuseMiningDAG_def miningAllocatorOrDefault_def
      sample_validator_def)

lemma LessOrEqualBE_max: "LessOrEqualBE a (replicate n 255)"
proof (induction n arbitrary: a)
  case 0
  then show ?case by (cases a) simp_all
next
  case (Suc n)
  show ?case
  proof (cases a)
    case (Cons x xs)
    have "\<not> 255 < x"
    proof
      assume "255 < x"
      then have "255 < unat x" by (simp add: word_less_nat_alt)
      moreover have "unat x < 256" using unsigned_less [of x, where ?'a = nat] by simp
      ultimately show False by simp
    qed
    then show ?thesis using Cons Suc by simp
  qed simp
qed

lemma sample_header_size: "nodes_of (sized tiny_spec (hDAGSizeBytes sample_header)) \<noteq> 0"
  by (simp add: nodes_of_def sample_header_def)

lemma sample_rules: "header_rules sample_lib 100 tiny_spec ops store sample_header"
proof -
  have size: "DAGSizeForHeight tiny_spec 0 = Some 64"
    by (simp add: DAGSizeForHeight_def DAGSizeForEpoch_def initialDAGSize_def)
  have "be_val (replicate 32 (255 :: byte)) + 1 = 256 ^ 32" by (rule be_val_max)
  then have t: "be_val (hTarget sample_header) \<noteq> 0" by (auto simp: sample_header_def)
  have pow: "stateless_pow sample_lib tiny_spec sample_header"
    unfolding stateless_pow_iff [OF tiny_spec_valid _ sample_header_size sample_header_ok, simplified]
    by (simp add: sample_header_def LessOrEqualBE_max)
  show ?thesis
    using t pow size sample_seed
    by (simp add: header_rules_def follows_parent_def zero_hash_def) (simp add: sample_header_def)
qed


section \<open>Properties\<close>

text \<open>C2: Header validation is exact: with the reference backend and an allocator that has memory,
  \<open>ValidateHeader\<close> accepts a header exactly when the consensus rules hold: the version, the DAG size
  and the epoch seed of its height, a non-zero target, the parent's height and timestamp, the clock,
  and the proof of work as the stateless verifier decides it; it never panics, and the caches it fills
  stay correct, whatever they held and whichever allocator the mining side uses.\<close>

theorem header_validation_exact:
  assumes "validator_ok L v" and "v_backend v = CPUBackend L" and "header_ok h"
    and "allocator_works (validation_allocator v)"
  shows "\<exists>e v'. ValidateHeader L numCPU now ops v store h = Some (e, v') \<and> validator_ok L v' \<and>
    (e = None \<longleftrightarrow> header_rules L now (ccSpec (v_config v)) ops store h)"
  using ValidateHeader_exact [OF assms(1-3), of numCPU now ops store] assms(4) by blast

theorem header_validation_exact_witness:
  "\<exists>v'. ValidateHeader sample_lib 4 100 memory_ops sample_validator NewMemoryStore sample_header = Some (None, v')"
  using header_validation_exact [OF sample_validator_ok sample_validator_fields(1) sample_header_ok
      sample_allocators(1), of 4 100 memory_ops NewMemoryStore] sample_rules [of memory_ops NewMemoryStore]
  by auto

text \<open>C3: Insertion refines the abstract chain: when \<open>InsertBlock\<close> succeeds on the persistent store,
  the blocks and the tip are those of \<open>chain_insert\<close>, the chain stays a tree whose links and cumulative
  work are right and whose tip is the best block, the work returned is the stored one, and the flag
  says exactly whether the block is new and has become the tip.\<close>

theorem insert_block_refines:
  assumes d: "memory_ok (mem d)" "chain_inv (memory_chain (mem d))" and nz: "BlockHash b \<noteq> zero_hash"
    and ins: "InsertBlock L numCPU now disk_ops v d b = Some (Inr (w, became), v', d')"
  shows "memory_ok (mem d') \<and> chain_inv (memory_chain (mem d')) \<and>
    memory_chain (mem d') = chain_insert (memory_chain (mem d)) b \<and>
    (became \<longleftrightarrow> ch_blocks (memory_chain (mem d)) (BlockHash b) = None \<and>
       ch_tip (memory_chain (mem d')) = Some (BlockHash b)) \<and>
    snd (the (ch_blocks (memory_chain (mem d')) (BlockHash b))) = w"
  by (rule disk.insert_inv [OF d nz InsertBlock_validated(1,2) [OF ins]])

lemma empty_chain_inv: "chain_inv \<lparr>ch_blocks = Map.empty, ch_tip = None\<rparr>"
  by (simp add: chain_inv_def chain_ok_def tree_ok_def best_tip_def)

lemma sample_disk0_chain: "memory_ok (mem sample_disk0)" "chain_inv (memory_chain (mem sample_disk0))"
proof -
  show "memory_ok (mem sample_disk0)" using sample_disk0_ok(1) by (simp add: disk_ok_def)
  have "memory_chain (mem sample_disk0) = \<lparr>ch_blocks = Map.empty, ch_tip = None\<rparr>"
    by (simp add: memory_chain_def sample_disk0_def)
  then show "chain_inv (memory_chain (mem sample_disk0))" using empty_chain_inv by simp
qed

lemma sample_insert:
  "\<exists>v' d'. InsertBlock sample_lib 4 100 disk_ops sample_validator sample_disk0 sample_block =
     Some (Inr (CalcBlockWork (replicate 32 255), True), v', d')"
proof -
  obtain v' where v': "ValidateHeader sample_lib 4 100 disk_ops sample_validator sample_disk0 sample_header = Some (None, v')"
    using ValidateHeader_exact [OF sample_validator_ok sample_validator_fields(1) sample_header_ok,
      of 4 100 disk_ops sample_disk0] sample_rules sample_allocators(1) by fastforce
  let ?w = "CalcBlockWork (replicate 32 255)"
  define d where "d = snd (Disk_StoreBlock sample_disk0 sample_block ?w)"
  have st: "so_StoreBlock disk_ops sample_disk0 sample_block ?w = (None, d)"
    by (simp add: d_def disk_ops_def Disk_StoreBlock_def sample_disk0_def Let_def flushLocked_def)
  have tip: "ms_currentTip d = BlockHash sample_block"
    "map_of (ms_blocks d) (BlockHash sample_block) = Some sample_block"
    "map_of (ms_totalWork d) (BlockHash sample_block) = Some ?w" "fs_faults (ds_fs d) = []"
    by (simp_all add: d_def Disk_StoreBlock_def sample_disk0_def Let_def flushLocked_def)
  have has: "\<not> so_HasBlock disk_ops sample_disk0 (BlockHash sample_block)"
    by (simp add: disk_ops_def Disk_HasBlock_def sample_disk0_def)
  have cur: "so_CurrentTip disk_ops d = Inr (sample_block, ?w)"
    using tip by (simp add: disk_ops_def Disk_CurrentTip_def)
  obtain d2 where d2: "so_SetCurrentTip disk_ops d (BlockHash sample_block) = (None, d2)"
    using tip by (simp add: disk_ops_def Disk_SetCurrentTip_def flushLocked_def Let_def)
  have hdr: "hHeight (Header sample_block) = 0" "hTarget (Header sample_block) = replicate 32 255"
    by (simp_all add: sample_block_def sample_header_def)
  have "insert_validated disk_ops sample_disk0 sample_block = (Inr (?w, True), d2)"
    unfolding insert_validated_def Let_def by (simp add: has hdr st cur d2 Select_better)
  then show ?thesis
    using v' by (auto simp: InsertBlock_def ValidateBlock_def sample_block_def)
qed

theorem insert_block_refines_witness:
  "\<exists>v' d'. InsertBlock sample_lib 4 100 disk_ops sample_validator sample_disk0 sample_block =
     Some (Inr (CalcBlockWork (replicate 32 255), True), v', d') \<and>
   ch_tip (memory_chain (mem d')) = Some sample_hash"
proof -
  obtain v' d' where i: "InsertBlock sample_lib 4 100 disk_ops sample_validator sample_disk0 sample_block =
     Some (Inr (CalcBlockWork (replicate 32 255), True), v', d')" using sample_insert by blast
  from insert_block_refines [OF sample_disk0_chain sample_hash_nonzero i] i show ?thesis
    by (auto simp: sample_hash)
qed

text \<open>C4: Nodes agree: a node with the in-memory store and one with the persistent store that start
  from the same chain and accept the same blocks, in whatever order their links allow and at whatever
  times, end with the same tip and the same cumulative work, as long as no two of the blocks have the
  same hash.\<close>

theorem tip_order_independent:
  assumes start: "memory_ok m" "memory_ok (mem d)" "memory_chain m = memory_chain (mem d)"
      "chain_inv (memory_chain m)"
    and nz: "\<forall>(_, b) \<in> set bs. BlockHash b \<noteq> zero_hash"
    and same: "snd ` set bs = snd ` set bs'" "inj_on BlockHash (snd ` set bs)"
    and run: "insert_all L numCPU memory_ops v m bs = Some (v1, m1)"
      "insert_all L' numCPU' disk_ops v' d bs' = Some (v1', d1)"
  shows "Memory_CurrentTip m1 = Disk_CurrentTip d1"
proof -
  have nz': "\<forall>(_, b) \<in> set bs'. BlockHash b \<noteq> zero_hash"
  proof (clarify)
    fix t b assume "(t, b) \<in> set bs'" "BlockHash b = zero_hash"
    then have "b \<in> snd ` set bs" using same(1) by force
    then show False using nz \<open>BlockHash b = zero_hash\<close> by auto
  qed
  have m1: "memory_ok m1" "chain_inv (memory_chain m1)"
    "memory_chain m1 = foldl chain_insert (memory_chain m) (map snd bs)"
    using memory.insert_all_inv [OF start(1,4) nz run(1)] by blast+
  have d1: "memory_ok (mem d1)" "chain_inv (memory_chain (mem d1))"
    "memory_chain (mem d1) = foldl chain_insert (memory_chain (mem d)) (map snd bs')"
    using disk.insert_all_inv [OF start(2) start(4) [unfolded start(3)] nz' run(2)] by blast+
  have f: "find (\<lambda>b. BlockHash b = h) (map snd bs) = find (\<lambda>b. BlockHash b = h) (map snd bs')" for h
    using same by (intro find_same) simp_all
  have "\<forall>h. block_of (memory_chain m1) h = block_of (memory_chain (mem d1)) h"
    by (simp only: m1(3) d1(3) block_of_inserts start(3) f) simp
  from same_blocks_same_tip [OF m1(2) d1(2) this]
  have "ch_tip (memory_chain m1) = ch_tip (memory_chain (mem d1))"
    "ch_blocks (memory_chain m1) = ch_blocks (memory_chain (mem d1))" by simp_all
  then show ?thesis
    using memory.CurrentTip [OF m1(1)] disk.CurrentTip [OF d1(1)]
    by (simp add: memory_ops_def disk_ops_def cong: option.case_cong)
qed

lemma sample_insert_memory:
  "\<exists>v' m'. InsertBlock sample_lib 4 100 memory_ops sample_validator NewMemoryStore sample_block =
     Some (Inr (CalcBlockWork (replicate 32 255), True), v', m')"
proof -
  obtain v' where v': "ValidateHeader sample_lib 4 100 memory_ops sample_validator NewMemoryStore sample_header = Some (None, v')"
    using ValidateHeader_exact [OF sample_validator_ok sample_validator_fields(1) sample_header_ok,
      of 4 100 memory_ops NewMemoryStore] sample_rules sample_allocators(1) by fastforce
  let ?w = "CalcBlockWork (replicate 32 255)"
  define m where "m = snd (Memory_StoreBlock NewMemoryStore sample_block ?w)"
  have st: "so_StoreBlock memory_ops NewMemoryStore sample_block ?w = (None, m)"
    by (simp add: m_def memory_ops_def Memory_StoreBlock_def Let_def)
  have tip: "ms_currentTip m = BlockHash sample_block"
    "map_of (ms_blocks m) (BlockHash sample_block) = Some sample_block"
    "map_of (ms_totalWork m) (BlockHash sample_block) = Some ?w"
    by (simp_all add: m_def Memory_StoreBlock_def NewMemoryStore_def Let_def)
  have has: "\<not> so_HasBlock memory_ops NewMemoryStore (BlockHash sample_block)"
    by (simp add: memory_ops_def Memory_HasBlock_def NewMemoryStore_def)
  have cur: "so_CurrentTip memory_ops m = Inr (sample_block, ?w)"
    using tip by (simp add: memory_ops_def Memory_CurrentTip_def)
  obtain m2 where m2: "so_SetCurrentTip memory_ops m (BlockHash sample_block) = (None, m2)"
    using tip by (simp add: memory_ops_def Memory_SetCurrentTip_def)
  have hdr: "hHeight (Header sample_block) = 0" "hTarget (Header sample_block) = replicate 32 255"
    by (simp_all add: sample_block_def sample_header_def)
  have "insert_validated memory_ops NewMemoryStore sample_block = (Inr (?w, True), m2)"
    unfolding insert_validated_def Let_def by (simp add: has hdr st cur m2 Select_better)
  then show ?thesis
    using v' by (auto simp: InsertBlock_def ValidateBlock_def sample_block_def)
qed

theorem tip_order_independent_witness:
  "\<exists>v1 m1 v2 d1.
     insert_all sample_lib 4 memory_ops sample_validator NewMemoryStore [(100, sample_block)] = Some (v1, m1) \<and>
     insert_all sample_lib 4 disk_ops sample_validator sample_disk0 [(100, sample_block)] = Some (v2, d1) \<and>
     Memory_CurrentTip m1 = Disk_CurrentTip d1"
proof -
  obtain v1 m1 where m1: "insert_all sample_lib 4 memory_ops sample_validator NewMemoryStore
      [(100, sample_block)] = Some (v1, m1)" using sample_insert_memory by auto
  obtain v2 d1 where d1: "insert_all sample_lib 4 disk_ops sample_validator sample_disk0
      [(100, sample_block)] = Some (v2, d1)" using sample_insert by auto
  have eq: "memory_chain NewMemoryStore = memory_chain (mem sample_disk0)"
    by (simp add: memory_new_ok(2)) (simp add: memory_chain_def sample_disk0_def)
  have inv: "chain_inv (memory_chain NewMemoryStore)" using empty_chain_inv by (simp add: memory_new_ok(2))
  from tip_order_independent [OF memory_new_ok(1) sample_disk0_chain(1) eq inv _ refl _ m1 d1]
  show ?thesis using m1 d1 by auto
qed

lemma EncodeForMining_nonce [simp]: "EncodeForMining (h\<lparr>hNonce := x\<rparr>) = EncodeForMining h"
  by (simp add: EncodeForMining_def)

lemma SealBlock_sound:
  assumes seal: "SealBlock L numCPU v b maxN (Inr (b', res)) v'"
    and ok: "validator_ok L v" and cpu: "MiningBackend v = CPUBackend L" and h: "header_ok (Header b)"
    and sz: "nodes_of (sized (ccSpec (v_config v)) (hDAGSizeBytes (Header b))) \<noteq> 0"
  shows "b' = b\<lparr>Header := (Header b)\<lparr>hNonce := hNonce (Header b')\<rparr>\<rparr> \<and>
    stateless_pow L (ccSpec (v_config v)) (Header b') \<and>
    (maxN \<noteq> 0 \<longrightarrow> hNonce (Header b') < maxN) \<and> validator_ok L v'"
proof -
  obtain r v1 where d: "sharedMiningDAGForHeader L numCPU v (Header b) = Some (r, v1)"
    "dag_delivered L v (Header b) (miningAllocatorOrDefault v) r v1"
    using sharedDAG [OF ok header_okD(3) [OF h] sz, of numCPU] by blast
  from seal show ?thesis
  proof cases
    case (sealed i m n)
    then have r: "r = Inr i" "v1 = v'" using d(1) by simp_all
    have i: "populated L (hEpochSeed (Header b)) (v_heap v' ! i)"
      "dag_spec (v_heap v' ! i) = sized (ccSpec (v_config v)) (hDAGSizeBytes (Header b))"
      "validator_ok L v'" "v_workers v' = v_workers v"
      using d(2) r by (auto simp: dag_delivered_def)
    have W: "0 < v_workers v" "v_workers v < 2 ^ 64" using validator_okD(3,4) [OF ok] by simp_all
    have m: "m = \<lparr>mn_spec = ccSpec (v_config v'), mn_dag = Some (v_heap v' ! i), mn_workers = v_workers v,
        mn_backend = sealSkipPrepareBackend (CPUBackend L)\<rparr>"
      using sealed(4) cpu i(4) W(1)
      by (simp add: NewMiner_def Let_def effective_workers_def sealSkipPrepareBackend_def
          split: option.splits)
    have mine: "Mine m (EncodeForMining (Header b)) (hTarget (Header b)) 0 maxN (Some res)"
      "mr_Nonce res = Some n" using sealed by simp_all
    obtain n' tot hr where c: "res = result_of m (Some n') tot hr" "in_range 0 maxN (unat n')"
      "hb_Hash (mn_backend m) (EncodeForMining (Header b)) n' (mn_dag m) = Some hr"
      "LessOrEqualBE (Pow256 hr) (hTarget (Header b))"
      using Mine_correct [OF mine(1)] W by (auto simp: m sealSkipPrepareBackend_def)
    have n: "n' = n" using c(1) mine(2) by (simp add: result_of_def)
    have b': "b' = b\<lparr>Header := (Header b)\<lparr>hNonce := n\<rparr>\<rparr>" using sealed by simp
    have hr: "hr = algorithm_hash L (sized (ccSpec (v_config v)) (hDAGSizeBytes (Header b)))
        (hEpochSeed (Header b)) (EncodeForMining (Header b)) (Some n)"
      using c(3) CPU_Hash_populated [OF i(1)] i(2)
      by (simp add: m n sealSkipPrepareBackend_def CPUBackend_def)
    have h': "header_ok (Header b')" using h by (simp add: b' header_ok_def)
    have "stateless_pow L (ccSpec (v_config v)) (Header b')"
      using stateless_pow_iff [OF validator_okD(1,2) [OF ok] _ h'] sz c(4) hr by (simp add: b')
    moreover have "maxN \<noteq> 0 \<longrightarrow> n < maxN"
      using c(2) n by (auto simp: in_range_def word_less_nat_alt)
    ultimately show ?thesis using i(3) b' by simp
  qed
qed


text \<open>With the easiest target and memory for the DAG, sealing succeeds.\<close>

lemma seal_easy:
  assumes ok: "validator_ok L v" and cpu: "MiningBackend v = CPUBackend L" and h: "header_ok (Header b)"
    and sz: "nodes_of (sized (ccSpec (v_config v)) (hDAGSizeBytes (Header b))) \<noteq> 0"
    and mem: "allocator_works (miningAllocatorOrDefault v)" and easy: "hTarget (Header b) = replicate 32 255"
    and range: "in_range 0 maxN 0"
  shows "\<exists>b' res v'. SealBlock L numCPU v b maxN (Inr (b', res)) v'"
proof -
  let ?enc = "EncodeForMining (Header b)"
  obtain r v' where d: "sharedMiningDAGForHeader L numCPU v (Header b) = Some (r, v')"
    "dag_delivered L v (Header b) (miningAllocatorOrDefault v) r v'"
    using sharedDAG [OF ok header_okD(3) [OF h] sz, of numCPU] by blast
  then obtain i where r: "r = Inr i" "populated L (hEpochSeed (Header b)) (v_heap v' ! i)"
    "v_workers v' = v_workers v" "v_config v' = v_config v"
    using mem by (cases r) (auto simp: dag_delivered_def)
  have W: "0 < v_workers v" "v_workers v < 2 ^ 64" using validator_okD(3,4) [OF ok] by simp_all
  let ?d = "Some (v_heap v' ! i)"
  let ?m = "\<lparr>mn_spec = ccSpec (v_config v), mn_dag = ?d, mn_workers = v_workers v,
    mn_backend = sealSkipPrepareBackend (CPUBackend L)\<rparr>"
  have m: "NewMiner numCPU (ccSpec (v_config v')) ?d (int (v_workers v'))
      (sealSkipPrepareBackend (MiningBackend v)) = Inr ?m"
    using W by (simp add: NewMiner_def r cpu effective_workers_def sealSkipPrepareBackend_def Let_def
        validator_okD(1) [OF ok])
  have total: "hb_Hash (mn_backend ?m) ?enc n (mn_dag ?m) =
      Some (algorithm_hash L (dag_spec (v_heap v' ! i)) (hEpochSeed (Header b)) ?enc (Some n))" for n
    using CPU_Hash_populated [OF r(2)] by (simp add: sealSkipPrepareBackend_def CPUBackend_def)
  obtain out where out: "Mine ?m ?enc (hTarget (Header b)) 0 maxN out"
    using Mine_returns [of ?m ?enc "hTarget (Header b)" 0 maxN] total W by auto
  have "out \<noteq> None"
  proof
    assume "out = None"
    then show False
      using Mine_correct [OF out] total W range by (auto simp: sealSkipPrepareBackend_def hits_def easy LessOrEqualBE_max)
  qed
  then obtain res where res: "Mine ?m ?enc (hTarget (Header b)) 0 maxN (Some res)" using out by auto
  then obtain n where "mr_Nonce res = Some n"
    using Mine_correct [OF res] W by (auto simp: sealSkipPrepareBackend_def result_of_def)
  moreover have "hb_Prepare (MiningBackend v) ?d = None" by (simp add: cpu CPUBackend_def)
  ultimately show ?thesis using SealBlock.sealed [of L numCPU v b i v' ?m maxN res n] d(1) r(1) m res by auto
qed

lemma sample_seal:
  "\<exists>b' res v'. SealBlock sample_lib 4 sample_validator sample_block 5 (Inr (b', res)) v'"
  by (rule seal_easy [OF sample_validator_ok]) (use sample_header_ok sample_header_size sample_allocators in
    \<open>simp_all add: MiningBackend_def sample_validator_def sample_block_def sample_header_def sample_config_def in_range_def\<close>)


text \<open>C21: Closing the validator frees every DAG it owns exactly once: the allocations freed are those of
  the owned, still open DAGs the two caches refer to, each once even when both caches refer to it; the
  caches are empty afterwards, and closing again frees nothing.\<close>

theorem close_frees_once:
  assumes "\<forall>p \<in> set (v_fallbackDAGs v @ v_sharedDAGs v). snd p < length (v_heap v)"
    and "Validator_Close v = (v', freed)"
  shows "v_fallbackDAGs v' = [] \<and> v_sharedDAGs v' = [] \<and> Validator_Close v' = (v', []) \<and>
    (\<exists>ptrs. distinct ptrs \<and> set ptrs = snd ` set (v_fallbackDAGs v @ v_sharedDAGs v) \<and>
       freed = concat (map (\<lambda>i. snd (DAG_Close (v_heap v ! i))) ptrs) \<and>
       (\<forall>i \<in> set ptrs. snd (DAG_Close (v_heap v' ! i)) = []) \<and>
       (\<forall>i < length (v_heap v). i \<notin> set ptrs \<longrightarrow> v_heap v' ! i = v_heap v ! i))"
proof -
  let ?f = "v_fallbackDAGs v" and ?s = "v_sharedDAGs v" and ?h = "v_heap v"
  obtain h1 s1 where 1: "close_unseen [] ?f ?h =
      (s1, h1, concat (map (\<lambda>i. snd (DAG_Close (?h ! i))) (unseen [] ?f)))"
    "set s1 = snd ` set ?f" "length h1 = length ?h"
    "\<forall>i < length ?h. h1 ! i = (if i \<in> set (unseen [] ?f) then fst (DAG_Close (?h ! i)) else ?h ! i)"
    using close_unseen_spec [of ?f ?h "[]"] assms(1) by auto
  obtain h2 s2 where 2: "close_unseen s1 ?s h1 =
      (s2, h2, concat (map (\<lambda>i. snd (DAG_Close (h1 ! i))) (unseen s1 ?s)))" "length h2 = length h1"
    "\<forall>i < length h1. h2 ! i = (if i \<in> set (unseen s1 ?s) then fst (DAG_Close (h1 ! i)) else h1 ! i)"
    using close_unseen_spec [of ?s h1 s1] assms(1) 1(3) by auto
  let ?p1 = "unseen [] ?f" and ?p2 = "unseen s1 ?s"
  have sets: "set ?p1 = snd ` set ?f" "set ?p2 = snd ` set ?s - snd ` set ?f"
    using unseen_set(1) 1(2) by auto
  have lt: "\<forall>i \<in> set ?p1 \<union> set ?p2. i < length ?h" using assms(1) sets by auto
  have "\<forall>i \<in> set ?p2. h1 ! i = ?h ! i" using 1(4) sets lt by auto
  then have eq: "map (\<lambda>i. snd (DAG_Close (h1 ! i))) ?p2 = map (\<lambda>i. snd (DAG_Close (?h ! i))) ?p2" by simp
  have v': "v' = v\<lparr>v_fallbackDAGs := [], v_sharedDAGs := [], v_heap := h2\<rparr>"
    and freed: "freed = concat (map (\<lambda>i. snd (DAG_Close (?h ! i))) (?p1 @ ?p2))"
    using assms(2) by (simp_all add: Validator_Close_def 1(1) 2(1) eq)
  have h2: "\<forall>i < length ?h. h2 ! i = (if i \<in> set ?p1 \<union> set ?p2 then fst (DAG_Close (?h ! i)) else ?h ! i)"
    using 1(3,4) 2(3) sets by auto
  have "distinct (?p1 @ ?p2)" using unseen_set(2) sets by auto
  moreover have "set (?p1 @ ?p2) = snd ` set (?f @ ?s)" using sets by auto
  moreover have "\<forall>i \<in> set (?p1 @ ?p2). snd (DAG_Close (h2 ! i)) = []" using h2 lt by simp
  moreover have "Validator_Close v' = (v', [])" by (simp add: v' Validator_Close_def)
  ultimately show ?thesis using v' freed h2 by (intro conjI exI [of _ "?p1 @ ?p2"]) simp_all
qed

definition sample_closable :: validator where
  "sample_closable = sample_validator\<lparr>v_heap := [sample_dag], v_sharedDAGs := [(''k'', 0)],
     v_fallbackDAGs := [(''k'', 0)]\<rparr>"

theorem close_frees_once_witness:
  "snd (Validator_Close sample_closable) = [\<lparr>alloc_bytes = replicate 64 0, alloc_name = ''go-heap''\<rparr>] \<and>
   v_sharedDAGs (fst (Validator_Close sample_closable)) = []"
proof -
  obtain v' freed where c: "Validator_Close sample_closable = (v', freed)" by force
  have "\<forall>p \<in> set (v_fallbackDAGs sample_closable @ v_sharedDAGs sample_closable).
      snd p < length (v_heap sample_closable)" by (simp add: sample_closable_def)
  from close_frees_once [OF this c] obtain ptrs where p: "distinct ptrs" "set ptrs = {0}"
    "freed = concat (map (\<lambda>i. snd (DAG_Close (v_heap sample_closable ! i))) ptrs)" "v_sharedDAGs v' = []"
    by (auto simp: sample_closable_def)
  then have "ptrs = [0]" by (cases ptrs; cases "tl ptrs") auto
  then show ?thesis using p c by (simp add: sample_closable_def sample_dag_def DAG_Close_def)
qed

text \<open>C22: The work of a block is the exact number of expected tries: at least 1 and at most \<open>2 ^ 255\<close>
  for a non-zero target, antitone in the target, and the unique \<open>w\<close> with
  \<open>w * (t + 1) \<le> 2 ^ 256 < (w + 1) * (t + 1)\<close>.\<close>

theorem block_work_exact:
  assumes t: "length t = 32" "be_val t \<noteq> 0" and t': "length t' = 32" "be_val t \<le> be_val t'"
  shows "1 \<le> CalcBlockWork t' \<and> CalcBlockWork t' \<le> CalcBlockWork t \<and> CalcBlockWork t \<le> 2 ^ 255 \<and>
    CalcBlockWork t * (int (be_val t) + 1) \<le> 2 ^ 256 \<and>
    2 ^ 256 < (CalcBlockWork t + 1) * (int (be_val t) + 1)"
proof -
  let ?d = "int (be_val t) + 1"
  have nz: "be_val t' \<noteq> 0" using t t' by simp
  have w: "CalcBlockWork t = 2 ^ 256 div ?d" "CalcBlockWork t' = 2 ^ 256 div (int (be_val t') + 1)"
    using t(2) nz by (simp_all add: CalcBlockWork_def Let_def)
  have "CalcBlockWork t' \<le> CalcBlockWork t" unfolding w using t'(2) by (intro zdiv_mono2) simp_all
  moreover have "CalcBlockWork t * ?d + 2 ^ 256 mod ?d = 2 ^ 256" unfolding w by (rule div_mult_mod_eq)
  moreover have "0 \<le> (2 :: int) ^ 256 mod ?d" "(2 :: int) ^ 256 mod ?d < ?d"
    by (rule pos_mod_sign, simp) (rule pos_mod_bound, simp)
  moreover have "(CalcBlockWork t + 1) * ?d = CalcBlockWork t * ?d + ?d" by (simp add: algebra_simps)
  ultimately show ?thesis
    using CalcBlockWork_bounds [OF t'(1) nz] CalcBlockWork_bounds [OF t] by linarith
qed

theorem block_work_exact_witness:
  "1 \<le> CalcBlockWork (replicate 32 255) \<and> CalcBlockWork (replicate 31 0 @ [1]) \<le> 2 ^ 255"
proof -
  have lead: "be_val (replicate n 0 @ xs) = be_val xs" for n xs by (induction n) simp_all
  have one: "be_val (replicate 31 0 @ [1]) = 1" by (simp only: lead) simp
  have mx: "be_val (replicate 32 (255 :: byte)) + 1 = 256 ^ 32" by (rule be_val_max)
  have "be_val (replicate 31 0 @ [1]) \<le> be_val (replicate 32 (255 :: byte))"
    using mx unfolding one by simp
  from block_work_exact [OF _ _ _ this] one show ?thesis by simp
qed

end
