(* ===== verification/Node.thy ===== *)
theory Node
  imports ConsensusProps
begin

text \<open>
  The node (\<open>pkg/node/node.go\<close>): the genesis block, the mining loop, the handling of blocks from peers
  and the status it reports.  The clock is an argument of every operation that reads it.  What the
  node's goroutines do is a sequence of steps, each mining one block or handling one block from a
  peer, in any order; insertions that overlap are in the theory \<open>Concurrent\<close>.  Logging and the sending of
  messages are not modelled here.
\<close>


section \<open>State\<close>

record node_config =
  nc_Chain :: chain_config
  nc_Genesis :: genesis_config
  nc_Mine :: bool
  nc_MaxNonces :: u64
  nc_NodeID :: string

record 's node =
  nd_cfg :: node_config
  nd_store :: 's
  nd_validator :: validator

record peer_status =
  ps_PeerID :: string
  ps_BestHash :: hash
  ps_BestHeight :: u64
  ps_TotalWork :: string
  ps_ConnectedAt :: i64w

datatype node_error = ConsensusFailed consensus_error | NodeStoreFailed store_error | ValidatorRequired


section \<open>Small helpers\<close>

definition max_i64 :: "i64w \<Rightarrow> i64w \<Rightarrow> i64w" where
  "max_i64 a b = (if sint a > sint b then a else b)"

definition FormatWork :: "int option \<Rightarrow> string" where
  "FormatWork work = (case work of None \<Rightarrow> ''0'' | Some w \<Rightarrow> big_String w)"

definition ParseBootnodes :: "string \<Rightarrow> string list" where
  "ParseBootnodes raw = filter (\<lambda>p. p \<noteq> []) (map TrimSpace (split_char CHR '','' raw))"


section \<open>Starting\<close>

text \<open>\<open>New\<close>, with the identifier it makes up from the clock and the fresh in-memory store it falls back
  on.\<close>

definition NewNode ::
  "string \<Rightarrow> 's \<Rightarrow> node_config \<Rightarrow> validator option \<Rightarrow> 's option \<Rightarrow> node_error + 's node" where
  "NewNode made_up fresh cfg validator store =
     (let store = (case store of None \<Rightarrow> fresh | Some s \<Rightarrow> s) in
      case validator of
        None \<Rightarrow> Inl ValidatorRequired
      | Some v \<Rightarrow>
          let cfg = (if nc_NodeID cfg = [] then cfg\<lparr>nc_NodeID := made_up\<rparr> else cfg)
          in Inr \<lparr>nd_cfg = cfg, nd_store = store, nd_validator = v\<rparr>)"


section \<open>Genesis\<close>

text \<open>The results \<open>InitGenesis\<close> can have; an existing tip is returned as it is.\<close>

inductive InitGenesis ::
  "hashlib \<Rightarrow> nat \<Rightarrow> 's store_ops \<Rightarrow> 's node \<Rightarrow> (node_error + block) \<Rightarrow> 's node \<Rightarrow> bool"
  for L :: hashlib and numCPU :: nat and ops :: "'s store_ops" and n :: "'s node"
where
  existing: "so_CurrentTip ops (nd_store n) = Inr (tip, w) \<Longrightarrow> InitGenesis L numCPU ops n (Inr tip) n"
| seal_fails: "so_CurrentTip ops (nd_store n) = Inl e0 \<Longrightarrow>
    NewGenesisBlock (nc_Genesis (nd_cfg n)) = Some genesis \<Longrightarrow>
    SealBlock L numCPU (nd_validator n) genesis (nc_MaxNonces (nd_cfg n)) (Inl e) v' \<Longrightarrow>
    InitGenesis L numCPU ops n (Inl (ConsensusFailed e)) (n\<lparr>nd_validator := v'\<rparr>)"
| store_fails: "so_CurrentTip ops (nd_store n) = Inl e0 \<Longrightarrow>
    NewGenesisBlock (nc_Genesis (nd_cfg n)) = Some genesis \<Longrightarrow>
    SealBlock L numCPU (nd_validator n) genesis (nc_MaxNonces (nd_cfg n)) (Inr (b, res)) v' \<Longrightarrow>
    so_StoreBlock ops (nd_store n) b (CalcBlockWork (hTarget (Header b))) = (Some e, s') \<Longrightarrow>
    InitGenesis L numCPU ops n (Inl (NodeStoreFailed e)) (n\<lparr>nd_validator := v', nd_store := s'\<rparr>)"
| tip_fails: "so_CurrentTip ops (nd_store n) = Inl e0 \<Longrightarrow>
    NewGenesisBlock (nc_Genesis (nd_cfg n)) = Some genesis \<Longrightarrow>
    SealBlock L numCPU (nd_validator n) genesis (nc_MaxNonces (nd_cfg n)) (Inr (b, res)) v' \<Longrightarrow>
    so_StoreBlock ops (nd_store n) b (CalcBlockWork (hTarget (Header b))) = (None, s') \<Longrightarrow>
    so_SetCurrentTip ops s' (BlockHash b) = (Some e, s'') \<Longrightarrow>
    InitGenesis L numCPU ops n (Inl (NodeStoreFailed e)) (n\<lparr>nd_validator := v', nd_store := s''\<rparr>)"
| created: "so_CurrentTip ops (nd_store n) = Inl e0 \<Longrightarrow>
    NewGenesisBlock (nc_Genesis (nd_cfg n)) = Some genesis \<Longrightarrow>
    SealBlock L numCPU (nd_validator n) genesis (nc_MaxNonces (nd_cfg n)) (Inr (b, res)) v' \<Longrightarrow>
    so_StoreBlock ops (nd_store n) b (CalcBlockWork (hTarget (Header b))) = (None, s') \<Longrightarrow>
    so_SetCurrentTip ops s' (BlockHash b) = (None, s'') \<Longrightarrow>
    InitGenesis L numCPU ops n (Inr b) (n\<lparr>nd_validator := v', nd_store := s''\<rparr>)"


section \<open>Mining\<close>

text \<open>The header \<open>mineNextBlock\<close> hands to the sealer, on top of \<open>tip\<close>; \<open>None\<close> is a panic.\<close>

definition next_header :: "node_config \<Rightarrow> i64w \<Rightarrow> block \<Rightarrow> block_header option" where
  "next_header cfg now tip =
     (let nextHeight = hHeight (Header tip) + 1 in
      do {
        resolved \<leftarrow> ResolvedForHeight (ccSpec (nc_Chain cfg)) nextHeight;
        seed \<leftarrow> EpochSeedForHeight resolved nextHeight;
        Some \<lparr>hVersion = 1, hAlgorithmVersion = AlgorithmVersion resolved, hHeight = nextHeight,
          hParentHash = BlockHash tip, hTimestamp = max_i64 now (hTimestamp (Header tip) + 1),
          hTarget = gcBits (nc_Genesis cfg), hNonce = 0, hEpochSeed = seed,
          hDAGSizeBytes = DAGSizeBytes resolved,
          hTxRoot = sha256 (string_bytes (''height:'' @ FormatUint nextHeight)),
          hStateRoot = sha256 (string_bytes (hash_String (BlockHash tip)))\<rparr>
      })"

inductive mineNextBlock ::
  "hashlib \<Rightarrow> nat \<Rightarrow> 's store_ops \<Rightarrow> i64w \<Rightarrow> 's node \<Rightarrow> (node_error + block \<times> mine_result) \<Rightarrow> 's node \<Rightarrow> bool"
  for L :: hashlib and numCPU :: nat and ops :: "'s store_ops" and now :: i64w and n :: "'s node"
where
  no_tip: "so_CurrentTip ops (nd_store n) = Inl e \<Longrightarrow>
    mineNextBlock L numCPU ops now n (Inl (NodeStoreFailed e)) n"
| seal_fails: "so_CurrentTip ops (nd_store n) = Inr (tip, w) \<Longrightarrow> next_header (nd_cfg n) now tip = Some h \<Longrightarrow>
    SealBlock L numCPU (nd_validator n) \<lparr>Header = h, Transactions = []\<rparr> (nc_MaxNonces (nd_cfg n)) (Inl e) v' \<Longrightarrow>
    mineNextBlock L numCPU ops now n (Inl (ConsensusFailed e)) (n\<lparr>nd_validator := v'\<rparr>)"
| mined: "so_CurrentTip ops (nd_store n) = Inr (tip, w) \<Longrightarrow> next_header (nd_cfg n) now tip = Some h \<Longrightarrow>
    SealBlock L numCPU (nd_validator n) \<lparr>Header = h, Transactions = []\<rparr> (nc_MaxNonces (nd_cfg n))
      (Inr (b, res)) v' \<Longrightarrow>
    mineNextBlock L numCPU ops now n (Inr (b, res)) (n\<lparr>nd_validator := v'\<rparr>)"

inductive_cases mineNextBlockE: "mineNextBlock L numCPU ops now n r n'"

section \<open>Blocks from peers and status\<close>

text \<open>The node afterwards, and whether it announces its status; \<open>None\<close> is a panic.\<close>

definition onNewBlock ::
  "hashlib \<Rightarrow> nat \<Rightarrow> 's store_ops \<Rightarrow> i64w \<Rightarrow> 's node \<Rightarrow> block \<Rightarrow> ('s node \<times> bool) option" where
  "onNewBlock L numCPU ops now n b =
     (if BlockHash b = zero_hash then Some (n, False)
      else if so_HasBlock ops (nd_store n) (BlockHash b) then Some (n, False)
      else do {
        (r, v, s) \<leftarrow> InsertBlock L numCPU now ops (nd_validator n) (nd_store n) b;
        let n = n\<lparr>nd_validator := v, nd_store := s\<rparr>;
        (case r of Inl _ \<Rightarrow> Some (n, False) | Inr (_, becameTip) \<Rightarrow> Some (n, becameTip))
      })"

definition localStatus :: "'s store_ops \<Rightarrow> i64w \<Rightarrow> 's node \<Rightarrow> node_error + peer_status" where
  "localStatus ops now n =
     (case so_CurrentTip ops (nd_store n) of
        Inl e \<Rightarrow> Inl (NodeStoreFailed e)
      | Inr (tip, work) \<Rightarrow> Inr \<lparr>ps_PeerID = nc_NodeID (nd_cfg n), ps_BestHash = BlockHash tip,
          ps_BestHeight = hHeight (Header tip), ps_TotalWork = big_String work, ps_ConnectedAt = now\<rparr>)"

text \<open>What a running node does: it mines a block, or handles one from a peer.  A step is labelled with
  the block it hands to the validator, if it gets that far; a run collects these blocks.  The clock is read
  when a block is built and again when it is validated.  \<open>Run\<close> returns at the first error; the steps
  below may go on, so every run of the code is one of these.\<close>

inductive node_step ::
  "hashlib \<Rightarrow> nat \<Rightarrow> 's store_ops \<Rightarrow> 's node \<Rightarrow> block option \<Rightarrow> 's node \<Rightarrow> bool"
  for L :: hashlib and numCPU :: nat and ops :: "'s store_ops"
where
  mine_fails: "mineNextBlock L numCPU ops now n (Inl e) n' \<Longrightarrow> node_step L numCPU ops n None n'"
| mine: "mineNextBlock L numCPU ops now n (Inr (b, res)) n' \<Longrightarrow>
    InsertBlock L numCPU now' ops (nd_validator n') (nd_store n') b = Some (r, v', s') \<Longrightarrow>
    node_step L numCPU ops n (Some b) (n'\<lparr>nd_validator := v', nd_store := s'\<rparr>)"
| peer: "header_ok (Header b) \<Longrightarrow> onNewBlock L numCPU ops now n b = Some (n', announce) \<Longrightarrow>
    node_step L numCPU ops n (Some b) n'"

inductive_cases node_stepE: "node_step L numCPU ops n l n'"

inductive node_run ::
  "hashlib \<Rightarrow> nat \<Rightarrow> 's store_ops \<Rightarrow> 's node \<Rightarrow> block list \<Rightarrow> 's node \<Rightarrow> bool"
  for L :: hashlib and numCPU :: nat and ops :: "'s store_ops" and n :: "'s node"
where
  start: "node_run L numCPU ops n [] n"
| idle: "node_run L numCPU ops n bs n1 \<Longrightarrow> node_step L numCPU ops n1 None n' \<Longrightarrow>
    node_run L numCPU ops n bs n'"
| block: "node_run L numCPU ops n bs n1 \<Longrightarrow> node_step L numCPU ops n1 (Some b) n' \<Longrightarrow>
    node_run L numCPU ops n (bs @ [b]) n'"


section \<open>The header of the next block\<close>

lemma size_of_resolved:
  assumes i: "InitialDAGSizeBytes s \<noteq> 0"
  shows "DAGSizeForHeight (sized s sz) h = DAGSizeForHeight s h"
    "EpochSeedForHeight (sized s sz) h = EpochSeedForHeight s h"
proof -
  have f: "initialDAGSize (sized s sz) = initialDAGSize s"
    "growthDAGSizePerEpoch (sized s sz) = growthDAGSizePerEpoch s"
    "NodeSize (sized s sz) = NodeSize s" "EpochBlocks (sized s sz) = EpochBlocks s"
    using i by (simp_all add: initialDAGSize_def growthDAGSizePerEpoch_def)
  have "DAGSizeForEpoch (sized s sz) e = DAGSizeForEpoch s e" for e
    by (simp only: DAGSizeForEpoch_def f)
  then show "DAGSizeForHeight (sized s sz) h = DAGSizeForHeight s h"
    by (simp only: DAGSizeForHeight_def f)
  then show "EpochSeedForHeight (sized s sz) h = EpochSeedForHeight s h"
    by (simp only: EpochSeedForHeight_def f)
qed

lemma next_header_exists:
  assumes v: "Validate (ccSpec (nc_Chain cfg)) = None" and i: "InitialDAGSizeBytes (ccSpec (nc_Chain cfg)) \<noteq> 0"
  shows "\<exists>h. next_header cfg now tip = Some h \<and>
    hAlgorithmVersion h = AlgorithmVersion (ccSpec (nc_Chain cfg)) \<and>
    hHeight h = hHeight (Header tip) + 1 \<and> hParentHash h = BlockHash tip \<and>
    hTimestamp h = max_i64 now (hTimestamp (Header tip) + 1) \<and> hTarget h = gcBits (nc_Genesis cfg) \<and>
    DAGSizeForHeight (ccSpec (nc_Chain cfg)) (hHeight h) = Some (hDAGSizeBytes h) \<and>
    EpochSeedForHeight (ccSpec (nc_Chain cfg)) (hHeight h) = Some (hEpochSeed h) \<and>
    (length (gcBits (nc_Genesis cfg)) = 32 \<longrightarrow> header_ok h)"
proof -
  let ?s = "ccSpec (nc_Chain cfg)" and ?k = "hHeight (Header tip) + 1"
  obtain sz where sz: "DAGSizeForHeight ?s ?k = Some sz" using DAGSizeForHeight_eq [OF v] by blast
  then obtain seed where seed: "EpochSeedForHeight ?s ?k = Some seed"
    using Validate_common(4) [OF v] by (simp add: EpochSeedForHeight_def)
  then show ?thesis
    using sz length_epoch_seed [OF seed]
    by (simp add: next_header_def Let_def ResolvedForHeight_def size_of_resolved [OF i] header_ok_def)
qed

lemma next_timestamp_later:
  assumes "sint (hTimestamp p) < 2 ^ 63 - 1"
  shows "sint (hTimestamp p) < sint (max_i64 now (hTimestamp p + 1))"
proof -
  have "sint (hTimestamp p + 1) = signed_take_bit 63 (sint (hTimestamp p) + 1)"
    by (simp add: sint_word_ariths)
  also have "\<dots> = sint (hTimestamp p) + 1"
    using assms sint_greater_eq [of "hTimestamp p"] by (intro signed_take_bit_int_eq_self) simp_all
  finally show ?thesis by (simp add: max_i64_def)
qed

end
