(* ===== verification/Wire.thy ===== *)
theory Wire
  imports BlockJson Float64 Node
begin

text \<open>
  The messages of the peer protocol (\<open>pkg/p2p/message.go\<close>) and
  their way over the wire (\<open>Peer.Send\<close> and \<open>readMessage\<close> of \<open>pkg/p2p/peer.go\<close>, the decoding in
  \<open>Server.dispatch\<close> of \<open>pkg/p2p/transport.go\<close>).

  A received body is first decoded into an \<open>any\<close>, where every number becomes a \<open>float64\<close> and every
  object a map, and then written and read again as the message its type names.  \<open>through_any\<close> is this
  detour: the numbers rounded to 53 bits and printed with the fewest digits that read back as the same
  \<open>float64\<close>, the keys of an object sorted, a repeated key kept once.
\<close>


fun through_any :: "json \<Rightarrow> json option" where
  "through_any (JNum i) = num_through_any (i < 0) (nat \<bar>i\<bar>, 1)"
| "through_any JNegZero = num_through_any True (0, 1)"
| "through_any (JDec neg m e) = num_through_any neg (decimal_val (m, e))"
| "through_any (JArr xs) = map_option JArr (those (map through_any xs))"
| "through_any (JObj ms) =
     map_option (\<lambda>vs. JObj (sort_key fst (AList.clearjunk (rev (zip (map fst ms) vs)))))
       (those (map (\<lambda>(k, v). through_any v) ms))"
| "through_any j = Some j"


section \<open>Messages\<close>

record hello =
  he_NodeID :: string
  he_Network :: string
  he_Version :: string
  he_Listen :: string

datatype message_body =
    Hello hello
  | Status peer_status
  | Ping i64w
  | Pong i64w
  | NewBlock block

definition enc_status :: "peer_status \<Rightarrow> json" where
  "enc_status s = JObj [(''peer_id'', JStr (ps_PeerID s)), (''best_hash'', enc_hash (ps_BestHash s)),
     (''best_height'', JNum (uint (ps_BestHeight s))), (''total_work'', JStr (ps_TotalWork s)),
     (''connected_at'', JNum (sint (ps_ConnectedAt s)))]"

fun enc_message :: "message_body \<Rightarrow> json" where
  "enc_message (Hello h) = JObj [(''type'', JStr ''hello''), (''body'', JObj [
     (''node_id'', JStr (he_NodeID h)), (''network'', JStr (he_Network h)),
     (''version'', JStr (he_Version h)), (''listen'', JStr (he_Listen h))])]"
| "enc_message (Status s) = JObj [(''type'', JStr ''status''), (''body'', JObj [(''status'', enc_status s)])]"
| "enc_message (Ping t) = JObj [(''type'', JStr ''ping''), (''body'', JObj [(''timestamp'', JNum (sint t))])]"
| "enc_message (Pong t) = JObj [(''type'', JStr ''pong''), (''body'', JObj [(''timestamp'', JNum (sint t))])]"
| "enc_message (NewBlock b) = JObj [(''type'', JStr ''newblock''), (''body'', JObj [(''block'', enc_block b)])]"

definition hello_fields :: "hello fields" where
  "hello_fields = [
     (''node_id'', \<lambda>j h. map_option (\<lambda>x. h\<lparr>he_NodeID := x\<rparr>) (dec_str j (he_NodeID h))),
     (''network'', \<lambda>j h. map_option (\<lambda>x. h\<lparr>he_Network := x\<rparr>) (dec_str j (he_Network h))),
     (''version'', \<lambda>j h. map_option (\<lambda>x. h\<lparr>he_Version := x\<rparr>) (dec_str j (he_Version h))),
     (''listen'', \<lambda>j h. map_option (\<lambda>x. h\<lparr>he_Listen := x\<rparr>) (dec_str j (he_Listen h)))]"

definition status_fields :: "peer_status fields" where
  "status_fields = [
     (''peer_id'', \<lambda>j s. map_option (\<lambda>x. s\<lparr>ps_PeerID := x\<rparr>) (dec_str j (ps_PeerID s))),
     (''best_hash'', \<lambda>j s. map_option (\<lambda>x. s\<lparr>ps_BestHash := x\<rparr>) (dec_hash j (ps_BestHash s))),
     (''best_height'', \<lambda>j s. map_option (\<lambda>x. s\<lparr>ps_BestHeight := x\<rparr>) (dec_uint j (ps_BestHeight s))),
     (''total_work'', \<lambda>j s. map_option (\<lambda>x. s\<lparr>ps_TotalWork := x\<rparr>) (dec_str j (ps_TotalWork s))),
     (''connected_at'', \<lambda>j s. map_option (\<lambda>x. s\<lparr>ps_ConnectedAt := x\<rparr>) (dec_int j (ps_ConnectedAt s)))]"

text \<open>What \<open>readMessage\<close> returns: the type, and the body as its \<open>any\<close> is written again; a missing body
  is \<open>null\<close>.\<close>

record raw_message =
  rm_Type :: string
  rm_Body :: json

definition message_fields :: "raw_message fields" where
  "message_fields = [
     (''type'', \<lambda>j m. map_option (\<lambda>x. m\<lparr>rm_Type := x\<rparr>) (dec_str j (rm_Type m))),
     (''body'', \<lambda>j m. map_option (\<lambda>x. m\<lparr>rm_Body := x\<rparr>) (through_any j))]"

definition zero_hello :: hello where
  "zero_hello = \<lparr>he_NodeID = [], he_Network = [], he_Version = [], he_Listen = []\<rparr>"

definition zero_status :: peer_status where
  "zero_status = \<lparr>ps_PeerID = [], ps_BestHash = zero_hash, ps_BestHeight = 0, ps_TotalWork = [], ps_ConnectedAt = 0\<rparr>"

datatype p2p_error = ReadFailed | BadMessage | BadBody | UnknownType string

text \<open>The body a message is dispatched with.\<close>

definition decode_body :: "raw_message \<Rightarrow> p2p_error + message_body" where
  "decode_body m =
     (let time = dec_struct [(''timestamp'', dec_int)] (rm_Body m) 0;
          result = (\<lambda>x. case x of None \<Rightarrow> Inl BadBody | Some b \<Rightarrow> Inr b)
      in if rm_Type m = ''hello'' then result (map_option Hello (dec_struct hello_fields (rm_Body m) zero_hello))
         else if rm_Type m = ''status''
         then result (map_option Status (dec_struct [(''status'', dec_struct status_fields)] (rm_Body m) zero_status))
         else if rm_Type m = ''ping'' then result (map_option Ping time)
         else if rm_Type m = ''pong'' then result (map_option Pong time)
         else if rm_Type m = ''newblock''
         then result (map_option NewBlock (dec_struct [(''block'', dec_struct block_fields)] (rm_Body m) zero_block))
         else Inl (UnknownType (rm_Type m)))"


section \<open>Frames\<close>

definition bytes_string :: "bytes \<Rightarrow> string" where
  "bytes_string bs = map (\<lambda>b. char_of (unat b)) bs"

definition frame :: "bytes \<Rightarrow> bytes" where
  "frame body = put_be 4 (of_nat (length body) :: u32) @ body"

definition message_bytes :: "message_body \<Rightarrow> bytes" where
  "message_bytes m = frame (string_bytes (jtext (enc_message m)))"

text \<open>Reading from the bytes a connection delivers before it is closed: the message and what is left.\<close>

definition read_payload :: "bytes \<Rightarrow> (bytes \<times> bytes) option" where
  "read_payload s =
     (if length s < 4 then None
      else let size = unat (get_be (take 4 s) :: u32); rest = drop 4 s
           in if length rest < size then None else Some (take size rest, drop size rest))"

definition readMessage :: "bytes \<Rightarrow> p2p_error + raw_message \<times> bytes" where
  "readMessage s =
     (case read_payload s of
        None \<Rightarrow> Inl ReadFailed
      | Some (payload, rest) \<Rightarrow>
          (case json_parse (bytes_string payload) of
             None \<Rightarrow> Inl BadMessage
           | Some j \<Rightarrow>
               (case dec_struct message_fields j \<lparr>rm_Type = [], rm_Body = JNull\<rparr> of
                  None \<Rightarrow> Inl BadMessage
                | Some m \<Rightarrow> Inr (m, rest))))"

end
