(* ===== verification/Float64Proofs.thy ===== *)
theory Float64Proofs
  imports Float64
begin

text \<open>
  The rounding of a fraction gives a closest \<open>float64\<close>; a natural number is rounded as \<open>float_nat\<close>
  says, exactly below \<open>2 ^ 53\<close>; what is printed for a \<open>float64\<close> is read back as it.
\<close>


section \<open>Natural numbers\<close>

lemma bit_length_1: "bit_length (Suc 0) = Suc 0"
  by (subst bit_length.simps, subst bit_length.simps) simp

lemma bit_length_bounds: "0 < n \<Longrightarrow> 2 ^ (bit_length n - 1) \<le> n \<and> n < 2 ^ bit_length n \<and> 0 < bit_length n"
proof (induction n rule: bit_length.induct)
  case (1 n)
  show ?case
  proof (cases "n div 2 = 0")
    case True
    then have "n = 1" using 1(2) by linarith
    then show ?thesis by (simp add: bit_length_1)
  next
    case False
    then have IH: "2 ^ (bit_length (n div 2) - 1) \<le> n div 2" "n div 2 < 2 ^ bit_length (n div 2)"
      "0 < bit_length (n div 2)" using 1 by simp_all
    have b: "bit_length n = Suc (bit_length (n div 2))" using 1(2) by (simp add: bit_length.simps [of n])
    obtain k where k: "bit_length (n div 2) = Suc k" using IH(3) by (cases "bit_length (n div 2)") auto
    show ?thesis using IH(1,2) unfolding b k by simp linarith
  qed
qed

lemma bit_length_large:
  assumes "2 ^ 53 \<le> n"
  shows "53 < bit_length n"
proof (rule ccontr)
  assume "\<not> 53 < bit_length n"
  then have "(2 :: nat) ^ bit_length n \<le> 2 ^ 53" by (intro power_increasing) simp_all
  moreover have "n < 2 ^ bit_length n" using assms bit_length_bounds [of n] by simp
  ultimately show False using assms by simp
qed

lemma float_nat_small [simp]: "n < 2 ^ 53 \<Longrightarrow> float_nat n = n"
  by (simp add: float_nat_def)

lemma float_nat_bounds:
  assumes "2 ^ 53 \<le> n"
  shows "2 ^ 53 \<le> float_nat n" and "float_nat n \<le> 2 * n"
proof -
  let ?e = "bit_length n - 53" and ?q = "n div 2 ^ (bit_length n - 53)"
  have pos: "0 < n" using assms by simp
  have bl: "53 < bit_length n" by (rule bit_length_large [OF assms])
  have low: "2 ^ (bit_length n - 1) \<le> n" using bit_length_bounds [OF pos] by simp
  have "\<exists>b. float_nat n = (if b then ?q + 1 else ?q) * 2 ^ ?e"
    using assms unfolding float_nat_def Let_def by (simp only: not_less [symmetric] if_False) blast
  then obtain q' where q': "float_nat n = q' * 2 ^ ?e" "q' = ?q \<or> q' = ?q + 1" by (metis (full_types))
  have "(2 :: nat) ^ 52 * 2 ^ ?e = 2 ^ (52 + ?e)" by (simp only: power_add)
  also have "52 + ?e = bit_length n - 1" using bl by simp
  finally have "(2 :: nat) ^ 52 * 2 ^ ?e = 2 ^ (bit_length n - 1)" .
  then have "2 ^ 52 * 2 ^ ?e \<le> n" using low by simp
  then have q52: "2 ^ 52 \<le> ?q" by (simp add: less_eq_div_iff_mult_less_eq)
  have "(2 :: nat) ^ 1 \<le> 2 ^ ?e" using bl by (intro power_increasing) simp_all
  then have "2 ^ 52 * 2 \<le> q' * 2 ^ ?e" using q52 q'(2) by (intro mult_le_mono) auto
  then show "2 ^ 53 \<le> float_nat n" by (simp add: q'(1))
  have "?q * 2 ^ ?e \<le> n" by (rule div_times_less_eq_dividend)
  moreover have "1 * 2 ^ ?e \<le> ?q * 2 ^ ?e" using q52 by (intro mult_le_mono1) simp
  moreover have "float_nat n \<le> ?q * 2 ^ ?e + 1 * 2 ^ ?e"
    unfolding q'(1) add_mult_distrib [symmetric] using q'(2) by (intro mult_le_mono1) auto
  ultimately show "float_nat n \<le> 2 * n" by linarith
qed

lemma float_nat_le: "float_nat n \<le> 2 * n"
  using float_nat_bounds(2) [of n] float_nat_small [of n] by (cases "n < 2 ^ 53") simp_all

lemma float_nat_eq_small: "float_nat c = x \<Longrightarrow> x < 2 ^ 53 \<Longrightarrow> c = x"
  using float_nat_bounds(1) [of c] float_nat_small [of c] by (cases "c < 2 ^ 53") auto

lemma shortest_at_reads: "shortest_at k x = Some c \<Longrightarrow> float_nat c = x"
  by (auto simp: shortest_at_def Let_def split: if_splits)

lemma shortest_from_reads: "float_nat x = x \<Longrightarrow> float_nat (shortest_from k x) = x"
  by (induction k) (auto split: option.split dest: shortest_at_reads)

text \<open>What is printed for a natural number.\<close>

definition float_text :: "nat \<Rightarrow> nat" where
  "float_text n = shortest_from 20 (float_nat n)"

lemma float_text_small [simp]:
  fixes n :: nat
  assumes "n < 2 ^ 53"
  shows "float_text n = n"
proof -
  have "float_nat (shortest_from 20 n) = n" using shortest_from_reads assms by simp
  then have "shortest_from 20 n = n" using float_nat_eq_small assms by blast
  then show ?thesis using assms by (simp add: float_text_def)
qed


section \<open>The value of a fraction\<close>

definition ratio :: "frac \<Rightarrow> real" where
  "ratio r = real (fst r) / real (snd r)"

lemma over_pos [simp]: "0 < snd r \<Longrightarrow> 0 < b \<Longrightarrow> 0 < snd (over b k r)"
  by (simp add: over_def)

lemma ratio_over: "0 < b \<Longrightarrow> ratio (over b k r) = ratio r / real b powi k"
  by (cases "0 \<le> k") (simp_all add: ratio_def over_def power_int_def power_inverse divide_inverse)

lemma ratio_float_val: "ratio (float_val x) = real (fst x) * 2 powi snd x"
  by (simp add: float_val_def ratio_over power_int_minus divide_inverse) (simp add: ratio_def)

lemma ratio_decimal_val: "ratio (decimal_val d) = real (fst d) * 10 powi snd d"
  by (simp add: decimal_val_def ratio_over power_int_minus divide_inverse) (simp add: ratio_def)

lemma val_pos [simp]: "0 < snd (float_val x)" "0 < snd (decimal_val d)"
  unfolding float_val_def decimal_val_def by (rule over_pos; simp)+

text \<open>Rounding to an integer: a closest one, and the exact one where there is one.\<close>

lemma ratio_split:
  assumes "0 < snd r"
  shows "ratio r = real (fst r div snd r) + real (fst r mod snd r) / real (snd r)"
proof -
  have "real (fst r) = real (fst r div snd r) * real (snd r) + real (fst r mod snd r)"
    by (metis div_mult_mod_eq of_nat_add of_nat_mult)
  then show ?thesis using assms by (simp add: ratio_def field_simps)
qed

lemma round_even_half:
  assumes "0 < snd r"
  shows "\<bar>ratio r - real (round_even r)\<bar> \<le> 1 / 2"
proof -
  have "real (fst r mod snd r) \<le> real (snd r)" using assms by (simp add: order_less_imp_le)
  then show ?thesis
    using assms unfolding ratio_split [OF assms] by (auto simp: round_even_def Let_def field_simps)
qed

lemma round_even_closest:
  assumes "0 < snd r"
  shows "\<bar>ratio r - real (round_even r)\<bar> \<le> \<bar>ratio r - of_int i\<bar>"
proof (cases "i = int (round_even r)")
  case False
  then have "1 \<le> \<bar>of_int i - real (round_even r)\<bar>"
    by (metis of_int_of_nat_eq of_int_diff of_int_abs of_int_1 of_int_le_iff zero_less_abs_iff
        right_minus_eq int_one_le_iff_zero_less)
  then show ?thesis using round_even_half [OF assms] by linarith
qed simp


section \<open>A closest float64\<close>

lemma two_powi_mono: "i \<le> j \<Longrightarrow> (2 :: real) powi i \<le> 2 powi j"
  by (intro power_int_increasing) simp_all

lemma two_powi_Suc: "(2 :: real) powi (i + 1) = 2 * 2 powi i"
  by (simp add: power_int_add)

lemma bit_length_real:
  assumes "0 < n"
  shows "2 powi (int (bit_length n) - 1) \<le> real n" "real n < 2 powi int (bit_length n)"
proof -
  note b = bit_length_bounds [OF assms]
  have "(2 :: real) powi (int (bit_length n) - 1) = real (2 ^ (bit_length n - 1))"
    using b by (simp add: power_int_def nat_diff_distrib)
  also have "\<dots> \<le> real n" using b by (simp only: of_nat_le_iff)
  finally show "2 powi (int (bit_length n) - 1) \<le> real n" .
  have "real n < real (2 ^ bit_length n)" using b by (simp only: of_nat_less_iff)
  then show "real n < 2 powi int (bit_length n)" by simp
qed

lemma ratio_less_one: "0 < snd r \<Longrightarrow> ratio r < 1 \<longleftrightarrow> fst r < snd r"
  by (simp add: ratio_def)

lemma log2_frac_bounds:
  assumes p: "0 < fst r" and q: "0 < snd r"
  shows "2 powi log2_frac r \<le> ratio r" "ratio r < 2 powi (log2_frac r + 1)"
proof -
  let ?l = "int (bit_length (fst r)) - int (bit_length (snd r))"
  note P = bit_length_real [OF p] and Q = bit_length_real [OF q]
  have s: "ratio (over 2 ?l r) = ratio r / 2 powi ?l" by (simp add: ratio_over)
  have "2 powi (int (bit_length (fst r)) - 1) / 2 powi int (bit_length (snd r)) \<le> ratio r"
    unfolding ratio_def using P Q p q by (intro frac_le) simp_all
  then have low: "2 powi (?l - 1) \<le> ratio r" by (simp add: power_int_diff)
  have "ratio r < 2 powi int (bit_length (fst r)) / 2 powi (int (bit_length (snd r)) - 1)"
    unfolding ratio_def using P Q p q by (intro frac_less) (simp_all add: less_imp_le)
  then have high: "ratio r < 2 powi (?l + 1)" by (simp add: power_int_diff power_int_add)
  have lt: "fst (over 2 ?l r) < snd (over 2 ?l r) \<longleftrightarrow> ratio r < 2 powi ?l"
    using ratio_less_one [of "over 2 ?l r"] q unfolding s by simp
  show "2 powi log2_frac r \<le> ratio r" "ratio r < 2 powi (log2_frac r + 1)"
    using low high lt by (auto simp: log2_frac_def Let_def)
qed

lemma float_frac_shape:
  assumes q: "0 < snd r"
  obtains e where "- 1074 \<le> e" "real (round_even (over 2 e r)) \<le> 2 ^ 53"
    "e = - 1074 \<or> 2 ^ 52 \<le> round_even (over 2 e r) \<and> 2 ^ 52 * 2 powi e \<le> ratio r"
    "float_frac r = (if round_even (over 2 e r) = 2 ^ 53 then (2 ^ 52, e + 1) else (round_even (over 2 e r), e))"
proof -
  define e where "e = (if fst r = 0 then - 1074 else max (- 1074) (log2_frac r - 52))"
  let ?s = "over 2 e r"
  have s: "ratio ?s = ratio r / 2 powi e" by (simp add: ratio_over)
  note near = round_even_closest [OF over_pos [OF q, of 2 e, simplified]]
  have "ratio r < 2 powi (e + 53)"
  proof (cases "fst r = 0")
    case False
    have "2 powi (log2_frac r + 1) \<le> (2 :: real) powi (e + 53)" using False by (intro two_powi_mono) (simp add: e_def)
    then show ?thesis using log2_frac_bounds(2) [of r] False q by simp
  qed (simp add: ratio_def)
  then have "ratio ?s < 2 ^ 53" by (simp add: s power_int_add divide_simps mult.commute)
  then have le: "real (round_even ?s) \<le> 2 ^ 53" using near [of "2 ^ 53"] by simp
  have ge: "2 ^ 52 \<le> round_even ?s \<and> 2 ^ 52 * 2 powi e \<le> ratio r" if ne: "e \<noteq> - 1074"
  proof -
    have e: "fst r \<noteq> 0" "e = log2_frac r - 52" using ne by (auto simp: e_def max_def split: if_splits)
    have "(2 :: real) ^ 52 * 2 powi e = 2 powi (52 + e)" by (simp add: power_int_add)
    also have "\<dots> \<le> ratio r" using log2_frac_bounds(1) [of r] e q by simp
    finally have l: "2 ^ 52 * 2 powi e \<le> ratio r" .
    then have "2 ^ 52 \<le> ratio ?s" by (simp add: s divide_simps)
    then have "(2 :: real) ^ 52 \<le> real (round_even ?s)" using near [of "2 ^ 52"] by simp
    then show ?thesis using l by simp
  qed
  show ?thesis
    by (rule that [of e]) (use le ge in \<open>auto simp: float_frac_def Let_def e_def\<close>)
qed

lemma float_frac_ok:
  assumes "0 < snd r"
  shows "float_ok (float_frac r)"
  using assms by (rule float_frac_shape) (auto simp: float_ok_def order_le_less)

lemma float_frac_val:
  assumes "- 1074 \<le> e" "float_frac r = (if m = 2 ^ 53 then (2 ^ 52, e + 1) else (m, e))"
  shows "ratio (float_val (float_frac r)) = real m * 2 powi e"
  using assms by (auto simp: ratio_float_val two_powi_Suc)

text \<open>No \<open>float64\<close> is closer to a fraction than the one it is rounded to.\<close>

lemma float_frac_closest:
  assumes q: "0 < snd r" and y: "float_ok y"
  shows "\<bar>ratio r - ratio (float_val (float_frac r))\<bar> \<le> \<bar>ratio r - ratio (float_val y)\<bar>"
proof -
  obtain e where e: "- 1074 \<le> e"
    "e = - 1074 \<or> 2 ^ 52 \<le> round_even (over 2 e r) \<and> 2 ^ 52 * 2 powi e \<le> ratio r"
    "float_frac r = (if round_even (over 2 e r) = 2 ^ 53 then (2 ^ 52, e + 1) else (round_even (over 2 e r), e))"
    using float_frac_shape [OF q] by blast
  let ?s = "over 2 e r" and ?v = "ratio (float_val (float_frac r))"
  have s: "ratio r = ratio ?s * 2 powi e" by (simp add: ratio_over)
  have v: "?v = real (round_even ?s) * 2 powi e" by (rule float_frac_val [OF e(1,3)])
  have near: "\<bar>ratio r - ?v\<bar> \<le> \<bar>ratio r - of_int i * 2 powi e\<bar>" for i
  proof -
    have "\<bar>ratio r - of_int j * 2 powi e\<bar> = \<bar>ratio ?s - of_int j\<bar> * 2 powi e" for j
      unfolding s by (simp add: abs_mult flip: left_diff_distrib)
    from this [of i] this [of "int (round_even ?s)"] show ?thesis
      using round_even_closest [OF over_pos [OF q], of 2 e i, simplified] by (simp add: v mult_right_mono)
  qed
  show ?thesis
  proof (cases "e \<le> snd y")
    case True
    have "(2 :: real) powi snd y = 2 powi (snd y - e) * 2 powi e" by (simp flip: power_int_add)
    also have "(2 :: real) powi (snd y - e) = 2 ^ nat (snd y - e)" using True by (simp add: power_int_def)
    finally have "ratio (float_val y) = real (fst y) * 2 ^ nat (snd y - e) * 2 powi e"
      by (simp add: ratio_float_val)
    then have "ratio (float_val y) = of_int (int (fst y * 2 ^ nat (snd y - e))) * 2 powi e" by simp
    then show ?thesis using near by metis
  next
    case False
    then have ne: "e \<noteq> - 1074" using y by (auto simp: float_ok_def)
    have "real (fst y) < 2 ^ 53" using y by (simp add: float_ok_def)
    then have "ratio (float_val y) < 2 ^ 53 * 2 powi snd y" by (simp add: ratio_float_val)
    also have "\<dots> \<le> 2 ^ 53 * 2 powi (e - 1)" using False by (intro mult_left_mono two_powi_mono) simp_all
    also have "\<dots> = 2 ^ 52 * 2 powi e" by (simp add: power_int_diff)
    finally have "ratio (float_val y) < 2 ^ 52 * 2 powi e" .
    moreover have "2 ^ 52 * 2 powi e \<le> ratio r" using e(2) ne by simp
    moreover have "\<bar>ratio r - ?v\<bar> \<le> \<bar>ratio r - 2 ^ 52 * 2 powi e\<bar>" using near [of "2 ^ 52"] by simp
    ultimately show ?thesis by linarith
  qed
qed

text \<open>A \<open>float64\<close> is one pair only, so a fraction that is the value of one is rounded to it.\<close>

lemma float_val_le:
  assumes "float_ok x" "float_ok y" "ratio (float_val x) = ratio (float_val y)"
  shows "snd y \<le> snd x"
proof (rule ccontr)
  assume "\<not> snd y \<le> snd x"
  then have lt: "snd x + 1 \<le> snd y" by simp
  then have "2 ^ 52 \<le> fst y" using assms(1,2) by (auto simp: float_ok_def)
  then have "(2 :: real) ^ 52 \<le> real (fst y)" by simp
  then have "(2 :: real) ^ 52 * 2 powi (snd x + 1) \<le> real (fst y) * 2 powi snd y"
    using two_powi_mono [OF lt] by (intro mult_mono) simp_all
  also have "\<dots> = real (fst x) * 2 powi snd x" using assms(3) by (simp add: ratio_float_val)
  also have "\<dots> < 2 ^ 53 * 2 powi snd x"
    using assms(1) by (intro mult_strict_right_mono) (simp_all add: float_ok_def)
  finally show False by (simp add: two_powi_Suc)
qed

lemma float_val_inj:
  assumes "float_ok x" "float_ok y" "ratio (float_val x) = ratio (float_val y)"
  shows "x = y"
proof -
  have "snd x = snd y"
    using float_val_le [OF assms] float_val_le [OF assms(2,1) assms(3) [symmetric]] by simp
  then show ?thesis using assms(3) by (auto simp: ratio_float_val intro: prod_eqI)
qed

lemma float_frac_exact:
  assumes "0 < snd r" "float_ok y" "ratio r = ratio (float_val y)"
  shows "float_frac r = y"
  using float_frac_closest [OF assms(1,2)] assms(3) float_frac_ok [OF assms(1)]
  by (intro float_val_inj assms(2)) simp_all


section \<open>Integers\<close>

text \<open>Every natural number below \<open>2 ^ 53\<close> is a \<open>float64\<close>.\<close>

lemma float_of_small:
  fixes n :: nat
  assumes "n < 2 ^ 53"
  obtains y where "float_ok y" "ratio (float_val y) = real n"
proof (cases "n = 0")
  case True
  then show ?thesis using that [of "(0, - 1074)"] by (simp add: float_ok_def ratio_float_val)
next
  case False
  then have b: "2 ^ (bit_length n - 1) \<le> n" "n < 2 ^ bit_length n" "0 < bit_length n"
    using bit_length_bounds [of n] by simp_all
  have le: "bit_length n \<le> 53"
  proof (rule ccontr)
    assume "\<not> bit_length n \<le> 53"
    then have "(2 :: nat) ^ 53 \<le> 2 ^ (bit_length n - 1)" by (intro power_increasing) simp_all
    then show False using b(1) assms by simp
  qed
  let ?k = "53 - bit_length n"
  have "(2 :: nat) ^ (bit_length n - 1) * 2 ^ ?k = 2 ^ 52" using b(3) le by (simp flip: power_add)
  then have low: "2 ^ 52 \<le> n * 2 ^ ?k" using b(1) by (metis mult_le_mono1)
  have "(2 :: nat) ^ bit_length n * 2 ^ ?k = 2 ^ 53" using le by (simp flip: power_add)
  moreover have "n * 2 ^ ?k < 2 ^ bit_length n * 2 ^ ?k" using b(2) by (intro mult_strict_right_mono) simp_all
  ultimately have high: "n * 2 ^ ?k < 2 ^ 53" by simp
  have "real (n * 2 ^ ?k) * 2 powi - int ?k = real n" by (simp add: power_int_minus)
  then show ?thesis
    using that [of "(n * 2 ^ ?k, - int ?k)"] low high by (simp add: float_ok_def ratio_float_val)
qed

lemma ratio_nat [simp]: "ratio (n, 1) = real n" "ratio (n, Suc 0) = real n"
  by (simp_all add: ratio_def)

lemma log2_frac_nat:
  assumes "0 < n"
  shows "log2_frac (n, 1) = int (bit_length n) - 1"
proof -
  have "\<not> n < 2 ^ (bit_length n - 1)" "0 < bit_length n" using bit_length_bounds [OF assms] by simp_all
  then show ?thesis by (simp add: log2_frac_def bit_length_1 over_def nat_diff_distrib Let_def)
qed

text \<open>A natural number is rounded as \<open>float_nat\<close> says.\<close>

lemma float_frac_nat: "ratio (float_val (float_frac (n, 1))) = real (float_nat n)"
proof (cases "n < 2 ^ 53")
  case True
  then obtain y where y: "float_ok y" "ratio (float_val y) = real n" by (rule float_of_small)
  then have "float_frac (n, 1) = y" by (intro float_frac_exact) simp_all
  then show ?thesis using y(2) True by simp
next
  case False
  then have n: "2 ^ 53 \<le> n" by simp
  let ?e = "bit_length n - 53"
  have bl: "53 < bit_length n" by (rule bit_length_large [OF n])
  have "log2_frac (n, 1) - 52 = int ?e" using log2_frac_nat [of n] n bl by simp
  then have e: "float_frac (n, 1) =
      (if round_even (over 2 (int ?e) (n, 1)) = 2 ^ 53 then (2 ^ 52, int ?e + 1)
       else (round_even (over 2 (int ?e) (n, 1)), int ?e))"
    using n by (simp add: float_frac_def Let_def)
  have half: "(2 :: nat) ^ ?e = 2 * 2 ^ (?e - 1)" using bl by (simp flip: power_Suc)
  have "float_nat n = round_even (n, 2 ^ ?e) * 2 ^ ?e"
    using n half by (simp add: float_nat_def round_even_def Let_def)
  moreover have "over 2 (int ?e) (n, 1) = (n, 2 ^ ?e)" by (simp add: over_def)
  ultimately show ?thesis using float_frac_val [OF _ e] by simp
qed

lemma float_nat_idem [simp]: "float_nat (float_nat n) = float_nat n"
proof -
  have "float_frac (float_nat n, 1) = float_frac (n, 1)"
    by (rule float_frac_exact) (simp_all add: float_frac_ok float_frac_nat [unfolded One_nat_def])
  then show ?thesis using float_frac_nat [of n] float_frac_nat [of "float_nat n"] by simp
qed

lemma float_nat_zero: "float_nat n = 0 \<Longrightarrow> n = 0"
  by (rule float_nat_eq_small) simp_all

lemma float_text_reads: "float_nat (float_text n) = float_nat n"
  by (simp add: float_text_def shortest_from_reads)

lemma float_text_zero: "float_text n = 0 \<Longrightarrow> n = 0"
  using float_text_reads [of n] float_nat_zero [of n] by simp

lemma float_text_idem [simp]: "float_text (float_text n) = float_text n"
  using float_text_reads [of n] by (simp add: float_text_def)

text \<open>The integers among the values.\<close>

lemma val_integer:
  assumes "0 < snd r" "ratio r = real k"
  shows "snd r dvd fst r" "fst r div snd r = k"
proof -
  have "real (fst r) = real (k * snd r)" using assms by (simp add: ratio_def field_simps)
  then have "fst r = k * snd r" by (simp only: of_nat_eq_iff)
  then show "snd r dvd fst r" "fst r div snd r = k" using assms(1) by simp_all
qed

lemma overflows_iff:
  assumes "float_ok x"
  shows "overflows x \<longleftrightarrow> 2 ^ 1024 \<le> ratio (float_val x)"
proof (cases "971 < snd x")
  case True
  then have "(2 :: real) ^ 52 \<le> real (fst x)" using assms by (auto simp: float_ok_def)
  then have "(2 :: real) ^ 52 * 2 powi 972 \<le> real (fst x) * 2 powi snd x"
    using two_powi_mono [of 972 "snd x"] True by (intro mult_mono) simp_all
  then show ?thesis using True by (simp add: overflows_def ratio_float_val flip: power_add)
next
  case False
  have "real (fst x) * 2 powi snd x < 2 ^ 53 * 2 powi snd x"
    using assms by (intro mult_strict_right_mono) (simp_all add: float_ok_def)
  also have "\<dots> \<le> 2 ^ 53 * 2 powi 971" using False by (intro mult_left_mono two_powi_mono) simp_all
  finally show ?thesis using False by (simp add: overflows_def ratio_float_val flip: power_add)
qed


section \<open>What is printed\<close>

lemma decimal_at_reads: "decimal_at x k = Some c \<Longrightarrow> float_frac (decimal_val (c, k)) = x"
  by (auto simp: decimal_at_def Let_def split: if_splits)

lemma decimal_from_reads: "float_ok x \<Longrightarrow> float_frac (decimal_val (decimal_from n k x)) = x"
proof (induction n arbitrary: k)
  case 0
  have "(5 :: real) ^ j * (1 / 10) ^ j = (1 / 2) ^ j" for j by (simp flip: power_mult_distrib)
  then have "ratio (decimal_val (decimal_from 0 k x)) = ratio (float_val x)"
    by (simp add: ratio_float_val ratio_decimal_val power_int_def)
  then show ?case using 0 by (intro float_frac_exact) simp_all
next
  case (Suc n)
  then show ?case by (auto split: option.split dest: decimal_at_reads)
qed

lemma shortest_decimal_reads: "float_ok x \<Longrightarrow> float_frac (decimal_val (shortest_decimal x)) = x"
  by (simp add: shortest_decimal_def decimal_from_reads)

text \<open>An integer through an any, in every notation.\<close>

lemma num_through_any_integer:
  assumes "0 < snd r" "ratio (float_val (float_frac r)) = real (float_nat n)" "n < 2 ^ 65"
  shows "num_through_any neg r = Some (integer_json neg (float_text n))"
proof -
  let ?x = "float_frac r"
  have le: "float_nat n < 2 ^ 66" using float_nat_le [of n] assms(3) by simp
  then have "real (float_nat n) < real (2 ^ 66)" by (simp only: of_nat_less_iff)
  also have "real (2 ^ 66) = 2 ^ 66" by simp
  also have "(2 :: real) ^ 66 \<le> 2 ^ 1024" by (rule power_increasing) simp_all
  finally have "\<not> overflows ?x" using overflows_iff [OF float_frac_ok [OF assms(1)]] assms(2) by simp
  moreover have "float_nat n < 10 ^ 21" using le by simp
  ultimately show ?thesis
    using val_integer [OF val_pos(1) assms(2)]
    by (simp add: num_through_any_def float_json_def float_text_def Let_def)
qed

lemma num_through_any_nat: "n < 2 ^ 65 \<Longrightarrow> num_through_any neg (n, 1) = Some (integer_json neg (float_text n))"
  by (rule num_through_any_integer [OF _ float_frac_nat]) simp_all

lemma num_through_any_small:
  assumes "0 < snd r" "ratio r = real n" "n < 2 ^ 53"
  shows "num_through_any neg r = Some (integer_json neg n)"
proof -
  obtain y where y: "float_ok y" "ratio (float_val y) = real n" using assms(3) by (rule float_of_small)
  have "float_frac r = y" by (rule float_frac_exact) (simp_all add: assms y)
  then show ?thesis using num_through_any_integer [of r n neg] assms y(2) by simp
qed

end
