(* ===== verification/WireProofs.thy ===== *)
theory WireProofs
  imports Wire Float64Proofs "HOL-Library.Multiset"
begin

text \<open>
  What a message is after its way over the wire: exactly what was sent when its numbers are below
  \<open>2 ^ 53\<close>, and the block with its numbers rounded otherwise.
\<close>


section \<open>Values through an any\<close>

definition signed_text :: "int \<Rightarrow> int" where
  "signed_text i = (if i < 0 then - int (float_text (nat \<bar>i\<bar>)) else int (float_text (nat \<bar>i\<bar>)))"

lemma signed_text_small [simp]: "\<bar>i\<bar> < 2 ^ 53 \<Longrightarrow> signed_text i = i"
  by (simp add: signed_text_def nat_less_iff)

lemma signed_text_idem [simp]: "signed_text (signed_text i) = signed_text i"
proof (cases "i < 0")
  case True
  then have "0 < int (float_text (nat \<bar>i\<bar>))" using float_text_zero [of "nat \<bar>i\<bar>"] by linarith
  then show ?thesis using True by (simp only: signed_text_def if_True neg_less_0_iff_less abs_minus abs_of_nat nat_int float_text_idem)
next
  case False
  then show ?thesis by (simp only: signed_text_def if_False of_nat_less_0_iff abs_of_nat nat_int float_text_idem)
qed

lemma through_any_number:
  assumes "\<bar>i\<bar> \<le> 2 ^ 64"
  shows "through_any (JNum i) = Some (JNum (signed_text i))"
proof -
  have "nat \<bar>i\<bar> < 2 ^ 65" using assms by (simp add: nat_less_iff)
  then have "through_any (JNum i) = Some (integer_json (i < 0) (float_text (nat \<bar>i\<bar>)))"
    by (simp only: through_any.simps num_through_any_nat)
  moreover have "float_text (nat \<bar>i\<bar>) \<noteq> 0" if "i < 0" using float_text_zero [of "nat \<bar>i\<bar>"] that by linarith
  ultimately show ?thesis by (cases "i < 0") (simp_all only: integer_json_def signed_text_def simp_thms if_True if_False)
qed

lemma through_any_small: "\<bar>i\<bar> < 2 ^ 53 \<Longrightarrow> through_any (JNum i) = Some (JNum i)"
  using through_any_number [of i] by (simp del: through_any.simps)

text \<open>A whole number arrives as itself in whatever notation a peer writes it.\<close>

lemma through_any_decimal:
  assumes "real m * 10 powi e = real n" "n < 2 ^ 53"
  shows "through_any (JDec neg m e) = Some (integer_json neg n)"
  using num_through_any_small [of "decimal_val (m, e)" n neg] assms by (simp add: ratio_decimal_val)

lemma through_any_hash [simp]: "through_any (enc_hash h) = Some (enc_hash h)"
  by (simp add: enc_hash_def)

lemma through_any_byte: "through_any (JNum (uint (b :: byte))) = Some (JNum (uint b))"
proof -
  have "uint b < 2 ^ 8" using unsigned_less [of b, where ?'a = int] by simp
  then show ?thesis by (intro through_any_small) simp
qed

lemma through_any_target [simp]: "through_any (enc_target t) = Some (enc_target t)"
proof -
  have "those (map through_any (map (\<lambda>b. JNum (uint b)) t)) = Some (map (\<lambda>b. JNum (uint b)) t)"
    unfolding map_map by (rule those_map_Some) (simp only: comp_def through_any_byte, simp)
  then show ?thesis by (simp only: enc_target_def through_any.simps option.map)
qed

lemma through_any_strings [simp]: "through_any (JArr (map JStr xs)) = Some (JArr (map JStr xs))"
proof -
  have "those (map through_any (map JStr xs)) = Some (map JStr xs)"
    unfolding map_map by (rule those_map_Some) simp
  then show ?thesis by (simp only: through_any.simps option.map)
qed


section \<open>Objects through an any\<close>

text \<open>The object the detour leaves when the keys differ: the sorted one.\<close>

lemma sort_key_unique:
  assumes "distinct (map fst xs)" "sorted (map fst ys)" "mset ys = mset xs"
  shows "sort_key fst xs = ys"
proof (rule sort_key_inj_key_eq)
  show "mset xs = mset ys" by (simp add: assms(3))
  show "inj_on fst (set xs)" using assms(1) by (simp add: distinct_map)
  show "sorted (map fst ys)" by (rule assms(2))
qed

lemma through_any_object:
  assumes "those (map (\<lambda>(k, v). through_any v) ms) = Some vs" "distinct (map fst ms)"
    and "sorted (map fst ys)" "mset ys = mset (zip (map fst ms) vs)"
  shows "through_any (JObj ms) = Some (JObj ys)"
proof -
  have len: "length ms = length vs"
  proof -
    have "those xs = Some ws \<Longrightarrow> length xs = length ws" for xs :: "json option list" and ws
      by (induction xs arbitrary: ws) (auto split: option.splits)
    from this [OF assms(1)] show ?thesis by simp
  qed
  let ?zs = "rev (zip (map fst ms) vs)"
  have d: "distinct (map fst ?zs)" using assms(2) len by (simp add: rev_map [symmetric])
  then have "AList.clearjunk ?zs = ?zs" by (rule distinct_clearjunk_id)
  moreover have "sort_key fst ?zs = ys" by (rule sort_key_unique [OF d assms(3)]) (simp add: assms(4))
  ultimately show ?thesis using assms(1) by simp
qed

lemma through_any_u32: "through_any (JNum (uint (w :: u32))) = Some (JNum (uint w))"
proof -
  have "uint w < 2 ^ 32" using unsigned_less [of w, where ?'a = int] by simp
  then show ?thesis by (intro through_any_small) simp
qed

lemma through_any_u64: "through_any (JNum (uint (w :: u64))) = Some (JNum (signed_text (uint w)))"
  using unsigned_less [of w, where ?'a = int] by (intro through_any_number) simp

lemma through_any_i64: "through_any (JNum (sint (w :: i64w))) = Some (JNum (signed_text (sint w)))"
  using sint_ge [of w] sint_lt [of w] by (intro through_any_number) simp

definition wire_header_json :: "block_header \<Rightarrow> json" where
  "wire_header_json h = JObj [
     (''algorithm_version'', JNum (uint (hAlgorithmVersion h))),
     (''dag_size_bytes'', JNum (signed_text (uint (hDAGSizeBytes h)))),
     (''epoch_seed'', enc_hash (hEpochSeed h)), (''height'', JNum (signed_text (uint (hHeight h)))),
     (''nonce'', JNum (signed_text (uint (hNonce h)))), (''parent_hash'', enc_hash (hParentHash h)),
     (''state_root'', enc_hash (hStateRoot h)), (''target'', enc_target (hTarget h)),
     (''timestamp'', JNum (signed_text (sint (hTimestamp h)))), (''tx_root'', enc_hash (hTxRoot h)),
     (''version'', JNum (uint (hVersion h)))]"

lemma through_any_header: "through_any (enc_header h) = Some (wire_header_json h)"
  unfolding enc_header_def wire_header_json_def
proof (rule through_any_object)
  show "those (map (\<lambda>(k, v). through_any v) [
     (''version'', JNum (uint (hVersion h))), (''algorithm_version'', JNum (uint (hAlgorithmVersion h))),
     (''height'', JNum (uint (hHeight h))), (''parent_hash'', enc_hash (hParentHash h)),
     (''timestamp'', JNum (sint (hTimestamp h))), (''target'', enc_target (hTarget h)),
     (''nonce'', JNum (uint (hNonce h))), (''epoch_seed'', enc_hash (hEpochSeed h)),
     (''dag_size_bytes'', JNum (uint (hDAGSizeBytes h))), (''tx_root'', enc_hash (hTxRoot h)),
     (''state_root'', enc_hash (hStateRoot h))]) = Some [JNum (uint (hVersion h)), JNum (uint (hAlgorithmVersion h)),
     JNum (signed_text (uint (hHeight h))), enc_hash (hParentHash h), JNum (signed_text (sint (hTimestamp h))),
     enc_target (hTarget h), JNum (signed_text (uint (hNonce h))), enc_hash (hEpochSeed h),
     JNum (signed_text (uint (hDAGSizeBytes h))), enc_hash (hTxRoot h), enc_hash (hStateRoot h)]"
    by (simp add: through_any_u32 through_any_u64 through_any_i64 del: through_any.simps)
qed simp_all


section \<open>What arrives\<close>

text \<open>A number and a header as they arrive; \<open>None\<close> when a number has been rounded out of its range.\<close>

definition wire_u64 :: "u64 \<Rightarrow> u64 option" where
  "wire_u64 w = dec_uint (JNum (signed_text (uint w))) 0"

definition wire_i64 :: "i64w \<Rightarrow> i64w option" where
  "wire_i64 w = dec_int (JNum (signed_text (sint w))) 0"

definition wire_header :: "block_header \<Rightarrow> block_header option" where
  "wire_header h =
     do {
       d \<leftarrow> wire_u64 (hDAGSizeBytes h);
       k \<leftarrow> wire_u64 (hHeight h);
       n \<leftarrow> wire_u64 (hNonce h);
       t \<leftarrow> wire_i64 (hTimestamp h);
       Some (h\<lparr>hDAGSizeBytes := d, hHeight := k, hNonce := n, hTimestamp := t\<rparr>)
     }"

lemma dec_any_value:
  "dec_uint (JNum i) v = dec_uint (JNum i) (0 :: 'a::len word)" "dec_int (JNum i) t = dec_int (JNum i) 0"
  by (simp_all add: dec_uint_def dec_int_def)

lemma wire_u64_small: "unat w < 2 ^ 53 \<Longrightarrow> wire_u64 w = Some w"
proof -
  assume "unat w < 2 ^ 53"
  then have "int (unat w) < int (2 ^ 53)" by (simp only: of_nat_less_iff)
  then have "uint w < 2 ^ 53" by simp
  then have "signed_text (uint w) = uint w" by simp
  then show ?thesis by (simp add: wire_u64_def)
qed

lemma wire_i64_small: "\<bar>sint t\<bar> < 2 ^ 53 \<Longrightarrow> wire_i64 t = Some t"
  by (simp add: wire_i64_def)

lemma message_keys:
  "list_all plain_key (map fst message_fields @ map fst hello_fields @ map fst status_fields @
     [''timestamp'', ''status'', ''block''])"
  by code_simp

lemmas message_key [simp] = message_keys [unfolded message_fields_def hello_fields_def status_fields_def
    list.map fst_conv append.simps list.pred_inject]

lemma dec_header:
  assumes h: "header_ok h" and v: "length (hTarget v) = 32"
  shows "dec_struct header_fields (wire_header_json h) v = wire_header h"
proof -
  note len = header_okD [OF h]
  have d: "dec_uint (JNum (signed_text (uint w))) x = wire_u64 w" for w x :: u64
    unfolding wire_u64_def by (rule dec_any_value)
  have t: "dec_int (JNum (signed_text (sint w))) x = wire_i64 w" for w x
    unfolding wire_i64_def by (rule dec_any_value)
  show ?thesis
    unfolding dec_struct_def wire_header_json_def json.case
    by (cases "wire_u64 (hDAGSizeBytes h)"; cases "wire_u64 (hHeight h)"; cases "wire_u64 (hNonce h)";
        cases "wire_i64 (hTimestamp h)";
        simp add: dec_member header_fields_def len v wire_header_def d t del: dec_members.simps(2))
qed

definition wire_block :: "block \<Rightarrow> block option" where
  "wire_block b = map_option (\<lambda>h. (repair_block b)\<lparr>Header := h\<rparr>) (wire_header (Header b))"

text \<open>What has crossed a wire once crosses the next one unchanged.\<close>

lemma wire_number_stable:
  "wire_u64 w = Some w' \<Longrightarrow> wire_u64 w' = Some w'" "wire_i64 t = Some t' \<Longrightarrow> wire_i64 t' = Some t'"
proof -
  have s: "sint (word_of_int i :: i64w) = i" if "- (2 ^ 63) \<le> i" "i < 2 ^ 63" for i
    using that signed_take_bit_int_eq_self [of 63 i] by (simp add: sint_sbintrunc')
  show "wire_u64 w = Some w' \<Longrightarrow> wire_u64 w' = Some w'"
    by (auto simp: wire_u64_def dec_uint_def uint_word_of_int split: if_splits)
  show "wire_i64 t = Some t' \<Longrightarrow> wire_i64 t' = Some t'"
    by (auto simp: wire_i64_def dec_int_def s split: if_splits)
qed

lemma wire_block_stable: "wire_block b = Some b' \<Longrightarrow> wire_block b' = Some b'"
  using wire_number_stable
  by (auto simp: wire_block_def wire_header_def repair_block_def split: Option.bind_splits)

definition wire_block_json :: "block \<Rightarrow> json" where
  "wire_block_json b = JObj ((''header'', wire_header_json (Header b)) #
     (if Transactions b = [] then [] else [(''transactions'', JArr (map JStr (Transactions b)))]))"

lemma through_any_single:
  "through_any v = Some w \<Longrightarrow> through_any (JObj [(k, v)]) = Some (JObj [(k, w)])"
  by (rule through_any_object [where vs = "[w]"]) simp_all

lemma through_any_block: "through_any (enc_block b) = Some (wire_block_json b)"
proof (cases "Transactions b = []")
  case True
  then show ?thesis
    by (simp add: enc_block_def wire_block_json_def through_any_single [OF through_any_header] del: through_any.simps)
next
  case False
  have "through_any (JObj [(''header'', enc_header (Header b)), (''transactions'', JArr (map JStr (Transactions b)))]) =
      Some (JObj [(''header'', wire_header_json (Header b)), (''transactions'', JArr (map JStr (Transactions b)))])"
    by (rule through_any_object
          [where vs = "[wire_header_json (Header b), JArr (map JStr (Transactions b))]"])
      (simp_all add: through_any_header del: through_any.simps)
  then show ?thesis using False by (simp add: enc_block_def wire_block_json_def del: through_any.simps)
qed

lemma dec_wire_block:
  assumes "header_ok (Header b)"
  shows "dec_struct block_fields (wire_block_json b) zero_block = map_option (\<lambda>h. b\<lparr>Header := h\<rparr>) (wire_header (Header b))"
proof -
  have v: "length (hTarget (Header zero_block)) = 32"
    by (simp add: zero_block_def zero_header_def zero_hash_def)
  have e: "Transactions zero_block = []" by (simp add: zero_block_def)
  show ?thesis
    unfolding dec_struct_def wire_block_json_def json.case
    using dec_header [OF assms v] e
    by (cases "wire_header (Header b)"; cases "Transactions b = []")
      (simp_all add: dec_member block_fields_def del: dec_members.simps(2))
qed

lemma dec_block:
  "header_ok (Header b) \<Longrightarrow> dec_struct block_fields (wire_block_json (repair_block b)) zero_block = wire_block b"
  using dec_wire_block [of "repair_block b"] by (simp add: wire_block_def repair_block_def)


section \<open>Bytes\<close>

lemma bytes_back [simp]: "bytes_string (string_bytes s) = s"
proof -
  have "char_of (unat (of_char c :: byte)) = c" for c
  proof -
    have "(of_char c :: byte) = of_nat (of_char c)" by (simp add: of_char_def)
    moreover have "(of_char c :: nat) < 256" by (rule char_less)
    ultimately have "unat (of_char c :: byte) = of_char c" by (simp add: unat_of_nat)
    then show ?thesis by simp
  qed
  then show ?thesis by (simp add: bytes_string_def string_bytes_def comp_def)
qed

lemma read_frame: "length body < 2 ^ 32 \<Longrightarrow> read_payload (frame body @ rest) = Some (body, rest)"
proof -
  assume "length body < 2 ^ 32"
  then have "unat (of_nat (length body) :: u32) = length body" by (simp add: unat_of_nat)
  moreover have "get_be (put_be 4 (of_nat (length body) :: u32)) = (of_nat (length body) :: u32)"
    by (rule get_be_put_be) simp
  ultimately show ?thesis by (simp add: read_payload_def frame_def Let_def)
qed

lemma jdepth_message: "jdepth (enc_message m) \<le> 10000"
proof (cases m)
  case (NewBlock b)
  then show ?thesis using jdepth_enc(4) [of b] by (simp add: jdepth_le del: jdepth.simps(1,2))
qed (simp_all add: enc_status_def jdepth_enc)

text \<open>The fields of a message that arrives, before its body is decoded.\<close>

lemma read_message:
  assumes "length (jtext (enc_message m)) < 2 ^ 32"
    and "jrepair (enc_message m) = JObj [(''type'', JStr t), (''body'', v)]" and "through_any v = Some w"
  shows "readMessage (message_bytes m @ rest) = Inr (\<lparr>rm_Type = t, rm_Body = w\<rparr>, rest)"
proof -
  have "read_payload (message_bytes m @ rest) = Some (string_bytes (jtext (enc_message m)), rest)"
    unfolding message_bytes_def by (rule read_frame) (use assms(1) in \<open>simp add: string_bytes_def\<close>)
  then show ?thesis
    by (simp add: readMessage_def jdepth_message assms(2,3) dec_struct_def dec_member message_fields_def
        del: dec_members.simps(2) jtext.simps through_any.simps)
qed


section \<open>Messages\<close>

lemma through_any_hello:
  "through_any (JObj [(''node_id'', JStr a), (''network'', JStr b), (''version'', JStr c), (''listen'', JStr d)]) =
   Some (JObj [(''listen'', JStr d), (''network'', JStr b), (''node_id'', JStr a), (''version'', JStr c)])"
  by (rule through_any_object [where vs = "[JStr a, JStr b, JStr c, JStr d]"]) simp_all

lemma through_any_status:
  "through_any (enc_status s) = Some (JObj [(''best_hash'', enc_hash (ps_BestHash s)),
     (''best_height'', JNum (signed_text (uint (ps_BestHeight s)))),
     (''connected_at'', JNum (signed_text (sint (ps_ConnectedAt s)))),
     (''peer_id'', JStr (ps_PeerID s)), (''total_work'', JStr (ps_TotalWork s))])"
  unfolding enc_status_def
  by (rule through_any_object [where vs = "[JStr (ps_PeerID s), enc_hash (ps_BestHash s),
       JNum (signed_text (uint (ps_BestHeight s))), JStr (ps_TotalWork s),
       JNum (signed_text (sint (ps_ConnectedAt s)))]"])
    (simp_all add: through_any_u64 through_any_i64 del: through_any.simps(1))

lemma dec_hello:
  "dec_struct hello_fields (JObj [(''listen'', JStr d), (''network'', JStr b), (''node_id'', JStr a),
     (''version'', JStr c)]) v = Some \<lparr>he_NodeID = a, he_Network = b, he_Version = c, he_Listen = d\<rparr>"
  by (simp add: dec_struct_def dec_member hello_fields_def del: dec_members.simps(2))

lemma dec_status:
  assumes "length (ps_BestHash s) = 32" "unat (ps_BestHeight s) < 2 ^ 53" "\<bar>sint (ps_ConnectedAt s)\<bar> < 2 ^ 53"
  shows "dec_struct status_fields (JObj [(''best_hash'', enc_hash (ps_BestHash s)),
     (''best_height'', JNum (signed_text (uint (ps_BestHeight s)))),
     (''connected_at'', JNum (signed_text (sint (ps_ConnectedAt s)))),
     (''peer_id'', JStr (ps_PeerID s)), (''total_work'', JStr (ps_TotalWork s))]) v = Some s"
proof -
  have "dec_uint (JNum (signed_text (uint (ps_BestHeight s)))) x = Some (ps_BestHeight s)" for x
    using wire_u64_small [OF assms(2)] by (simp add: wire_u64_def dec_any_value(1) [of _ x])
  moreover have "dec_int (JNum (signed_text (sint (ps_ConnectedAt s)))) x = Some (ps_ConnectedAt s)" for x
    using wire_i64_small [OF assms(3)] by (simp add: wire_i64_def dec_any_value(2) [of _ x])
  ultimately show ?thesis
    using assms(1) by (simp add: dec_struct_def dec_member status_fields_def del: dec_members.simps(2))
qed

lemma dec_time:
  assumes "\<bar>sint t\<bar> < 2 ^ 53"
  shows "through_any (JObj [(''timestamp'', JNum (sint t))]) = Some (JObj [(''timestamp'', JNum (sint t))])"
    "dec_struct [(''timestamp'', dec_int)] (JObj [(''timestamp'', JNum (sint t))]) v = Some t"
proof -
  show "through_any (JObj [(''timestamp'', JNum (sint t))]) = Some (JObj [(''timestamp'', JNum (sint t))])"
    using through_any_i64 [of t] signed_text_small [OF assms]
    by (intro through_any_single) (simp del: through_any.simps)
  show "dec_struct [(''timestamp'', dec_int)] (JObj [(''timestamp'', JNum (sint t))]) v = Some t"
    by (simp add: dec_struct_def dec_member del: dec_members.simps(2))
qed

text \<open>Where a message has an integer a peer may write the number in any notation, as \<open>1e3\<close> or \<open>15.0\<close>:
  the detour makes it an integer.  The same text decoded at once, as from a file, is an error.\<close>

lemma ping_any_notation:
  assumes "json_text (JObj [(''type'', JStr ''ping''), (''body'', JObj [(''timestamp'', JDec neg m e)])]) s"
    and "length s < 2 ^ 32" and "real m * 10 powi e = real n" "0 < n" "n < 2 ^ 53"
  shows "\<exists>raw. readMessage (frame (string_bytes s) @ rest) = Inr (raw, rest) \<and>
      decode_body raw = Inr (Ping (word_of_int (if neg then - int n else int n)))"
    and "dec_int (JDec neg m e) t = None"
proof -
  let ?i = "if neg then - int n else int n"
  let ?raw = "\<lparr>rm_Type = ''ping'', rm_Body = JObj [(''timestamp'', JNum ?i)]\<rparr>"
  have "through_any (JDec neg m e) = Some (JNum ?i)"
    using through_any_decimal [OF assms(3,5), of neg] assms(4) by (simp only: integer_json_def) simp
  then have any: "through_any (JObj [(''timestamp'', JDec neg m e)]) = Some (rm_Body ?raw)"
    by (simp only: raw_message.simps through_any_single)
  have parse: "json_parse s = Some (JObj [(''type'', JStr ''ping''), (''body'', JObj [(''timestamp'', JDec neg m e)])])"
    by (rule json_parse_read [OF assms(1)]) simp
  have "read_payload (frame (string_bytes s) @ rest) = Some (string_bytes s, rest)"
    by (rule read_frame) (use assms(2) in \<open>simp add: string_bytes_def\<close>)
  then have "readMessage (frame (string_bytes s) @ rest) = Inr (?raw, rest)"
    by (simp add: readMessage_def parse any dec_struct_def dec_member message_fields_def
        del: dec_members.simps(2) through_any.simps)
  moreover have "dec_int (JNum ?i) v = Some (word_of_int ?i)" for v using assms(5) by (simp add: dec_int_def)
  then have "decode_body ?raw = Inr (Ping (word_of_int ?i))"
    by (simp add: decode_body_def dec_struct_def dec_member del: dec_members.simps(2))
  ultimately show "\<exists>raw. readMessage (frame (string_bytes s) @ rest) = Inr (raw, rest) \<and>
      decode_body raw = Inr (Ping (word_of_int ?i))" by blast
qed (simp add: dec_int_def)

text \<open>The messages whose text is UTF-8 and whose numbers a \<open>float64\<close> holds.\<close>

definition valid_hello :: "hello \<Rightarrow> bool" where
  "valid_hello h \<longleftrightarrow> utf8_ok (he_NodeID h) \<and> utf8_ok (he_Network h) \<and> utf8_ok (he_Version h) \<and> utf8_ok (he_Listen h)"

fun exact_message :: "message_body \<Rightarrow> bool" where
  "exact_message (Hello h) \<longleftrightarrow> valid_hello h"
| "exact_message (Status s) \<longleftrightarrow> utf8_ok (ps_PeerID s) \<and> utf8_ok (ps_TotalWork s) \<and> length (ps_BestHash s) = 32 \<and> unat (ps_BestHeight s) < 2 ^ 53 \<and>
     \<bar>sint (ps_ConnectedAt s)\<bar> < 2 ^ 53"
| "exact_message (Ping t) \<longleftrightarrow> \<bar>sint t\<bar> < 2 ^ 53"
| "exact_message (Pong t) \<longleftrightarrow> \<bar>sint t\<bar> < 2 ^ 53"
| "exact_message (NewBlock b) \<longleftrightarrow> header_ok (Header b) \<and> list_all utf8_ok (Transactions b) \<and> unat (hHeight (Header b)) < 2 ^ 53 \<and>
     unat (hNonce (Header b)) < 2 ^ 53 \<and> unat (hDAGSizeBytes (Header b)) < 2 ^ 53 \<and>
     \<bar>sint (hTimestamp (Header b))\<bar> < 2 ^ 53"

lemma jrepair_exact: "exact_message m \<Longrightarrow> jrepair (enc_message m) = enc_message m"
  by (cases m) (simp_all add: valid_hello_def enc_status_def repair_utf8 repair_block_def list_all_iff map_idI)

lemma repair_block_id: "list_all utf8_ok (Transactions b) \<Longrightarrow> repair_block b = b"
  by (simp add: repair_block_def list_all_iff repair_utf8 map_idI)

lemma wire_block_exact: "exact_message (NewBlock b) \<Longrightarrow> wire_block b = Some b"
  by (simp add: wire_block_def wire_header_def wire_u64_small wire_i64_small repair_block_id)

lemma block_arrives:
  assumes h: "header_ok (Header b)" and len: "length (jtext (enc_message (NewBlock b))) < 2 ^ 32"
  shows "\<exists>raw. readMessage (message_bytes (NewBlock b) @ rest) = Inr (raw, rest) \<and>
    decode_body raw = (case wire_block b of None \<Rightarrow> Inl BadBody | Some b' \<Rightarrow> Inr (NewBlock b'))"
proof -
  let ?raw = "\<lparr>rm_Type = ''newblock'', rm_Body = JObj [(''block'', wire_block_json (repair_block b))]\<rparr>"
  have "readMessage (message_bytes (NewBlock b) @ rest) = Inr (?raw, rest)"
    by (rule read_message [OF len _ through_any_single [OF through_any_block]]) simp
  moreover have "decode_body ?raw = (case wire_block b of None \<Rightarrow> Inl BadBody | Some b' \<Rightarrow> Inr (NewBlock b'))"
    using dec_block [OF h]
    by (simp add: decode_body_def Let_def dec_struct_def [of "[(''block'', dec_struct block_fields)]"] dec_member
        del: dec_members.simps(2) split: option.split)
  ultimately show ?thesis by blast
qed

lemma message_arrives:
  assumes exact: "exact_message m" and len: "length (jtext (enc_message m)) < 2 ^ 32"
  shows "\<exists>raw. readMessage (message_bytes m @ rest) = Inr (raw, rest) \<and> decode_body raw = Inr m"
proof (cases m)
  case (Hello h)
  show ?thesis
    using read_message [OF len [unfolded Hello] trans [OF jrepair_exact [OF exact [unfolded Hello]] enc_message.simps(1)] through_any_hello, of rest]
    by (simp add: Hello decode_body_def dec_hello)
next
  case (Status s)
  show ?thesis
    using read_message [OF len [unfolded Status] trans [OF jrepair_exact [OF exact [unfolded Status]] enc_message.simps(2)] through_any_single [OF through_any_status], of rest]
      dec_status [of s] exact
    by (simp add: Status decode_body_def Let_def dec_struct_def [of "[(''status'', dec_struct status_fields)]"]
        dec_member del: dec_members.simps(2))
next
  case (Ping t)
  show ?thesis
    using read_message [OF len [unfolded Ping] trans [OF jrepair_exact [OF exact [unfolded Ping]] enc_message.simps(3)] dec_time(1), of rest] exact dec_time(2) [of t]
    by (simp add: Ping decode_body_def)
next
  case (Pong t)
  show ?thesis
    using read_message [OF len [unfolded Pong] trans [OF jrepair_exact [OF exact [unfolded Pong]] enc_message.simps(4)] dec_time(1), of rest] exact dec_time(2) [of t]
    by (simp add: Pong decode_body_def)
next
  case (NewBlock b)
  have "header_ok (Header b)" "wire_block b = Some b" using exact wire_block_exact by (simp_all add: NewBlock)
  then show ?thesis using block_arrives [of b rest] len by (simp add: NewBlock del: enc_message.simps)
qed

end
