(* ===== verification/NodeSamples.thy ===== *)
theory NodeSamples
  imports Node
begin

text \<open>
  A concrete run for the worked examples: a node whose chain is the block of \<open>Samples\<close> mines the next
  block.  The roots and the hash of that block are evaluated by the kernel from \<open>sha256\<close>, one
  compression step per lemma.
\<close>


section \<open>The next block\<close>

definition next_state_root :: hash where
  "next_state_root = [3, 225, 227, 142, 140, 236, 104, 127, 224, 118, 17, 114, 83, 159, 212, 63, 111, 18, 22, 245, 4, 180, 59, 16, 205, 107, 146, 154, 77, 72, 50, 78]"

definition root_state1 :: "u32 list" where
  "root_state1 = [1469666998, 3497990138, 3960447083, 1462807697, 831093635, 3586431370, 2122908799, 3084675127]"

lemma root_step1: "sha_block sha_init (take 16 (words_be (sha_pad (string_bytes (hash_String sample_hash))))) = root_state1"
  by code_simp

lemma root_step2:
  "concat (map (put_be 4) (sha_block root_state1
     (take 16 (drop 16 (words_be (sha_pad (string_bytes (hash_String sample_hash)))))))) = next_state_root"
  by code_simp

lemma next_state_root: "sha256 (string_bytes (hash_String sample_hash)) = next_state_root"
proof -
  define ws where "ws = words_be (sha_pad (string_bytes (hash_String sample_hash)))"
  have "length ws div 16 = 2" unfolding ws_def by code_simp
  moreover have "sha_block sha_init (take 16 ws) = root_state1"
    "concat (map (put_be 4) (sha_block root_state1 (take 16 (drop 16 ws)))) = next_state_root"
    unfolding ws_def by (rule root_step1, rule root_step2)
  ultimately show ?thesis
    unfolding sha256_def Let_def ws_def [symmetric] by (simp add: numeral_2_eq_2)
qed

definition next_tx_root :: hash where
  "next_tx_root = [151, 99, 68, 212, 131, 223, 63, 209, 242, 207, 68, 156, 39, 223, 5, 49, 4, 219, 206, 104, 121, 51, 198, 183, 13, 131, 51, 70, 206, 171, 27, 52]"

lemma next_tx_root: "sha256 (string_bytes (''height:'' @ FormatUint 1)) = next_tx_root"
proof -
  have "digit_char 1 = CHR ''1''" by code_simp
  then have "FormatUint 1 = ''1''" by (simp add: FormatUint_def digits.simps)
  then have "''height:'' @ FormatUint 1 = ''height:1''" by simp
  moreover have "sha256 (string_bytes ''height:1'') = next_tx_root" by code_simp
  ultimately show ?thesis by (simp only:)
qed

definition next_block :: block where
  "next_block = \<lparr>Header = \<lparr>hVersion = 1, hAlgorithmVersion = 1, hHeight = 1, hParentHash = sample_hash,
     hTimestamp = 101, hTarget = replicate 32 255, hNonce = 0, hEpochSeed = sample_seed,
     hDAGSizeBytes = 64, hTxRoot = next_tx_root, hStateRoot = next_state_root\<rparr>, Transactions = []\<rparr>"

definition next_words :: "u32 list" where
  "next_words = [1, 1, 0, 1, 1989014409, 3883617547, 3012341235, 175982214, 1488947080, 914528271, 126330357, 1365621958, 0, 101, 4294967295, 4294967295, 4294967295, 4294967295, 4294967295, 4294967295, 4294967295, 4294967295, 136838405, 1143820921, 2742837280, 2116133089, 361054846, 3957279530, 171302610, 981260781, 0, 64, 2539865300, 2212446161, 4073669788, 668927281, 81514088, 2033436343, 226702150, 3467320116, 65135502, 2364303487, 3765834098, 1402983487, 1863456501, 78920464, 3446379162, 1296577102, 0, 0, 2147483648, 0, 0, 0, 0, 0, 0, 0, 0, 0, 0, 0, 0, 1600]"

definition next_state1 :: "u32 list" where
  "next_state1 = [1041502954, 333988579, 3073578523, 2043964768, 1071129636, 1938743809, 4193877299, 1073298905]"

definition next_state2 :: "u32 list" where
  "next_state2 = [3132554585, 3648917632, 385673253, 3890141189, 3020566237, 3640924135, 2176805327, 4278407579]"

definition next_state3 :: "u32 list" where
  "next_state3 = [1562678853, 1902703637, 797982774, 3384275794, 752831672, 3992818452, 3929105356, 3182046415]"

definition next_state4 :: "u32 list" where
  "next_state4 = [4119098211, 1917137661, 1821216378, 78490777, 555292809, 839556816, 2450955127, 1470234968]"

lemma next_padded: "words_be (sha_pad (Encode (Header next_block))) = next_words"
  by code_simp

lemma next_step1: "sha_block sha_init (take 16 (drop 0 next_words)) = next_state1"
  by code_simp

lemma next_step2: "sha_block next_state1 (take 16 (drop 16 next_words)) = next_state2"
  by code_simp

lemma next_step3: "sha_block next_state2 (take 16 (drop 32 next_words)) = next_state3"
  by code_simp

lemma next_step4: "sha_block next_state3 (take 16 (drop 48 next_words)) = next_state4"
  by code_simp

definition next_hash :: hash where
  "next_hash = [245, 132, 115, 99, 114, 69, 50, 253, 108, 141, 142, 122, 4, 173, 172, 153, 33, 25, 24, 137, 50, 10, 158, 208, 146, 22, 155, 119, 87, 162, 1, 88]"

lemma next_hash: "BlockHash next_block = next_hash"
proof -
  have "sha_blocks 4 sha_init next_words = next_state4"
    using next_step1 next_step2 next_step3 next_step4
    by (simp add: eval_nat_numeral(3) numeral_eq_Suc(1))
  moreover have "concat (map (put_be 4) next_state4) = next_hash" by code_simp
  moreover have "length next_words div 16 = 4" by code_simp
  ultimately show ?thesis by (simp add: BlockHash_def HeaderHash_def sha256_def next_padded)
qed

lemma next_hash_new: "next_hash \<noteq> zero_hash" "next_hash \<noteq> sample_hash"
  by code_simp+

text \<open>A second block on the same parent: the same header with the next nonce, which only the last step of
  its hash reads.\<close>

definition sibling_block :: block where
  "sibling_block = next_block\<lparr>Header := (Header next_block)\<lparr>hNonce := 1\<rparr>\<rparr>"

definition sibling_words :: "u32 list" where
  "sibling_words = next_words[49 := 1]"

definition sibling_hash :: hash where
  "sibling_hash = [97, 207, 182, 126, 110, 144, 216, 95, 67, 105, 194, 20, 181, 174, 215, 213, 64, 95, 242, 198, 151, 80, 226, 228, 158, 23, 158, 129, 23, 219, 222, 193]"

lemma sibling_padded: "words_be (sha_pad (Encode (Header sibling_block))) = sibling_words"
  by code_simp

lemma sibling_step4:
  "concat (map (put_be 4) (sha_block next_state3 (take 16 (drop 48 sibling_words)))) = sibling_hash"
  by code_simp

lemma sibling_hash: "BlockHash sibling_block = sibling_hash"
proof -
  have same: "take 16 (drop k sibling_words) = take 16 (drop k next_words)" if "k + 16 \<le> 48" for k
    using that by (simp add: sibling_words_def drop_update_swap)
  have "sha_block sha_init (take 16 (drop 0 sibling_words)) = next_state1"
    "sha_block next_state1 (take 16 (drop 16 sibling_words)) = next_state2"
    "sha_block next_state2 (take 16 (drop 32 sibling_words)) = next_state3"
    using next_step1 next_step2 next_step3 same [of 0] same [of 16] same [of 32] by simp_all
  then have "sha_blocks 4 sha_init sibling_words = sha_block next_state3 (take 16 (drop 48 sibling_words))"
    by (simp add: eval_nat_numeral(3) numeral_eq_Suc(1))
  moreover have "length sibling_words div 16 = 4" by code_simp
  ultimately show ?thesis using sibling_step4 by (simp add: BlockHash_def HeaderHash_def sha256_def sibling_padded)
qed

text \<open>It is the better of the two: the work is the same and the text of its hash is smaller.\<close>

lemma sibling_hash_new:
  "sibling_hash \<noteq> zero_hash" "sibling_hash \<noteq> sample_hash" "sibling_hash \<noteq> next_hash"
  "hash_String sibling_hash < hash_String next_hash"
  by code_simp+

end
