(* ===== verification/NodeProofs.thy ===== *)
theory NodeProofs
  imports NodeSamples "HOL-Library.Sublist"
begin

text \<open>
  What a running node keeps: a chain that is a tree of valid links with its best block as tip, work
  that never decreases, and a miner whose blocks its own validator accepts.
\<close>


section \<open>Insertion into the in-memory store\<close>

text \<open>After validation, the in-memory store accepts every block.\<close>

lemma memory_insert_total:
  assumes s: "memory_ok s" and nz: "BlockHash b \<noteq> zero_hash" and cp: "check_parent memory_ops s (Header b) = None"
  shows "\<exists>r s'. insert_validated memory_ops s b = (Inr r, s')"
proof -
  let ?h = "BlockHash b" and ?w = "block_total_work (memory_chain s) b"
  have lk: "linked (memory_chain s) b" by (rule memory.check_parent_linked [OF s cp])
  have tw: "(if hHeight (Header b) > 0
      then (case so_TotalWork memory_ops s (hParentHash (Header b)) of
              Inl e \<Rightarrow> Inl e | Inr w \<Rightarrow> Inr (CalcBlockWork (hTarget (Header b)) + w))
      else Inr (CalcBlockWork (hTarget (Header b)))) = Inr ?w"
    using lk s by (auto simp: linked_def block_total_work_def memory.TotalWork word_gt_0)
  obtain s1 where st: "so_StoreBlock memory_ops s b ?w = (None, s1)"
    by (simp add: memory_ops_def Memory_StoreBlock_def Let_def)
  have s1: "memory_ok s1" "memory_chain s1 = chain_store_block (memory_chain s) b ?w"
    using memory.StoreBlock [OF s nz st] by simp_all
  have "ch_blocks (memory_chain s1) ?h = Some (b, ?w)" by (simp add: s1 chain_store_block_def)
  then have "map_of (ms_blocks s1) ?h \<noteq> None" by (auto simp: memory_chain_def split: option.splits)
  then obtain s2 where st2: "so_SetCurrentTip memory_ops s1 ?h = (None, s2)"
    by (auto simp: memory_ops_def Memory_SetCurrentTip_def)
  show ?thesis
  proof (cases "so_HasBlock memory_ops s ?h")
    case True
    then obtain x where "ch_blocks (memory_chain s) ?h = Some x" using s by (auto simp: memory.HasBlock)
    then show ?thesis using True s by (cases x) (force simp: insert_validated_def Let_def memory.TotalWork)
  next
    case False
    then show ?thesis
      unfolding insert_validated_def Let_def tw by (auto simp: st st2 split: sum.split)
  qed
qed

text \<open>Whatever \<open>InsertBlock\<close> answers, the chain is the old one or the old one with the block inserted.\<close>

definition inserted_or_same :: "chain \<Rightarrow> block \<Rightarrow> chain \<Rightarrow> bool" where
  "inserted_or_same c b c' \<longleftrightarrow> c' = c \<or> linked c b \<and> c' = chain_insert c b"

definition cpu_validator :: "hashlib \<Rightarrow> validator \<Rightarrow> bool" where
  "cpu_validator L v \<longleftrightarrow> validator_ok L v \<and> v_backend v = CPUBackend L"

lemma memory_InsertBlock:
  assumes s: "memory_ok s" "chain_inv (memory_chain s)" and nz: "BlockHash b \<noteq> zero_hash"
    and v: "cpu_validator L v" and h: "header_ok (Header b)"
    and ins: "InsertBlock L numCPU now memory_ops v s b = Some (r, v', s')"
  shows "memory_ok s' \<and> chain_inv (memory_chain s') \<and> cpu_validator L v' \<and> v_config v' = v_config v \<and>
    inserted_or_same (memory_chain s) b (memory_chain s')"
proof -
  have v': "validator_ok L v" "v_backend v = CPUBackend L" using v by (simp_all add: cpu_validator_def)
  obtain e v1 where V: "ValidateHeader L numCPU now memory_ops v s (Header b) = Some (e, v1)"
    "validator_ok L v1" "v_backend v1 = CPUBackend L" "v_config v1 = v_config v"
    using ValidateHeader_exact [OF v' h, of numCPU now memory_ops s] by blast
  show ?thesis
  proof (cases e)
    case (Some x)
    then show ?thesis
      using ins V s by (simp add: InsertBlock_def ValidateBlock_def cpu_validator_def inserted_or_same_def)
  next
    case None
    have cp: "check_parent memory_ops s (Header b) = None"
      by (rule ValidateHeader_parent [OF V(1) [unfolded None]])
    obtain w t s2 where i: "insert_validated memory_ops s b = (Inr (w, t), s2)"
      using memory_insert_total [OF s(1) nz cp] by auto
    have "s2 = s'" "v1 = v'" using ins V(1) None i by (simp_all add: InsertBlock_def ValidateBlock_def)
    then show ?thesis
      using memory.insert_inv [OF s nz cp i] memory.check_parent_linked [OF s(1) cp] V
      unfolding cpu_validator_def inserted_or_same_def by blast
  qed
qed


section \<open>Work never decreases\<close>

definition tip_work :: "chain \<Rightarrow> int" where
  "tip_work c = (case ch_tip c of None \<Rightarrow> 0 | Some t \<Rightarrow> snd (the (ch_blocks c t)))"

lemma CalcBlockWork_nonneg: "0 \<le> CalcBlockWork t"
  by (simp add: CalcBlockWork_def Let_def pos_imp_zdiv_nonneg_iff)

lemma block_total_work_nonneg:
  "tree_ok c \<Longrightarrow> linked c b \<Longrightarrow> 0 \<le> block_total_work c b"
proof (induction "unat (hHeight (Header b))" arbitrary: b rule: less_induct)
  case less
  show ?case
  proof (cases "hHeight (Header b) = 0")
    case True
    then show ?thesis by (simp add: block_total_work_def CalcBlockWork_nonneg)
  next
    case False
    then obtain p w where p: "ch_blocks c (hParentHash (Header b)) = Some (p, w)"
      "hHeight (Header p) + 1 = hHeight (Header b)" using less.prems by (auto simp: linked_def)
    have "unat (hHeight (Header p)) < unat (hHeight (Header b))"
    proof -
      have "hHeight (Header p) = hHeight (Header b) - 1" using p(2) by (metis add_diff_cancel_right')
      moreover have "unat (hHeight (Header b) - 1) < unat (hHeight (Header b))"
        using False by (simp add: unat_minus_one unat_gt_0)
      ultimately show ?thesis by simp
    qed
    moreover have "linked c p" "w = block_total_work c p"
      using less.prems(1) p(1) by (auto simp: tree_ok_def)
    ultimately have "0 \<le> w" using less.hyps less.prems(1) by blast
    then show ?thesis by (simp add: block_total_work_def p(1) CalcBlockWork_nonneg)
  qed
qed

lemma tip_work_insert:
  assumes c: "chain_inv c" and lk: "linked c b"
  shows "tip_work c \<le> tip_work (chain_insert c b)"
proof (cases "ch_blocks c (BlockHash b)")
  case (Some x)
  then show ?thesis by (simp add: chain_insert_def)
next
  case None
  have nn: "0 \<le> block_total_work c b"
    using c lk block_total_work_nonneg by (simp add: chain_inv_def)
  show ?thesis
  proof (cases "ch_tip c")
    case no_tip: None
    then show ?thesis using None nn by (simp add: tip_work_def chain_insert_def Let_def)
  next
    case (Some t)
    then have "ch_blocks c t \<noteq> None" using c by (auto simp: chain_inv_def chain_ok_def)
    then show ?thesis
      using Some None by (auto simp: tip_work_def chain_insert_def Let_def better_iff)
  qed
qed

lemma tip_work_mono: "chain_inv c \<Longrightarrow> inserted_or_same c b c' \<Longrightarrow> tip_work c \<le> tip_work c'"
  using tip_work_insert by (auto simp: inserted_or_same_def)



section \<open>Sealing, mining and blocks from peers\<close>

lemma SealBlock_shared:
  assumes "SealBlock L numCPU v b maxN r v'"
  shows "\<exists>d. sharedMiningDAGForHeader L numCPU v (Header b) = Some (d, v')"
  using assms by cases blast+

lemma SealBlock_block:
  assumes "SealBlock L numCPU v b maxN (Inr (b', res)) v'"
  shows "\<exists>n. b' = b\<lparr>Header := (Header b)\<lparr>hNonce := n\<rparr>\<rparr>"
  using assms by cases blast

lemma shared_fields:
  assumes "sharedMiningDAGForHeader L numCPU v h = Some (d, v')"
  shows "v_allocator v' = v_allocator v" "v_miningAllocator v' = v_miningAllocator v"
    "v_miningBackend v' = v_miningBackend v" "v_backend v' = v_backend v" "v_config v' = v_config v"
  using assms by (auto simp: sharedMiningDAGForHeader_def split: Option.bind_splits)

lemma SealBlock_keeps:
  assumes seal: "SealBlock L numCPU v b maxN r v'" and v: "cpu_validator L v" and h: "header_ok (Header b)"
    and sz: "nodes_of (sized (ccSpec (v_config v)) (hDAGSizeBytes (Header b))) \<noteq> 0"
  shows "cpu_validator L v' \<and> v_config v' = v_config v \<and> MiningBackend v' = MiningBackend v \<and>
    validation_allocator v' = validation_allocator v"
proof -
  obtain d where d: "sharedMiningDAGForHeader L numCPU v (Header b) = Some (d, v')"
    using SealBlock_shared [OF seal] by blast
  have ok: "validator_ok L v" using v by (simp add: cpu_validator_def)
  have "validator_ok L v'"
    using sharedDAG [OF ok header_okD(3) [OF h] sz, of numCPU] d by (auto simp: dag_delivered_def)
  then show ?thesis
    using v by (simp only: cpu_validator_def MiningBackend_def validation_allocator_def
        canValidationReuseMiningDAG_def miningAllocatorOrDefault_def shared_fields [OF d] simp_thms)
qed

text \<open>A node with the reference backend and its own chain's rules; in particular one whose in-memory store
  holds a good chain.\<close>

definition node_base :: "hashlib \<Rightarrow> 's node \<Rightarrow> bool" where
  "node_base L n \<longleftrightarrow> cpu_validator L (nd_validator n) \<and> v_config (nd_validator n) = nc_Chain (nd_cfg n) \<and>
     length (gcBits (nc_Genesis (nd_cfg n))) = 32"

definition node_ok :: "hashlib \<Rightarrow> memory_store node \<Rightarrow> bool" where
  "node_ok L n \<longleftrightarrow> memory_ok (nd_store n) \<and> chain_inv (memory_chain (nd_store n)) \<and> node_base L n"

lemmas node_ok_defs = node_ok_def node_base_def

lemma node_ok_base: "node_ok L n \<Longrightarrow> node_base L n"
  by (simp add: node_ok_def)

lemma node_baseD:
  assumes "node_base L n"
  shows "cpu_validator L (nd_validator n)"
    "v_config (nd_validator n) = nc_Chain (nd_cfg n)" "length (gcBits (nc_Genesis (nd_cfg n))) = 32"
    "Validate (ccSpec (nc_Chain (nd_cfg n))) = None" "InitialDAGSizeBytes (ccSpec (nc_Chain (nd_cfg n))) \<noteq> 0"
  using assms validator_okD(1,2) [of L "nd_validator n"] by (auto simp: node_base_def cpu_validator_def)

lemma node_okD:
  assumes "node_ok L n"
  shows "memory_ok (nd_store n)" "chain_inv (memory_chain (nd_store n))" "cpu_validator L (nd_validator n)"
    "v_config (nd_validator n) = nc_Chain (nd_cfg n)" "length (gcBits (nc_Genesis (nd_cfg n))) = 32"
    "Validate (ccSpec (nc_Chain (nd_cfg n))) = None" "InitialDAGSizeBytes (ccSpec (nc_Chain (nd_cfg n))) \<noteq> 0"
  using assms node_baseD [of L n] by (auto simp: node_ok_def)

lemma next_header_ready:
  assumes n: "node_base L n" and h: "next_header (nd_cfg n) now tip = Some h"
  shows "header_ok h" and "nodes_of (sized (ccSpec (nc_Chain (nd_cfg n))) (hDAGSizeBytes h)) \<noteq> 0"
  using next_header_exists [OF node_baseD(4,5) [OF n], of now tip] h node_baseD(3) [OF n]
    size_has_nodes [OF node_baseD(4) [OF n]] by auto

lemma mineNextBlock_base:
  assumes m: "mineNextBlock L numCPU ops now n r n'" and n: "node_base L n"
  shows "node_base L n' \<and> nd_store n' = nd_store n \<and> nd_cfg n' = nd_cfg n \<and>
    MiningBackend (nd_validator n') = MiningBackend (nd_validator n) \<and>
    validation_allocator (nd_validator n') = validation_allocator (nd_validator n) \<and>
    (\<forall>b res. r = Inr (b, res) \<longrightarrow> header_ok (Header b))"
  using m
proof cases
  case (no_tip e)
  then show ?thesis using n by simp
next
  case (seal_fails tip w h e v')
  have "cpu_validator L v' \<and> v_config v' = v_config (nd_validator n) \<and>
      MiningBackend v' = MiningBackend (nd_validator n) \<and>
      validation_allocator v' = validation_allocator (nd_validator n)"
    by (rule SealBlock_keeps [OF seal_fails(5) node_baseD(1) [OF n]])
      (simp_all add: node_baseD(2) [OF n] next_header_ready [OF n seal_fails(4)])
  then show ?thesis using n seal_fails by (simp add: node_base_def)
next
  case (mined tip w h b res v')
  have "cpu_validator L v' \<and> v_config v' = v_config (nd_validator n) \<and>
      MiningBackend v' = MiningBackend (nd_validator n) \<and>
      validation_allocator v' = validation_allocator (nd_validator n)"
    by (rule SealBlock_keeps [OF mined(5) node_baseD(1) [OF n]])
      (simp_all add: node_baseD(2) [OF n] next_header_ready [OF n mined(4)])
  moreover have "header_ok (Header b)"
    using SealBlock_block [OF mined(5)] next_header_ready(1) [OF n mined(4)]
    by (auto simp: header_ok_def)
  ultimately show ?thesis using n mined by (simp add: node_base_def)
qed

lemma mineNextBlock_keeps:
  assumes m: "mineNextBlock L numCPU memory_ops now n r n'" and n: "node_ok L n"
  shows "node_ok L n' \<and> nd_store n' = nd_store n \<and> nd_cfg n' = nd_cfg n \<and>
    MiningBackend (nd_validator n') = MiningBackend (nd_validator n) \<and>
    validation_allocator (nd_validator n') = validation_allocator (nd_validator n) \<and>
    (\<forall>b res. r = Inr (b, res) \<longrightarrow> header_ok (Header b))"
  using mineNextBlock_base [OF m] n by (simp add: node_ok_def)

lemma node_step_keeps:
  assumes st: "node_step L numCPU memory_ops n l n'" and n: "node_ok L n"
    and nz: "\<forall>b. l = Some b \<longrightarrow> BlockHash b \<noteq> zero_hash"
  shows "node_ok L n' \<and> (case l of None \<Rightarrow> nd_store n' = nd_store n
    | Some b \<Rightarrow> inserted_or_same (memory_chain (nd_store n)) b (memory_chain (nd_store n')))"
  using st
proof cases
  case (mine_fails now e)
  then show ?thesis using mineNextBlock_keeps [OF mine_fails(2) n] by simp
next
  case (mine now b res n1 now' r v' s')
  have n1: "node_ok L n1" "nd_store n1 = nd_store n" "nd_cfg n1 = nd_cfg n" "header_ok (Header b)"
    using mineNextBlock_keeps [OF mine(3) n] by simp_all
  have "memory_ok s' \<and> chain_inv (memory_chain s') \<and> cpu_validator L v' \<and>
      v_config v' = v_config (nd_validator n1) \<and>
      inserted_or_same (memory_chain (nd_store n1)) b (memory_chain s')"
    using memory_InsertBlock [OF node_okD(1,2) [OF n1(1)] _ node_okD(3) [OF n1(1)] n1(4) mine(4)] nz mine(1)
    by simp
  then show ?thesis using n1 mine by (simp add: node_ok_defs)
next
  case (peer b now announce)
  show ?thesis
  proof (cases "n' = n")
    case True
    then show ?thesis using n peer(1) by (simp add: inserted_or_same_def)
  next
    case False
    then obtain r v' s' where i: "InsertBlock L numCPU now memory_ops (nd_validator n) (nd_store n) b = Some (r, v', s')"
      "n' = n\<lparr>nd_validator := v', nd_store := s'\<rparr>"
      using peer(3) by (auto simp: onNewBlock_def Let_def split: if_splits Option.bind_splits sum.splits)
    have "memory_ok s' \<and> chain_inv (memory_chain s') \<and> cpu_validator L v' \<and>
        v_config v' = v_config (nd_validator n) \<and>
        inserted_or_same (memory_chain (nd_store n)) b (memory_chain s')"
      using memory_InsertBlock [OF node_okD(1,2) [OF n] _ node_okD(3) [OF n] peer(2) i(1)] nz peer(1)
      by simp
    then show ?thesis using n peer(1) i(2) by (simp add: node_ok_defs)
  qed
qed

lemma node_run_keeps:
  assumes "node_run L numCPU memory_ops n bs n'" and n: "node_ok L n"
    and "\<forall>b \<in> set bs. BlockHash b \<noteq> zero_hash"
  shows "node_ok L n' \<and>
    tip_work (memory_chain (nd_store n)) \<le> tip_work (memory_chain (nd_store n')) \<and>
    (\<exists>acc. subseq acc bs \<and> memory_chain (nd_store n') = foldl chain_insert (memory_chain (nd_store n)) acc)"
  using assms(1,3)
proof (induction rule: node_run.induct)
  case start
  then show ?case using n by auto
next
  case (idle bs n1 n')
  then show ?case using node_step_keeps [OF idle.hyps(2)] by auto
next
  case (block bs n1 b n')
  then obtain acc where 1: "node_ok L n1" "subseq acc bs"
    "memory_chain (nd_store n1) = foldl chain_insert (memory_chain (nd_store n)) acc"
    "tip_work (memory_chain (nd_store n)) \<le> tip_work (memory_chain (nd_store n1))" by auto
  have 2: "node_ok L n'" "inserted_or_same (memory_chain (nd_store n1)) b (memory_chain (nd_store n'))"
    using node_step_keeps [OF block.hyps(2) 1(1)] block.prems by simp_all
  have "tip_work (memory_chain (nd_store n1)) \<le> tip_work (memory_chain (nd_store n'))"
    by (rule tip_work_mono [OF node_okD(2) [OF 1(1)] 2(2)])
  moreover have "\<exists>acc. subseq acc (bs @ [b]) \<and>
      memory_chain (nd_store n') = foldl chain_insert (memory_chain (nd_store n)) acc"
  proof (cases "memory_chain (nd_store n') = memory_chain (nd_store n1)")
    case True
    then show ?thesis using 1(2,3) by (intro exI [of _ acc]) (simp add: subseq_rev_drop_many)
  next
    case False
    then show ?thesis using 1(2,3) 2(2) by (intro exI [of _ "acc @ [b]"]) (simp add: inserted_or_same_def)
  qed
  ultimately show ?case using 1(4) 2(1) by simp
qed


section \<open>The node's own blocks\<close>

lemma chain_insert_child:
  assumes c: "chain_inv c" and t: "ch_tip c = Some t" "ch_blocks c t = Some (tip, w)"
    and new: "ch_blocks c (BlockHash b) = None"
    and b: "hParentHash (Header b) = t" "hHeight (Header b) \<noteq> 0" "1 \<le> CalcBlockWork (hTarget (Header b))"
  shows "ch_tip (chain_insert c b) = Some (BlockHash b) \<and>
    ch_blocks (chain_insert c b) (BlockHash b) = Some (b, w + CalcBlockWork (hTarget (Header b)))"
  using assms by (auto simp: chain_insert_def Let_def block_total_work_def better_iff word_gt_0)

lemma own_header_rules:
  assumes n: "node_ok L n" and tip: "Memory_CurrentTip (nd_store n) = Inr (tip, w)"
    and h: "next_header (nd_cfg n) now tip = Some h"
    and pow: "stateless_pow L (ccSpec (nc_Chain (nd_cfg n))) (h\<lparr>hNonce := x\<rparr>)"
    and wrap: "hHeight (Header tip) + 1 \<noteq> 0" "sint (hTimestamp (Header tip)) < 2 ^ 63 - 1"
    and bits: "be_val (gcBits (nc_Genesis (nd_cfg n))) \<noteq> 0"
    and clock: "sint (hTimestamp h) \<le> sint (now' + 2 * 60 * 60)"
  shows "header_rules L now' (ccSpec (nc_Chain (nd_cfg n))) memory_ops (nd_store n) (h\<lparr>hNonce := x\<rparr>)"
proof -
  note h' = next_header_exists [OF node_okD(6,7) [OF n], of now tip, unfolded h]
  have cur: "so_CurrentTip memory_ops (nd_store n) = Inr (tip, w)" using tip by (simp add: memory_ops_def)
  have "ch_blocks (memory_chain (nd_store n)) (BlockHash tip) = Some (tip, w)"
    using memory.tip_block [OF node_okD(1) [OF n] cur] by blast
  then have "so_GetHeader memory_ops (nd_store n) (BlockHash tip) = Inr (Header tip)"
    by (simp add: memory.GetHeader [OF node_okD(1) [OF n]])
  then have "check_parent memory_ops (nd_store n) (h\<lparr>hNonce := x\<rparr>) = None"
    using h' wrap next_timestamp_later [OF wrap(2), of now] by (simp add: check_parent_def)
  moreover have "hAlgorithmVersion h = AlgorithmVersion (ccSpec (nc_Chain (nd_cfg n)))"
    "DAGSizeForHeight (ccSpec (nc_Chain (nd_cfg n))) (hHeight h) = Some (hDAGSizeBytes h)"
    "EpochSeedForHeight (ccSpec (nc_Chain (nd_cfg n))) (hHeight h) = Some (hEpochSeed h)"
    "hTarget h = gcBits (nc_Genesis (nd_cfg n))" using h' by blast+
  ultimately show ?thesis using pow bits clock by (simp add: header_rules_def check_parent_iff)
qed


section \<open>A node to try things on\<close>

definition sample_store :: memory_store where
  "sample_store = \<lparr>ms_genesisHash = sample_hash, ms_currentTip = sample_hash,
     ms_blocks = [(sample_hash, sample_block)], ms_heights = [(0, sample_hash)],
     ms_totalWork = [(sample_hash, CalcBlockWork (replicate 32 255))]\<rparr>"

definition sample_node :: "memory_store node" where
  "sample_node = \<lparr>nd_cfg = \<lparr>nc_Chain = sample_config, nc_Genesis = sample_genesis\<lparr>gcBits := replicate 32 255\<rparr>,
       nc_Mine = True, nc_MaxNonces = 1, nc_NodeID = ''node''\<rparr>,
     nd_store = sample_store, nd_validator = sample_validator\<rparr>"

lemma sample_node_fields [simp]:
  "nc_Chain (nd_cfg sample_node) = sample_config" "gcBits (nc_Genesis (nd_cfg sample_node)) = replicate 32 255"
  "nc_MaxNonces (nd_cfg sample_node) = 1" "nd_store sample_node = sample_store"
  "nd_validator sample_node = sample_validator"
  by (simp_all add: sample_node_def)

lemma sample_store_ok: "memory_ok sample_store" "chain_inv (memory_chain sample_store)"
proof -
  have nz: "sample_hash \<noteq> zero_hash" using sample_hash_nonzero by (simp add: sample_hash)
  then show "memory_ok sample_store" by (simp add: memory_ok_def sample_store_def sample_hash)
  have c: "memory_chain sample_store = \<lparr>ch_blocks = [sample_hash \<mapsto> (sample_block, CalcBlockWork (replicate 32 255))],
      ch_tip = Some sample_hash\<rparr>"
    using nz by (auto simp: memory_chain_def sample_store_def fun_eq_iff)
  have "hHeight (Header sample_block) = 0" "hTarget (Header sample_block) = replicate 32 255"
    by (simp_all add: sample_block_def sample_header_def)
  then show "chain_inv (memory_chain sample_store)"
    using nz by (auto simp: c chain_inv_def chain_ok_def tree_ok_def best_tip_def linked_def
        block_total_work_def sample_hash)
qed

lemma sample_node_ok: "node_ok sample_lib sample_node"
  using sample_store_ok sample_validator_ok by (simp add: node_ok_defs cpu_validator_def)

lemma sample_node_tip:
  "Memory_CurrentTip (nd_store sample_node) = Inr (sample_block, CalcBlockWork (replicate 32 255))"
  using sample_hash_nonzero by (simp add: Memory_CurrentTip_def sample_store_def sample_hash)

lemma sample_node_mining: "MiningBackend (nd_validator sample_node) = CPUBackend sample_lib"
  by (simp add: MiningBackend_def sample_validator_def)

lemma sample_next_header: "next_header (nd_cfg sample_node) 100 sample_block = Some (Header next_block)"
proof -
  have sz: "DAGSizeForHeight tiny_spec 1 = Some 64" "ResolvedForHeight tiny_spec 1 = Some tiny_spec"
    by (simp_all add: ResolvedForHeight_def DAGSizeForHeight_def DAGSizeForEpoch_def initialDAGSize_def)
  have "DAGSizeForHeight tiny_spec 0 = Some 64"
    by (simp add: DAGSizeForHeight_def DAGSizeForEpoch_def initialDAGSize_def)
  then have seed: "EpochSeedForHeight tiny_spec 1 = Some sample_seed"
    using sample_seed sz(1) by (simp add: EpochSeedForHeight_def)
  have "hHeight (Header sample_block) = 0" "hTimestamp (Header sample_block) = 100"
    by (simp_all add: sample_block_def sample_header_def)
  then show ?thesis
    using next_tx_root next_state_root
    by (simp add: next_header_def Let_def sz seed next_block_def sample_hash max_i64_def)
qed

text \<open>The sample node mines \<open>next_block\<close>.\<close>

lemma sample_mine:
  "\<exists>res n'. mineNextBlock sample_lib 4 memory_ops 100 sample_node (Inr (next_block, res)) n'"
proof -
  let ?b = "\<lparr>Header = Header next_block, Transactions = []\<rparr>" and ?v = sample_validator
  note ready = next_header_ready [OF node_ok_base [OF sample_node_ok] sample_next_header]
  obtain b' res v' where seal: "SealBlock sample_lib 4 ?v ?b 1 (Inr (b', res)) v'"
    using seal_easy [OF sample_validator_ok, of ?b 1 4] ready sample_node_mining sample_allocators(2)
    by (auto simp: in_range_def next_block_def)
  have r: "hNonce (Header b') < 1"
    using SealBlock_sound [OF seal sample_validator_ok] ready sample_node_mining by simp
  obtain x where "b' = ?b\<lparr>Header := (Header ?b)\<lparr>hNonce := x\<rparr>\<rparr>" using SealBlock_block [OF seal] by blast
  then have "b' = next_block" using r by (simp add: next_block_def)
  moreover have "so_CurrentTip memory_ops (nd_store sample_node) = Inr (sample_block, CalcBlockWork (replicate 32 255))"
    using sample_node_tip by (simp add: memory_ops_def)
  ultimately show ?thesis using mined [OF _ sample_next_header] seal by fastforce
qed


section \<open>The genesis block\<close>

lemma genesis_header:
  assumes n: "node_base L n" and same: "gcSpec (nc_Genesis (nd_cfg n)) = ccSpec (nc_Chain (nd_cfg n))"
    and g: "NewGenesisBlock (nc_Genesis (nd_cfg n)) = Some g"
  shows "header_ok (Header g)" "hHeight (Header g) = 0" "hTarget (Header g) = gcBits (nc_Genesis (nd_cfg n))"
    "nodes_of (sized (ccSpec (v_config (nd_validator n))) (hDAGSizeBytes (Header g))) \<noteq> 0"
proof -
  have v: "Validate (gcSpec (nc_Genesis (nd_cfg n))) = None" using node_baseD(4) [OF n] same by simp
  obtain g' sz where g': "NewGenesisBlock (nc_Genesis (nd_cfg n)) = Some g'"
    "DAGSizeForHeight (gcSpec (nc_Genesis (nd_cfg n))) 0 = Some sz" "hHeight (Header g') = 0"
    "hDAGSizeBytes (Header g') = sz" "header_ok (Header g')"
    using genesis_parameters [OF v] node_baseD(3) [OF n] by blast
  then have "g' = g" using g by simp
  then show "header_ok (Header g)" "hHeight (Header g) = 0" using g' by simp_all
  show "nodes_of (sized (ccSpec (v_config (nd_validator n))) (hDAGSizeBytes (Header g))) \<noteq> 0"
    using size_has_nodes [OF v g'(2)] g'(4) \<open>g' = g\<close> same node_baseD(2) [OF n] by simp
  show "hTarget (Header g) = gcBits (nc_Genesis (nd_cfg n))"
    using g by (auto simp: NewGenesisBlock_def split: option.splits)
qed

lemma first_block_chain:
  assumes s: "memory_ok s" "chain_inv (memory_chain s)" "ch_tip (memory_chain s) = None"
    and b: "hHeight (Header b) = 0" "BlockHash b \<noteq> zero_hash"
    and st: "so_StoreBlock memory_ops s b (CalcBlockWork (hTarget (Header b))) = (e, s1)"
      "so_SetCurrentTip memory_ops s1 (BlockHash b) = (e', s2)"
  shows "memory_ok s2 \<and> chain_inv (memory_chain s2) \<and>
    Memory_CurrentTip s2 = Inr (b, CalcBlockWork (hTarget (Header b)))"
proof -
  have empty: "ch_blocks (memory_chain s) = Map.empty" using s(2,3) by (simp add: chain_inv_def best_tip_def)
  have s1: "memory_ok s1" "memory_chain s1 = chain_store_block (memory_chain s) b (CalcBlockWork (hTarget (Header b)))"
    using memory.StoreBlock [OF s(1) b(2) st(1)] by simp_all
  then have in1: "ch_blocks (memory_chain s1) = [BlockHash b \<mapsto> (b, CalcBlockWork (hTarget (Header b)))]"
    by (simp add: chain_store_block_def empty)
  then have s2: "memory_ok s2" "memory_chain s2 = (memory_chain s1)\<lparr>ch_tip := Some (BlockHash b)\<rparr>"
    using memory.SetCurrentTip [OF s1(1) st(2)] by simp_all
  have "chain_inv (memory_chain s2)"
    using b by (auto simp: s2(2) in1 chain_inv_def chain_ok_def tree_ok_def best_tip_def linked_def block_total_work_def)
  moreover have "Memory_CurrentTip s2 = Inr (b, CalcBlockWork (hTarget (Header b)))"
    using memory.CurrentTip [OF s2(1)] by (simp add: s2(2) in1 memory_ops_def)
  ultimately show ?thesis using s2(1) by simp
qed

text \<open>The in-memory store takes the genesis block.\<close>

lemma memory_store_genesis:
  "\<exists>s1 s2. so_StoreBlock memory_ops s b w = (None, s1) \<and> so_SetCurrentTip memory_ops s1 (BlockHash b) = (None, s2)"
  by (simp add: memory_ops_def Memory_StoreBlock_def Memory_SetCurrentTip_def Let_def update_conv)


section \<open>Properties\<close>





text \<open>Creating the genesis block: on an empty chain whose genesis and chain parameters agree,
  \<open>InitGenesis\<close> either fails and leaves the store alone, or returns a block of height zero with the
  genesis target whose proof of work the stateless verifier accepts; unless its hash is zero, that
  block is then the tip with its own work, and the node keeps its invariant.\<close>

theorem init_genesis_correct:
  assumes n: "node_ok L n" and cpu: "MiningBackend (nd_validator n) = CPUBackend L"
    and same: "gcSpec (nc_Genesis (nd_cfg n)) = ccSpec (nc_Chain (nd_cfg n))"
    and empty: "Memory_CurrentTip (nd_store n) = Inl e0"
    and init: "InitGenesis L numCPU memory_ops n r n'"
  shows "case r of
      Inl e \<Rightarrow> nd_store n' = nd_store n
    | Inr b \<Rightarrow> hHeight (Header b) = 0 \<and> hTarget (Header b) = gcBits (nc_Genesis (nd_cfg n)) \<and>
        stateless_pow L (ccSpec (nc_Chain (nd_cfg n))) (Header b) \<and>
        (BlockHash b = zero_hash \<or> node_ok L n' \<and>
           Memory_CurrentTip (nd_store n') = Inr (b, CalcBlockWork (hTarget (Header b))))"
  using init
proof cases
  case (existing tip w)
  then show ?thesis using empty by (simp add: memory_ops_def)
next
  case (seal_fails e1 genesis e v')
  then show ?thesis by simp
next
  case (store_fails e1 genesis b res v' e s')
  then show ?thesis using memory_store_genesis [of "nd_store n" b "CalcBlockWork (hTarget (Header b))"] by auto
next
  case (tip_fails e1 genesis b res v' s' e s'')
  then show ?thesis using memory_store_genesis [of "nd_store n" b "CalcBlockWork (hTarget (Header b))"] by auto
next
  case (created e1 genesis b res v' s' s'')
  note g = genesis_header [OF node_ok_base [OF n] same created(4)]
  have v: "validator_ok L (nd_validator n)" using node_okD(3) [OF n] by (simp add: cpu_validator_def)
  obtain x where b: "Header b = (Header genesis)\<lparr>hNonce := x\<rparr>" using SealBlock_block [OF created(5)] by auto
  have "stateless_pow L (ccSpec (v_config (nd_validator n))) (Header b)"
    by (rule conjunct1 [OF conjunct2 [OF SealBlock_sound [OF created(5) v cpu g(1,4)]]])
  then have pow: "stateless_pow L (ccSpec (nc_Chain (nd_cfg n))) (Header b)" by (simp only: node_okD(4) [OF n])
  have tip: "ch_tip (memory_chain (nd_store n)) = None"
    using empty memory.CurrentTip [OF node_okD(1) [OF n]] by (auto simp: memory_ops_def split: option.splits)
  have v': "cpu_validator L v'" "v_config v' = v_config (nd_validator n)"
    using SealBlock_keeps [OF created(5) node_okD(3) [OF n] g(1,4)] by simp_all
  have "node_ok L n' \<and> Memory_CurrentTip (nd_store n') = Inr (b, CalcBlockWork (hTarget (Header b)))"
    if "BlockHash b \<noteq> zero_hash"
    using first_block_chain [OF node_okD(1,2) [OF n] tip _ that created(6,7)] g(2) b v' n created(2)
    by (simp add: node_ok_defs)
  then show ?thesis using created(1) pow b g(2,3) by auto
qed

definition fresh_node :: "memory_store node" where
  "fresh_node = sample_node\<lparr>nd_store := NewMemoryStore\<rparr>"

theorem init_genesis_correct_witness:
  "\<exists>b n'. InitGenesis sample_lib 4 memory_ops fresh_node (Inr b) n' \<and> hHeight (Header b) = 0 \<and>
     stateless_pow sample_lib tiny_spec (Header b)"
proof -
  have ok: "node_ok sample_lib fresh_node"
    using sample_node_ok memory_new_ok empty_chain_inv by (simp add: node_ok_defs fresh_node_def)
  have same: "gcSpec (nc_Genesis (nd_cfg fresh_node)) = ccSpec (nc_Chain (nd_cfg fresh_node))"
    by (simp add: fresh_node_def sample_node_def sample_genesis_def)
  have tip: "Memory_CurrentTip (nd_store fresh_node) = Inl ErrBlockNotFound"
    by (simp add: fresh_node_def NewMemoryStore_def Memory_CurrentTip_def)
  have mb: "MiningBackend (nd_validator fresh_node) = CPUBackend sample_lib"
    using sample_node_mining by (simp add: fresh_node_def)
  obtain g where g: "NewGenesisBlock (nc_Genesis (nd_cfg fresh_node)) = Some g"
    using genesis_parameters [of "nc_Genesis (nd_cfg fresh_node)"] same node_okD(6) [OF ok] by auto
  note gh = genesis_header [OF node_ok_base [OF ok] same g]
  have "nc_MaxNonces (nd_cfg fresh_node) = 1" "nd_validator fresh_node = sample_validator"
    "hTarget (Header g) = replicate 32 255"
    using gh(3) by (simp_all add: fresh_node_def)
  then obtain b res v' where seal: "SealBlock sample_lib 4 (nd_validator fresh_node) g
      (nc_MaxNonces (nd_cfg fresh_node)) (Inr (b, res)) v'"
    using seal_easy [OF sample_validator_ok, of g 1 4] mb gh(1,4) sample_allocators(2)
    by (auto simp: in_range_def)
  obtain s1 s2 where st: "so_StoreBlock memory_ops (nd_store fresh_node) b (CalcBlockWork (hTarget (Header b))) = (None, s1)"
    "so_SetCurrentTip memory_ops s1 (BlockHash b) = (None, s2)"
    using memory_store_genesis by blast
  have "so_CurrentTip memory_ops (nd_store fresh_node) = Inl ErrBlockNotFound"
    using tip by (simp add: memory_ops_def)
  from created [OF this g seal st]
  obtain n' where i: "InitGenesis sample_lib 4 memory_ops fresh_node (Inr b) n'" by blast
  from init_genesis_correct [OF ok mb same tip i] i show ?thesis by (auto simp: fresh_node_def)
qed

text \<open>Bootnode lists: \<open>ParseBootnodes\<close> returns non-empty entries without a comma and without blanks at
  either end, in the order of the text; joining such entries with commas and parsing again gives them
  back.\<close>

theorem bootnodes_canonical:
  "(\<forall>p \<in> set (ParseBootnodes raw). p \<noteq> [] \<and> CHR '','' \<notin> set p \<and> TrimSpace p = p) \<and>
   ParseBootnodes (join_char CHR '','' (ParseBootnodes raw)) = ParseBootnodes raw"
proof -
  have p: "p \<noteq> [] \<and> CHR '','' \<notin> set p \<and> TrimSpace p = p" if "p \<in> set (ParseBootnodes raw)" for p
    using that split_char_no_sep TrimSpace_subset TrimSpace_twice by (fastforce simp: ParseBootnodes_def)
  show ?thesis
  proof (cases "ParseBootnodes raw")
    case Nil
    then show ?thesis by (simp add: ParseBootnodes_def TrimSpace_def)
  next
    case (Cons q qs)
    have "split_char CHR '','' (join_char CHR '','' (ParseBootnodes raw)) = ParseBootnodes raw"
      by (rule split_join) (use p Cons in auto)
    moreover have "map TrimSpace (ParseBootnodes raw) = ParseBootnodes raw" using p by (simp add: map_idI)
    moreover have "filter (\<lambda>p. p \<noteq> []) (ParseBootnodes raw) = ParseBootnodes raw" using p by (simp add: filter_id_conv)
    ultimately have "ParseBootnodes (join_char CHR '','' (ParseBootnodes raw)) = ParseBootnodes raw"
      unfolding ParseBootnodes_def [of "join_char CHR '','' (ParseBootnodes raw)"] by (simp only:)
    then show ?thesis using p by blast
  qed
qed

theorem bootnodes_canonical_witness:
  "ParseBootnodes '' a:1,, b:2 ,'' = [''a:1'', ''b:2''] \<and>
   ParseBootnodes (join_char CHR '','' [''a:1'', ''b:2'']) = [''a:1'', ''b:2'']"
proof -
  have "ParseBootnodes '' a:1,, b:2 ,'' = [''a:1'', ''b:2'']" by code_simp
  with bootnodes_canonical [of "'' a:1,, b:2 ,''"] show ?thesis by simp
qed

end
