(* ===== verification/P2P.thy ===== *)
theory P2P
  imports WireProofs NodeProofs
begin

text \<open>
  The peers of a node (\<open>pkg/p2p/peer.go\<close>, \<open>pkg/p2p/transport.go\<close>) and the node's handlers for what they
  send (\<open>pkg/node/node.go\<close>).  A \<open>*Peer\<close> is an index into a heap of peers; a connection is the bytes
  written to it and whether it is open.  A goroutine a handler starts is a task, run at some later
  time.  The accept and dial loops are in the theory \<open>Daemon\<close>.  Sockets, timers and log output are not
  modelled, and a write to an open connection succeeds.
\<close>


section \<open>Peers\<close>

record peer =
  pr_ID :: string
  pr_Addr :: string
  pr_Inbound :: bool
  pr_Hello :: hello
  pr_Status :: peer_status
  pr_sent :: bytes
  pr_open :: bool

type_synonym peer_set = "(string \<times> nat) list"

definition Send :: "message_body \<Rightarrow> peer \<Rightarrow> peer" where
  "Send m p = (if pr_open p then p\<lparr>pr_sent := pr_sent p @ message_bytes m\<rparr> else p)"

definition peerKey :: "peer \<Rightarrow> string" where
  "peerKey p =
     (if pr_ID p \<noteq> [] then pr_ID p
      else pr_Addr p @ ''/'' @ (if pr_Inbound p then ''true'' else ''false''))"

definition PeerSet_Add :: "peer list \<Rightarrow> nat \<Rightarrow> peer_set \<Rightarrow> peer_set" where
  "PeerSet_Add heap i ps = AList.update (peerKey (heap ! i)) i ps"

definition PeerSet_Remove :: "peer list \<Rightarrow> nat \<Rightarrow> peer_set \<Rightarrow> peer_set" where
  "PeerSet_Remove heap i ps = AList.delete (peerKey (heap ! i)) ps"

definition PeerSet_List :: "peer_set \<Rightarrow> nat list" where
  "PeerSet_List ps = map snd ps"

definition on_peer :: "nat \<Rightarrow> (peer \<Rightarrow> peer) \<Rightarrow> peer list \<Rightarrow> peer list" where
  "on_peer i f heap = heap[i := f (heap ! i)]"

definition Broadcast :: "message_body \<Rightarrow> peer_set \<Rightarrow> peer list \<Rightarrow> peer list" where
  "Broadcast m ps heap = foldl (\<lambda>heap i. on_peer i (Send m) heap) heap (PeerSet_List ps)"


section \<open>The server with its node\<close>

record server_config =
  sc_NodeID :: string
  sc_Network :: string
  sc_AdvertiseAddr :: string
  sc_Version :: string

record 's net =
  nt_cfg :: server_config
  nt_node :: "'s node"
  nt_heap :: "peer list"
  nt_peers :: peer_set

datatype task = SendStatus nat | SendPing nat | BroadcastStatus | BroadcastBlock block

text \<open>The configuration \<open>NewServer\<close> keeps, from the node's.\<close>

definition NewServer :: "server_config \<Rightarrow> server_config" where
  "NewServer cfg = (if sc_Version cfg = [] then cfg\<lparr>sc_Version := ''colossusd/0.1''\<rparr> else cfg)"

text \<open>The addresses \<open>Start\<close> dials.\<close>

definition dialled :: "string list \<Rightarrow> string list" where
  "dialled bootnodes = filter (\<lambda>a. a \<noteq> []) (map TrimSpace bootnodes)"

text \<open>The start of \<open>handleConn\<close>: the peer is added, the node's handler starts two goroutines, and the
  greeting is sent.\<close>

definition add_peer :: "string \<Rightarrow> bool \<Rightarrow> 's net \<Rightarrow> 's net \<times> nat \<times> task list" where
  "add_peer addr inbound n =
     (let i = length (nt_heap n);
          p = \<lparr>pr_ID = [], pr_Addr = addr, pr_Inbound = inbound, pr_Hello = zero_hello, pr_Status = zero_status,
               pr_sent = [], pr_open = True\<rparr>;
          heap = nt_heap n @ [p]
      in (n\<lparr>nt_heap := heap, nt_peers := PeerSet_Add heap i (nt_peers n)\<rparr>, i, [SendStatus i, SendPing i]))"

definition greet :: "nat \<Rightarrow> 's net \<Rightarrow> 's net" where
  "greet i n =
     (let greeting = Hello \<lparr>he_NodeID = sc_NodeID (nt_cfg n), he_Network = sc_Network (nt_cfg n),
            he_Version = sc_Version (nt_cfg n), he_Listen = sc_AdvertiseAddr (nt_cfg n)\<rparr>
      in n\<lparr>nt_heap := on_peer i (Send greeting) (nt_heap n)\<rparr>)"

definition handle_connect :: "string \<Rightarrow> bool \<Rightarrow> 's net \<Rightarrow> 's net \<times> nat \<times> task list" where
  "handle_connect addr inbound n = (let (n, i, tasks) = add_peer addr inbound n in (greet i n, i, tasks))"

lemmas handle_connect_defs = handle_connect_def add_peer_def greet_def

text \<open>The end of \<open>handleConn\<close>.\<close>

definition handle_disconnect :: "nat \<Rightarrow> 's net \<Rightarrow> 's net" where
  "handle_disconnect i n =
     n\<lparr>nt_peers := PeerSet_Remove (nt_heap n) i (nt_peers n),
       nt_heap := on_peer i (\<lambda>p. p\<lparr>pr_open := False\<rparr>) (nt_heap n)\<rparr>"

definition onHello :: "hello \<Rightarrow> nat \<Rightarrow> 's net \<Rightarrow> 's net \<times> task list" where
  "onHello msg i n =
     (if he_Network msg \<noteq> ccNetworkID (nc_Chain (nd_cfg (nt_node n)))
      then (n\<lparr>nt_heap := on_peer i (\<lambda>p. p\<lparr>pr_open := False\<rparr>) (nt_heap n)\<rparr>, [])
      else (n, [SendStatus i]))"

text \<open>\<open>dispatch\<close> with the node's handlers, at clock \<open>now\<close>: an error ends the connection; \<open>None\<close> is a
  panic.\<close>

definition dispatch ::
  "hashlib \<Rightarrow> nat \<Rightarrow> 's store_ops \<Rightarrow> i64w \<Rightarrow> nat \<Rightarrow> raw_message \<Rightarrow> 's net \<Rightarrow>
     (p2p_error option \<times> 's net \<times> task list) option"
where
  "dispatch L numCPU ops now i msg n =
     (case decode_body msg of
        Inl e \<Rightarrow> Some (Some e, n, [])
      | Inr (Hello body) \<Rightarrow>
          let n = n\<lparr>nt_heap := on_peer i (\<lambda>p. p\<lparr>pr_ID := he_NodeID body, pr_Hello := body\<rparr>) (nt_heap n)\<rparr>;
              (n, tasks) = onHello body i n
          in Some (None, n, tasks)
      | Inr (Status s) \<Rightarrow> Some (None, n\<lparr>nt_heap := on_peer i (\<lambda>p. p\<lparr>pr_Status := s\<rparr>) (nt_heap n)\<rparr>, [])
      | Inr (Ping t) \<Rightarrow> Some (None, n\<lparr>nt_heap := on_peer i (Send (Pong now)) (nt_heap n)\<rparr>, [])
      | Inr (Pong t) \<Rightarrow> Some (None, n, [])
      | Inr (NewBlock b) \<Rightarrow>
          do {
            (node, announce) \<leftarrow> onNewBlock L numCPU ops now (nt_node n) b;
            Some (None, n\<lparr>nt_node := node\<rparr>, if announce then [BroadcastStatus] else [])
          })"

text \<open>\<open>sendStatus\<close>, the ping of \<open>onPeerConnected\<close>, \<open>broadcastStatus\<close> and \<open>broadcastNewBlock\<close>.\<close>

fun run_task :: "'s store_ops \<Rightarrow> i64w \<Rightarrow> task \<Rightarrow> 's net \<Rightarrow> 's net" where
  "run_task ops now (SendStatus i) n =
     (case localStatus ops now (nt_node n) of
        Inl _ \<Rightarrow> n
      | Inr s \<Rightarrow> n\<lparr>nt_heap := on_peer i (Send (Status s)) (nt_heap n)\<rparr>)"
| "run_task ops now (SendPing i) n = n\<lparr>nt_heap := on_peer i (Send (Ping now)) (nt_heap n)\<rparr>"
| "run_task ops now BroadcastStatus n =
     (case localStatus ops now (nt_node n) of
        Inl _ \<Rightarrow> n
      | Inr s \<Rightarrow> n\<lparr>nt_heap := Broadcast (Status s) (nt_peers n) (nt_heap n)\<rparr>)"
| "run_task ops now (BroadcastBlock b) n =
     n\<lparr>nt_heap := Broadcast (NewBlock b) (nt_peers n) (nt_heap n)\<rparr>"


section \<open>Running\<close>

text \<open>The read loop of one connection, at the clock readings given, on the bytes the connection delivers
  before it ends or the node is stopped: what it did, and the bytes it has not read.  Reading from a
  connection a handler has closed fails.\<close>

fun read_loop ::
  "hashlib \<Rightarrow> nat \<Rightarrow> 's store_ops \<Rightarrow> i64w list \<Rightarrow> nat \<Rightarrow> bytes \<Rightarrow> 's net \<Rightarrow> ('s net \<times> task list \<times> bytes) option"
where
  "read_loop L numCPU ops [] i s n = Some (n, [], s)"
| "read_loop L numCPU ops (now # nows) i s n =
     (if \<not> pr_open (nt_heap n ! i) then Some (n, [], s)
      else case readMessage s of
        Inl _ \<Rightarrow> Some (n, [], s)
      | Inr (msg, s) \<Rightarrow>
          do {
            (e, n, tasks) \<leftarrow> dispatch L numCPU ops now i msg n;
            if e \<noteq> None then Some (n, tasks, s)
            else do {
              (n, more, s) \<leftarrow> read_loop L numCPU ops nows i s n;
              Some (n, tasks @ more, s)
            }
          })"

definition handleConn ::
  "hashlib \<Rightarrow> nat \<Rightarrow> 's store_ops \<Rightarrow> i64w list \<Rightarrow> string \<Rightarrow> bool \<Rightarrow> bytes \<Rightarrow> 's net \<Rightarrow>
     ('s net \<times> task list) option"
where
  "handleConn L numCPU ops nows addr inbound s n =
     (let (n, i, tasks) = handle_connect addr inbound n in
      do {
        (n, more, s) \<leftarrow> read_loop L numCPU ops nows i s n;
        Some (handle_disconnect i n, tasks @ more)
      })"

text \<open>What peers and goroutines do to a node, in any order: a connection starts, delivers a message or
  ends, or a task is run.\<close>

inductive net_step :: "hashlib \<Rightarrow> nat \<Rightarrow> 's store_ops \<Rightarrow> 's net \<Rightarrow> 's net \<Rightarrow> bool"
  for L :: hashlib and numCPU :: nat and ops :: "'s store_ops" and n :: "'s net"
where
  connect: "handle_connect addr inbound n = (n', i, tasks) \<Longrightarrow> net_step L numCPU ops n n'"
| message: "readMessage s = Inr (msg, rest) \<Longrightarrow> dispatch L numCPU ops now i msg n = Some (e, n', tasks) \<Longrightarrow>
    net_step L numCPU ops n n'"
| disconnect: "net_step L numCPU ops n (handle_disconnect i n)"
| task: "net_step L numCPU ops n (run_task ops now t n)"

end
