(* ===== verification/P2PProofs.thy ===== *)
theory P2PProofs
  imports P2P
begin

text \<open>
  What the peer protocol guarantees: messages arrive, no bytes from a peer panic the node or harm its
  chain, and which entries of the peer set a connection leaves behind.
\<close>


section \<open>Every decoded block is well-formed\<close>

text \<open>What every field decoder keeps, decoding a struct keeps.\<close>

definition fields_keep :: "('a \<Rightarrow> bool) \<Rightarrow> 'a fields \<Rightarrow> bool" where
  "fields_keep Q fs \<longleftrightarrow> (\<forall>(k, d) \<in> set fs. \<forall>x v v'. Q v \<longrightarrow> d x v = Some v' \<longrightarrow> Q v')"

lemma dec_members_keep:
  "fields_keep Q fs \<Longrightarrow> Q v \<Longrightarrow> dec_members fs ms v = Some v' \<Longrightarrow> Q v'"
proof (induction ms arbitrary: v)
  case (Cons m ms)
  obtain k x where m: "m = (k, x)" by force
  show ?case
  proof (cases "map_of fs (fold_name k)")
    case None
    then show ?thesis using Cons m by simp
  next
    case (Some d)
    then obtain w where w: "d x v = Some w" "dec_members fs ms w = Some v'"
      using Cons.prems(3) m by (auto split: option.splits)
    have "(fold_name k, d) \<in> set fs" using Some by (rule map_of_SomeD)
    then have "Q w" using Cons.prems(1,2) w(1) by (fastforce simp: fields_keep_def)
    then show ?thesis using Cons.IH Cons.prems(1) w(2) by blast
  qed
qed simp

lemma dec_struct_keep:
  assumes "fields_keep Q fs" "Q v" "dec_struct fs j v = Some v'"
  shows "Q v'"
proof (cases j)
  case (JObj ms)
  then show ?thesis using assms(3) dec_members_keep [OF assms(1,2)] by (simp add: dec_struct_def)
qed (use assms in \<open>simp_all add: dec_struct_def\<close>)

lemma dec_hash_length: "dec_hash j v = Some h \<Longrightarrow> length h = 32"
  by (auto simp: dec_hash_def hash_Unmarshal_def split: json.splits sum.splits if_splits)

lemma those_length: "those xs = Some ys \<Longrightarrow> length ys = length xs"
  by (induction xs arbitrary: ys) (auto split: option.splits)

lemma dec_target_length:
  assumes "dec_target j v = Some t" "length v = 32"
  shows "length t = 32"
proof (cases j)
  case (JArr xs)
  then obtain bs where "those (map (\<lambda>(x, b). dec_uint x b) (zip xs v)) = Some bs"
    "t = bs @ replicate (32 - length bs) 0" using assms(1) by (auto simp: dec_target_def)
  moreover from this(1) have "length bs \<le> 32" using those_length assms(2) by fastforce
  ultimately show ?thesis by simp
qed (use assms in \<open>simp_all add: dec_target_def\<close>)

lemma header_fields_keep: "fields_keep header_ok header_fields"
  unfolding fields_keep_def header_fields_def
  by (auto simp: header_ok_def dest: dec_hash_length dec_target_length)

lemma block_fields_keep: "fields_keep (\<lambda>b. header_ok (Header b)) block_fields"
  unfolding fields_keep_def block_fields_def
  by (auto dest: dec_struct_keep [OF header_fields_keep])

lemma decoded_block_ok:
  assumes "decode_body m = Inr (NewBlock b)"
  shows "header_ok (Header b)"
proof -
  have z: "header_ok (Header zero_block)"
    by (simp add: zero_block_def zero_header_def zero_hash_def header_ok_def)
  have keep: "fields_keep (\<lambda>b. header_ok (Header b)) [(''block'', dec_struct block_fields)]"
    unfolding fields_keep_def using dec_struct_keep [OF block_fields_keep] by auto
  have "dec_struct [(''block'', dec_struct block_fields)] (rm_Body m) zero_block = Some b"
    using assms by (auto simp: decode_body_def Let_def split: if_splits option.splits)
  from dec_struct_keep [OF keep z this] show ?thesis .
qed


section \<open>Peers cannot harm the node\<close>

lemma onNewBlock_total:
  assumes n: "node_ok L n" and b: "header_ok (Header b)"
  shows "\<exists>n' announce. onNewBlock L numCPU memory_ops now n b = Some (n', announce) \<and> node_ok L n' \<and>
    nd_cfg n' = nd_cfg n \<and>
    tip_work (memory_chain (nd_store n)) \<le> tip_work (memory_chain (nd_store n'))"
proof (cases "BlockHash b = zero_hash \<or> so_HasBlock memory_ops (nd_store n) (BlockHash b)")
  case True
  then show ?thesis using n by (auto simp: onNewBlock_def)
next
  case False
  have v: "validator_ok L (nd_validator n)" "v_backend (nd_validator n) = CPUBackend L"
    using node_okD(3) [OF n] by (simp_all add: cpu_validator_def)
  obtain e v' where V: "ValidateHeader L numCPU now memory_ops (nd_validator n) (nd_store n) (Header b) = Some (e, v')"
    using ValidateHeader_exact [OF v b, of numCPU now memory_ops "nd_store n"] by blast
  then obtain r w s where i: "InsertBlock L numCPU now memory_ops (nd_validator n) (nd_store n) b = Some (r, w, s)"
    by (cases e; cases "insert_validated memory_ops (nd_store n) b") (auto simp: InsertBlock_def ValidateBlock_def)
  have keep: "memory_ok s \<and> chain_inv (memory_chain s) \<and> cpu_validator L w \<and>
      v_config w = v_config (nd_validator n) \<and> inserted_or_same (memory_chain (nd_store n)) b (memory_chain s)"
    by (rule memory_InsertBlock [OF node_okD(1,2) [OF n] _ node_okD(3) [OF n] b i]) (use False in simp)
  then have work: "tip_work (memory_chain (nd_store n)) \<le> tip_work (memory_chain s)"
    using tip_work_mono [OF node_okD(2) [OF n]] by blast
  let ?n = "n\<lparr>nd_validator := w, nd_store := s\<rparr>"
  have "node_ok L ?n" using keep n by (simp add: node_ok_defs)
  moreover have "\<exists>a. onNewBlock L numCPU memory_ops now n b = Some (?n, a)"
    using False i by (auto simp: onNewBlock_def Let_def split: sum.split)
  ultimately show ?thesis using work by auto
qed

lemma dispatch_total:
  assumes n: "node_ok L (nt_node n)"
  shows "\<exists>e n' tasks. dispatch L numCPU memory_ops now i msg n = Some (e, n', tasks) \<and>
    node_ok L (nt_node n') \<and> nt_peers n' = nt_peers n \<and> length (nt_heap n') = length (nt_heap n) \<and>
    tip_work (memory_chain (nd_store (nt_node n))) \<le> tip_work (memory_chain (nd_store (nt_node n')))"
proof (cases "decode_body msg")
  case (Inl e)
  then show ?thesis using n by (simp add: dispatch_def)
next
  case (Inr body)
  show ?thesis
  proof (cases body)
    case (NewBlock b)
    have "header_ok (Header b)" by (rule decoded_block_ok [OF Inr [unfolded NewBlock]])
    from onNewBlock_total [OF n this, of numCPU now] show ?thesis
      using Inr NewBlock by (auto simp: dispatch_def)
  qed (use n Inr in \<open>simp_all add: dispatch_def Let_def onHello_def on_peer_def\<close>)
qed

lemma net_step_keeps:
  assumes st: "net_step L numCPU memory_ops n n'" and n: "node_ok L (nt_node n)"
  shows "node_ok L (nt_node n') \<and>
    tip_work (memory_chain (nd_store (nt_node n))) \<le> tip_work (memory_chain (nd_store (nt_node n')))"
  using st
proof cases
  case (connect addr inbound i tasks)
  then have "nt_node n' = nt_node n" by (auto simp: handle_connect_defs Let_def)
  then show ?thesis using n by simp
next
  case (message s msg rest now i e tasks)
  then show ?thesis using dispatch_total [OF n, of numCPU now i msg] by auto
next
  case (disconnect i)
  then show ?thesis using n by (simp add: handle_disconnect_def)
next
  case (task now t)
  have "nt_node n' = nt_node n" unfolding task by (cases t) (simp_all split: sum.split)
  then show ?thesis using n by simp
qed


section \<open>The entries of the peer set\<close>

lemma update_peers: "map_of (AList.update k i ps) = (map_of ps)(k \<mapsto> i)"
  by (rule update_conv')

lemma read_loop_keeps:
  assumes "read_loop L numCPU memory_ops nows i s n = Some (n', tasks, rest)" "node_ok L (nt_node n)"
  shows "nt_peers n' = nt_peers n \<and> length (nt_heap n') = length (nt_heap n)"
  using assms
proof (induction nows arbitrary: s n tasks)
  case (Cons now nows)
  show ?case
  proof (cases "pr_open (nt_heap n ! i) \<and> (\<exists>x. readMessage s = Inr x)")
    case True
    then obtain msg s1 where r: "readMessage s = Inr (msg, s1)" by auto
    obtain e n1 t1 where d: "dispatch L numCPU memory_ops now i msg n = Some (e, n1, t1)"
      "node_ok L (nt_node n1)" "nt_peers n1 = nt_peers n" "length (nt_heap n1) = length (nt_heap n)"
      using dispatch_total [OF Cons.prems(2), of numCPU now i msg] by blast
    show ?thesis
    proof (cases "e = None")
      case False
      then show ?thesis using Cons.prems(1) True r d by simp
    next
      case none: True
      then obtain t2 where "read_loop L numCPU memory_ops nows i s1 n1 = Some (n', t2, rest)"
        using Cons.prems(1) True r d(1) by (auto split: Option.bind_splits)
      from Cons.IH [OF this d(2)] show ?thesis using d by simp
    qed
  next
    case False
    then show ?thesis using Cons.prems(1) by (cases "readMessage s") (auto split: if_splits)
  qed
qed simp


section \<open>The length of a message\<close>

lemma length_digits: "n < 10 ^ k \<Longrightarrow> 0 < k \<Longrightarrow> length (digits n) \<le> k"
proof (induction k arbitrary: n)
  case (Suc k)
  show ?case
  proof (cases "n < 10")
    case False
    then have "n div 10 < 10 ^ k" "0 < k" using Suc.prems by (cases k; simp add: less_mult_imp_div_less mult.commute)+
    then show ?thesis using Suc.IH [of "n div 10"] False by (simp add: digits.simps [of n])
  qed (simp add: digits.simps [of n])
qed simp

lemma length_number: "\<bar>i\<bar> \<le> 2 ^ 64 \<Longrightarrow> length (big_String i) \<le> 21"
proof -
  assume i: "\<bar>i\<bar> \<le> 2 ^ 64"
  then have "nat i < 10 ^ 20" "nat (- i) < 10 ^ 20" by (simp_all add: nat_less_iff)
  then have "length (digits (nat i)) \<le> 20" "length (digits (nat (- i))) \<le> 20"
    using length_digits [of _ 20] by simp_all
  then show ?thesis by (simp add: big_String_def)
qed

text \<open>An escape is at most six bytes long, for at least one byte of the text.\<close>

definition piece_size :: "string option \<Rightarrow> nat" where
  "piece_size p = (case p of None \<Rightarrow> 1 | Some r \<Rightarrow> length r)"

lemma piece_size_simps [simp]: "piece_size None = 1" "piece_size (Some r) = length r"
  by (simp_all add: piece_size_def)

lemma pieces_size: "sum_list (map piece_size (pieces s)) = length s"
proof (induction s rule: pieces.induct)
  case (1 s)
  show ?case
  proof (cases s)
    case (Cons c r)
    show ?thesis
    proof (cases "rune_size s = 0")
      case True
      then show ?thesis using 1(1) by (simp add: Cons pieces_unfold)
    next
      case False
      then have "sum_list (map piece_size (pieces (drop (rune_size s) s))) = length s - rune_size s"
        using 1(2) Cons by simp
      then show ?thesis
        using False rune_size_length [of s] by (simp add: Cons pieces_unfold Let_def)
    qed
  qed simp
qed

lemma length_escape_piece:
  assumes "piece_ok p"
  shows "length (escape_piece p) \<le> 6 * piece_size p"
  using assms
proof (cases p rule: escape_piece_cases)
  case (ascii c)
  have "length (escape c) \<le> 6" by (cases c rule: escape_cases) simp_all
  then show ?thesis using ascii by simp
next
  case (replaced ds k)
  then show ?thesis by (auto simp: utf8_def)
qed simp_all

lemma length_jstring: "length (jstring s) \<le> 6 * length s + 2"
proof -
  have "length (concat (map escape_piece ps)) \<le> 6 * sum_list (map piece_size ps)"
    if "list_all piece_ok ps" for ps
    using that by (induction ps) (auto dest!: length_escape_piece)
  from this [of "pieces s"] show ?thesis
    using pieces_ok by (simp add: pieces_size list_all_iff jstring_def)
qed

lemma length_join: "length (join_char c xs) \<le> sum_list (map length xs) + length xs"
  by (induction c xs rule: join_char.induct) simp_all

lemma length_numbers:
  "length (jtext (JNum (uint (w :: u32)))) \<le> 21" "length (jtext (JNum (uint (x :: u64)))) \<le> 21"
  "length (jtext (JNum (sint (t :: i64w)))) \<le> 21" "length (jtext (JNum (uint (b :: byte)))) \<le> 21"
  using unsigned_less [of w, where ?'a = int] unsigned_less [of x, where ?'a = int]
    unsigned_less [of b, where ?'a = int] sint_ge [of t] sint_lt [of t]
  by (simp_all add: length_number)

lemma length_hash: "length h = 32 \<Longrightarrow> length (jtext (enc_hash h)) \<le> 386"
  using length_jstring [of "hash_String h"] by (simp add: enc_hash_def hash_String_def)

lemma length_target: "length t = 32 \<Longrightarrow> length (jtext (enc_target t)) \<le> 706"
proof -
  assume t: "length t = 32"
  let ?xs = "map jtext (map (\<lambda>b. JNum (uint b)) t)"
  have "sum_list (map length ?xs) \<le> 21 * length t"
    by (induction t) (use length_numbers(4) in \<open>simp_all add: add_mono\<close>)
  then show ?thesis using length_join [of "CHR '',''" ?xs] t by (simp add: enc_target_def)
qed

lemma length_object:
  "length (jtext (JObj ms)) \<le> 2 + (\<Sum>(k, v) \<leftarrow> ms. 6 * length k + 4 + length (jtext v))"
proof -
  let ?text = "\<lambda>(k, v). jstring k @ CHR '':'' # jtext v"
  have "length (jstring k) + 2 + length (jtext v) \<le> 6 * length k + 4 + length (jtext v)" for k v
    using length_jstring [of k] by simp
  then have "sum_list (map (\<lambda>(k, v). length (jstring k) + 2 + length (jtext v)) ms) \<le>
      (\<Sum>(k, v) \<leftarrow> ms. 6 * length k + 4 + length (jtext v))"
    by (intro sum_list_mono) (simp add: case_prod_unfold)
  moreover have "sum_list (map length (map ?text ms)) + length ms =
      sum_list (map (\<lambda>(k, v). length (jstring k) + 2 + length (jtext v)) ms)"
    by (induction ms) auto
  ultimately show ?thesis using length_join [of "CHR '',''" "map ?text ms"] by simp
qed

lemma length_header:
  assumes "header_ok h"
  shows "length (jtext (enc_header h)) \<le> 4000"
proof -
  note n = length_numbers(1) [of "hVersion h"] length_numbers(1) [of "hAlgorithmVersion h"]
    length_numbers(2) [of "hHeight h"] length_numbers(2) [of "hNonce h"] length_numbers(2) [of "hDAGSizeBytes h"]
    length_numbers(3) [of "hTimestamp h"]
  note l = header_okD [OF assms]
  note hs = length_hash [OF l(1)] length_hash [OF l(3)] length_hash [OF l(4)] length_hash [OF l(5)]
    length_target [OF l(2)]
  show ?thesis
    unfolding enc_header_def by (rule order_trans [OF length_object]) (use n hs in \<open>simp del: jtext.simps\<close>)
qed

text \<open>Blocks without transactions, which is what the node mines, fit into a frame.\<close>

lemma length_block_message:
  assumes "header_ok (Header b)" "Transactions b = []"
  shows "length (jtext (enc_message (NewBlock b))) < 2 ^ 32"
proof -
  have "length (jtext (enc_block b)) \<le> 4100"
    unfolding enc_block_def
    by (rule order_trans [OF length_object]) (use length_header [OF assms(1)] assms(2) in \<open>simp del: jtext.simps\<close>)
  then have "length (jtext (JObj [(''block'', enc_block b)])) \<le> 4200"
    by (intro order_trans [OF length_object]) (simp del: jtext.simps)
  moreover have "length (jtext (JStr ''newblock'')) \<le> 60" using length_jstring [of "''newblock''"] by simp
  ultimately have "length (jtext (enc_message (NewBlock b))) \<le> 5000"
    unfolding enc_message.simps by (intro order_trans [OF length_object]) (simp del: jtext.simps)
  then show ?thesis by simp
qed


section \<open>Numbers that do not survive\<close>

lemma bit_length_numeral: "bit_length (numeral k) = Suc (bit_length (numeral k div 2))"
  by (subst bit_length.simps) simp

lemma shortest_from_numeral:
  "shortest_from (numeral k) x =
     (case shortest_at (numeral k) x of Some c \<Rightarrow> c | None \<Rightarrow> shortest_from (pred_numeral k) x)"
  by (simp add: numeral_eq_Suc)

lemma float_text_examples:
  "float_text 9007199254740993 = 9007199254740992" "float_text 18446744073709551615 = 18446744073709552000"
proof -
  have f: "float_nat 9007199254740993 = 9007199254740992" "float_nat 18446744073709551615 = 18446744073709551616"
    by (simp_all add: float_nat_def Let_def bit_length_numeral bit_length_1)
  show "float_text 9007199254740993 = 9007199254740992"
    unfolding float_text_def f Let_def
    by (simp add: shortest_from_numeral shortest_at_def Let_def float_nat_def bit_length_numeral bit_length_1)
  show "float_text 18446744073709551615 = 18446744073709552000"
    unfolding float_text_def f Let_def
    by (simp add: shortest_from_numeral shortest_at_def Let_def float_nat_def bit_length_numeral bit_length_1)
qed


section \<open>Properties\<close>

text \<open>C18: Messages arrive: what \<open>Send\<close> writes, \<open>readMessage\<close> reads, leaving the bytes after it, and
  \<open>dispatch\<close> decodes as the message that was sent, for every kind of message whose numbers are below
  \<open>2 ^ 53\<close>, whose strings are UTF-8 and whose text is shorter than \<open>2 ^ 32\<close> bytes.\<close>

theorem messages_arrive:
  assumes "exact_message m" and "length (jtext (enc_message m)) < 2 ^ 32"
  shows "\<exists>raw. readMessage (message_bytes m @ rest) = Inr (raw, rest) \<and> decode_body raw = Inr m"
  by (rule message_arrives [OF assms])

definition sample_hello :: hello where
  "sample_hello = \<lparr>he_NodeID = ''n2'', he_Network = ''devnet'', he_Version = ''v'', he_Listen = ''a<b''\<rparr>"

lemma sample_hello_fits:
  "exact_message (Hello sample_hello)" "length (jtext (enc_message (Hello sample_hello))) < 2 ^ 32"
  by (simp_all add: sample_hello_def valid_hello_def jstring_def escape_piece_def escape_def QUOTE_def
      BACKSLASH_def Let_def)

theorem messages_arrive_witness:
  "\<exists>raw. readMessage (message_bytes (Hello sample_hello) @ [1, 2]) = Inr (raw, [1, 2]) \<and>
     decode_body raw = Inr (Hello sample_hello)"
  by (rule messages_arrive [OF sample_hello_fits])

text \<open>C19: Blocks arrive with their numbers rounded: the height, the nonce, the DAG size and the timestamp
  of a block that fits into a frame go through a \<open>float64\<close>, so the receiver's \<open>dispatch\<close> decodes the block
  with these four numbers rounded to 53 bits, or rejects the message when a rounded number leaves its
  range; every other field of the header is exact, and the transactions are the ones sent, with what
  is not UTF-8 in them replaced.  Another wire does not change a
  block that has arrived.\<close>

theorem blocks_arrive_rounded:
  assumes "header_ok (Header b)" and "length (jtext (enc_message (NewBlock b))) < 2 ^ 32"
  shows "\<exists>raw. readMessage (message_bytes (NewBlock b) @ rest) = Inr (raw, rest) \<and>
    decode_body raw = (case wire_block b of None \<Rightarrow> Inl BadBody | Some b' \<Rightarrow> Inr (NewBlock b')) \<and>
    (\<forall>b'. wire_block b = Some b' \<longrightarrow> Header b = (Header b')\<lparr>hHeight := hHeight (Header b),
       hNonce := hNonce (Header b), hDAGSizeBytes := hDAGSizeBytes (Header b),
       hTimestamp := hTimestamp (Header b)\<rparr> \<and> Transactions b' = map repair (Transactions b) \<and>
       wire_block b' = Some b')"
proof -
  have "Header b = (Header b')\<lparr>hHeight := hHeight (Header b), hNonce := hNonce (Header b),
       hDAGSizeBytes := hDAGSizeBytes (Header b), hTimestamp := hTimestamp (Header b)\<rparr> \<and>
       Transactions b' = map repair (Transactions b)"
    if "wire_block b = Some b'" for b'
    using that by (auto simp: wire_block_def wire_header_def repair_block_def split: Option.bind_splits)
  then show ?thesis using block_arrives [OF assms, of rest] wire_block_stable [of b] by blast
qed

definition with_nonce :: "u64 \<Rightarrow> block" where
  "with_nonce n = sample_block\<lparr>Header := sample_header\<lparr>hNonce := n\<rparr>\<rparr>"

theorem blocks_arrive_rounded_witness:
  "\<exists>r1 r2. readMessage (message_bytes (NewBlock (with_nonce 9007199254740993))) = Inr (r1, []) \<and>
     decode_body r1 = Inr (NewBlock (with_nonce 9007199254740992)) \<and>
     readMessage (message_bytes (NewBlock (with_nonce 18446744073709551615))) = Inr (r2, []) \<and>
     decode_body r2 = Inl BadBody"
proof -
  have ok: "header_ok (Header (with_nonce n))" "Transactions (with_nonce n) = []" for n
    using sample_header_ok by (simp_all add: with_nonce_def header_ok_def sample_block_def)
  have small: "wire_u64 (hDAGSizeBytes sample_header) = Some (hDAGSizeBytes sample_header)"
    "wire_u64 (hHeight sample_header) = Some (hHeight sample_header)"
    "wire_i64 (hTimestamp sample_header) = Some (hTimestamp sample_header)"
    by (intro wire_u64_small wire_i64_small; simp add: sample_header_def)+
  have "wire_u64 9007199254740993 = Some 9007199254740992" "wire_u64 18446744073709551615 = None"
    by (simp_all add: wire_u64_def signed_text_def float_text_examples dec_uint_def)
  then have "wire_block (with_nonce 9007199254740993) = Some (with_nonce 9007199254740992)"
    "wire_block (with_nonce 18446744073709551615) = None"
    using small by (simp_all add: wire_block_def wire_header_def with_nonce_def repair_block_id sample_block_def)
  then show ?thesis
    using blocks_arrive_rounded [OF ok(1) length_block_message [OF ok], of 9007199254740993 "[]"]
      blocks_arrive_rounded [OF ok(1) length_block_message [OF ok], of 18446744073709551615 "[]"] by auto
qed


definition sample_net :: "memory_store net" where
  "sample_net = \<lparr>nt_cfg = \<lparr>sc_NodeID = ''node'', sc_Network = ''devnet'', sc_AdvertiseAddr = [], sc_Version = ''v''\<rparr>,
     nt_node = sample_node, nt_heap = [], nt_peers = []\<rparr>"


text \<open>C20: What a connection leaves in the peer set: after \<open>handleConn\<close> the entry filed when the peer
  connected is still there, for a closed connection, whenever the peer has given a node ID other than
  that entry's key; only the entry under the key the peer has at the end is removed.\<close>

theorem connection_leaves_entry:
  assumes n: "node_ok L (nt_node n)"
    and conn: "handleConn L numCPU memory_ops nows addr inbound s n = Some (n', tasks)"
  defines "key \<equiv> addr @ ''/'' @ (if inbound then ''true'' else ''false'')" and "i \<equiv> length (nt_heap n)"
  shows "map_of (nt_peers n') = ((map_of (nt_peers n))(key \<mapsto> i))(peerKey (nt_heap n' ! i) := None) \<and>
    \<not> pr_open (nt_heap n' ! i) \<and>
    (pr_ID (nt_heap n' ! i) \<notin> {[], key} \<longrightarrow> map_of (nt_peers n') key = Some i)"
proof -
  obtain n1 ts where c: "handle_connect addr inbound n = (n1, i, ts)" and
    n1: "nt_peers n1 = AList.update key i (nt_peers n)" "nt_node n1 = nt_node n" "length (nt_heap n1) = Suc i"
    by (simp add: handle_connect_defs Let_def PeerSet_Add_def peerKey_def key_def i_def on_peer_def nth_append)
  obtain n2 more rest where r: "read_loop L numCPU memory_ops nows i s n1 = Some (n2, more, rest)"
    and n': "n' = handle_disconnect i n2" using conn c by (auto simp: handleConn_def split: Option.bind_splits)
  have n2: "nt_peers n2 = nt_peers n1" "length (nt_heap n2) = Suc i"
    using read_loop_keeps [OF r] n n1 by simp_all
  have p: "nt_heap n' ! i = (nt_heap n2 ! i)\<lparr>pr_open := False\<rparr>" "peerKey (nt_heap n' ! i) = peerKey (nt_heap n2 ! i)"
    using n2(2) by (simp_all add: n' handle_disconnect_def on_peer_def peerKey_def)
  have m: "map_of (nt_peers n') = ((map_of (nt_peers n))(key \<mapsto> i))(peerKey (nt_heap n' ! i) := None)"
    by (simp add: n' handle_disconnect_def PeerSet_Remove_def delete_conv' n2(1) n1(1) update_peers)
      (use p(2) in \<open>simp add: n' handle_disconnect_def\<close>)
  moreover have "pr_ID (nt_heap n' ! i) \<notin> {[], key} \<Longrightarrow> peerKey (nt_heap n' ! i) \<noteq> key"
    by (simp add: peerKey_def)
  ultimately show ?thesis using p(1) by auto
qed

theorem connection_leaves_entry_witness:
  "\<exists>n' tasks. handleConn sample_lib 4 memory_ops [0] ''a'' True (message_bytes (Hello sample_hello)) sample_net =
     Some (n', tasks) \<and> map_of (nt_peers n') ''a/true'' = Some 0 \<and> \<not> pr_open (nt_heap n' ! 0)"
proof -
  obtain raw where raw: "readMessage (message_bytes (Hello sample_hello)) = Inr (raw, [])"
    "decode_body raw = Inr (Hello sample_hello)" using message_arrives [OF sample_hello_fits, of "[]"] by auto
  have net: "he_Network sample_hello = ccNetworkID (nc_Chain (nd_cfg sample_node))" "he_NodeID sample_hello = ''n2''"
    by (simp_all add: sample_hello_def sample_config_def)
  obtain n' tasks where h: "handleConn sample_lib 4 memory_ops [0] ''a'' True (message_bytes (Hello sample_hello))
      sample_net = Some (n', tasks)" "pr_ID (nt_heap n' ! 0) = ''n2''"
    by (simp add: handleConn_def handle_connect_defs sample_net_def Let_def on_peer_def Send_def raw dispatch_def
        onHello_def net handle_disconnect_def)
  have "node_ok sample_lib (nt_node sample_net)" using sample_node_ok by (simp add: sample_net_def)
  from connection_leaves_entry [OF this h(1)] h show ?thesis by (auto simp: sample_net_def)
qed

end
