(* ===== verification/Concurrent.thy ===== *)
theory Concurrent
  imports NodeProofs
begin

text \<open>
  Insertions that overlap.  \<open>InsertBlock\<close> (\<open>pkg/consensus/validator.go\<close>) holds no lock: each method of the
  store does, so the goroutines of a node that insert blocks at the same time, the mining loop of \<open>Run\<close>
  and one goroutine for each peer (\<open>pkg/node/node.go\<close>, \<open>pkg/p2p/transport.go\<close>), take turns between any
  two calls of the store.  A goroutine is the block it inserts and the place it has reached; its steps
  are the calls of the store in \<open>InsertBlock\<close>, and the validation, which reads the store once.
\<close>


section \<open>The places of an insertion\<close>

datatype insert_pc =
    Arrived | Unchecked | Known | Weighing | Weighed int | Stored int | Chosen int
  | Answered "consensus_error + int \<times> bool"

fun is_Answered :: "insert_pc \<Rightarrow> bool" where
  "is_Answered (Answered r) \<longleftrightarrow> True"
| "is_Answered pc \<longleftrightarrow> False"

text \<open>The next call: validation, \<open>HasBlock\<close>, \<open>TotalWork\<close> of the block or of its parent, \<open>StoreBlock\<close>,
  \<open>CurrentTip\<close> with the choice, \<open>SetCurrentTip\<close>; \<open>None\<close> is a panic.\<close>

fun insert_next ::
  "hashlib \<Rightarrow> nat \<Rightarrow> i64w \<Rightarrow> 's store_ops \<Rightarrow> block \<Rightarrow> insert_pc \<Rightarrow> validator \<Rightarrow> 's \<Rightarrow>
     (insert_pc \<times> validator \<times> 's) option"
where
  "insert_next L numCPU now ops b Arrived v s =
     map_option (\<lambda>(e, v). (case e of Some e \<Rightarrow> Answered (Inl e) | None \<Rightarrow> Unchecked, v, s))
       (ValidateBlock L numCPU now ops v s b)"
| "insert_next L numCPU now ops b Unchecked v s =
     Some (if so_HasBlock ops s (BlockHash b) then Known else Weighing, v, s)"
| "insert_next L numCPU now ops b Known v s =
     Some (Answered (case so_TotalWork ops s (BlockHash b) of
        Inl e \<Rightarrow> Inl (StoreFailed e) | Inr work \<Rightarrow> Inr (work, False)), v, s)"
| "insert_next L numCPU now ops b Weighing v s =
     Some (let blockWork = CalcBlockWork (hTarget (Header b)) in
       if hHeight (Header b) > 0
       then (case so_TotalWork ops s (hParentHash (Header b)) of
               Inl e \<Rightarrow> Answered (Inl (StoreFailed e)) | Inr w \<Rightarrow> Weighed (blockWork + w))
       else Weighed blockWork, v, s)"
| "insert_next L numCPU now ops b (Weighed w) v s =
     (let (e, s) = so_StoreBlock ops s b w
      in Some (case e of Some e \<Rightarrow> Answered (Inl (StoreFailed e)) | None \<Rightarrow> Stored w, v, s))"
| "insert_next L numCPU now ops b (Stored w) v s =
     Some (case so_CurrentTip ops s of
         Inl _ \<Rightarrow> Chosen w
       | Inr (current, currentWork) \<Rightarrow>
           if SelectBestChainByTotalWork (BlockHash current) currentWork (BlockHash b) w = BlockHash b
           then Chosen w else Answered (Inr (w, False)), v, s)"
| "insert_next L numCPU now ops b (Chosen w) v s =
     (let (e, s) = so_SetCurrentTip ops s (BlockHash b)
      in Some (Answered (case e of Some e \<Rightarrow> Inl (StoreFailed e) | None \<Rightarrow> Inr (w, True)), v, s))"
| "insert_next L numCPU now ops b (Answered r) v s = Some (Answered r, v, s)"

text \<open>An insertion that nothing interrupts.\<close>

fun insert_steps ::
  "hashlib \<Rightarrow> nat \<Rightarrow> i64w \<Rightarrow> 's store_ops \<Rightarrow> block \<Rightarrow> nat \<Rightarrow> insert_pc \<times> validator \<times> 's \<Rightarrow>
     (insert_pc \<times> validator \<times> 's) option"
where
  "insert_steps L numCPU now ops b 0 x = Some x"
| "insert_steps L numCPU now ops b (Suc k) (pc, v, s) =
     Option.bind (insert_next L numCPU now ops b pc v s) (insert_steps L numCPU now ops b k)"


section \<open>The goroutines of a node\<close>

text \<open>\<open>mineNextBlock\<close> in two steps as well: it reads the tip and builds a template on it, and the search on
  the template may take so long that the tip has changed when it ends.\<close>

record 's crowd =
  cw_node :: "'s node"
  cw_templates :: "block_header list"
  cw_threads :: "(block \<times> insert_pc) list"

abbreviation crowd_at :: "'s node \<Rightarrow> (block \<times> insert_pc) list \<Rightarrow> 's crowd" where
  "crowd_at n threads \<equiv> \<lparr>cw_node = n, cw_templates = [], cw_threads = threads\<rparr>"

text \<open>A peer delivers a block that is not known yet, the mining loop builds a template, seals one it built
  or fails to, or some goroutine takes its next step, at any clock reading.\<close>

inductive crowd_step :: "hashlib \<Rightarrow> nat \<Rightarrow> 's store_ops \<Rightarrow> 's crowd \<Rightarrow> 's crowd \<Rightarrow> bool"
  for L :: hashlib and numCPU :: nat and ops :: "'s store_ops" and c :: "'s crowd"
where
  peer: "header_ok (Header b) \<Longrightarrow> BlockHash b \<noteq> zero_hash \<Longrightarrow>
    \<not> so_HasBlock ops (nd_store (cw_node c)) (BlockHash b) \<Longrightarrow>
    crowd_step L numCPU ops c (c\<lparr>cw_threads := cw_threads c @ [(b, Arrived)]\<rparr>)"
| template: "so_CurrentTip ops (nd_store (cw_node c)) = Inr (tip, w) \<Longrightarrow>
    next_header (nd_cfg (cw_node c)) now tip = Some h \<Longrightarrow>
    crowd_step L numCPU ops c (c\<lparr>cw_templates := cw_templates c @ [h]\<rparr>)"
| mine: "h \<in> set (cw_templates c) \<Longrightarrow>
    SealBlock L numCPU (nd_validator (cw_node c)) \<lparr>Header = h, Transactions = []\<rparr>
      (nc_MaxNonces (nd_cfg (cw_node c))) (Inr (b, res)) v \<Longrightarrow>
    crowd_step L numCPU ops c (c\<lparr>cw_node := (cw_node c)\<lparr>nd_validator := v\<rparr>,
      cw_threads := cw_threads c @ [(b, Arrived)]\<rparr>)"
| mine_fails: "h \<in> set (cw_templates c) \<Longrightarrow>
    SealBlock L numCPU (nd_validator (cw_node c)) \<lparr>Header = h, Transactions = []\<rparr>
      (nc_MaxNonces (nd_cfg (cw_node c))) (Inl e) v \<Longrightarrow>
    crowd_step L numCPU ops c (c\<lparr>cw_node := (cw_node c)\<lparr>nd_validator := v\<rparr>\<rparr>)"
| insert: "i < length (cw_threads c) \<Longrightarrow> cw_threads c ! i = (b, pc) \<Longrightarrow>
    insert_next L numCPU now ops b pc (nd_validator (cw_node c)) (nd_store (cw_node c)) = Some (pc', v, s) \<Longrightarrow>
    crowd_step L numCPU ops c (c\<lparr>cw_node := (cw_node c)\<lparr>nd_validator := v, nd_store := s\<rparr>,
      cw_threads := (cw_threads c)[i := (b, pc')]\<rparr>)"

inductive_cases crowd_stepE: "crowd_step L numCPU ops c c'"

end
