(* ===== verification/ConcurrentProofs.thy ===== *)
theory ConcurrentProofs
  imports Concurrent
begin

text \<open>
  What insertions that overlap keep and what they lose: the chain stays a tree of valid links with the
  right work and never falls behind the tip it started from, but its tip need not be its best block.
  What each goroutine relies on, that the chain only grows, is what every step of the others guarantees.
\<close>


section \<open>An insertion on its own\<close>

lemma insert_steps_Answered [simp]:
  "insert_steps L numCPU now ops b k (Answered r, v, s) = Some (Answered r, v, s)"
  by (induction k) simp_all

lemma insert_steps_numeral [simp]:
  "insert_steps L numCPU now ops b (numeral k) (pc, v, s) =
     Option.bind (insert_next L numCPU now ops b pc v s) (insert_steps L numCPU now ops b (pred_numeral k))"
  by (simp add: numeral_eq_Suc)

lemma insert_steps_validated:
  "insert_steps L numCPU now ops b 5 (Unchecked, v, s) =
     (let (r, s) = insert_validated ops s b in Some (Answered r, v, s))"
proof -
  have stored: "insert_steps L numCPU now ops b 2 (Stored w, v, s) =
      (let (r, s) = (case so_CurrentTip ops s of
           Inl _ \<Rightarrow> (case so_SetCurrentTip ops s (BlockHash b) of
               (Some e, s) \<Rightarrow> (Inl (StoreFailed e), s) | (None, s) \<Rightarrow> (Inr (w, True), s))
         | Inr (current, currentWork) \<Rightarrow>
             if SelectBestChainByTotalWork (BlockHash current) currentWork (BlockHash b) w = BlockHash b
             then (case so_SetCurrentTip ops s (BlockHash b) of
                 (Some e, s) \<Rightarrow> (Inl (StoreFailed e), s) | (None, s) \<Rightarrow> (Inr (w, True), s))
             else (Inr (w, False), s))
       in Some (Answered r, v, s))" for w s
    by (cases "so_CurrentTip ops s"; cases "so_SetCurrentTip ops s (BlockHash b)";
        cases "fst (so_SetCurrentTip ops s (BlockHash b))") (auto simp: Let_def split: prod.split)
  have weighed: "insert_steps L numCPU now ops b 3 (Weighed w, v, s) =
      (case so_StoreBlock ops s b w of
         (Some e, s) \<Rightarrow> Some (Answered (Inl (StoreFailed e)), v, s)
       | (None, s) \<Rightarrow> insert_steps L numCPU now ops b 2 (Stored w, v, s))" for w
    by (cases "so_StoreBlock ops s b w"; cases "fst (so_StoreBlock ops s b w)") simp_all
  have five: "(5 :: nat) = Suc (Suc 3)" by simp
  have start: "insert_steps L numCPU now ops b 5 (Unchecked, v, s) =
      (if so_HasBlock ops s (BlockHash b)
       then Some (Answered (case so_TotalWork ops s (BlockHash b) of
           Inl e \<Rightarrow> Inl (StoreFailed e) | Inr work \<Rightarrow> Inr (work, False)), v, s)
       else (case (if hHeight (Header b) > 0
                   then (case so_TotalWork ops s (hParentHash (Header b)) of
                           Inl e \<Rightarrow> Inl e | Inr w \<Rightarrow> Inr (CalcBlockWork (hTarget (Header b)) + w))
                   else Inr (CalcBlockWork (hTarget (Header b)))) of
           Inl e \<Rightarrow> Some (Answered (Inl (StoreFailed e)), v, s)
         | Inr w \<Rightarrow> insert_steps L numCPU now ops b 3 (Weighed w, v, s)))"
    unfolding five
    by (cases "so_TotalWork ops s (hParentHash (Header b))") (simp_all add: Let_def del: insert_steps_numeral Suc_numeral)
  show ?thesis
  proof (cases "so_HasBlock ops s (BlockHash b)")
    case True
    then show ?thesis unfolding start insert_validated_def Let_def by (simp split: sum.split)
  next
    case False
    show ?thesis
    proof (cases "if hHeight (Header b) > 0
                   then (case so_TotalWork ops s (hParentHash (Header b)) of
                           Inl e \<Rightarrow> Inl e | Inr w \<Rightarrow> Inr (CalcBlockWork (hTarget (Header b)) + w))
                   else Inr (CalcBlockWork (hTarget (Header b)))")
      case (Inl e)
      show ?thesis unfolding start insert_validated_def Let_def Inl by (simp add: False)
    next
      case (Inr w)
      obtain e s1 where st: "so_StoreBlock ops s b w = (e, s1)" by force
      show ?thesis
        unfolding start insert_validated_def Let_def Inr
        by (cases e) (simp_all add: False weighed st stored Let_def del: insert_steps_numeral)
    qed
  qed
qed

lemma insert_steps_alone:
  "insert_steps L numCPU now ops b 6 (Arrived, v, s) =
     map_option (\<lambda>(r, v, s). (Answered r, v, s)) (InsertBlock L numCPU now ops v s b)"
proof (cases "ValidateBlock L numCPU now ops v s b")
  case (Some ev)
  obtain e v1 where ev: "ev = (e, v1)" by force
  have six: "(6 :: nat) = Suc 5" by simp
  have "insert_steps L numCPU now ops b 6 (Arrived, v, s) =
      insert_steps L numCPU now ops b 5
        (case e of Some e \<Rightarrow> Answered (Inl e) | None \<Rightarrow> Unchecked, v1, s)"
    unfolding six using Some ev by (simp del: insert_steps_numeral Suc_numeral)
  then show ?thesis
    using Some ev insert_steps_validated [of L numCPU now ops b v1 s]
    by (cases e) (auto simp: InsertBlock_def Let_def case_prod_unfold simp del: insert_steps_numeral)
qed (simp add: InsertBlock_def)


section \<open>Chains that grow\<close>

text \<open>A chain grows when its blocks stay, up to their transactions, with their work.\<close>

definition grows :: "chain \<Rightarrow> chain \<Rightarrow> bool" where
  "grows c c' \<longleftrightarrow> (\<forall>h b w. ch_blocks c h = Some (b, w) \<longrightarrow>
     (\<exists>b'. ch_blocks c' h = Some (b', w) \<and> Header b' = Header b))"

lemma growsE:
  assumes "grows c c'" and "ch_blocks c h = Some (b, w)"
  obtains b' where "ch_blocks c' h = Some (b', w)" "Header b' = Header b"
  using assms unfolding grows_def by blast

lemma grows_refl [simp]: "grows c c"
  by (simp add: grows_def)

lemma grows_trans: "grows c c' \<Longrightarrow> grows c' c'' \<Longrightarrow> grows c c''"
  unfolding grows_def by (metis (mono_tags))

lemma grows_links:
  assumes "grows c c'" "linked c b"
  shows "linked c' b" "block_total_work c' b = block_total_work c b"
proof (atomize (full), cases "hHeight (Header b) = 0")
  case False
  then obtain p w where p: "ch_blocks c (hParentHash (Header b)) = Some (p, w)"
    "hHeight (Header p) + 1 = hHeight (Header b)" "sint (hTimestamp (Header p)) < sint (hTimestamp (Header b))"
    using assms(2) by (auto simp: linked_def)
  then obtain p' where "ch_blocks c' (hParentHash (Header b)) = Some (p', w)" "Header p' = Header p"
    using assms(1) unfolding grows_def by blast
  then show "linked c' b \<and> block_total_work c' b = block_total_work c b"
    using p by (simp add: linked_def block_total_work_def)
qed (simp add: linked_def block_total_work_def)

lemma same_header:
  "Header b = Header b' \<Longrightarrow> linked c b \<longleftrightarrow> linked c b'"
  "Header b = Header b' \<Longrightarrow> block_total_work c b = block_total_work c b'"
  by (simp_all add: linked_def block_total_work_def)

text \<open>The headers of the stored blocks, and sets of headers that the hash tells apart.\<close>

definition headers :: "chain \<Rightarrow> block_header set" where
  "headers c = {Header b |b. \<exists>h w. ch_blocks c h = Some (b, w)}"

lemma headersI: "ch_blocks c h = Some (b, w) \<Longrightarrow> Header b \<in> headers c"
  unfolding headers_def by blast

definition told_apart :: "block_header set \<Rightarrow> bool" where
  "told_apart H \<longleftrightarrow> inj_on HeaderHash H \<and> zero_hash \<notin> HeaderHash ` H"

lemma told_apartD:
  assumes "told_apart H"
  shows "Header b \<in> H \<Longrightarrow> BlockHash b \<noteq> zero_hash"
    "Header b \<in> H \<Longrightarrow> Header b' \<in> H \<Longrightarrow> BlockHash b = BlockHash b' \<Longrightarrow> Header b = Header b'"
  using assms by (metis BlockHash_def image_eqI told_apart_def, metis BlockHash_def inj_onD told_apart_def)

text \<open>Storing a block that is linked, again or for the first time.\<close>

lemma store_grows:
  assumes c: "chain_ok c" "tree_ok c" and H: "headers c \<subseteq> H" "told_apart H" "Header b \<in> H"
    and lk: "linked c b"
  defines "c' \<equiv> chain_store_block c b (block_total_work c b)"
  shows "grows c c'" and "tree_ok c'" and "headers c' \<subseteq> H"
proof -
  have blocks: "ch_blocks c' = (ch_blocks c)(BlockHash b \<mapsto> (b, block_total_work c b))"
    by (simp add: c'_def chain_store_block_def)
  have same: "Header x = Header b \<and> w = block_total_work c b" if x: "ch_blocks c (BlockHash b) = Some (x, w)" for x w
  proof -
    have "BlockHash x = BlockHash b" "Header x \<in> H" using x c(1) H(1) headersI [OF x] by (auto simp: chain_ok_def)
    then have "Header x = Header b" using told_apartD(2) [OF H(2)] H(3) by blast
    moreover have "w = block_total_work c x" using x c(2) by (simp add: tree_ok_def)
    ultimately show ?thesis using same_header(2) by blast
  qed
  show g: "grows c c'"
    unfolding grows_def blocks
  proof (intro allI impI)
    fix h x w
    assume "ch_blocks c h = Some (x, w)"
    then show "\<exists>x'. ((ch_blocks c)(BlockHash b \<mapsto> (b, block_total_work c b))) h = Some (x', w) \<and> Header x' = Header x"
      using same [of x w] by (cases "h = BlockHash b") simp_all
  qed
  show "tree_ok c'"
    using c(2) grows_links [OF g] lk by (auto simp: tree_ok_def blocks split: if_splits)
  show "headers c' \<subseteq> H" using H(1,3) by (auto simp: headers_def blocks split: if_splits)
qed


section \<open>What a goroutine relies on\<close>

text \<open>A block is above the tip \<open>c0\<close> had, and the tip of \<open>c\<close> is.\<close>

definition above :: "chain \<Rightarrow> hash \<Rightarrow> int \<Rightarrow> bool" where
  "above c0 h w \<longleftrightarrow>
     (case ch_tip c0 of None \<Rightarrow> True | Some t \<Rightarrow> h = t \<and> w = snd (the (ch_blocks c0 t)) \<or>
        better h w t (snd (the (ch_blocks c0 t))))"

definition tip_above :: "chain \<Rightarrow> chain \<Rightarrow> bool" where
  "tip_above c0 c \<longleftrightarrow> (case ch_tip c of
     None \<Rightarrow> ch_tip c0 = None | Some t \<Rightarrow> above c0 t (snd (the (ch_blocks c t))))"

lemma above_better: "above c0 h w \<Longrightarrow> better h' w' h w \<Longrightarrow> above c0 h' w'"
  by (auto simp: above_def dest: better_trans split: option.splits)

lemma tip_above_refl: "tip_above c c"
  by (simp add: tip_above_def above_def split: option.split)

definition stored_as :: "chain \<Rightarrow> block \<Rightarrow> int \<Rightarrow> bool" where
  "stored_as c b w \<longleftrightarrow> (\<exists>b'. ch_blocks c (BlockHash b) = Some (b', w) \<and> Header b' = Header b)"

lemma stored_as_grows: "stored_as c b w \<Longrightarrow> grows c c' \<Longrightarrow> stored_as c' b w"
  unfolding stored_as_def grows_def by (metis (mono_tags))

fun place_ok :: "chain \<Rightarrow> chain \<Rightarrow> block \<Rightarrow> insert_pc \<Rightarrow> bool" where
  "place_ok c0 c b Arrived \<longleftrightarrow> True"
| "place_ok c0 c b Unchecked \<longleftrightarrow> linked c b"
| "place_ok c0 c b Known \<longleftrightarrow> (\<exists>w. stored_as c b w)"
| "place_ok c0 c b Weighing \<longleftrightarrow> linked c b"
| "place_ok c0 c b (Weighed w) \<longleftrightarrow> linked c b \<and> w = block_total_work c b"
| "place_ok c0 c b (Stored w) \<longleftrightarrow> stored_as c b w"
| "place_ok c0 c b (Chosen w) \<longleftrightarrow> stored_as c b w \<and> above c0 (BlockHash b) w"
| "place_ok c0 c b (Answered r) \<longleftrightarrow> (case r of Inl _ \<Rightarrow> True | Inr (w, _) \<Rightarrow> stored_as c b w)"

lemma place_ok_grows: "place_ok c0 c b pc \<Longrightarrow> grows c c' \<Longrightarrow> place_ok c0 c' b pc"
proof -
  assume pc: "place_ok c0 c b pc" and g: "grows c c'"
  note keep = grows_links [OF g] stored_as_grows [OF _ g]
  show ?thesis
  proof (cases pc)
    case Known
    then show ?thesis using pc keep(3) by (metis place_ok.simps(3))
  qed (use pc in \<open>simp_all add: keep split: sum.splits prod.splits\<close>)
qed


section \<open>One step\<close>

text \<open>What every step keeps of the chain: it has grown from \<open>c0\<close>, and its tip is above that of \<open>c0\<close>.\<close>

definition sound :: "block_header set \<Rightarrow> chain \<Rightarrow> chain \<Rightarrow> bool" where
  "sound H c0 c \<longleftrightarrow> tree_ok c \<and> headers c \<subseteq> H \<and> grows c0 c \<and> tip_above c0 c"

context chain_store
begin

lemma store_keeps:
  assumes s: "ok s" "sound H c0 (abs s)" and H: "told_apart H" "Header b \<in> H" and lk: "linked (abs s) b"
    and st: "so_StoreBlock ops s b (block_total_work (abs s) b) = (e, s')"
  shows "ok s' \<and> sound H c0 (abs s') \<and> grows (abs s) (abs s') \<and> stored_as (abs s') b (block_total_work (abs s) b)"
proof -
  let ?w = "block_total_work (abs s) b"
  have s': "ok s'" "abs s' = chain_store_block (abs s) b ?w"
    using StoreBlock [OF s(1) told_apartD(1) [OF H] st] by simp_all
  have h: "headers (abs s) \<subseteq> H" "tree_ok (abs s)" "grows c0 (abs s)" "tip_above c0 (abs s)"
    using s(2) by (simp_all add: sound_def)
  note g = store_grows [OF abs_ok [OF s(1)] h(2,1) H lk, folded s'(2)]
  have "tip_above c0 (abs s')"
  proof (cases "ch_tip (abs s)")
    case None
    then show ?thesis using h(4) s'(2) by (simp add: tip_above_def chain_store_block_def above_def)
  next
    case (Some t)
    obtain x w where x: "ch_blocks (abs s) t = Some (x, w)"
      using Some abs_ok [OF s(1)] by (force simp: chain_ok_def)
    then obtain x' where "ch_blocks (abs s') t = Some (x', w)" using g(1) by (auto elim: growsE)
    moreover have "ch_tip (abs s') = Some t" using Some s'(2) by (simp add: chain_store_block_def)
    ultimately show ?thesis using h(4) Some x by (simp add: tip_above_def)
  qed
  moreover have "stored_as (abs s') b ?w" by (simp add: stored_as_def s' chain_store_block_def)
  ultimately show ?thesis using g s'(1) grows_trans [OF h(3) g(1)] by (simp add: sound_def)
qed

lemma choose_above:
  assumes s: "ok s" "sound H c0 (abs s)" and b: "stored_as (abs s) b w"
    and cur: "so_CurrentTip ops s = Inr (x, xw)"
    and sel: "SelectBestChainByTotalWork (BlockHash x) xw (BlockHash b) w = BlockHash b"
  shows "above c0 (BlockHash b) w"
proof -
  have t: "ch_tip (abs s) = Some (BlockHash x)" "ch_blocks (abs s) (BlockHash x) = Some (x, xw)"
    using tip_block [OF s(1) cur] by simp_all
  have x: "above c0 (BlockHash x) xw" using s(2) t by (simp add: sound_def tip_above_def)
  show ?thesis
  proof (cases "better (BlockHash b) w (BlockHash x) xw")
    case True
    then show ?thesis by (rule above_better [OF x])
  next
    case False
    then have "BlockHash b = BlockHash x" using sel by (simp add: Select_better)
    moreover from this have "w = xw" using b t(2) by (simp add: stored_as_def)
    ultimately show ?thesis using x by simp
  qed
qed

lemma set_tip_keeps:
  assumes s: "ok s" "sound H c0 (abs s)" and b: "stored_as (abs s) b w" "above c0 (BlockHash b) w"
    and st: "so_SetCurrentTip ops s (BlockHash b) = (e, s')"
  shows "ok s' \<and> sound H c0 (abs s') \<and> grows (abs s) (abs s') \<and> stored_as (abs s') b w"
proof -
  have s': "ok s'" "abs s' = (abs s)\<lparr>ch_tip := Some (BlockHash b)\<rparr>"
    using SetCurrentTip [OF s(1) st] b(1) by (auto simp: stored_as_def)
  have c: "tree_ok (abs s') \<longleftrightarrow> tree_ok (abs s)" "headers (abs s') = headers (abs s)"
    "grows c0 (abs s') \<longleftrightarrow> grows c0 (abs s)" "grows (abs s) (abs s')" "stored_as (abs s') b w"
    using b(1) by (simp_all add: s' tree_ok_def linked_def block_total_work_def headers_def grows_def stored_as_def)
  moreover have "tip_above c0 (abs s')" using b by (auto simp: s' tip_above_def stored_as_def)
  ultimately show ?thesis using s' s(2) by (simp add: sound_def)
qed

lemma known_stored:
  assumes s: "ok s" "sound H c0 (abs s)" and H: "told_apart H" "Header b \<in> H"
    and has: "so_HasBlock ops s (BlockHash b)"
  shows "\<exists>w. stored_as (abs s) b w"
proof -
  obtain x w where x: "ch_blocks (abs s) (BlockHash b) = Some (x, w)" using has s(1) by (auto simp: HasBlock)
  have "BlockHash x = BlockHash b" "Header x \<in> H"
    using x s(2) abs_ok [OF s(1)] headersI [OF x] by (auto simp: chain_ok_def sound_def)
  then have "Header x = Header b" using told_apartD(2) [OF H(1)] H(2) by blast
  then show ?thesis using x by (auto simp: stored_as_def)
qed

lemma insert_next_keeps:
  assumes s: "ok s" "sound H c0 (abs s)" and H: "told_apart H" "Header b \<in> H"
    and pc: "place_ok c0 (abs s) b pc" and v: "cpu_validator L v" and h: "header_ok (Header b)"
    and tip: "ch_tip c0 \<noteq> None"
  shows "\<exists>pc' v' s'. insert_next L numCPU now ops b pc v s = Some (pc', v', s') \<and> ok s' \<and> sound H c0 (abs s') \<and>
    grows (abs s) (abs s') \<and> place_ok c0 (abs s') b pc' \<and> cpu_validator L v' \<and> v_config v' = v_config v"
proof (cases pc)
  case Arrived
  obtain e v1 where V: "ValidateHeader L numCPU now ops v s (Header b) = Some (e, v1)"
    "validator_ok L v1" "v_backend v1 = CPUBackend L" "v_config v1 = v_config v"
    using ValidateHeader_exact [of L v "Header b" numCPU now ops s] v h by (auto simp: cpu_validator_def)
  have "e = None \<Longrightarrow> linked (abs s) b"
    using ValidateHeader_parent [of L numCPU now ops v s "Header b" v1] V(1) check_parent_linked [OF s(1)] by simp
  then show ?thesis using V s Arrived by (cases e) (simp_all add: ValidateBlock_def cpu_validator_def)
next
  case Unchecked
  then show ?thesis using s v pc known_stored [OF s H] by auto
next
  case Known
  then obtain w where w: "stored_as (abs s) b w" using pc by auto
  then have "so_TotalWork ops s (BlockHash b) = Inr w" using TotalWork [OF s(1)] by (auto simp: stored_as_def)
  then show ?thesis using Known s v w by simp
next
  case Weighing
  have "so_TotalWork ops s (hParentHash (Header b)) = Inr w" if "ch_blocks (abs s) (hParentHash (Header b)) = Some (p, w)" for p w
    using TotalWork [OF s(1)] that by simp
  then show ?thesis
    using Weighing s v pc by (auto simp: Let_def linked_def block_total_work_def word_gt_0)
next
  case (Weighed w)
  obtain e s1 where st: "so_StoreBlock ops s b w = (e, s1)" by force
  have lk: "linked (abs s) b" "w = block_total_work (abs s) b" using pc Weighed by simp_all
  show ?thesis
    using store_keeps [OF s H lk(1) st [unfolded lk(2)]] Weighed st v lk(2) by (auto split: option.split)
next
  case (Stored w)
  have b: "stored_as (abs s) b w" using pc Stored by simp
  have "ch_tip (abs s) \<noteq> None" using s(2) tip by (auto simp: sound_def tip_above_def split: option.splits)
  then obtain x xw where "so_CurrentTip ops s = Inr (x, xw)"
    using CurrentTip [OF s(1)] by (cases "the (ch_blocks (abs s) (the (ch_tip (abs s))))") auto
  with choose_above [OF s b this] show ?thesis using Stored s v b by auto
next
  case (Chosen w)
  obtain e s1 where st: "so_SetCurrentTip ops s (BlockHash b) = (e, s1)" by force
  have b: "stored_as (abs s) b w" "above c0 (BlockHash b) w" using pc Chosen by simp_all
  from set_tip_keeps [OF s b st] show ?thesis using Chosen st v by (auto split: option.split)
next
  case (Answered r)
  then show ?thesis using s v pc by simp
qed

end


section \<open>All goroutines\<close>

definition thread_headers :: "'s crowd \<Rightarrow> block_header set" where
  "thread_headers c = Header ` fst ` set (cw_threads c)"

definition template_ok :: "'s node \<Rightarrow> block_header \<Rightarrow> bool" where
  "template_ok n h \<longleftrightarrow> header_ok h \<and> nodes_of (sized (ccSpec (nc_Chain (nd_cfg n))) (hDAGSizeBytes h)) \<noteq> 0"

lemma template_ok_update [simp]:
  "template_ok (n\<lparr>nd_validator := v\<rparr>) h = template_ok n h" "template_ok (n\<lparr>nd_store := s\<rparr>) h = template_ok n h"
  by (simp_all add: template_ok_def)

lemma sealed_template:
  assumes n: "node_base L n" and h: "template_ok n h"
    and seal: "SealBlock L numCPU (nd_validator n) \<lparr>Header = h, Transactions = []\<rparr> maxN r v"
  shows "node_base L (n\<lparr>nd_validator := v\<rparr>) \<and> (\<forall>b res. r = Inr (b, res) \<longrightarrow> header_ok (Header b))"
proof -
  have "cpu_validator L v \<and> v_config v = v_config (nd_validator n) \<and> MiningBackend v = MiningBackend (nd_validator n) \<and>
      validation_allocator v = validation_allocator (nd_validator n)"
    by (rule SealBlock_keeps [OF seal node_baseD(1) [OF n]])
      (use h in \<open>simp_all add: node_baseD(2) [OF n] template_ok_def\<close>)
  moreover have "header_ok (Header b)" if "r = Inr (b, res)" for b res
    using SealBlock_block [OF seal [unfolded that]] h by (auto simp: header_ok_def template_ok_def)
  ultimately show ?thesis using n by (simp add: node_base_def)
qed

definition crowd_ok ::
  "('s \<Rightarrow> bool) \<Rightarrow> ('s \<Rightarrow> chain) \<Rightarrow> hashlib \<Rightarrow> block_header set \<Rightarrow> chain \<Rightarrow> 's crowd \<Rightarrow> bool" where
  "crowd_ok ok view L H c0 c \<longleftrightarrow>
     ok (nd_store (cw_node c)) \<and> sound H c0 (view (nd_store (cw_node c))) \<and> node_base L (cw_node c) \<and>
     (\<forall>h \<in> set (cw_templates c). template_ok (cw_node c) h) \<and>
     (\<forall>(b, pc) \<in> set (cw_threads c). header_ok (Header b) \<and> place_ok c0 (view (nd_store (cw_node c))) b pc)"

lemma set_update_thread: "i < length xs \<Longrightarrow> xs ! i = (b, pc) \<Longrightarrow> fst ` set (xs[i := (b, pc')]) = fst ` set xs"
proof -
  assume "i < length xs" "xs ! i = (b, pc)"
  then have "map fst (xs[i := (b, pc')]) = map fst xs" by (metis fst_conv list_update_id map_update)
  then show ?thesis by (metis image_set)
qed

lemma crowd_step_threads: "crowd_step L numCPU ops c c' \<Longrightarrow> thread_headers c \<subseteq> thread_headers c'"
  by (erule crowd_stepE) (simp_all add: thread_headers_def set_update_thread image_Un, blast+)

lemma crowd_run_threads: "(crowd_step L numCPU ops)\<^sup>*\<^sup>* c c' \<Longrightarrow> thread_headers c \<subseteq> thread_headers c'"
  by (induction rule: rtranclp_induct) (use crowd_step_threads in blast)+

context chain_store
begin

lemma crowd_step_keeps:
  assumes step: "crowd_step L numCPU ops c c'" and c: "crowd_ok ok abs L H c0 c"
    and H: "told_apart H" "thread_headers c' \<subseteq> H" and tip: "ch_tip c0 \<noteq> None"
  shows "crowd_ok ok abs L H c0 c'"
  using step
proof cases
  case (peer b)
  then show ?thesis using c by (simp add: crowd_ok_def)
next
  case (template tip w now h)
  have "node_base L (cw_node c)" using c by (simp add: crowd_ok_def)
  from next_header_ready [OF this template(3)] have "template_ok (cw_node c) h" by (simp add: template_ok_def)
  then show ?thesis using c template(1) by (simp add: crowd_ok_def)
next
  case (mine h b res v)
  then show ?thesis
    using c sealed_template [OF _ _ mine(3)] by (auto simp: crowd_ok_def)
next
  case (mine_fails h e v)
  then show ?thesis
    using c sealed_template [OF _ _ mine_fails(3)] by (auto simp: crowd_ok_def)
next
  case (insert i b pc now pc' v s)
  let ?n = "cw_node c"
  have t: "(b, pc) \<in> set (cw_threads c)" using insert(2,3) nth_mem by fastforce
  then have b: "header_ok (Header b)" "place_ok c0 (abs (nd_store ?n)) b pc" using c by (auto simp: crowd_ok_def)
  have "Header b \<in> thread_headers c'"
    using t insert(1-3) by (auto simp: thread_headers_def set_update_thread image_iff intro!: bexI [of _ "(b, pc)"])
  then have Hb: "Header b \<in> H" using H(2) by blast
  have n: "cpu_validator L (nd_validator ?n)" "node_base L ?n" using c by (simp_all add: crowd_ok_def node_base_def)
  have s: "ok s" "sound H c0 (abs s)" and g: "grows (abs (nd_store ?n)) (abs s)"
    and pl: "place_ok c0 (abs s) b pc'" and v: "cpu_validator L v" "v_config v = v_config (nd_validator ?n)"
    using insert_next_keeps [of "nd_store ?n" H c0 b pc L "nd_validator ?n" numCPU now] c H(1) Hb b n(1) tip insert(4)
    by (auto simp: crowd_ok_def)
  have "header_ok (Header x) \<and> place_ok c0 (abs s) x q" if "(x, q) \<in> set ((cw_threads c)[i := (b, pc')])" for x q
  proof -
    have "(x, q) = (b, pc') \<or> (x, q) \<in> set (cw_threads c)"
      using that set_update_subset_insert [of "cw_threads c" i "(b, pc')"] by blast
    then show ?thesis using b(1) pl c place_ok_grows [OF _ g] by (auto simp: crowd_ok_def)
  qed
  then show ?thesis
    using insert(1) s v n(2) c by (auto simp: crowd_ok_def node_base_def)
qed

lemma crowd_run_keeps:
  assumes "(crowd_step L numCPU ops)\<^sup>*\<^sup>* c c'" and "crowd_ok ok abs L H c0 c"
    and "told_apart H" "thread_headers c' \<subseteq> H" and "ch_tip c0 \<noteq> None"
  shows "crowd_ok ok abs L H c0 c'"
  using assms
proof (induction rule: rtranclp_induct)
  case (step m m')
  then show ?case using crowd_step_threads [OF step.hyps(2)] crowd_step_keeps [OF step.hyps(2)] by blast
qed simp

lemma crowd_never_panics:
  assumes c: "crowd_ok ok abs L H c0 c" and H: "told_apart H" "thread_headers c \<subseteq> H" and tip: "ch_tip c0 \<noteq> None"
    and t: "(b, pc) \<in> set (cw_threads c)"
  shows "insert_next L numCPU now ops b pc (nd_validator (cw_node c)) (nd_store (cw_node c)) \<noteq> None"
proof -
  have "header_ok (Header b)" "place_ok c0 (abs (nd_store (cw_node c))) b pc" "Header b \<in> H"
    using c t H(2) by (force simp: crowd_ok_def thread_headers_def)+
  then show ?thesis
    using insert_next_keeps [of "nd_store (cw_node c)" H c0 b pc L "nd_validator (cw_node c)" numCPU now] c H(1) tip
    by (auto simp: crowd_ok_def node_base_def)
qed

end

lemma tip_above_work:
  assumes "tip_above c0 c" "ch_tip c0 \<noteq> None"
  shows "tip_work c0 \<le> tip_work c"
  using assms by (auto simp: tip_above_def above_def tip_work_def better_iff split: option.splits)


section \<open>A lost update\<close>

text \<open>A goroutine that runs for a while without the others.\<close>

lemma crowd_run_alone:
  assumes "i < length (cw_threads c)" "cw_threads c ! i = (b, pc)"
    and "insert_steps L numCPU now ops b k (pc, nd_validator (cw_node c), nd_store (cw_node c)) = Some (pc', v, s)"
  shows "(crowd_step L numCPU ops)\<^sup>*\<^sup>* c (c\<lparr>cw_node := (cw_node c)\<lparr>nd_validator := v, nd_store := s\<rparr>,
      cw_threads := (cw_threads c)[i := (b, pc')]\<rparr>)"
  using assms
proof (induction k arbitrary: c pc)
  case 0
  then have "c = (c\<lparr>cw_node := (cw_node c)\<lparr>nd_validator := v, nd_store := s\<rparr>,
      cw_threads := (cw_threads c)[i := (b, pc')]\<rparr>)"
    using list_update_id [of "cw_threads c" i] by (cases c; cases "cw_node c") simp
  then show ?case by simp
next
  case (Suc k)
  obtain q w u where 1: "insert_next L numCPU now ops b pc (nd_validator (cw_node c)) (nd_store (cw_node c)) = Some (q, w, u)"
    "insert_steps L numCPU now ops b k (q, w, u) = Some (pc', v, s)"
    using Suc.prems(3) by (auto split: Option.bind_splits)
  let ?c = "c\<lparr>cw_node := (cw_node c)\<lparr>nd_validator := w, nd_store := u\<rparr>, cw_threads := (cw_threads c)[i := (b, q)]\<rparr>"
  have "crowd_step L numCPU ops c ?c" by (rule insert [OF Suc.prems(1,2) 1(1)])
  also have "(crowd_step L numCPU ops)\<^sup>*\<^sup>* ?c (?c\<lparr>cw_node := (cw_node ?c)\<lparr>nd_validator := v, nd_store := s\<rparr>,
      cw_threads := (cw_threads ?c)[i := (b, pc')]\<rparr>)"
    by (rule Suc.IH) (use Suc.prems(1) 1(2) in simp_all)
  finally show ?case by simp
qed

text \<open>In the in-memory store nothing fails: a new block reaches the point where it is chosen, and becomes
  the tip.\<close>

lemma memory_to_choice:
  assumes s: "memory_ok s" and nz: "BlockHash b \<noteq> zero_hash" and lk: "linked (memory_chain s) b"
    and new: "ch_blocks (memory_chain s) (BlockHash b) = None"
    and tip: "ch_tip (memory_chain s) = Some t" "ch_blocks (memory_chain s) t = Some (x, xw)"
    and best: "better (BlockHash b) (block_total_work (memory_chain s) b) t xw"
  shows "\<exists>s'. insert_steps L numCPU now memory_ops b 4 (Unchecked, v, s) =
      Some (Chosen (block_total_work (memory_chain s) b), v, s') \<and> memory_ok s' \<and>
    memory_chain s' = chain_store_block (memory_chain s) b (block_total_work (memory_chain s) b)"
proof -
  let ?w = "block_total_work (memory_chain s) b"
  have has: "\<not> so_HasBlock memory_ops s (BlockHash b)" using new s by (simp add: memory.HasBlock)
  obtain s' where st: "so_StoreBlock memory_ops s b ?w = (None, s')"
    by (simp add: memory_ops_def Memory_StoreBlock_def Let_def)
  have s': "memory_ok s'" "memory_chain s' = chain_store_block (memory_chain s) b ?w"
    using memory.StoreBlock [OF s nz st] by simp_all
  have neq: "t \<noteq> BlockHash b" using tip new by auto
  have x: "BlockHash x = t" using tip memory_chain_ok [OF s] by (auto simp: chain_ok_def)
  have cur: "so_CurrentTip memory_ops s' = Inr (x, xw)"
    using memory.CurrentTip [OF s'(1)] tip neq by (simp add: s'(2) chain_store_block_def)
  have w: "insert_next L numCPU now memory_ops b Weighing v s = Some (Weighed ?w, v, s)"
    using lk s by (auto simp: linked_def block_total_work_def memory.TotalWork word_gt_0 Let_def)
  have "SelectBestChainByTotalWork (BlockHash x) xw (BlockHash b) ?w = BlockHash b"
    using best x by (simp add: Select_better)
  then show ?thesis using has st cur s' w by (simp del: insert_next.simps(4))
qed

lemma memory_choose:
  assumes s: "memory_ok s" and b: "ch_blocks (memory_chain s) (BlockHash b) \<noteq> None"
  shows "\<exists>s'. insert_steps L numCPU now memory_ops b 1 (Chosen w, v, s) = Some (Answered (Inr (w, True)), v, s') \<and>
    memory_ok s' \<and> memory_chain s' = (memory_chain s)\<lparr>ch_tip := Some (BlockHash b)\<rparr>"
proof -
  obtain e s' where st: "so_SetCurrentTip memory_ops s (BlockHash b) = (e, s')" by force
  have "e = None" using st b by (auto simp: memory_ops_def Memory_SetCurrentTip_def memory_chain_def split: option.splits)
  then show ?thesis using st memory.SetCurrentTip [OF s st] b by simp
qed


text \<open>Two validated blocks, both better than the tip: the first is stored and chosen, the second inserted
  as a whole, and then the first becomes the tip.\<close>

lemma lost_update:
  assumes s: "memory_ok s" and t: "ch_tip (memory_chain s) = Some (BlockHash t)"
      "ch_blocks (memory_chain s) (BlockHash t) = Some (t, tw)"
    and b: "BlockHash b \<noteq> zero_hash" "linked (memory_chain s) b" "ch_blocks (memory_chain s) (BlockHash b) = None"
    and b': "BlockHash b' \<noteq> zero_hash" "linked (memory_chain s) b'" "ch_blocks (memory_chain s) (BlockHash b') = None"
    and neq: "BlockHash b \<noteq> BlockHash b'"
    and w: "w = block_total_work (memory_chain s) b" "w' = block_total_work (memory_chain s) b'"
    and better: "better (BlockHash b) w (BlockHash t) tw" "better (BlockHash b') w' (BlockHash b) w"
  shows "\<exists>s1 s2 s3 s4. insert_steps L numCPU now memory_ops b 4 (Unchecked, v, s) = Some (Chosen w, v, s1) \<and>
    insert_steps L numCPU now memory_ops b' 4 (Unchecked, v, s1) = Some (Chosen w', v, s2) \<and>
    insert_steps L numCPU now memory_ops b' 1 (Chosen w', v, s2) = Some (Answered (Inr (w', True)), v, s3) \<and>
    insert_steps L numCPU now memory_ops b 1 (Chosen w, v, s3) = Some (Answered (Inr (w, True)), v, s4) \<and>
    Memory_CurrentTip s4 = Inr (b, w) \<and> Memory_TotalWork s4 (BlockHash b') = Inr w' \<and>
    \<not> best_tip (memory_chain s4)"
proof -
  obtain s1 where s1: "insert_steps L numCPU now memory_ops b 4 (Unchecked, v, s) = Some (Chosen w, v, s1)"
      "memory_ok s1" "memory_chain s1 = chain_store_block (memory_chain s) b w"
    using memory_to_choice [OF s b t better(1) [unfolded w(1)], folded w(1)] by blast
  have g: "grows (memory_chain s) (memory_chain s1)"
    using b(3) by (auto simp: s1(3) grows_def chain_store_block_def)
  note lk = grows_links [OF g b'(2), folded w(2)]
  have t1: "ch_tip (memory_chain s1) = Some (BlockHash t)" "ch_blocks (memory_chain s1) (BlockHash t) = Some (t, tw)"
    "ch_blocks (memory_chain s1) (BlockHash b') = None"
    using t b(3) b'(3) neq by (auto simp: s1(3) chain_store_block_def)
  obtain s2 where s2: "insert_steps L numCPU now memory_ops b' 4 (Unchecked, v, s1) = Some (Chosen w', v, s2)"
      "memory_ok s2" "memory_chain s2 = chain_store_block (memory_chain s1) b' w'"
    using memory_to_choice [OF s1(2) b'(1) lk(1) t1(3,1,2), unfolded lk(2)] better_trans [OF better(2,1)] by blast
  have in2: "ch_blocks (memory_chain s2) (BlockHash b') \<noteq> None" by (simp add: s2(3) chain_store_block_def)
  obtain s3 where s3: "insert_steps L numCPU now memory_ops b' 1 (Chosen w', v, s2) = Some (Answered (Inr (w', True)), v, s3)"
      "memory_ok s3" "memory_chain s3 = (memory_chain s2)\<lparr>ch_tip := Some (BlockHash b')\<rparr>"
    using memory_choose [OF s2(2) in2] by blast
  have in3: "ch_blocks (memory_chain s3) (BlockHash b) \<noteq> None"
    by (simp add: s3(3) s2(3) s1(3) chain_store_block_def)
  obtain s4 where s4: "insert_steps L numCPU now memory_ops b 1 (Chosen w, v, s3) = Some (Answered (Inr (w, True)), v, s4)"
      "memory_ok s4" "memory_chain s4 = (memory_chain s3)\<lparr>ch_tip := Some (BlockHash b)\<rparr>"
    using memory_choose [OF s3(2) in3] by blast
  have c4: "ch_tip (memory_chain s4) = Some (BlockHash b)" "ch_blocks (memory_chain s4) (BlockHash b) = Some (b, w)"
    "ch_blocks (memory_chain s4) (BlockHash b') = Some (b', w')"
    using neq by (simp_all add: s4(3) s3(3) s2(3) s1(3) chain_store_block_def)
  have "\<not> best_tip (memory_chain s4)"
    using c4 neq better_asym [OF better(2)] by (simp add: best_tip_def) (metis)
  moreover have "Memory_CurrentTip s4 = Inr (b, w)" "Memory_TotalWork s4 (BlockHash b') = Inr w'"
    using memory.CurrentTip [OF s4(2)] memory.TotalWork [OF s4(2), of "BlockHash b'"] c4
    by (simp_all add: memory_ops_def)
  ultimately show ?thesis using s1(1) s2(1) s3(1) s4(1) by blast
qed


section \<open>Properties\<close>

text \<open>C11: Uninterrupted, the calls of the store are \<open>InsertBlock\<close>: for every store and every block, a
  goroutine that takes its six steps in a row gives the answer of \<open>InsertBlock\<close> and leaves the store and
  the validator it leaves, and panics when it does.\<close>

theorem insertion_steps_refine:
  "insert_steps L numCPU now ops b 6 (Arrived, v, s) =
     map_option (\<lambda>(r, v, s). (Answered r, v, s)) (InsertBlock L numCPU now ops v s b)"
  by (rule insert_steps_alone)

text \<open>C9: Insertions that overlap keep the tree: whatever blocks a node mines and receives, however many
  goroutines insert them at once and whichever of their calls of the store alternate, none of them
  panics, the chain stays a tree of valid links with the right work, no block is lost or changes its
  work, every block that was answered with a work is stored with it, the work of the tip never falls below
  that of the tip at the start, and the validator's caches stay correct; none of the headers hashes to
  zero, and no two of them to the same value.\<close>

theorem overlapping_insertions_safe:
  assumes n: "node_ok L n" "ch_tip (memory_chain (nd_store n)) \<noteq> None"
    and run: "(crowd_step L numCPU memory_ops)\<^sup>*\<^sup>* (crowd_at n []) c"
    and apart: "told_apart (headers (memory_chain (nd_store n)) \<union> thread_headers c)"
  shows "tree_ok (memory_chain (nd_store (cw_node c))) \<and> chain_ok (memory_chain (nd_store (cw_node c))) \<and>
    grows (memory_chain (nd_store n)) (memory_chain (nd_store (cw_node c))) \<and>
    tip_work (memory_chain (nd_store n)) \<le> tip_work (memory_chain (nd_store (cw_node c))) \<and>
    validator_ok L (nd_validator (cw_node c)) \<and>
    (\<forall>(b, pc) \<in> set (cw_threads c).
       insert_next L numCPU now memory_ops b pc (nd_validator (cw_node c)) (nd_store (cw_node c)) \<noteq> None \<and>
       (case pc of Answered (Inr (w, _)) \<Rightarrow> stored_as (memory_chain (nd_store (cw_node c))) b w | _ \<Rightarrow> True))"
proof -
  let ?c0 = "memory_chain (nd_store n)" and ?H = "headers (memory_chain (nd_store n)) \<union> thread_headers c"
  have "crowd_ok memory_ok memory_chain L ?H ?c0 (crowd_at n [])"
    using n(1) tip_above_refl by (auto simp: crowd_ok_def sound_def node_ok_def chain_inv_def)
  then have c: "crowd_ok memory_ok memory_chain L ?H ?c0 c"
    by (rule memory.crowd_run_keeps [OF run _ apart _ n(2)]) simp
  have panics: "insert_next L numCPU now memory_ops b pc (nd_validator (cw_node c)) (nd_store (cw_node c)) \<noteq> None"
    if "(b, pc) \<in> set (cw_threads c)" for b pc
    by (rule memory.crowd_never_panics [OF c apart _ n(2) that]) simp
  have answers: "case pc of Answered (Inr (w, _)) \<Rightarrow> stored_as (memory_chain (nd_store (cw_node c))) b w | _ \<Rightarrow> True"
    if "(b, pc) \<in> set (cw_threads c)" for b pc
  proof -
    have "place_ok ?c0 (memory_chain (nd_store (cw_node c))) b pc" using c that by (auto simp: crowd_ok_def)
    then show ?thesis by (cases pc) (auto split: sum.splits)
  qed
  have "sound ?H ?c0 (memory_chain (nd_store (cw_node c)))" "memory_ok (nd_store (cw_node c))"
    "validator_ok L (nd_validator (cw_node c))"
    using c by (simp_all add: crowd_ok_def node_base_def cpu_validator_def)
  then show ?thesis
    using memory_chain_ok tip_above_work [OF _ n(2)] panics answers by (fastforce simp: sound_def)
qed

text \<open>C10: The tip is a lost update: when two blocks that are both better than the tip arrive, there is an
  order of the calls in which both are answered with \<open>became tip\<close> and both are stored, and yet the tip
  ends as the worse of them, so it is not the best block any more.\<close>

theorem overlapping_insertions_lose_tip:
  fixes n :: "memory_store node" and L numCPU
  defines "s \<equiv> nd_store n"
  assumes s: "memory_ok s" "chain_inv (memory_chain s)" and tip: "Memory_CurrentTip s = Inr (t, tw)"
    and b: "header_ok (Header b)" "BlockHash b \<noteq> zero_hash" "\<not> Memory_HasBlock s (BlockHash b)"
      "ValidateHeader L numCPU now memory_ops (nd_validator n) s (Header b) = Some (None, v)"
    and b': "header_ok (Header b')" "BlockHash b' \<noteq> zero_hash" "\<not> Memory_HasBlock s (BlockHash b')"
      "ValidateHeader L numCPU now memory_ops v s (Header b') = Some (None, v')"
    and neq: "BlockHash b \<noteq> BlockHash b'"
  defines "w \<equiv> block_total_work (memory_chain s) b" and "w' \<equiv> block_total_work (memory_chain s) b'"
  assumes better: "better (BlockHash b) w (BlockHash t) tw" "better (BlockHash b') w' (BlockHash b) w"
  shows "\<exists>c. (crowd_step L numCPU memory_ops)\<^sup>*\<^sup>* (crowd_at n []) c \<and>
    cw_threads c = [(b, Answered (Inr (w, True))), (b', Answered (Inr (w', True)))] \<and>
    Memory_CurrentTip (nd_store (cw_node c)) = Inr (b, w) \<and>
    Memory_TotalWork (nd_store (cw_node c)) (BlockHash b') = Inr w' \<and>
    \<not> best_tip (memory_chain (nd_store (cw_node c)))"
proof -
  let ?step = "crowd_step L numCPU memory_ops" and ?n = "\<lambda>v s. n\<lparr>nd_validator := v, nd_store := s\<rparr>"
  have cur: "so_CurrentTip memory_ops s = Inr (t, tw)" using tip by (simp add: memory_ops_def)
  note t = memory.tip_block [OF s(1) cur]
  have new: "ch_blocks (memory_chain s) (BlockHash b) = None" "ch_blocks (memory_chain s) (BlockHash b') = None"
    using b(3) b'(3) memory.HasBlock [OF s(1)] by (simp_all add: memory_ops_def del: not_None_eq)
  have lk: "linked (memory_chain s) b" "linked (memory_chain s) b'"
    by (rule memory.check_parent_linked [OF s(1) ValidateHeader_parent [OF b(4)]],
        rule memory.check_parent_linked [OF s(1) ValidateHeader_parent [OF b'(4)]])
  obtain s1 s2 s3 s4 where run: "insert_steps L numCPU now memory_ops b 4 (Unchecked, v', s) = Some (Chosen w, v', s1)"
      "insert_steps L numCPU now memory_ops b' 4 (Unchecked, v', s1) = Some (Chosen w', v', s2)"
      "insert_steps L numCPU now memory_ops b' 1 (Chosen w', v', s2) = Some (Answered (Inr (w', True)), v', s3)"
      "insert_steps L numCPU now memory_ops b 1 (Chosen w, v', s3) = Some (Answered (Inr (w, True)), v', s4)"
    and s4: "Memory_CurrentTip s4 = Inr (b, w)" "Memory_TotalWork s4 (BlockHash b') = Inr w'"
      "\<not> best_tip (memory_chain s4)"
    using lost_update [OF s(1) conjunct1 [OF t] conjunct2 [OF t] b(2) lk(1) new(1) b'(2) lk(2) new(2) neq
        w_def [THEN meta_eq_to_obj_eq] w'_def [THEN meta_eq_to_obj_eq] better] by blast
  let ?c = "crowd_at (?n v' s4) [(b, Answered (Inr (w, True))), (b', Answered (Inr (w', True)))]"
  have "?step\<^sup>*\<^sup>* (crowd_at n []) (crowd_at n [(b, Arrived)])"
    using crowd_step.peer [of b memory_ops "crowd_at n []"] b
    by (intro r_into_rtranclp) (simp add: s_def memory_ops_def)
  also have "?step\<^sup>*\<^sup>* \<dots> (crowd_at n [(b, Arrived), (b', Arrived)])"
    using crowd_step.peer [of b' memory_ops "crowd_at n [(b, Arrived)]"] b'
    by (intro r_into_rtranclp) (simp add: s_def memory_ops_def)
  also have "?step\<^sup>*\<^sup>* \<dots> (crowd_at (?n v s) [(b, Unchecked), (b', Arrived)])"
    using crowd_run_alone [of 0 "crowd_at n [(b, Arrived), (b', Arrived)]" b Arrived L numCPU now
        memory_ops 1] b(4) by (simp add: ValidateBlock_def s_def)
  also have "?step\<^sup>*\<^sup>* \<dots> (crowd_at (?n v' s) [(b, Unchecked), (b', Unchecked)])"
    using crowd_run_alone [of 1 "crowd_at (?n v s) [(b, Unchecked), (b', Arrived)]" b' Arrived L
        numCPU now memory_ops 1] b'(4) by (simp add: ValidateBlock_def)
  also have "?step\<^sup>*\<^sup>* \<dots> (crowd_at (?n v' s1) [(b, Chosen w), (b', Unchecked)])"
    using crowd_run_alone [of 0 "crowd_at (?n v' s) [(b, Unchecked), (b', Unchecked)]" b Unchecked L
        numCPU now memory_ops 4] run(1) by (simp del: insert_steps_numeral)
  also have "?step\<^sup>*\<^sup>* \<dots> (crowd_at (?n v' s2) [(b, Chosen w), (b', Chosen w')])"
    using crowd_run_alone [of 1 "crowd_at (?n v' s1) [(b, Chosen w), (b', Unchecked)]" b' Unchecked L
        numCPU now memory_ops 4] run(2) by (simp del: insert_steps_numeral)
  also have "?step\<^sup>*\<^sup>* \<dots> (crowd_at (?n v' s3) [(b, Chosen w), (b', Answered (Inr (w', True)))])"
    using crowd_run_alone [of 1 "crowd_at (?n v' s2) [(b, Chosen w), (b', Chosen w')]" b' "Chosen w'" L
        numCPU now memory_ops 1] run(3) by simp
  also have "?step\<^sup>*\<^sup>* \<dots> ?c"
    using crowd_run_alone [of 0 "crowd_at (?n v' s3) [(b, Chosen w), (b', Answered (Inr (w', True)))]" b
        "Chosen w" L numCPU now memory_ops 1] run(4) by simp
  finally show ?thesis using s4 by (intro exI [of _ ?c]) simp
qed

text \<open>The two blocks of \<open>NodeSamples\<close>, delivered by two peers to the sample node.\<close>

lemma sample_sibling_rules:
  "header_rules sample_lib 100 tiny_spec memory_ops sample_store ((Header next_block)\<lparr>hNonce := x\<rparr>)"
proof -
  have wrap: "hHeight (Header sample_block) + 1 \<noteq> 0" "sint (hTimestamp (Header sample_block)) < 2 ^ 63 - 1"
    "sint (hTimestamp (Header next_block)) \<le> sint (100 + 2 * 60 * 60 :: i64w)"
    by (simp_all add: sample_block_def sample_header_def next_block_def)
  have "be_val (replicate 32 (255 :: byte)) + 1 = 256 ^ 32" by (rule be_val_max)
  then have bits: "be_val (gcBits (nc_Genesis (nd_cfg sample_node))) \<noteq> 0" by auto
  let ?h = "(Header next_block)\<lparr>hNonce := x\<rparr>"
  have "header_ok ?h" "nodes_of (sized tiny_spec (hDAGSizeBytes ?h)) \<noteq> 0"
    using next_header_ready [OF node_ok_base [OF sample_node_ok] sample_next_header]
    by (simp_all add: header_ok_def sample_config_def)
  then have "stateless_pow sample_lib tiny_spec ?h"
    unfolding stateless_pow_iff [OF tiny_spec_valid _ \<open>nodes_of (sized tiny_spec (hDAGSizeBytes ?h)) \<noteq> 0\<close>
        \<open>header_ok ?h\<close>, simplified]
    by (simp add: next_block_def LessOrEqualBE_max)
  then show ?thesis
    using own_header_rules [OF sample_node_ok sample_node_tip sample_next_header _ wrap(1,2) bits wrap(3)]
    by (simp add: sample_config_def)
qed

lemma ValidateHeader_allocator:
  assumes "ValidateHeader L numCPU now ops v store h = Some (e, v')"
  shows "validation_allocator v' = validation_allocator v"
proof -
  have "v_allocator v' = v_allocator v" "v_miningAllocator v' = v_miningAllocator v"
    using assms
    by (auto simp: ValidateHeader_def validatePoW_def validationDAGForHeader_def sharedMiningDAGForHeader_def Let_def
        split: if_splits option.splits sum.splits Option.bind_splits)
  then show ?thesis
    by (simp only: validation_allocator_def canValidationReuseMiningDAG_def miningAllocatorOrDefault_def)
qed

lemma sample_siblings:
  obtains v v' where
    "ValidateHeader sample_lib 4 100 memory_ops sample_validator sample_store (Header next_block) = Some (None, v)"
    "ValidateHeader sample_lib 4 100 memory_ops v sample_store (Header sibling_block) = Some (None, v')"
proof -
  have h: "header_ok (Header next_block)" "header_ok (Header sibling_block)"
    using next_header_ready(1) [OF node_ok_base [OF sample_node_ok] sample_next_header]
    by (simp_all add: header_ok_def sibling_block_def)
  have nb: "Header next_block = (Header next_block)\<lparr>hNonce := 0\<rparr>"
    "Header sibling_block = (Header next_block)\<lparr>hNonce := 1\<rparr>"
    by (simp_all add: next_block_def sibling_block_def)
  obtain v where v: "ValidateHeader sample_lib 4 100 memory_ops sample_validator sample_store (Header next_block) = Some (None, v)"
      "validator_ok sample_lib v" "v_backend v = CPUBackend sample_lib" "v_config v = sample_config"
    using ValidateHeader_exact [OF sample_validator_ok sample_validator_fields(1) h(1), of 4 100 memory_ops sample_store]
      sample_sibling_rules [of 0, folded nb] sample_allocators(1) by (fastforce simp: sample_config_def)
  moreover obtain v' where "ValidateHeader sample_lib 4 100 memory_ops v sample_store (Header sibling_block) = Some (None, v')"
    using ValidateHeader_exact [OF v(2,3) h(2), of 4 100 memory_ops sample_store]
      sample_sibling_rules [of 1, folded nb] sample_allocators(1) ValidateHeader_allocator [OF v(1)] v(4)
    by (fastforce simp: sample_config_def)
  ultimately show ?thesis using that by blast
qed

lemma sample_sibling_facts:
  "header_ok (Header next_block)" "header_ok (Header sibling_block)"
  "BlockHash next_block \<noteq> zero_hash" "BlockHash sibling_block \<noteq> zero_hash"
  "\<not> Memory_HasBlock sample_store (BlockHash next_block)" "\<not> Memory_HasBlock sample_store (BlockHash sibling_block)"
  "BlockHash next_block \<noteq> BlockHash sibling_block"
  "block_total_work (memory_chain sample_store) next_block = 2 * CalcBlockWork (replicate 32 255)"
  "block_total_work (memory_chain sample_store) sibling_block = 2 * CalcBlockWork (replicate 32 255)"
proof -
  show "header_ok (Header next_block)" "header_ok (Header sibling_block)"
    using next_header_ready(1) [OF node_ok_base [OF sample_node_ok] sample_next_header]
    by (simp_all add: header_ok_def sibling_block_def)
  show "BlockHash next_block \<noteq> zero_hash" "BlockHash sibling_block \<noteq> zero_hash"
    "BlockHash next_block \<noteq> BlockHash sibling_block"
    "\<not> Memory_HasBlock sample_store (BlockHash next_block)" "\<not> Memory_HasBlock sample_store (BlockHash sibling_block)"
    using next_hash_new sibling_hash_new
    by (simp_all add: next_hash sibling_hash Memory_HasBlock_def sample_store_def)
  have "hHeight (Header next_block) = 1" "hTarget (Header next_block) = replicate 32 255"
    "hParentHash (Header next_block) = sample_hash" by (simp_all add: next_block_def)
  then show "block_total_work (memory_chain sample_store) next_block = 2 * CalcBlockWork (replicate 32 255)"
    "block_total_work (memory_chain sample_store) sibling_block = 2 * CalcBlockWork (replicate 32 255)"
    by (simp_all add: block_total_work_def sibling_block_def memory_chain_def sample_store_def)
qed

theorem overlapping_insertions_lose_tip_witness:
  "\<exists>c w. (crowd_step sample_lib 4 memory_ops)\<^sup>*\<^sup>* (crowd_at sample_node []) c \<and>
     w = 2 * CalcBlockWork (replicate 32 255) \<and>
     cw_threads c = [(next_block, Answered (Inr (w, True))), (sibling_block, Answered (Inr (w, True)))] \<and>
     Memory_CurrentTip (nd_store (cw_node c)) = Inr (next_block, w) \<and>
     \<not> best_tip (memory_chain (nd_store (cw_node c)))"
proof -
  note f = sample_sibling_facts
  obtain v v' where v:
    "ValidateHeader sample_lib 4 100 memory_ops sample_validator sample_store (Header next_block) = Some (None, v)"
    "ValidateHeader sample_lib 4 100 memory_ops v sample_store (Header sibling_block) = Some (None, v')"
    by (rule sample_siblings)
  have "1 \<le> CalcBlockWork (replicate 32 255)"
  proof (rule CalcBlockWork_bounds(1))
    have "be_val (replicate 32 (255 :: byte)) + 1 = 256 ^ 32" by (rule be_val_max)
    then show "be_val (replicate 32 (255 :: byte)) \<noteq> 0" by auto
  qed simp
  then have "better (BlockHash next_block) (2 * CalcBlockWork (replicate 32 255)) (BlockHash sample_block)
      (CalcBlockWork (replicate 32 255))"
    "better (BlockHash sibling_block) (2 * CalcBlockWork (replicate 32 255)) (BlockHash next_block)
      (2 * CalcBlockWork (replicate 32 255))"
    using sibling_hash_new(4) by (simp_all add: better_iff next_hash sibling_hash)
  with overlapping_insertions_lose_tip [of sample_node sample_block "CalcBlockWork (replicate 32 255)" next_block
      sample_lib 4 100 v sibling_block v'] f sample_store_ok sample_node_tip v
  show ?thesis by (simp only: sample_node_fields) blast
qed

theorem overlapping_insertions_safe_witness:
  "\<exists>c. (crowd_step sample_lib 4 memory_ops)\<^sup>*\<^sup>* (crowd_at sample_node []) c \<and>
     fst ` set (cw_threads c) = {next_block, sibling_block} \<and>
     tree_ok (memory_chain (nd_store (cw_node c))) \<and>
     CalcBlockWork (replicate 32 255) \<le> tip_work (memory_chain (nd_store (cw_node c)))"
proof -
  let ?c = "crowd_at sample_node [(next_block, Arrived), (sibling_block, Arrived)]"
  note f = sample_sibling_facts
  have chain: "memory_chain sample_store = \<lparr>ch_blocks = [sample_hash \<mapsto> (sample_block, CalcBlockWork (replicate 32 255))],
      ch_tip = Some sample_hash\<rparr>"
    using sample_hash_nonzero by (auto simp: memory_chain_def sample_store_def fun_eq_iff sample_hash)
  have "crowd_step sample_lib 4 memory_ops (crowd_at sample_node [])
      (crowd_at sample_node [(next_block, Arrived)])"
    using crowd_step.peer [of next_block memory_ops "crowd_at sample_node []"] f
    by (simp add: memory_ops_def)
  moreover have "crowd_step sample_lib 4 memory_ops (crowd_at sample_node [(next_block, Arrived)]) ?c"
    using crowd_step.peer [of sibling_block memory_ops "crowd_at sample_node [(next_block, Arrived)]"] f
    by (simp add: memory_ops_def)
  ultimately have run: "(crowd_step sample_lib 4 memory_ops)\<^sup>*\<^sup>* (crowd_at sample_node []) ?c"
    by (rule converse_rtranclp_into_rtranclp [OF _ r_into_rtranclp])
  have "headers (memory_chain (nd_store sample_node)) \<union> thread_headers ?c \<subseteq>
      {Header sample_block, Header next_block, Header sibling_block}"
    by (auto simp: headers_def thread_headers_def chain split: if_splits)
  moreover have "told_apart {Header sample_block, Header next_block, Header sibling_block}"
    using sample_hash next_hash sibling_hash next_hash_new sibling_hash_new sample_hash_nonzero
    by (auto simp: told_apart_def inj_on_def BlockHash_def)
  ultimately have apart: "told_apart (headers (memory_chain (nd_store sample_node)) \<union> thread_headers ?c)"
    unfolding told_apart_def by (meson image_mono inj_on_subset subsetD)
  have "ch_tip (memory_chain (nd_store sample_node)) \<noteq> None" "tip_work (memory_chain (nd_store sample_node)) =
      CalcBlockWork (replicate 32 255)"
    by (simp_all add: chain tip_work_def)
  with overlapping_insertions_safe [OF sample_node_ok _ run apart, of 0] run show ?thesis
    by (intro exI [of _ ?c]) simp
qed

end
