(* ===== verification/Backends.thy ===== *)
theory Backends
  imports Mining
begin

text \<open>
  The hash backends of package \<open>miner\<close>: the CPU backend with its node table (\<open>backend_cpu.go\<close>), the
  unified-memory backend over the bytes of the allocation (\<open>backend_unified.go\<close>), the kernel that hashes
  straight from a contiguous buffer (\<open>backend_common.go\<close>, \<open>shared_dag_hash.go\<close>) and the Metal
  backend (\<open>gpu_backend_metal.go\<close>).

  A backend is a record of its fields; a method returns the backend as it leaves it, and \<open>None\<close> when
  it panics.  A \<open>sync.Pool\<close> is the list of the scratch objects in it; the runtime may empty it at any
  time, so the lemmas hold for every pool of well-formed objects.  A slice that is cut again is kept
  as its length and its contents up to its capacity.  The allocation of a result slice is taken to
  succeed.  The file \<open>shared_dag_hash.go\<close> has its own copies of \<open>fnv1a64\<close> and \<open>blake3RoundInput\<close>, the
  same text as those of \<open>colossusx/hash.go\<close>, which the model uses for both.
\<close>


section \<open>Scratch pools, slices and batches\<close>

datatype backend_error =
    ErrNilDAG | AllocationSmallerThanDAG | KernelSourceMissing | RuntimeInitFailed string
  | RuntimeContextMissing | ProgramBuildFailed string | SVMArgumentFailed string | RuntimeUnavailable
  | StrictNeedsDeviceKernel | MetalAllocationRequired

type_synonym pool = "hash_scratch list"

definition acquire :: "pool \<Rightarrow> nat \<Rightarrow> hash_scratch \<times> pool" where
  "acquire p headerLen =
     (case p of
        [] \<Rightarrow> (EnsureSeedInput (NewHashScratch 0) headerLen None, [])
      | s # p \<Rightarrow> (EnsureSeedInput s headerLen None, p))"

definition release :: "pool \<Rightarrow> hash_scratch option \<Rightarrow> pool" where
  "release p s = (case s of None \<Rightarrow> p | Some x \<Rightarrow> x # p)"

text \<open>One hash with a scratch object of the pool; a nil pool panics.\<close>

definition pooled_hash ::
  "hashlib \<Rightarrow> spec \<Rightarrow> bytes \<Rightarrow> nonce \<Rightarrow> accessor \<Rightarrow> pool option \<Rightarrow> (hash_result \<times> pool) option" where
  "pooled_hash L s header n acc scratch =
     do {
       p \<leftarrow> scratch;
       let (sc, p) = acquire p (length header);
       (h, sc) \<leftarrow> LatticeHash L s header (Some n) (Some acc) (Some sc);
       Some (h, release p sc)
     }"

record go_slice =
  sl_len :: nat
  sl_data :: bytes

definition DAG_slice :: "dag \<Rightarrow> go_slice" where
  "DAG_slice d = \<lparr>sl_len = length (DAG_Bytes d), sl_data = backing d\<rparr>"

text \<open>The loop of every \<open>HashBatch\<close>: \<open>k\<close> hashes are left, \<open>i\<close> is the counter; it ends early when the
  nonce space does.\<close>

fun batch_loop ::
  "(nonce \<Rightarrow> 'b \<Rightarrow> (hash_result \<times> 'b) option) \<Rightarrow> nonce \<Rightarrow> nat \<Rightarrow> u64 \<Rightarrow> 'b \<Rightarrow>
     (hash_result list \<times> 'b) option" where
  "batch_loop hash start 0 i b = Some ([], b)"
| "batch_loop hash start (Suc k) i b =
     (case AddUint64 start i of
        None \<Rightarrow> Some ([], b)
      | Some n \<Rightarrow>
          do {
            (h, b) \<leftarrow> hash n b;
            (hs, b) \<leftarrow> batch_loop hash start k (i + 1) b;
            Some (h # hs, b)
          })"


section \<open>The CPU backend\<close>

definition cpuDAGView :: "bytes list \<Rightarrow> accessor" where
  "cpuDAGView nodes =
     \<lparr>acc_underlying = None,
      acc_NodeCount = Some (of_nat (length nodes)),
      acc_ReadNode = (\<lambda>i out. if unat i < length nodes then Some (nodes ! unat i) else None)\<rparr>"

record cpu_backend =
  cpu_spec :: spec
  cpu_nodes :: "bytes list"
  cpu_scratch :: "pool option"

definition MinerCPU_Prepare :: "cpu_backend \<Rightarrow> dag option \<Rightarrow> (backend_error option \<times> cpu_backend) option" where
  "MinerCPU_Prepare b dag =
     (case dag of
        None \<Rightarrow> Some (Some ErrNilDAG, b)
      | Some d \<Rightarrow>
          let b = (if cpu_scratch b = None then b\<lparr>cpu_scratch := Some []\<rparr> else b);
              b = b\<lparr>cpu_spec := dag_spec d\<rparr>
          in do {
            count \<leftarrow> DAG_NodeCount d;
            nodes \<leftarrow> those (map (\<lambda>i. map_option (\<lambda>node. blit 0 (take 64 node) (replicate 64 0))
                       (DAG_Node d (of_nat i))) [0..<unat count]);
            Some (None, b\<lparr>cpu_nodes := nodes\<rparr>)
          })"

definition MinerCPU_Hash ::
  "hashlib \<Rightarrow> bytes \<Rightarrow> nonce \<Rightarrow> dag option \<Rightarrow> cpu_backend \<Rightarrow> (hash_result \<times> cpu_backend) option" where
  "MinerCPU_Hash L header n dag b =
     do {
       b \<leftarrow> (if cpu_nodes b = [] \<and> dag \<noteq> None then map_option snd (MinerCPU_Prepare b dag) else Some b);
       (h, p) \<leftarrow> pooled_hash L (cpu_spec b) header n (cpuDAGView (cpu_nodes b)) (cpu_scratch b);
       Some (h, b\<lparr>cpu_scratch := Some p\<rparr>)
     }"

definition MinerCPU_HashBatch ::
  "hashlib \<Rightarrow> bytes \<Rightarrow> nonce \<Rightarrow> u64 \<Rightarrow> dag option \<Rightarrow> cpu_backend \<Rightarrow>
     (hash_result list \<times> cpu_backend) option" where
  "MinerCPU_HashBatch L header start count dag b =
     batch_loop (\<lambda>n b. MinerCPU_Hash L header n dag b) start (unat count) 0 b"


section \<open>The unified-memory backend\<close>

record unified_view =
  uv_buf :: go_slice
  uv_nodeSize :: u64
  uv_nodeCount :: u64

definition zero_view :: unified_view where
  "zero_view = \<lparr>uv_buf = \<lparr>sl_len = 0, sl_data = []\<rparr>, uv_nodeSize = 0, uv_nodeCount = 0\<rparr>"

definition newUnifiedMemoryDAGViewFromBytes ::
  "spec \<Rightarrow> go_slice \<Rightarrow> (backend_error + unified_view) option" where
  "newUnifiedMemoryDAGViewFromBytes s buf =
     (if sl_len buf < unat (DAGSizeBytes s) then Some (Inl AllocationSmallerThanDAG)
      else do {
        count \<leftarrow> NodeCount s;
        Some (Inr \<lparr>uv_buf = buf\<lparr>sl_len := unat (DAGSizeBytes s)\<rparr>, uv_nodeSize = NodeSize s,
                   uv_nodeCount = count\<rparr>)
      })"

definition unifiedMemoryDAGView :: "unified_view \<Rightarrow> accessor" where
  "unifiedMemoryDAGView v =
     \<lparr>acc_underlying = None,
      acc_NodeCount = Some (uv_nodeCount v),
      acc_ReadNode = (\<lambda>i out.
        let off = i * uv_nodeSize v
        in map_option (\<lambda>node. blit 0 (take (length out) node) out)
             (slice (sl_data (uv_buf v)) (unat off) (unat (off + uv_nodeSize v))))\<rparr>"

definition contiguousDAGView :: "dag \<Rightarrow> accessor" where
  "contiguousDAGView d =
     \<lparr>acc_underlying = None, acc_NodeCount = DAG_NodeCount d, acc_ReadNode = DAG_ReadNode d\<rparr>"

record unified_backend =
  ub_spec :: spec
  ub_shared :: unified_view
  ub_scratch :: "pool option"
  ub_strategyName :: string

definition Unified_Description :: "unified_backend \<Rightarrow> string" where
  "Unified_Description b =
     (let name = (if ub_strategyName b = [] then ''go-heap'' else ub_strategyName b)
      in ''unified-memory-compatible backend (dag-allocation='' @ name @ '')'')"

definition Unified_Prepare ::
  "unified_backend \<Rightarrow> dag option \<Rightarrow> (backend_error option \<times> unified_backend) option" where
  "Unified_Prepare b dag =
     (case dag of
        None \<Rightarrow> Some (Some ErrNilDAG, b)
      | Some d \<Rightarrow>
          (case newUnifiedMemoryDAGViewFromBytes (dag_spec d) (DAG_slice d) of
             None \<Rightarrow> None
           | Some (Inl e) \<Rightarrow> Some (Some e, b)
           | Some (Inr shared) \<Rightarrow>
               let b = b\<lparr>ub_spec := dag_spec d, ub_shared := shared\<rparr>;
                   named = DAG_AllocationName d;
                   b = (if named \<noteq> [] then b\<lparr>ub_strategyName := named\<rparr> else b);
                   b = (if ub_scratch b = None then b\<lparr>ub_scratch := Some []\<rparr> else b)
               in Some (None, b)))"

text \<open>The preparation a call runs first when the view has no node yet.\<close>

definition Unified_ready ::
  "unified_backend \<Rightarrow> dag option \<Rightarrow> (backend_error option \<times> unified_backend) option" where
  "Unified_ready b dag = (if uv_nodeCount (ub_shared b) = 0 then Unified_Prepare b dag else Some (None, b))"

definition Unified_Hash ::
  "hashlib \<Rightarrow> bytes \<Rightarrow> nonce \<Rightarrow> dag option \<Rightarrow> unified_backend \<Rightarrow>
     (hash_result \<times> unified_backend) option" where
  "Unified_Hash L header n dag b =
     do {
       (e, b) \<leftarrow> Unified_ready b dag;
       if e \<noteq> None then Some (zero_result, b)
       else do {
         (h, p) \<leftarrow> pooled_hash L (ub_spec b) header n (unifiedMemoryDAGView (ub_shared b)) (ub_scratch b);
         Some (h, b\<lparr>ub_scratch := Some p\<rparr>)
       }
     }"

definition Unified_HashBatch ::
  "hashlib \<Rightarrow> bytes \<Rightarrow> nonce \<Rightarrow> u64 \<Rightarrow> dag option \<Rightarrow> unified_backend \<Rightarrow>
     ((backend_error + hash_result list) \<times> unified_backend) option" where
  "Unified_HashBatch L header start count dag b =
     (case Unified_ready b dag of
        None \<Rightarrow> None
      | Some (Some e, b) \<Rightarrow> Some (Inl e, b)
      | Some (None, b) \<Rightarrow>
          map_option (\<lambda>(hs, b). (Inr hs, b))
            (batch_loop (\<lambda>n b. Unified_Hash L header n dag b) start (unat count) 0 b))"


section \<open>Hashing from the raw buffer\<close>

record raw_buffer =
  raw_Ptr :: bool
  raw_Bytes :: go_slice
  raw_ByteLen :: u64
  raw_NodeSize :: u64
  raw_NodeCount :: u64

text \<open>\<open>raw_Ptr\<close> says whether the pointer to the first byte is set.\<close>

definition newRawContiguousDAGBuffer :: "dag option \<Rightarrow> (backend_error + raw_buffer) option" where
  "newRawContiguousDAGBuffer dag =
     (case dag of
        None \<Rightarrow> Some (Inl ErrNilDAG)
      | Some d \<Rightarrow>
          let buf = DAG_slice d; size = DAGSizeBytes (dag_spec d) in
          if sl_len buf < unat size then Some (Inl AllocationSmallerThanDAG)
          else do {
            count \<leftarrow> DAG_NodeCount d;
            Some (Inr \<lparr>raw_Ptr = (0 < sl_len buf), raw_Bytes = buf\<lparr>sl_len := unat size\<rparr>,
              raw_ByteLen = size, raw_NodeSize = NodeSize (dag_spec d), raw_NodeCount = count\<rparr>)
          })"

definition readRawDAGNode :: "raw_buffer \<Rightarrow> u64 \<Rightarrow> bytes \<Rightarrow> bytes option" where
  "readRawDAGNode dag idx out =
     (let off = idx * raw_NodeSize dag
      in map_option (\<lambda>node. blit 0 (take (length out) node) out)
           (slice (sl_data (raw_Bytes dag)) (unat off) (unat (off + raw_NodeSize dag))))"

text \<open>The read loop over the arrays \<open>mix\<close>, \<open>fnvInput\<close> and \<open>node\<close>.\<close>

fun shared_rounds ::
  "hashlib \<Rightarrow> raw_buffer \<Rightarrow> nat \<Rightarrow> u64 \<Rightarrow> bytes \<Rightarrow> bytes \<Rightarrow> bytes \<Rightarrow> bytes option" where
  "shared_rounds L dag 0 r mix fnvInput node = Some mix"
| "shared_rounds L dag (Suc k) r mix fnvInput node =
     (let fnvInput = blit 32 (put_le 8 r) (blit 0 mix fnvInput);
          nodeIdx = fnv1a64 fnvInput mod raw_NodeCount dag
      in do {
        node \<leftarrow> readRawDAGNode dag nodeIdx node;
        shared_rounds L dag k (r + 1) (blit 0 (blake3_256 L (blake3RoundInput mix node)) mix) fnvInput node
      })"

definition latticeHashSharedBuffer ::
  "hashlib \<Rightarrow> spec \<Rightarrow> bytes \<Rightarrow> nonce option \<Rightarrow> raw_buffer \<Rightarrow> hash_result option" where
  "latticeHashSharedBuffer L s header n dag =
     (if raw_NodeCount dag = 0 \<or> raw_NodeSize dag = 0 \<or> raw_ByteLen dag = 0 then Some zero_result
      else
        let seed512 = sha3_512 L (seed_bytes header n) in
        do {
          mix \<leftarrow> shared_rounds L dag (unat (ReadsPerHash s)) 0 (take 32 seed512)
                   (replicate 40 0) (replicate 64 0);
          let final512 = sha3_512 L (blit 64 mix (blit 0 seed512 (replicate 96 0)));
          Some \<lparr>Pow256 = take 32 final512, Full512 = final512\<rparr>
        })"

definition HashBatchShared ::
  "hashlib \<Rightarrow> spec \<Rightarrow> bytes \<Rightarrow> nonce \<Rightarrow> u64 \<Rightarrow> raw_buffer \<Rightarrow> hash_result list option" where
  "HashBatchShared L s header start count dag =
     map_option fst
       (batch_loop (\<lambda>n u. map_option (\<lambda>h. (h, u)) (latticeHashSharedBuffer L s header (Some n) dag))
          start (unat count) 0 ())"


section \<open>The Metal backend\<close>

text \<open>Its methods call the DAG's, so a nil DAG panics; \<open>HashBatch\<close> drops the flag of \<open>AddUint64\<close> and
  hashes with the nil nonce it returns.\<close>

definition Metal_Prepare :: "dag option \<Rightarrow> backend_error option option" where
  "Metal_Prepare dag =
     (case dag of
        None \<Rightarrow> None
      | Some d \<Rightarrow>
          Some (if Mode (dag_spec d) = ModeStrict \<and> DAG_AllocationName d \<noteq> ''metal-shared''
                then Some MetalAllocationRequired else None))"

definition Metal_Hash :: "bytes \<Rightarrow> nonce option \<Rightarrow> dag option \<Rightarrow> hash_result option" where
  "Metal_Hash header n dag =
     (case dag of None \<Rightarrow> None | Some d \<Rightarrow> StrictV2Hash (dag_spec d) header n (Some (tensorView d)))"

definition Metal_HashBatch :: "bytes \<Rightarrow> nonce \<Rightarrow> u64 \<Rightarrow> dag option \<Rightarrow> hash_result list option" where
  "Metal_HashBatch header start count dag =
     those (map (\<lambda>i. Metal_Hash header (AddUint64 start (of_nat i)) dag) [0..<unat count])"

end
