(* ===== verification/BackendProofs.thy ===== *)
theory BackendProofs
  imports Backends MiningProofs
begin

text \<open>
  The backends of package \<open>miner\<close> compute the lattice hash of the node table of the DAG they were
  prepared with, for every nonce of a batch, whatever their pool of scratch objects holds.  The locale
  \<open>header_hasher\<close> is what a batch needs of the hash it repeats; every backend interprets it.
\<close>


section \<open>Batches\<close>

locale header_hasher =
  fixes inv :: "'b \<Rightarrow> bool"
    and hash :: "nonce \<Rightarrow> 'b \<Rightarrow> (hash_result \<times> 'b) option"
    and ref :: "nonce \<Rightarrow> hash_result"
  assumes hash: "inv b \<Longrightarrow> \<exists>b'. hash n b = Some (ref n, b') \<and> inv b'"
begin

lemma loop:
  "inv b \<Longrightarrow> unat i + k < 2 ^ 64 \<Longrightarrow>
   \<exists>b'. batch_loop hash start k i b =
     Some (map (\<lambda>j. ref (start + of_nat j)) [unat i..<min (unat i + k) (2 ^ 64 - unat start)], b') \<and> inv b'"
proof (induction k arbitrary: i b)
  case 0
  then show ?case by simp
next
  case (Suc k)
  have i1: "unat (i + 1) = unat i + 1" using Suc.prems by (subst unat_add64) simp_all
  show ?case
  proof (cases "AddUint64 start i")
    case None
    then have "2 ^ 64 - unat start \<le> unat i" by (simp only: AddUint64_None_iff)
    then show ?thesis using None Suc.prems by simp
  next
    case (Some n)
    have n: "n = start + i"
      using Some unfolding AddUint64_def by (auto split: if_splits)
    have "unat start + unat i < 2 ^ 64"
      using Some unat_less64 [of n] by (simp add: AddUint64_Some_iff)
    then have "unat i < min (unat i + Suc k) (2 ^ 64 - unat start)" by simp
    then have cons: "[unat i..<min (unat i + Suc k) (2 ^ 64 - unat start)] =
        unat i # [unat (i + 1)..<min (unat (i + 1) + k) (2 ^ 64 - unat start)]"
      by (simp only: upt_conv_Cons i1) simp
    obtain b1 where b1: "hash n b = Some (ref n, b1)" "inv b1" using hash [OF Suc.prems(1)] by blast
    obtain b2 where b2: "batch_loop hash start k (i + 1) b1 =
        Some (map (\<lambda>j. ref (start + of_nat j))
          [unat (i + 1)..<min (unat (i + 1) + k) (2 ^ 64 - unat start)], b2)" "inv b2"
      using Suc.IH [OF b1(2), of "i + 1"] Suc.prems(2) i1 by auto
    show ?thesis
      unfolding batch_loop.simps Some cons using b1(1) b2 by (simp add: n)
  qed
qed

lemma batch:
  assumes "inv b"
  shows "\<exists>b'. batch_loop hash start (unat count) 0 b = Some (batch_results ref start count, b') \<and> inv b'"
  using loop [OF assms, of 0 "unat count" start] unat_less64 [of count]
  by (simp add: batch_results_def)

end


section \<open>A hash with pooled scratch space\<close>

definition pool_ok :: "pool \<Rightarrow> bool" where
  "pool_ok p \<longleftrightarrow> list_all scratch_ok p"

lemma acquire_ok: "pool_ok p \<Longrightarrow> acquire p k = (sc, p') \<Longrightarrow> scratch_ok sc \<and> pool_ok p'"
  by (auto simp: acquire_def pool_ok_def split: list.splits)

context node_source
begin

lemma LatticeHash_scratch:
  assumes ok: "ok v" and sc: "scratch_ok sc" and plain: "acc_underlying (view v) = None"
  shows "\<exists>sc'. LatticeHash L s header n (Some (view v)) (Some sc) =
    Some (lattice_reference L s (cnt v) (nd v) header n, Some sc') \<and> scratch_ok sc'"
proof -
  obtain sc' where p: "lattice_path L s header n (view v) sc =
      Some (lattice_reference L s (cnt v) (nd v) header n, sc')" "scratch_ok sc'"
    using path [OF ok sc] by blast
  show ?thesis
    using p plain count_nonzero [OF ok] by (simp add: LatticeHash_def lattice_or_zero_def count [OF ok])
qed

lemma pooled:
  assumes ok: "ok v" and p: "pool_ok p" and plain: "acc_underlying (view v) = None"
  shows "\<exists>p'. pooled_hash L s header n (view v) (Some p) =
    Some (lattice_reference L s (cnt v) (nd v) header (Some n), p') \<and> pool_ok p'"
proof -
  obtain sc p1 where a: "acquire p (length header) = (sc, p1)" by fastforce
  from LatticeHash_scratch [OF ok _ plain, of sc L s header "Some n"] acquire_ok [OF p a]
  show ?thesis by (auto simp: pooled_hash_def a release_def pool_ok_def)
qed

end


section \<open>The views of the backends as node tables\<close>

definition nodes_ok :: "bytes list \<Rightarrow> bool" where
  "nodes_ok nodes \<longleftrightarrow> nodes \<noteq> [] \<and> length nodes < 2 ^ 64 \<and> list_all (\<lambda>node. length node = 64) nodes"

interpretation cpu_nodes: node_source nodes_ok cpuDAGView length nth
  by unfold_locales
    (auto simp: nodes_ok_def cpuDAGView_def unat_of_nat64 order_less_trans list_all_length)

definition slice_table :: "go_slice \<Rightarrow> nat \<Rightarrow> bytes" where
  "slice_table buf i = take 64 (drop (64 * i) (sl_data buf))"

lemma slice_node:
  assumes "64 * cnt \<le> length data" "64 * cnt < 2 ^ 64" "i < cnt"
  shows "slice data (unat (of_nat i * 64 :: u64)) (unat (of_nat i * 64 + 64 :: u64)) =
    Some (take 64 (drop (64 * i) data))"
proof -
  have i: "64 * i + 64 \<le> 64 * cnt" using assms(3) by simp
  then have i64: "64 * i + 64 < 2 ^ 64" using assms(2) by linarith
  have lo: "unat (of_nat i * 64 :: u64) = 64 * i"
    using i64 by (subst unat_mult64) (simp_all add: unat_of_nat64)
  then have "unat (of_nat i * 64 + 64 :: u64) = 64 * i + 64"
    using i64 by (subst unat_add64) simp_all
  then show ?thesis using i assms(1) by (simp add: lo slice_Some)
qed

definition view_ok :: "unified_view \<Rightarrow> bool" where
  "view_ok v \<longleftrightarrow> uv_nodeSize v = 64 \<and> uv_nodeCount v \<noteq> 0 \<and>
     64 * unat (uv_nodeCount v) \<le> length (sl_data (uv_buf v)) \<and> 64 * unat (uv_nodeCount v) < 2 ^ 64"

lemma length_slice_table:
  "64 * cnt \<le> length (sl_data buf) \<Longrightarrow> i < cnt \<Longrightarrow> length (slice_table buf i) = 64"
  by (simp add: slice_table_def)

interpretation unified_nodes: node_source view_ok unifiedMemoryDAGView
  "\<lambda>v. unat (uv_nodeCount v)" "\<lambda>v. slice_table (uv_buf v)"
proof unfold_locales
  fix v and i and out :: bytes
  assume ok: "view_ok v"
  show "0 < unat (uv_nodeCount v) \<and> unat (uv_nodeCount v) < 2 ^ 64"
    using ok unat_less64 by (simp add: view_ok_def unat_gt_0)
  show "acc_NodeCount (unifiedMemoryDAGView v) = Some (of_nat (unat (uv_nodeCount v)))"
    by (simp add: unifiedMemoryDAGView_def)
  assume i: "i < unat (uv_nodeCount v)"
  show len: "length (slice_table (uv_buf v) i) = 64"
    using ok i by (auto simp: view_ok_def intro: length_slice_table)
  assume "length out = 64"
  then show "acc_ReadNode (unifiedMemoryDAGView v) (of_nat i) out = Some (slice_table (uv_buf v) i)"
    using slice_node [OF _ _ i, of "sl_data (uv_buf v)"] ok len
    by (simp add: unifiedMemoryDAGView_def view_ok_def Let_def blit_front flip: slice_table_def)
qed

interpretation contiguous_nodes: node_source dag_ok contiguousDAGView "\<lambda>d. nodes_of (dag_spec d)" DAG_table
  using dag_nodes.cnt_range dag_nodes.count dag_nodes.read dag_nodes.node_length
  by unfold_locales (simp_all add: contiguousDAGView_def DAG_accessor_def)


section \<open>The raw buffer\<close>

definition raw_ok :: "raw_buffer \<Rightarrow> bool" where
  "raw_ok r \<longleftrightarrow> raw_NodeSize r = 64 \<and> raw_NodeCount r \<noteq> 0 \<and> raw_ByteLen r \<noteq> 0 \<and>
     64 * unat (raw_NodeCount r) \<le> length (sl_data (raw_Bytes r)) \<and> 64 * unat (raw_NodeCount r) < 2 ^ 64"

abbreviation raw_table :: "raw_buffer \<Rightarrow> nat \<Rightarrow> bytes" where
  "raw_table r \<equiv> slice_table (raw_Bytes r)"

lemma readRaw:
  assumes ok: "raw_ok r" and i: "i < unat (raw_NodeCount r)" and "length out = 64"
  shows "readRawDAGNode r (of_nat i) out = Some (raw_table r i) \<and> length (raw_table r i) = 64"
proof -
  have "length (raw_table r i) = 64" using ok i by (auto simp: raw_ok_def intro: length_slice_table)
  then show ?thesis
    using slice_node [OF _ _ i, of "sl_data (raw_Bytes r)"] assms
    by (simp add: readRawDAGNode_def raw_ok_def Let_def blit_front flip: slice_table_def)
qed

lemma length_ref_rounds [len_simps]: "length mix = 32 \<Longrightarrow> length (ref_rounds L cnt nd k r mix) = 32"
  by (induction k arbitrary: r mix) simp_all

lemma shared_rounds_reference:
  "raw_ok r \<Longrightarrow> length mix = 32 \<Longrightarrow> length fnvInput = 40 \<Longrightarrow> length node = 64 \<Longrightarrow>
   shared_rounds L r k j mix fnvInput node =
     Some (ref_rounds L (unat (raw_NodeCount r)) (raw_table r) k j mix)"
proof (induction k arbitrary: j mix fnvInput node)
  case 0
  then show ?case by simp
next
  case (Suc k)
  have c: "0 < unat (raw_NodeCount r)" using Suc.prems(1) by (simp add: raw_ok_def unat_gt_0)
  let ?h = "fnv1a64 (mix @ put_le 8 j)"
  let ?i = "unat ?h mod unat (raw_NodeCount r)"
  have i: "?h mod raw_NodeCount r = of_nat ?i" "?i < unat (raw_NodeCount r)"
    using unat_mod_of_nat [OF c unat_less64, of ?h] by simp_all
  have fnv: "blit 32 (put_le 8 j) (blit 0 mix fnvInput) = mix @ put_le 8 j"
    using Suc.prems by (intro blit_two) simp_all
  show ?case
    using Suc.IH [OF Suc.prems(1)] readRaw [OF Suc.prems(1) i(2) Suc.prems(4)] Suc.prems(2,4)
    by (simp add: Let_def fnv i(1) blit_front)
qed

lemma latticeHashSharedBuffer_reference:
  assumes ok: "raw_ok r"
  shows "latticeHashSharedBuffer L s header n r =
    Some (lattice_reference L s (unat (raw_NodeCount r)) (raw_table r) header n)"
proof -
  let ?s5 = "sha3_512 L (seed_bytes header n)"
  let ?mix = "ref_rounds L (unat (raw_NodeCount r)) (raw_table r) (unat (ReadsPerHash s)) 0 (take 32 ?s5)"
  have m: "shared_rounds L r (unat (ReadsPerHash s)) 0 (take 32 ?s5) (replicate 40 0) (replicate 64 0) =
      Some ?mix" "length ?mix = 32"
    by (simp_all add: shared_rounds_reference [OF ok] length_ref_rounds)
  have "blit 64 ?mix (blit 0 ?s5 (replicate 96 0)) = ?s5 @ ?mix"
    using m(2) by (intro blit_two) simp_all
  then show ?thesis
    using ok m(1) by (simp add: latticeHashSharedBuffer_def raw_ok_def lattice_reference_def Let_def)
qed


section \<open>Preparing a backend\<close>

lemma DAG_slice_table: "slice_table (DAG_slice d) = DAG_table d"
  by (simp add: fun_eq_iff slice_table_def DAG_slice_def DAG_table_def)

lemma slice_table_len [simp]: "slice_table (buf\<lparr>sl_len := k\<rparr>) = slice_table buf"
  by (simp add: fun_eq_iff slice_table_def)

lemma DAG_slice_simps [simp]: "dag_ok d \<Longrightarrow> sl_len (DAG_slice d) = unat (DAGSizeBytes (dag_spec d))"
  "sl_data (DAG_slice d) = backing d"
  by (simp_all add: DAG_slice_def length_DAG_Bytes)

lemma dag_count_word:
  assumes "dag_ok d"
  shows "unat (of_nat (nodes_of (dag_spec d)) :: u64) = nodes_of (dag_spec d)"
    "of_nat (nodes_of (dag_spec d)) \<noteq> (0 :: u64)"
  using dag_nodes.cnt_range [OF assms] dag_nodes.count_nonzero [OF assms] by (simp_all add: unat_of_nat64)

definition cpu_ready :: "dag \<Rightarrow> cpu_backend \<Rightarrow> bool" where
  "cpu_ready d b \<longleftrightarrow> cpu_spec b = dag_spec d \<and>
     cpu_nodes b = map (DAG_table d) [0..<nodes_of (dag_spec d)] \<and>
     (case cpu_scratch b of None \<Rightarrow> False | Some p \<Rightarrow> pool_ok p)"

definition scratch_fine :: "pool option \<Rightarrow> bool" where
  "scratch_fine p = (case p of None \<Rightarrow> True | Some p \<Rightarrow> pool_ok p)"

lemma CPU_Prepare_ready:
  assumes ok: "dag_ok d" and p: "scratch_fine (cpu_scratch b)"
  shows "\<exists>b'. MinerCPU_Prepare b (Some d) = Some (None, b') \<and> cpu_ready d b'"
proof -
  have nodes: "those (map (\<lambda>i. map_option (\<lambda>node. blit 0 (take 64 node) (replicate 64 0))
      (DAG_Node d (of_nat i))) [0..<nodes_of (dag_spec d)]) =
    Some (map (DAG_table d) [0..<nodes_of (dag_spec d)])"
    by (rule those_map_Some) (simp add: DAG_Node_table [OF ok] blit_front)
  show ?thesis
    using p by (auto simp: MinerCPU_Prepare_def dag_count [OF ok] dag_count_word [OF ok] Let_def nodes
        cpu_ready_def scratch_fine_def pool_ok_def split: option.splits)
qed

lemma cpu_ready_nodes:
  assumes "dag_ok d" and "cpu_ready d b"
  shows "nodes_ok (cpu_nodes b)" "length (cpu_nodes b) = nodes_of (dag_spec d)"
  using assms dag_nodes.cnt_range [OF assms(1)] dag_nodes.node_length [OF assms(1)]
  by (simp_all add: cpu_ready_def nodes_ok_def list_all_iff)

definition dag_reference :: "hashlib \<Rightarrow> dag \<Rightarrow> bytes \<Rightarrow> nonce \<Rightarrow> hash_result" where
  "dag_reference L d header n =
     lattice_reference L (dag_spec d) (nodes_of (dag_spec d)) (DAG_table d) header (Some n)"

lemma lattice_reference_cong:
  assumes "0 < cnt" and "\<forall>i < cnt. nd i = nd' i"
  shows "lattice_reference L s cnt nd header n = lattice_reference L s cnt nd' header n"
  by (simp add: lattice_reference_def ref_rounds_cong [OF assms])

lemma CPU_Hash_reference:
  assumes ok: "dag_ok d" and b: "cpu_ready d b"
  shows "\<exists>b'. MinerCPU_Hash L header n dag b = Some (dag_reference L d header n, b') \<and> cpu_ready d b'"
proof -
  obtain p where p: "cpu_scratch b = Some p" "pool_ok p"
    using b by (auto simp: cpu_ready_def split: option.splits)
  note nodes = cpu_ready_nodes [OF ok b]
  have plain: "acc_underlying (cpuDAGView (cpu_nodes b)) = None" by (simp add: cpuDAGView_def)
  have tab: "\<forall>i < nodes_of (dag_spec d). cpu_nodes b ! i = DAG_table d i"
    using b by (simp add: cpu_ready_def)
  have ref: "lattice_reference L (cpu_spec b) (length (cpu_nodes b)) ((!) (cpu_nodes b)) header (Some n) =
      dag_reference L d header n"
    using b lattice_reference_cong [OF _ tab] dag_nodes.cnt_range [OF ok]
    by (simp add: dag_reference_def nodes(2)) (simp add: cpu_ready_def)
  obtain p' where "pooled_hash L (cpu_spec b) header n (cpuDAGView (cpu_nodes b)) (Some p) =
      Some (dag_reference L d header n, p')" "pool_ok p'"
    using cpu_nodes.pooled [OF nodes(1) p(2) plain, of L "cpu_spec b" header n] ref by auto
  then show ?thesis
    using b nodes(1) p(1) by (auto simp: MinerCPU_Hash_def cpu_ready_def nodes_ok_def)
qed

definition unified_ready :: "dag \<Rightarrow> unified_backend \<Rightarrow> bool" where
  "unified_ready d b \<longleftrightarrow> ub_spec b = dag_spec d \<and> view_ok (ub_shared b) \<and>
     unat (uv_nodeCount (ub_shared b)) = nodes_of (dag_spec d) \<and>
     slice_table (uv_buf (ub_shared b)) = DAG_table d \<and>
     (case ub_scratch b of None \<Rightarrow> False | Some p \<Rightarrow> pool_ok p)"

lemma dag_view:
  assumes ok: "dag_ok d"
  shows "newUnifiedMemoryDAGViewFromBytes (dag_spec d) (DAG_slice d) =
    Some (Inr \<lparr>uv_buf = DAG_slice d, uv_nodeSize = 64, uv_nodeCount = of_nat (nodes_of (dag_spec d))\<rparr>)"
    and "view_ok \<lparr>uv_buf = DAG_slice d, uv_nodeSize = 64, uv_nodeCount = of_nat (nodes_of (dag_spec d))\<rparr>"
proof -
  have f: "fits (dag_spec d) (backing d)" using ok by (simp add: dag_ok_def)
  have cut: "DAG_slice d\<lparr>sl_len := unat (DAGSizeBytes (dag_spec d))\<rparr> = DAG_slice d"
    using DAG_slice_simps(1) [OF ok] by (simp add: DAG_slice_def)
  have cnt: "NodeCount (dag_spec d) = Some (of_nat (nodes_of (dag_spec d)))"
    using dag_count [OF ok] by (simp add: DAG_NodeCount_def)
  show "newUnifiedMemoryDAGViewFromBytes (dag_spec d) (DAG_slice d) =
      Some (Inr \<lparr>uv_buf = DAG_slice d, uv_nodeSize = 64, uv_nodeCount = of_nat (nodes_of (dag_spec d))\<rparr>)"
    by (simp add: newUnifiedMemoryDAGViewFromBytes_def ok cnt cut fitsD(1) [OF f])
  show "view_ok \<lparr>uv_buf = DAG_slice d, uv_nodeSize = 64, uv_nodeCount = of_nat (nodes_of (dag_spec d))\<rparr>"
    using fitsD(4,5) [OF f] dag_count_word [OF ok] by (simp add: view_ok_def)
qed

lemma Unified_Prepare_ready:
  assumes ok: "dag_ok d" and p: "scratch_fine (ub_scratch b)"
  shows "\<exists>b'. Unified_Prepare b (Some d) = Some (None, b') \<and> unified_ready d b'"
  using p dag_view(2) [OF ok] dag_count_word [OF ok]
  by (auto simp: Unified_Prepare_def dag_view(1) [OF ok] Let_def unified_ready_def DAG_slice_table
      scratch_fine_def pool_ok_def split: option.splits)

lemma Unified_Hash_reference:
  assumes ok: "dag_ok d" and b: "unified_ready d b"
  shows "\<exists>b'. Unified_Hash L header n dag b = Some (dag_reference L d header n, b') \<and> unified_ready d b'"
proof -
  obtain p where p: "ub_scratch b = Some p" "pool_ok p"
    using b by (auto simp: unified_ready_def split: option.splits)
  have v: "view_ok (ub_shared b)" using b by (simp add: unified_ready_def)
  have plain: "acc_underlying (unifiedMemoryDAGView (ub_shared b)) = None"
    by (simp add: unifiedMemoryDAGView_def)
  obtain p' where "pooled_hash L (ub_spec b) header n (unifiedMemoryDAGView (ub_shared b)) (Some p) =
      Some (dag_reference L d header n, p')" "pool_ok p'"
    using unified_nodes.pooled [OF v p(2) plain, of L "ub_spec b" header n] b
    by (auto simp: unified_ready_def dag_reference_def)
  then show ?thesis
    using b v p(1) by (auto simp: Unified_Hash_def Unified_ready_def unified_ready_def view_ok_def)
qed

lemma dag_raw:
  assumes ok: "dag_ok d"
  obtains r where "newRawContiguousDAGBuffer (Some d) = Some (Inr r)" "raw_ok r"
    "unat (raw_NodeCount r) = nodes_of (dag_spec d)" "raw_table r = DAG_table d"
proof -
  have f: "fits (dag_spec d) (backing d)" using ok by (simp add: dag_ok_def)
  then have "DAGSizeBytes (dag_spec d) \<noteq> 0" by (simp add: fits_def)
  then show thesis
    using that fitsD(1,4,5) [OF f] dag_count_word [OF ok]
    by (simp add: newRawContiguousDAGBuffer_def ok Let_def dag_count [OF ok] raw_ok_def DAG_slice_table)
qed


section \<open>The backends as hashers\<close>

interpretation cpu_hasher: header_hasher "\<lambda>b. dag_ok d \<and> cpu_ready d b"
  "\<lambda>n b. MinerCPU_Hash L header n dag b" "dag_reference L d header" for L d header dag
  by unfold_locales (use CPU_Hash_reference in blast)

interpretation unified_hasher: header_hasher "\<lambda>b. dag_ok d \<and> unified_ready d b"
  "\<lambda>n b. Unified_Hash L header n dag b" "dag_reference L d header" for L d header dag
  by unfold_locales (use Unified_Hash_reference in blast)

interpretation raw_hasher: header_hasher "\<lambda>u. raw_ok r"
  "\<lambda>n u. map_option (\<lambda>h. (h, u)) (latticeHashSharedBuffer L s header (Some n) r)"
  "\<lambda>n. lattice_reference L s (unat (raw_NodeCount r)) (raw_table r) header (Some n)" for L s header r
  by unfold_locales (simp add: latticeHashSharedBuffer_reference)

lemma CPU_batch:
  assumes "dag_ok d" "cpu_ready d b"
  shows "\<exists>b'. MinerCPU_HashBatch L header start count dag b =
    Some (batch_results (dag_reference L d header) start count, b') \<and> cpu_ready d b'"
  using cpu_hasher.batch [of d b L header dag] assms by (auto simp: MinerCPU_HashBatch_def)

lemma Unified_batch:
  assumes "dag_ok d" "unified_ready d b"
  shows "\<exists>b'. Unified_HashBatch L header start count dag b =
    Some (Inr (batch_results (dag_reference L d header) start count), b') \<and> unified_ready d b'"
proof -
  have "uv_nodeCount (ub_shared b) \<noteq> 0" using assms by (simp add: unified_ready_def view_ok_def)
  then show ?thesis
    using unified_hasher.batch [of d b L header dag] assms
    by (auto simp: Unified_HashBatch_def Unified_ready_def)
qed

lemma Shared_batch:
  assumes ok: "dag_ok d" and r: "newRawContiguousDAGBuffer (Some d) = Some (Inr r)"
  shows "HashBatchShared L (dag_spec d) header start count r =
    Some (batch_results (dag_reference L d header) start count)"
proof -
  obtain r' where "newRawContiguousDAGBuffer (Some d) = Some (Inr r')" "raw_ok r'"
    "unat (raw_NodeCount r') = nodes_of (dag_spec d)" "raw_table r' = DAG_table d"
    by (rule dag_raw [OF ok])
  with r have r': "raw_ok r" "unat (raw_NodeCount r) = nodes_of (dag_spec d)" "raw_table r = DAG_table d"
    by simp_all
  have "(\<lambda>n. lattice_reference L (dag_spec d) (unat (raw_NodeCount r)) (raw_table r) header (Some n)) =
      dag_reference L d header"
    by (simp add: fun_eq_iff dag_reference_def r'(2,3))
  with raw_hasher.batch [OF r'(1), where b = "()" and L = L and s = "dag_spec d" and header = header
      and start = start and count = count] show ?thesis
    by (simp add: HashBatchShared_def)
qed

lemma dag_reference_populated:
  assumes p: "populated L seed d" and v: "AlgorithmVersion (dag_spec d) < 2"
  shows "dag_reference L d header n = algorithm_hash L (dag_spec d) seed header (Some n)"
proof -
  have ok: "dag_ok d" using p by (simp add: populated_def)
  have tab: "\<forall>i < nodes_of (dag_spec d). DAG_table d i = algorithm_nodes L (dag_spec d) seed i"
    using populated_table [OF p] by blast
  have nz: "0 < nodes_of (dag_spec d)" using dag_nodes.cnt_range [OF ok] by simp
  show ?thesis
    using v by (simp add: dag_reference_def algorithm_hash_def lattice_reference_cong [OF nz tab])
qed


section \<open>Properties\<close>

text \<open>C23: The backends agree, on batches of any size and at the end of the nonce space: prepared with one
  populated DAG of a research profile, the CPU backend, the unified-memory backend and the kernel on
  the raw buffer return the same hashes, one for each nonce from the start on until the count or the
  64-bit nonces run out, none of them panics, and each hash is the one the stateless verifier computes
  for its nonce from the epoch seed alone.\<close>

theorem backends_agree:
  assumes p: "populated L seed d" and seed: "seed \<noteq> []" and v: "AlgorithmVersion (dag_spec d) < 2"
    and pools: "scratch_fine (cpu_scratch b0)" "scratch_fine (ub_scratch u0)"
  shows "\<exists>b u r hs.
    MinerCPU_Prepare b0 (Some d) = Some (None, b) \<and> Unified_Prepare u0 (Some d) = Some (None, u) \<and>
    newRawContiguousDAGBuffer (Some d) = Some (Inr r) \<and>
    map_option fst (MinerCPU_HashBatch L header start count (Some d) b) = Some hs \<and>
    map_option fst (Unified_HashBatch L header start count (Some d) u) = Some (Inr hs) \<and>
    HashBatchShared L (dag_spec d) header start count r = Some hs \<and>
    length hs = min (unat count) (2 ^ 64 - unat start) \<and>
    list_all (\<lambda>j. HashHeaderStateless L (dag_spec d) header (Some (start + of_nat j)) seed = Some (Inr (hs ! j)))
      [0..<length hs]"
proof -
  have ok: "dag_ok d" using p by (simp add: populated_def)
  let ?hs = "batch_results (dag_reference L d header) start count"
  obtain b where b: "MinerCPU_Prepare b0 (Some d) = Some (None, b)" "cpu_ready d b"
    using CPU_Prepare_ready [OF ok pools(1)] by blast
  obtain u where u: "Unified_Prepare u0 (Some d) = Some (None, u)" "unified_ready d u"
    using Unified_Prepare_ready [OF ok pools(2)] by blast
  obtain r where r: "newRawContiguousDAGBuffer (Some d) = Some (Inr r)" by (rule dag_raw [OF ok])
  have len: "length ?hs = min (unat count) (2 ^ 64 - unat start)" by (simp add: batch_results_def)
  have st: "HashHeaderStateless L (dag_spec d) header (Some n) seed = Some (Inr (dag_reference L d header n))"
    for n
    using p stateless_hash [OF _ _ seed, of "dag_spec d" L header "Some n"] dag_reference_populated [OF p v]
    by (simp add: populated_def dag_ok_def fits_def)
  have each: "list_all (\<lambda>j. HashHeaderStateless L (dag_spec d) header (Some (start + of_nat j)) seed =
      Some (Inr (?hs ! j))) [0..<length ?hs]"
    by (auto simp: list_all_iff st len) (simp add: batch_results_def)
  show ?thesis
    using b u r CPU_batch [OF ok b(2), of L header start count "Some d"]
      Unified_batch [OF ok u(2), of L header start count "Some d"]
      Shared_batch [OF ok r, of L header start count] each
    by (auto simp: len)
qed

definition fresh_cpu :: cpu_backend where
  "fresh_cpu = \<lparr>cpu_spec = dag_spec sample_dag, cpu_nodes = [], cpu_scratch = None\<rparr>"

definition fresh_unified :: unified_backend where
  "fresh_unified = \<lparr>ub_spec = dag_spec sample_dag, ub_shared = zero_view, ub_scratch = None,
     ub_strategyName = []\<rparr>"

text \<open>Two hashes before the nonce space ends, of the three asked for.\<close>

theorem backends_agree_witness:
  "\<exists>d b u hs. PopulateDAG sample_lib 1 sample_dag [7] 1 = Some (None, d) \<and>
     MinerCPU_Prepare fresh_cpu (Some d) = Some (None, b) \<and>
     Unified_Prepare fresh_unified (Some d) = Some (None, u) \<and>
     map_option fst (MinerCPU_HashBatch sample_lib [1] 18446744073709551614 3 (Some d) b) = Some hs \<and>
     map_option fst (Unified_HashBatch sample_lib [1] 18446744073709551614 3 (Some d) u) = Some (Inr hs) \<and> length hs = 2"
proof -
  obtain d where d: "PopulateDAG sample_lib 1 sample_dag [7] 1 = Some (None, d)"
    "populated sample_lib [7] d" "dag_spec d = dag_spec sample_dag"
    by (rule sample_populated)
  have v: "AlgorithmVersion (dag_spec d) < 2" 
    by (simp add: d(3) sample_dag_def tiny_spec_def ResearchSpecWithGrowth_def Let_def)
  have "scratch_fine (cpu_scratch fresh_cpu)" "scratch_fine (ub_scratch fresh_unified)"
    by (simp_all add: fresh_cpu_def fresh_unified_def scratch_fine_def)
  from backends_agree [OF d(2) _ v this, of "[1]" 18446744073709551614 3] d(1) show ?thesis by auto
qed

end
