(* ===== verification/Gpu.thy ===== *)
theory Gpu
  imports BackendProofs
begin

text \<open>
  The OpenCL backend of package \<open>miner\<close> (\<open>gpu_backend_opencl.go\<close>, \<open>gpu_backend_types.go\<close>): its
  dispatcher, the execution plans it reports, and the fall-back to the host.

  What depends on build tags and on the device is the record \<open>platform\<close>: the methods of the runtime
  over its own state, the helpers that build a program and set its argument, the device kernel, the
  embedded kernel text and the allocation functions.  \<open>stub_platform\<close> is the build without cgo
  (\<open>backend_unified_opencl_stub.go\<close>, \<open>backend_unified_cuda_stub.go\<close>, \<open>pinned_memory_stub.go\<close>,
  \<open>device_shared_kernel_opencl_stub.go\<close>).  A value of Go's type \<open>any\<close> is an optional handle.  Two
  fields nothing reads, the shared kernel of the dispatcher and the CPU backend of the GPU backend,
  are left out.
\<close>


section \<open>Contexts, runtimes and platforms\<close>

record opencl_context =
  oc_Context :: "nat option"
  oc_Device :: "nat option"
  oc_Queue :: "nat option"
  oc_Program :: "nat option"
  oc_Kernel :: "nat option"
  oc_Flags :: u64

definition no_context :: opencl_context where
  "no_context = \<lparr>oc_Context = None, oc_Device = None, oc_Queue = None, oc_Program = None,
     oc_Kernel = None, oc_Flags = 0\<rparr>"

definition context_valid :: "opencl_context \<Rightarrow> bool" where
  "context_valid c \<longleftrightarrow> oc_Context c \<noteq> None \<and> oc_Device c \<noteq> None"

record metal_context =
  mc_Device :: "nat option"

type_synonym device_kernel =
  "opencl_context \<Rightarrow> spec \<Rightarrow> bytes \<Rightarrow> nonce \<Rightarrow> u64 \<Rightarrow> raw_buffer \<Rightarrow> string + hash_result list"

record 'r platform =
  pf_newOpenCLRuntime :: 'r
  pf_Initialize :: "'r \<Rightarrow> string option \<times> 'r"
  pf_Available :: "'r \<Rightarrow> bool"
  pf_SupportsSVM :: "'r \<Rightarrow> bool"
  pf_OpenCLContext :: "'r \<Rightarrow> opencl_context option"
  pf_SetContext :: "('r \<Rightarrow> opencl_context \<Rightarrow> 'r) option"
  pf_buildOpenCLProgram :: "opencl_context \<Rightarrow> string \<Rightarrow> string + opencl_context"
  pf_setOpenCLSVMKernelArg :: "opencl_context \<Rightarrow> u32 \<Rightarrow> bool \<Rightarrow> string option"
  pf_newOpenCLSharedAllocationKernel :: "device_kernel option"
  pf_openclKernelSource :: string
  pf_allocOpenCLSVM :: "opencl_context \<Rightarrow> u64 \<Rightarrow> string + allocation"
  pf_allocCUDAManaged :: "int \<Rightarrow> u64 \<Rightarrow> string + allocation"
  pf_allocPinnedHost :: "u64 \<Rightarrow> string + allocation"

definition ErrNotImplemented :: "string \<Rightarrow> string" where
  "ErrNotImplemented s = ''not implemented: '' @ s"

definition stub_buildOpenCLProgram :: "opencl_context \<Rightarrow> string \<Rightarrow> string + opencl_context" where
  "stub_buildOpenCLProgram ctx source =
     (if \<not> context_valid ctx then Inl ''opencl build helpers require a live context''
      else if source = [] then Inl ''opencl build helpers require kernel source''
      else Inr (ctx\<lparr>oc_Program := Some 0, oc_Kernel := Some 0\<rparr>))"

definition stub_setOpenCLSVMKernelArg :: "opencl_context \<Rightarrow> u32 \<Rightarrow> bool \<Rightarrow> string option" where
  "stub_setOpenCLSVMKernelArg ctx index ptr =
     (if oc_Kernel ctx = None then Some ''opencl svm arg helpers require a built kernel''
      else if index \<noteq> 0 then Some ''opencl svm arg helpers only stub argument 0''
      else if \<not> ptr then Some ''opencl svm arg helpers require a non-nil DAG pointer''
      else None)"

definition stub_platform :: "string \<Rightarrow> unit platform" where
  "stub_platform source =
     \<lparr>pf_newOpenCLRuntime = (),
      pf_Initialize = (\<lambda>r. (Some (ErrNotImplemented ''opencl svm requires a cgo + opencl build''), r)),
      pf_Available = (\<lambda>_. False),
      pf_SupportsSVM = (\<lambda>_. False),
      pf_OpenCLContext = (\<lambda>_. None),
      pf_SetContext = Some (\<lambda>r _. r),
      pf_buildOpenCLProgram = stub_buildOpenCLProgram,
      pf_setOpenCLSVMKernelArg = stub_setOpenCLSVMKernelArg,
      pf_newOpenCLSharedAllocationKernel = None,
      pf_openclKernelSource = source,
      pf_allocOpenCLSVM = (\<lambda>_ _. Inl (ErrNotImplemented ''opencl svm requires a cgo + opencl build'')),
      pf_allocCUDAManaged =
        (\<lambda>_ _. Inl (ErrNotImplemented ''cuda managed memory requires a cgo + cuda build'')),
      pf_allocPinnedHost =
        (\<lambda>size. Inr \<lparr>alloc_bytes = replicate (unat size) 0, alloc_name = ''pinned-host''\<rparr>)\<rparr>"


section \<open>Plans\<close>

datatype gpu_path = GPUExecutionPathNone | GPUExecutionPathDeviceKernel | GPUExecutionPathHostReference

record gpu_plan =
  pl_KernelName :: string
  pl_GlobalSize :: int
  pl_LocalSize :: int
  pl_BatchNonces :: int
  pl_MemoryModel :: string
  pl_VerifySample :: int
  pl_Fallback :: string
  pl_UsedFallback :: bool
  pl_CopiedDAG :: bool
  pl_ExecutionBackend :: string
  pl_ExecutionPath :: gpu_path
  pl_SVMEnabled :: bool
  pl_DeviceDAGCopyPerformed :: bool
  pl_DeviceDispatchAttempted :: bool

definition zero_plan :: gpu_plan where
  "zero_plan = \<lparr>pl_KernelName = [], pl_GlobalSize = 0, pl_LocalSize = 0, pl_BatchNonces = 0,
     pl_MemoryModel = [], pl_VerifySample = 0, pl_Fallback = [], pl_UsedFallback = False,
     pl_CopiedDAG = False, pl_ExecutionBackend = [], pl_ExecutionPath = GPUExecutionPathNone,
     pl_SVMEnabled = False, pl_DeviceDAGCopyPerformed = False, pl_DeviceDispatchAttempted = False\<rparr>"

record gpu_config =
  gc_WorkgroupSize :: int
  gc_BatchNonces :: int
  gc_Source :: string
  gc_VerifierPct :: int

definition zero_config :: gpu_config where
  "zero_config = \<lparr>gc_WorkgroupSize = 0, gc_BatchNonces = 0, gc_Source = [], gc_VerifierPct = 0\<rparr>"

definition newHostReferenceGPUPlan :: "string \<Rightarrow> gpu_config \<Rightarrow> gpu_plan" where
  "newHostReferenceGPUPlan executionBackend cfg =
     \<lparr>pl_KernelName = ''colossusx_hash'', pl_GlobalSize = gc_BatchNonces cfg,
      pl_LocalSize = gc_WorkgroupSize cfg, pl_BatchNonces = gc_BatchNonces cfg,
      pl_MemoryModel = ''unified-shared'', pl_VerifySample = gc_VerifierPct cfg,
      pl_Fallback = ''cpu-reference'', pl_UsedFallback = True, pl_CopiedDAG = False,
      pl_ExecutionBackend = executionBackend, pl_ExecutionPath = GPUExecutionPathHostReference,
      pl_SVMEnabled = False, pl_DeviceDAGCopyPerformed = False, pl_DeviceDispatchAttempted = False\<rparr>"


section \<open>The dispatcher\<close>

record 'r dispatcher =
  od_runtime :: 'r
  od_config :: gpu_config
  od_plan :: gpu_plan
  od_scratch :: "pool option"
  od_deviceSharedHash :: "device_kernel option"

definition new_dispatcher :: "'r platform \<Rightarrow> 'r dispatcher" where
  "new_dispatcher P = \<lparr>od_runtime = pf_newOpenCLRuntime P, od_config = zero_config, od_plan = zero_plan,
     od_scratch = None, od_deviceSharedHash = None\<rparr>"

definition Dispatcher_Initialize :: "'r platform \<Rightarrow> 'r dispatcher \<Rightarrow> string option \<times> 'r dispatcher" where
  "Dispatcher_Initialize P d =
     (let (e, r) = pf_Initialize P (od_runtime d) in (e, d\<lparr>od_runtime := r\<rparr>))"

definition failed_plan :: "gpu_config \<Rightarrow> string \<Rightarrow> gpu_plan" where
  "failed_plan cfg reason =
     (newHostReferenceGPUPlan ''opencl'' cfg)\<lparr>pl_Fallback := reason, pl_UsedFallback := True\<rparr>"

text \<open>The end of \<open>Prepare\<close>, once the program is built: the buffer is checked, and given to the kernel
  when shared virtual memory is supported.\<close>

definition Dispatcher_finish ::
  "'r platform \<Rightarrow> gpu_config \<Rightarrow> opencl_context \<Rightarrow> dag option \<Rightarrow> 'r dispatcher \<Rightarrow>
     (backend_error option \<times> 'r dispatcher) option" where
  "Dispatcher_finish P cfg ctx dag d =
     (case newRawContiguousDAGBuffer dag of
        None \<Rightarrow> None
      | Some (Inl e) \<Rightarrow> Some (Some e, d)
      | Some (Inr raw) \<Rightarrow>
          let plan = (newHostReferenceGPUPlan ''opencl'' cfg)
                \<lparr>pl_SVMEnabled := pf_SupportsSVM P (od_runtime d), pl_Fallback := ''cpu-reference''\<rparr>;
              ready = d\<lparr>od_plan := plan,
                od_scratch := (case od_scratch d of None \<Rightarrow> Some [] | Some p \<Rightarrow> Some p)\<rparr>
          in if pl_SVMEnabled plan then
               (case pf_setOpenCLSVMKernelArg P ctx 0 (raw_Ptr raw) of
                  Some e \<Rightarrow> Some (Some (SVMArgumentFailed e), d)
                | None \<Rightarrow> Some (None, ready))
             else Some (None, ready))"

definition Dispatcher_Prepare ::
  "'r platform \<Rightarrow> dag option \<Rightarrow> gpu_config \<Rightarrow> 'r dispatcher \<Rightarrow>
     (backend_error option \<times> 'r dispatcher) option" where
  "Dispatcher_Prepare P dag cfg d =
     (if dag = None then Some (Some ErrNilDAG, d)
      else if gc_Source cfg = [] then Some (Some KernelSourceMissing, d)
      else
        let (e, r) = pf_Initialize P (od_runtime d);
            d = d\<lparr>od_config := cfg, od_runtime := r\<rparr>
        in case e of
             Some e \<Rightarrow> Some (Some (RuntimeInitFailed e), d\<lparr>od_plan := failed_plan cfg ''runtime-unavailable''\<rparr>)
           | None \<Rightarrow>
               (case pf_OpenCLContext P r of
                  None \<Rightarrow> Some (Some RuntimeContextMissing,
                    d\<lparr>od_plan := failed_plan cfg ''runtime-context-unavailable''\<rparr>)
                | Some ctx \<Rightarrow>
                    (case pf_buildOpenCLProgram P ctx (gc_Source cfg) of
                       Inl e \<Rightarrow> Some (Some (ProgramBuildFailed e),
                         d\<lparr>od_plan := failed_plan cfg ''kernel-build-failed''\<rparr>)
                     | Inr ctx \<Rightarrow>
                         Dispatcher_finish P cfg ctx dag
                           (case pf_SetContext P of
                              None \<Rightarrow> d
                            | Some put \<Rightarrow> d\<lparr>od_runtime := put (od_runtime d) ctx\<rparr>))))"

record gpu_result =
  gr_Hashes :: "hash_result list"
  gr_Plan :: gpu_plan

definition host_plan :: "gpu_plan \<Rightarrow> gpu_plan" where
  "host_plan plan = plan\<lparr>pl_UsedFallback := True, pl_ExecutionPath := GPUExecutionPathHostReference\<rparr>"

definition device_plan :: "gpu_plan \<Rightarrow> gpu_plan" where
  "device_plan plan = plan\<lparr>pl_UsedFallback := False, pl_ExecutionPath := GPUExecutionPathDeviceKernel\<rparr>"

text \<open>The device part of \<open>Dispatch\<close>: nothing when it falls through, otherwise what it returns.\<close>

definition device_dispatch ::
  "'r platform \<Rightarrow> bytes \<Rightarrow> nonce \<Rightarrow> int \<Rightarrow> dag \<Rightarrow> raw_buffer \<Rightarrow> 'r dispatcher \<Rightarrow>
     (backend_error option \<times> gpu_result) option" where
  "device_dispatch P header start batch dag raw d =
     (if pl_SVMEnabled (od_plan d) then
        (case pf_OpenCLContext P (od_runtime d) of
           None \<Rightarrow> None
         | Some ctx \<Rightarrow>
             (case pf_setOpenCLSVMKernelArg P ctx 0 (raw_Ptr raw) of
                Some e \<Rightarrow> Some (Some (SVMArgumentFailed e),
                  \<lparr>gr_Hashes = [], gr_Plan = host_plan (od_plan d)\<rparr>)
              | None \<Rightarrow>
                  (case (case od_deviceSharedHash d of
                           None \<Rightarrow> pf_newOpenCLSharedAllocationKernel P | Some k \<Rightarrow> Some k) of
                     None \<Rightarrow> None
                   | Some devk \<Rightarrow>
                       (case devk ctx (dag_spec dag) header start (of_int batch) raw of
                          Inl _ \<Rightarrow> None
                        | Inr results \<Rightarrow>
                            Some (None, \<lparr>gr_Hashes = results, gr_Plan = (device_plan (od_plan d))
                              \<lparr>pl_ExecutionBackend := ''opencl'', pl_DeviceDispatchAttempted := True,
                               pl_CopiedDAG := False, pl_DeviceDAGCopyPerformed := False\<rparr>\<rparr>)))))
      else None)"

text \<open>The host part: a pooled hash over the shared view for every nonce of the batch.\<close>

definition host_dispatch ::
  "hashlib \<Rightarrow> bytes \<Rightarrow> nonce \<Rightarrow> int \<Rightarrow> dag \<Rightarrow> raw_buffer \<Rightarrow> 'r dispatcher \<Rightarrow>
     ((backend_error option \<times> gpu_result) \<times> 'r dispatcher) option" where
  "host_dispatch L header start batch dag raw d =
     (case newUnifiedMemoryDAGViewFromBytes (dag_spec dag) (raw_Bytes raw) of
        None \<Rightarrow> None
      | Some (Inl e) \<Rightarrow> Some ((Some e, \<lparr>gr_Hashes = [], gr_Plan = od_plan d\<rparr>), d)
      | Some (Inr view) \<Rightarrow>
          do {
            (results, scratch) \<leftarrow> batch_loop
              (\<lambda>n scratch. map_option (\<lambda>(h, p). (h, Some p))
                 (pooled_hash L (dag_spec dag) header n (unifiedMemoryDAGView view) scratch))
              start (nat batch) 0 (od_scratch d);
            Some ((None, \<lparr>gr_Hashes = results, gr_Plan = (host_plan (od_plan d))
                \<lparr>pl_ExecutionBackend := ''shared-host'', pl_DeviceDispatchAttempted := False,
                 pl_CopiedDAG := False, pl_DeviceDAGCopyPerformed := False\<rparr>\<rparr>),
              d\<lparr>od_scratch := scratch\<rparr>)
          })"

definition Dispatch ::
  "hashlib \<Rightarrow> 'r platform \<Rightarrow> bytes \<Rightarrow> nonce \<Rightarrow> int \<Rightarrow> dag option \<Rightarrow> 'r dispatcher \<Rightarrow>
     ((backend_error option \<times> gpu_result) \<times> 'r dispatcher) option" where
  "Dispatch L P header start batch dag d =
     (if batch \<le> 0 then Some ((None, \<lparr>gr_Hashes = [], gr_Plan = host_plan (od_plan d)\<rparr>), d)
      else if \<not> pf_Available P (od_runtime d) then
        Some ((Some RuntimeUnavailable, \<lparr>gr_Hashes = [], gr_Plan = host_plan (od_plan d)\<rparr>), d)
      else
        (case newRawContiguousDAGBuffer dag of
           None \<Rightarrow> None
         | Some (Inl e) \<Rightarrow> Some ((Some e, \<lparr>gr_Hashes = [], gr_Plan = od_plan d\<rparr>), d)
         | Some (Inr raw) \<Rightarrow>
             (case dag of
                None \<Rightarrow> None
              | Some dg \<Rightarrow>
                  (case device_dispatch P header start batch dg raw d of
                     Some r \<Rightarrow> Some (r, d)
                   | None \<Rightarrow>
                       if Mode (dag_spec dg) = ModeStrict then
                         Some ((Some StrictNeedsDeviceKernel,
                           \<lparr>gr_Hashes = [], gr_Plan = device_plan (od_plan d)\<rparr>), d)
                       else host_dispatch L header start batch dg raw d))))"


section \<open>The GPU backend\<close>

record 'r gpu_backend =
  gb_config :: gpu_config
  gb_dispatcher :: "'r dispatcher option"
  gb_lastPlan :: gpu_plan
  gb_runtimeReady :: bool
  gb_runtimeInitError :: "string option"

definition new_gpu_backend :: "'r gpu_backend" where
  "new_gpu_backend = \<lparr>gb_config = zero_config, gb_dispatcher = None, gb_lastPlan = zero_plan,
     gb_runtimeReady = False, gb_runtimeInitError = None\<rparr>"

definition the_dispatcher :: "'r platform \<Rightarrow> 'r gpu_backend \<Rightarrow> 'r dispatcher" where
  "the_dispatcher P b = (case gb_dispatcher b of None \<Rightarrow> new_dispatcher P | Some d \<Rightarrow> d)"

definition GPU_InitializeRuntime :: "'r platform \<Rightarrow> 'r gpu_backend \<Rightarrow> string option \<times> 'r gpu_backend" where
  "GPU_InitializeRuntime P b =
     (if gb_runtimeReady b \<or> gb_runtimeInitError b \<noteq> None then (gb_runtimeInitError b, b)
      else
        let (e, d) = Dispatcher_Initialize P (the_dispatcher P b);
            b = b\<lparr>gb_dispatcher := Some d, gb_runtimeInitError := e\<rparr>
        in (e, if e = None then b\<lparr>gb_runtimeReady := True\<rparr> else b))"

definition GPU_OpenCLContext :: "'r platform \<Rightarrow> 'r gpu_backend \<Rightarrow> opencl_context option" where
  "GPU_OpenCLContext P b =
     (case gb_dispatcher b of None \<Rightarrow> None | Some d \<Rightarrow> pf_OpenCLContext P (od_runtime d))"

definition GPU_Prepare ::
  "'r platform \<Rightarrow> dag option \<Rightarrow> 'r gpu_backend \<Rightarrow> (backend_error option \<times> 'r gpu_backend) option" where
  "GPU_Prepare P dag b =
     (let b = (if gc_WorkgroupSize (gb_config b) = 0
               then b\<lparr>gb_config := \<lparr>gc_WorkgroupSize = 64, gc_BatchNonces = 1024,
                      gc_Source = pf_openclKernelSource P, gc_VerifierPct = 100\<rparr>\<rparr>
               else b)
      in do {
        (e, d) \<leftarrow> Dispatcher_Prepare P dag (gb_config b) (the_dispatcher P b);
        Some (e, b\<lparr>gb_dispatcher := Some d, gb_lastPlan := od_plan d\<rparr>)
      })"

definition GPU_HashBatch ::
  "hashlib \<Rightarrow> 'r platform \<Rightarrow> bytes \<Rightarrow> nonce \<Rightarrow> u64 \<Rightarrow> dag option \<Rightarrow> 'r gpu_backend \<Rightarrow>
     ((backend_error + hash_result list) \<times> 'r gpu_backend) option" where
  "GPU_HashBatch L P header start count dag b =
     do {
       ((e, r), d) \<leftarrow> Dispatch L P header start (sint count) dag (the_dispatcher P b);
       let b = b\<lparr>gb_dispatcher := Some d, gb_lastPlan := gr_Plan r\<rparr>;
       Some (case e of Some e \<Rightarrow> Inl e | None \<Rightarrow> Inr (gr_Hashes r), b)
     }"

definition GPU_Hash ::
  "hashlib \<Rightarrow> 'r platform \<Rightarrow> bytes \<Rightarrow> nonce \<Rightarrow> dag option \<Rightarrow> 'r gpu_backend \<Rightarrow>
     (hash_result \<times> 'r gpu_backend) option" where
  "GPU_Hash L P header n dag b =
     map_option (\<lambda>(r, b). (case r of Inl _ \<Rightarrow> zero_result | Inr [] \<Rightarrow> zero_result | Inr (h # _) \<Rightarrow> h, b))
       (GPU_HashBatch L P header n 1 dag b)"

end
