(* ===== verification/MemoryStrategy.thy ===== *)
theory MemoryStrategy
  imports Gpu Strings
begin

text \<open>
  Where the memory of a DAG comes from (\<open>memory_strategy.go\<close>, \<open>dag_helpers.go\<close>): the strategies, the
  fall-back list, the resolver that turns a backend's handles and the name of a strategy into one, and
  the check of a strict production configuration (\<open>strict_config.go\<close>).  A strategy is one constructor
  per type of the code; the allocation functions of the accelerators are fields of the platform.
\<close>


section \<open>Strategies\<close>

datatype memory_strategy =
    GoHeapMemory
  | PinnedMemory
  | CUDAManagedMemory int bool
  | OpenCLSVM opencl_context
  | MetalSharedMemory metal_context
  | FallbackStrategy string "memory_strategy option list"

definition strategy_Name :: "memory_strategy \<Rightarrow> string" where
  "strategy_Name m =
     (case m of
        GoHeapMemory \<Rightarrow> ''go-heap''
      | PinnedMemory \<Rightarrow> ''pinned-host''
      | CUDAManagedMemory _ _ \<Rightarrow> ''cuda-managed''
      | OpenCLSVM _ \<Rightarrow> ''opencl-svm''
      | MetalSharedMemory _ \<Rightarrow> ''metal-shared''
      | FallbackStrategy name _ \<Rightarrow> if name = [] then ''fallback'' else name)"

definition go_heap :: "string \<Rightarrow> u64 \<Rightarrow> allocation" where
  "go_heap name sz = \<lparr>alloc_bytes = replicate (unat sz) 0, alloc_name = name\<rparr>"

fun join_errors :: "string list \<Rightarrow> string" where
  "join_errors [] = []"
| "join_errors [e] = e"
| "join_errors (e # es) = e @ ''; '' @ join_errors es"

text \<open>\<open>first_alloc\<close> is the loop of the fall-back strategy: the first allocation that succeeds, or the
  errors of all that were tried; nil entries are skipped.\<close>

fun strategy_Alloc :: "'r platform \<Rightarrow> memory_strategy \<Rightarrow> u64 \<Rightarrow> string + allocation"
and first_alloc :: "'r platform \<Rightarrow> memory_strategy option list \<Rightarrow> u64 \<Rightarrow> string list + allocation"
where
  "strategy_Alloc P GoHeapMemory sz = Inr (go_heap ''go-heap'' sz)"
| "strategy_Alloc P PinnedMemory sz = pf_allocPinnedHost P sz"
| "strategy_Alloc P (CUDAManagedMemory o' ready) sz =
     (if \<not> ready then Inl ''cuda managed allocation requires initialized runtime/device''
      else pf_allocCUDAManaged P o' sz)"
| "strategy_Alloc P (OpenCLSVM ctx) sz =
     (if \<not> context_valid ctx then Inl ''opencl svm requires a live OpenCL context and device''
      else pf_allocOpenCLSVM P ctx sz)"
| "strategy_Alloc P (MetalSharedMemory ctx) sz =
     (if mc_Device ctx = None then Inl ''metal shared allocation requires initialized runtime/device''
      else Inr (go_heap ''metal-shared'' sz))"
| "strategy_Alloc P (FallbackStrategy name ss) sz =
     (case first_alloc P ss sz of
        Inr a \<Rightarrow> Inr a
      | Inl errs \<Rightarrow>
          Inl (strategy_Name (FallbackStrategy name ss) @ '': '' @
            (if errs = [] then ''no allocation strategies configured'' else join_errors errs)))"
| "first_alloc P [] sz = Inl []"
| "first_alloc P (None # ss) sz = first_alloc P ss sz"
| "first_alloc P (Some s # ss) sz =
     (case strategy_Alloc P s sz of
        Inr a \<Rightarrow> Inr a
      | Inl e \<Rightarrow>
          (case first_alloc P ss sz of
             Inr a \<Rightarrow> Inr a
           | Inl errs \<Rightarrow> Inl ((strategy_Name s @ '': '' @ e) # errs)))"

text \<open>The optional method \<open>ValidationCanReuseDAG\<close>, which the fall-back strategy lacks.\<close>

definition strategy_CanReuse :: "memory_strategy \<Rightarrow> bool option" where
  "strategy_CanReuse m =
     (case m of
        GoHeapMemory \<Rightarrow> Some True
      | PinnedMemory \<Rightarrow> Some True
      | CUDAManagedMemory _ ready \<Rightarrow> Some ready
      | OpenCLSVM ctx \<Rightarrow> Some (context_valid ctx)
      | MetalSharedMemory ctx \<Rightarrow> Some (mc_Device ctx \<noteq> None)
      | FallbackStrategy _ _ \<Rightarrow> None)"

definition strategy_allocator :: "'r platform \<Rightarrow> memory_strategy \<Rightarrow> allocator" where
  "strategy_allocator P m = \<lparr>allocator_Alloc = strategy_Alloc P m, allocator_Name = strategy_Name m,
     allocator_CanReuse = strategy_CanReuse m\<rparr>"

definition NewDAGWithStrategy ::
  "'r platform \<Rightarrow> spec \<Rightarrow> memory_strategy option \<Rightarrow> (dag_error + dag) \<times> allocation list" where
  "NewDAGWithStrategy P s strategy =
     NewDAGWithAllocator s
       (Some (strategy_allocator P (case strategy of None \<Rightarrow> GoHeapMemory | Some m \<Rightarrow> m)))"

definition NewDAG :: "'r platform \<Rightarrow> spec \<Rightarrow> (dag_error + dag) \<times> allocation list" where
  "NewDAG P s = NewDAGWithStrategy P s (Some GoHeapMemory)"


section \<open>Resolving a strategy\<close>

text \<open>The handles a backend's runtime offers; no runtime is \<open>None\<close>.\<close>

record runtime_state =
  rs_CUDADeviceOrdinal :: "int option"
  rs_OpenCLContext :: "opencl_context option"
  rs_MetalContext :: "metal_context option"

record resolver =
  rv_mode :: string
  rv_runtime :: "runtime_state option"

definition cudaDeviceOrdinal :: "resolver \<Rightarrow> int option" where
  "cudaDeviceOrdinal r = Option.bind (rv_runtime r) rs_CUDADeviceOrdinal"

definition openclContext :: "resolver \<Rightarrow> opencl_context option" where
  "openclContext r = Option.bind (rv_runtime r) rs_OpenCLContext"

definition metalContext :: "resolver \<Rightarrow> metal_context option" where
  "metalContext r = Option.bind (rv_runtime r) rs_MetalContext"

datatype strategy_error =
    CUDANotInitialized | OpenCLNotLive | UnsupportedAllocation string
  | StrictNeedsAllocator | StrictNeedsOneOf

definition autoStrictStrategies :: "resolver \<Rightarrow> memory_strategy list" where
  "autoStrictStrategies r =
     (case cudaDeviceOrdinal r of None \<Rightarrow> [] | Some x \<Rightarrow> [CUDAManagedMemory x True]) @
     (case openclContext r of None \<Rightarrow> [] | Some c \<Rightarrow> [OpenCLSVM c]) @
     (case metalContext r of None \<Rightarrow> [] | Some c \<Rightarrow> [MetalSharedMemory c])"

definition autoResearchStrategies :: "resolver \<Rightarrow> memory_strategy list" where
  "autoResearchStrategies r = autoStrictStrategies r @ [GoHeapMemory]"

definition resolveResearch :: "resolver \<Rightarrow> string \<Rightarrow> strategy_error + memory_strategy" where
  "resolveResearch r choice =
     (if choice = ''auto'' then Inr (FallbackStrategy ''auto'' (map Some (autoResearchStrategies r)))
      else if choice \<in> {''go'', ''go-heap''} then Inr GoHeapMemory
      else if choice \<in> {''pinned'', ''pinned-host''} then Inr PinnedMemory
      else if choice \<in> {''cuda'', ''cuda-managed''} then
        (case cudaDeviceOrdinal r of
           Some x \<Rightarrow> Inr (CUDAManagedMemory x True) | None \<Rightarrow> Inl CUDANotInitialized)
      else if choice \<in> {''opencl'', ''opencl-svm'', ''svm''} then
        (case openclContext r of Some c \<Rightarrow> Inr (OpenCLSVM c) | None \<Rightarrow> Inl OpenCLNotLive)
      else Inl (UnsupportedAllocation choice))"

definition resolveStrict :: "resolver \<Rightarrow> string \<Rightarrow> strategy_error + memory_strategy" where
  "resolveStrict r choice =
     (if choice = ''auto'' then
        (let s = autoStrictStrategies r in
         if s = [] then Inl StrictNeedsAllocator else Inr (FallbackStrategy ''auto'' (map Some s)))
      else
        case (if choice = ''cuda-managed'' then map_option (\<lambda>x. CUDAManagedMemory x True) (cudaDeviceOrdinal r)
              else if choice = ''opencl-svm'' then map_option OpenCLSVM (openclContext r)
              else if choice = ''metal-shared'' then map_option MetalSharedMemory (metalContext r)
              else None) of
          Some m \<Rightarrow> Inr m
        | None \<Rightarrow> Inl StrictNeedsOneOf)"

definition Resolve :: "resolver \<Rightarrow> string \<Rightarrow> strategy_error + memory_strategy" where
  "Resolve r dagAlloc =
     (let choice = ToLower (TrimSpace dagAlloc);
          choice = (if choice = [] then ''auto'' else choice)
      in if rv_mode r = ModeStrict then resolveStrict r choice else resolveResearch r choice)"

definition ResolveDAGStrategyForMode ::
  "string \<Rightarrow> string \<Rightarrow> runtime_state option \<Rightarrow> string \<Rightarrow> strategy_error + memory_strategy" where
  "ResolveDAGStrategyForMode mode backend rt dagAlloc =
     Resolve \<lparr>rv_mode = mode, rv_runtime = rt\<rparr> dagAlloc"

definition ResolveDAGStrategy ::
  "string \<Rightarrow> runtime_state option \<Rightarrow> string \<Rightarrow> strategy_error + memory_strategy" where
  "ResolveDAGStrategy backend rt dagAlloc = ResolveDAGStrategyForMode ModeResearch backend rt dagAlloc"


section \<open>The strict production configuration\<close>

definition BackendUnified :: string where "BackendUnified = ''unified''"
definition BackendCPU :: string where "BackendCPU = ''cpu''"
definition BackendCUDA :: string where "BackendCUDA = ''cuda''"
definition BackendOpenCL :: string where "BackendOpenCL = ''opencl''"
definition BackendMetal :: string where "BackendMetal = ''metal''"
definition BackendGPU :: string where "BackendGPU = ''gpu''"

lemmas backend_names = BackendUnified_def BackendCPU_def BackendCUDA_def BackendOpenCL_def
  BackendMetal_def BackendGPU_def

datatype config_error = StrictNeedsAccelerator string | StrictNeedsShared string

definition ValidateStrictProductionConfig :: "string \<Rightarrow> string \<Rightarrow> string \<Rightarrow> config_error option" where
  "ValidateStrictProductionConfig mode backend dagAlloc =
     (if mode \<noteq> ModeStrict then None
      else if backend \<notin> {BackendCUDA, BackendOpenCL, BackendMetal} then Some (StrictNeedsAccelerator backend)
      else if ToLower (TrimSpace dagAlloc) \<in> {[], ''auto'', ''cuda-managed'', ''opencl-svm'', ''metal-shared''}
      then None
      else Some (StrictNeedsShared dagAlloc))"


section \<open>What a strategy allocates\<close>

text \<open>An allocation made through a handle of the runtime.\<close>

definition device_allocation :: "'r platform \<Rightarrow> runtime_state option \<Rightarrow> u64 \<Rightarrow> allocation \<Rightarrow> bool" where
  "device_allocation P rt sz a \<longleftrightarrow>
     (\<exists>s. rt = Some s \<and>
       ((\<exists>x. rs_CUDADeviceOrdinal s = Some x \<and> pf_allocCUDAManaged P x sz = Inr a) \<or>
        (\<exists>c. rs_OpenCLContext s = Some c \<and> context_valid c \<and> pf_allocOpenCLSVM P c sz = Inr a) \<or>
        (\<exists>c. rs_MetalContext s = Some c \<and> mc_Device c \<noteq> None \<and> a = go_heap ''metal-shared'' sz)))"

lemma first_alloc_Inr:
  "first_alloc P ss sz = Inr a \<Longrightarrow> \<exists>s. Some s \<in> set ss \<and> strategy_Alloc P s sz = Inr a"
proof (induction ss)
  case Nil
  then show ?case by simp
next
  case (Cons x ss)
  then show ?case by (cases x) (auto split: sum.splits)
qed

lemma first_alloc_succeeds:
  "Some s \<in> set ss \<Longrightarrow> strategy_Alloc P s sz = Inr a \<Longrightarrow> \<exists>b. first_alloc P ss sz = Inr b"
proof (induction ss)
  case Nil
  then show ?case by simp
next
  case (Cons x ss)
  then show ?case by (cases x) (auto split: sum.splits)
qed

lemma strict_strategies_device:
  assumes "s \<in> set (autoStrictStrategies r)" and "strategy_Alloc P s sz = Inr a"
  shows "device_allocation P (rv_runtime r) sz a"
  using assms
  by (cases "rv_runtime r")
    (auto simp: autoStrictStrategies_def cudaDeviceOrdinal_def openclContext_def metalContext_def
      device_allocation_def split: option.splits if_splits)

lemma resolveStrict_device:
  assumes r: "resolveStrict r choice = Inr s" and a: "strategy_Alloc P s sz = Inr a"
  shows "device_allocation P (rv_runtime r) sz a"
proof (cases "choice = ''auto''")
  case True
  with r have "s = FallbackStrategy ''auto'' (map Some (autoStrictStrategies r))"
    by (simp add: resolveStrict_def Let_def split: if_splits)
  with a have "first_alloc P (map Some (autoStrictStrategies r)) sz = Inr a" by (simp split: sum.splits)
  with first_alloc_Inr obtain x where "x \<in> set (autoStrictStrategies r)" "strategy_Alloc P x sz = Inr a"
    by fastforce
  then show ?thesis by (rule strict_strategies_device)
next
  case False
  with r have "s \<in> set (autoStrictStrategies r)"
    by (auto simp: resolveStrict_def autoStrictStrategies_def split: if_splits option.splits)
  then show ?thesis using a by (rule strict_strategies_device)
qed

lemma resolveResearch_auto:
  obtains a where "strategy_Alloc P (FallbackStrategy ''auto'' (map Some (autoResearchStrategies r))) sz = Inr a"
    "device_allocation P (rv_runtime r) sz a \<or> a = go_heap ''go-heap'' sz"
proof -
  let ?ss = "map Some (autoResearchStrategies r)"
  have "Some GoHeapMemory \<in> set ?ss" by (simp add: autoResearchStrategies_def)
  from first_alloc_succeeds [OF this, of P sz] obtain a where a: "first_alloc P ?ss sz = Inr a" by auto
  then obtain x where x: "x \<in> set (autoResearchStrategies r)" "strategy_Alloc P x sz = Inr a"
    using first_alloc_Inr by fastforce
  then have "device_allocation P (rv_runtime r) sz a \<or> a = go_heap ''go-heap'' sz"
    using strict_strategies_device [OF _ x(2)] by (auto simp: autoResearchStrategies_def)
  with a that show thesis by simp
qed


section \<open>Property\<close>


text \<open>The Metal backend's handle gives the strict allocation; the blanks and capitals are dropped.\<close>

definition metal_runtime :: runtime_state where
  "metal_runtime = \<lparr>rs_CUDADeviceOrdinal = None, rs_OpenCLContext = None,
     rs_MetalContext = Some \<lparr>mc_Device = Some 0\<rparr>\<rparr>"


end
