(* ===== verification/Cli.thy ===== *)
theory Cli
  imports MemoryStrategy ConsensusProps Node Wire
begin

text \<open>
  The programs: the miner (\<open>main.go\<close>), the configuration of the daemon (\<open>cmd/colossusd/main.go\<close>) and the
  header verifier (\<open>cmd/colossusxverify/main.go\<close>).

  A program takes the record of its flags' values here; \<open>Args\<close> has it read them from its arguments.
  \<open>miner_defaults\<close> and \<open>daemon_defaults\<close> are the values of flags that are not given.  What a program
  prints is not modelled; the file system of the verifier is a function from paths to texts.  A backend
  of the code's interface is one of the constructors of \<open>any_backend\<close>, which the methods dispatch on.
\<close>


section \<open>Backends behind the interface\<close>

datatype 'r any_backend =
    CPUB cpu_backend
  | UnifiedB unified_backend
  | GPUB "'r gpu_backend"
  | CUDACompatB "'r gpu_backend"
  | MetalB

definition zero_spec :: spec where
  "zero_spec = \<lparr>Mode = [], DAGSizeBytes = 0, InitialDAGSizeBytes = 0, DAGGrowthBytesPerEpoch = 0,
     NodeSize = 0, ReadsPerHash = 0, EpochBlocks = 0, TileSizeBytes = 0, MatDim = 0, ComputeRounds = 0,
     ComputePrecision = [], MemoryModelRequired = [], DeviceExecutionOnly = False,
     RoundCommitInterval = 0, AlgorithmVersion = 0\<rparr>"

definition NewBackend :: "string \<Rightarrow> 'r any_backend option" where
  "NewBackend mode =
     (if mode = BackendUnified then Some (UnifiedB \<lparr>ub_spec = zero_spec, ub_shared = zero_view,
        ub_scratch = None, ub_strategyName = []\<rparr>)
      else if mode = BackendCPU then Some (CPUB \<lparr>cpu_spec = zero_spec, cpu_nodes = [], cpu_scratch = None\<rparr>)
      else if mode = BackendCUDA then Some (CUDACompatB new_gpu_backend)
      else if mode \<in> {BackendOpenCL, BackendGPU} then Some (GPUB new_gpu_backend)
      else if mode = BackendMetal then Some MetalB
      else None)"

definition backend_Mode :: "'r any_backend \<Rightarrow> string" where
  "backend_Mode b =
     (case b of CPUB _ \<Rightarrow> BackendCPU | UnifiedB _ \<Rightarrow> BackendUnified | GPUB _ \<Rightarrow> BackendOpenCL
      | CUDACompatB _ \<Rightarrow> BackendCUDA | MetalB \<Rightarrow> BackendMetal)"

definition backend_Prepare ::
  "'r platform \<Rightarrow> dag option \<Rightarrow> 'r any_backend \<Rightarrow> (backend_error option \<times> 'r any_backend) option" where
  "backend_Prepare P dag b =
     (case b of
        CPUB c \<Rightarrow> map_option (\<lambda>(e, c). (e, CPUB c)) (MinerCPU_Prepare c dag)
      | UnifiedB u \<Rightarrow> map_option (\<lambda>(e, u). (e, UnifiedB u)) (Unified_Prepare u dag)
      | GPUB g \<Rightarrow> map_option (\<lambda>(e, g). (e, GPUB g)) (GPU_Prepare P dag g)
      | CUDACompatB g \<Rightarrow> map_option (\<lambda>(e, g). (e, CUDACompatB g)) (GPU_Prepare P dag g)
      | MetalB \<Rightarrow> map_option (\<lambda>e. (e, MetalB)) (Metal_Prepare dag))"

definition backend_Hash ::
  "hashlib \<Rightarrow> 'r platform \<Rightarrow> bytes \<Rightarrow> nonce \<Rightarrow> dag option \<Rightarrow> 'r any_backend \<Rightarrow>
     (hash_result \<times> 'r any_backend) option" where
  "backend_Hash L P header n dag b =
     (case b of
        CPUB c \<Rightarrow> map_option (\<lambda>(h, c). (h, CPUB c)) (MinerCPU_Hash L header n dag c)
      | UnifiedB u \<Rightarrow> map_option (\<lambda>(h, u). (h, UnifiedB u)) (Unified_Hash L header n dag u)
      | GPUB g \<Rightarrow> map_option (\<lambda>(h, g). (h, GPUB g)) (GPU_Hash L P header n dag g)
      | CUDACompatB g \<Rightarrow> map_option (\<lambda>(h, g). (h, CUDACompatB g)) (GPU_Hash L P header n dag g)
      | MetalB \<Rightarrow> map_option (\<lambda>h. (h, MetalB)) (Metal_Hash header (Some n) dag))"

text \<open>The CPU and the unified backend have no runtime; the others return themselves as one.\<close>

definition gpu_runtime :: "'r platform \<Rightarrow> 'r gpu_backend \<Rightarrow> runtime_state" where
  "gpu_runtime P g = \<lparr>rs_CUDADeviceOrdinal = None, rs_OpenCLContext = GPU_OpenCLContext P g,
     rs_MetalContext = None\<rparr>"

definition InitializeBackendRuntime ::
  "'r platform \<Rightarrow> 'r any_backend \<Rightarrow> (string + runtime_state option) \<times> 'r any_backend" where
  "InitializeBackendRuntime P b =
     (case b of
        CPUB _ \<Rightarrow> (Inr None, b)
      | UnifiedB _ \<Rightarrow> (Inr None, b)
      | GPUB g \<Rightarrow>
          let (e, g) = GPU_InitializeRuntime P g
          in (case e of Some x \<Rightarrow> Inl x | None \<Rightarrow> Inr (Some (gpu_runtime P g)), GPUB g)
      | CUDACompatB g \<Rightarrow>
          let (e, g) = GPU_InitializeRuntime P g
          in (case e of Some x \<Rightarrow> Inl x | None \<Rightarrow> Inr (Some (gpu_runtime P g)), CUDACompatB g)
      | MetalB \<Rightarrow> (Inr (Some \<lparr>rs_CUDADeviceOrdinal = None, rs_OpenCLContext = None,
                        rs_MetalContext = Some \<lparr>mc_Device = Some 0\<rparr>\<rparr>), b))"

text \<open>The wrapper the miner gets embeds the interface without \<open>HashBatch\<close>, so the miner does not see the
  batch method.  The workers share one backend, whose hash leaves only scratch objects, the last plan
  and the dispatcher behind.\<close>

definition skipPrepareBackend :: "hashlib \<Rightarrow> 'r platform \<Rightarrow> 'r any_backend \<Rightarrow> hash_backend" where
  "skipPrepareBackend L P b = \<lparr>hb_Mode = backend_Mode b, hb_Description = [], hb_Prepare = (\<lambda>_. None),
     hb_Hash = (\<lambda>header n dag. map_option fst (backend_Hash L P header n dag b)), hb_HashBatch = None\<rparr>"


section \<open>The miner's configuration\<close>

definition DefaultInitialDAGMiB :: u64 where
  "DefaultInitialDAGMiB = StrictInitialDAGSizeBytes div (1024 * 1024)"

definition DefaultDAGGrowthMiB :: u64 where
  "DefaultDAGGrowthMiB = DefaultDAGGrowthBytesPerEpoch div (1024 * 1024)"

record miner_flags =
  mf_mode :: string
  mf_backend :: string
  mf_dagAlloc :: string
  mf_initialDAGMiB :: u64
  mf_dagMiB :: u64
  mf_dagGrowthMiB :: u64
  mf_reads :: u64
  mf_workers :: int
  mf_epochBlocks :: u64
  mf_header :: string
  mf_epochSeed :: string
  mf_target :: string
  mf_startNonce :: u64
  mf_maxNonces :: u64
  mf_bench :: bool

definition miner_defaults :: "nat \<Rightarrow> miner_flags" where
  "miner_defaults numCPU =
     \<lparr>mf_mode = ModeStrict, mf_backend = BackendOpenCL, mf_dagAlloc = ''auto'',
      mf_initialDAGMiB = DefaultInitialDAGMiB, mf_dagMiB = 0, mf_dagGrowthMiB = DefaultDAGGrowthMiB,
      mf_reads = StrictReadsPerHash, mf_workers = int numCPU, mf_epochBlocks = StrictEpochBlocks,
      mf_header = ''434f4c4f535355532d582d544553542d4845414445522d303031'',
      mf_epochSeed = ''00112233445566778899aabbccddeeff00112233445566778899aabbccddeeff'',
      mf_target = ''00ffffffffffffffffffffffffffffffffffffffffffffffffffffffffffffff'',
      mf_startNonce = 0, mf_maxNonces = 200000, mf_bench = False\<rparr>"

record cli_config =
  cc_Mode :: string
  cc_Backend :: string
  cc_DAGAlloc :: string
  cc_Spec :: spec
  cc_Workers :: int
  cc_Header :: bytes
  cc_EpochSeed :: bytes
  cc_Target :: target
  cc_StartNonce :: u64
  cc_MaxNonces :: u64
  cc_BenchOnly :: bool

datatype cli_error =
    BadMode string | BadBackend string | StrictOverride | CliSpec spec_error | CliStrict config_error
  | BadHeaderHex hex_error | BadSeedHex hex_error | BadTarget target_error

definition parseMode :: "string \<Rightarrow> cli_error + string" where
  "parseMode s = (if s \<in> {ModeStrict, ModeResearch} then Inr s else Inl (BadMode s))"

definition ParseBackendMode :: "string \<Rightarrow> cli_error + string" where
  "ParseBackendMode s =
     (if s \<in> {BackendCPU, BackendCUDA, BackendOpenCL, BackendMetal, BackendUnified, BackendGPU}
      then Inr s else Inl (BadBackend s))"

text \<open>The profile the flags describe; a multiplication by \<open>1024 * 1024\<close> wraps.\<close>

definition MiB :: "u64 \<Rightarrow> u64" where
  "MiB n = n * 1024 * 1024"

definition initial_MiB :: "miner_flags \<Rightarrow> u64" where
  "initial_MiB f = (if mf_dagMiB f \<noteq> 0 then mf_dagMiB f else mf_initialDAGMiB f)"

definition with_sizes :: "u64 \<Rightarrow> u64 \<Rightarrow> spec \<Rightarrow> spec" where
  "with_sizes initial growth s =
     (let s = (if growth \<noteq> DefaultDAGGrowthMiB then s\<lparr>DAGGrowthBytesPerEpoch := MiB growth\<rparr> else s)
      in if initial \<noteq> DefaultInitialDAGMiB
         then s\<lparr>InitialDAGSizeBytes := MiB initial, DAGSizeBytes := MiB initial\<rparr> else s)"

definition cli_spec :: "string \<Rightarrow> miner_flags \<Rightarrow> cli_error + spec" where
  "cli_spec mode f =
     (if mode = ModeStrict then
        (if mf_reads f \<noteq> StrictReadsPerHash \<or> mf_epochBlocks f \<noteq> StrictEpochBlocks then Inl StrictOverride
         else Inr (with_sizes (initial_MiB f) (mf_dagGrowthMiB f) StrictSpec))
      else Inr (ResearchSpecWithGrowth (MiB (initial_MiB f)) (MiB (mf_dagGrowthMiB f)) (mf_reads f)
             (mf_epochBlocks f)))"

definition ParseCLIConfig :: "miner_flags \<Rightarrow> cli_error + cli_config" where
  "ParseCLIConfig f =
     (case parseMode (mf_mode f) of Inl e \<Rightarrow> Inl e | Inr mode \<Rightarrow>
      (case ParseBackendMode (mf_backend f) of Inl e \<Rightarrow> Inl e | Inr backend \<Rightarrow>
       (case cli_spec mode f of Inl e \<Rightarrow> Inl e | Inr spec \<Rightarrow>
        (case Validate spec of Some e \<Rightarrow> Inl (CliSpec e) | None \<Rightarrow>
         (case ValidateStrictProductionConfig mode backend (mf_dagAlloc f) of
            Some e \<Rightarrow> Inl (CliStrict e) | None \<Rightarrow>
          (case DecodeString (mf_header f) of Inl e \<Rightarrow> Inl (BadHeaderHex e) | Inr header \<Rightarrow>
           (case DecodeString (mf_epochSeed f) of Inl e \<Rightarrow> Inl (BadSeedHex e) | Inr seed \<Rightarrow>
            (case ParseTargetHex (mf_target f) of Inl e \<Rightarrow> Inl (BadTarget e) | Inr t \<Rightarrow>
               Inr \<lparr>cc_Mode = mode, cc_Backend = backend, cc_DAGAlloc = mf_dagAlloc f, cc_Spec = spec,
                    cc_Workers = mf_workers f, cc_Header = header, cc_EpochSeed = seed, cc_Target = t,
                    cc_StartNonce = mf_startNonce f, cc_MaxNonces = mf_maxNonces f,
                    cc_BenchOnly = mf_bench f\<rparr>))))))))"


section \<open>Running the miner\<close>

datatype run_error =
    RuntimeFailed string | StrategyFailed strategy_error | NewDAGFailed dag_error
  | GenerateFailed dag_error | BackendFailed backend_error | NewMinerFailed miner_error
  | NewBackendFailed | ConfigFailed cli_error

datatype run_outcome = RunError run_error | BenchDone string | ExitCode1 | SolutionFound mine_result | RunPanic

text \<open>Everything up to the search: the backend's runtime, the memory, the DAG and the miner.\<close>

definition run_setup ::
  "hashlib \<Rightarrow> nat \<Rightarrow> 'r platform \<Rightarrow> cli_config \<Rightarrow> 'r any_backend \<Rightarrow> (run_error + miner) option" where
  "run_setup L numCPU P cfg b =
     (let (rb, b) = InitializeBackendRuntime P b in
      case rb of Inl e \<Rightarrow> Some (Inl (RuntimeFailed e)) | Inr rt \<Rightarrow>
      (case ResolveDAGStrategyForMode (cc_Mode cfg) (cc_Backend cfg) rt (cc_DAGAlloc cfg) of
         Inl e \<Rightarrow> Some (Inl (StrategyFailed e)) | Inr strategy \<Rightarrow>
       (case fst (NewDAGWithAllocator (cc_Spec cfg) (Some (strategy_allocator P strategy))) of
          Inl e \<Rightarrow> Some (Inl (NewDAGFailed e)) | Inr dag \<Rightarrow>
        (case PopulateDAG L numCPU dag (cc_EpochSeed cfg) (cc_Workers cfg) of
           None \<Rightarrow> None | Some (Some e, _) \<Rightarrow> Some (Inl (GenerateFailed e)) | Some (None, dag) \<Rightarrow>
         (case backend_Prepare P (Some dag) b of
            None \<Rightarrow> None | Some (Some e, _) \<Rightarrow> Some (Inl (BackendFailed e)) | Some (None, b) \<Rightarrow>
          (case NewMiner numCPU (cc_Spec cfg) (Some dag) (cc_Workers cfg) (skipPrepareBackend L P b) of
             Inl e \<Rightarrow> Some (Inl (NewMinerFailed e)) | Inr m \<Rightarrow> Some (Inr m)))))))"

inductive Run ::
  "hashlib \<Rightarrow> nat \<Rightarrow> 'r platform \<Rightarrow> cli_config \<Rightarrow> 'r any_backend \<Rightarrow> run_outcome \<Rightarrow> bool"
  for L :: hashlib and numCPU :: nat and P :: "'r platform" and cfg :: cli_config and b :: "'r any_backend"
where
  panic: "run_setup L numCPU P cfg b = None \<Longrightarrow> Run L numCPU P cfg b RunPanic"
| error: "run_setup L numCPU P cfg b = Some (Inl e) \<Longrightarrow> Run L numCPU P cfg b (RunError e)"
| bench: "run_setup L numCPU P cfg b = Some (Inr m) \<Longrightarrow> cc_BenchOnly cfg \<Longrightarrow>
    Run L numCPU P cfg b
      (BenchDone (mr_Backend (fst (Benchmark m (cc_Header cfg) (cc_StartNonce cfg) (cc_MaxNonces cfg)))))"
| solution: "run_setup L numCPU P cfg b = Some (Inr m) \<Longrightarrow> \<not> cc_BenchOnly cfg \<Longrightarrow>
    Mine m (cc_Header cfg) (cc_Target cfg) (cc_StartNonce cfg) (cc_MaxNonces cfg) (Some r) \<Longrightarrow>
    Run L numCPU P cfg b (SolutionFound r)"
| no_solution: "run_setup L numCPU P cfg b = Some (Inr m) \<Longrightarrow> \<not> cc_BenchOnly cfg \<Longrightarrow>
    Mine m (cc_Header cfg) (cc_Target cfg) (cc_StartNonce cfg) (cc_MaxNonces cfg) None \<Longrightarrow>
    Run L numCPU P cfg b ExitCode1"

inductive_cases RunE: "Run L numCPU P cfg b outcome"

inductive Main :: "hashlib \<Rightarrow> nat \<Rightarrow> 'r platform \<Rightarrow> miner_flags \<Rightarrow> run_outcome \<Rightarrow> bool"
  for L :: hashlib and numCPU :: nat and P :: "'r platform" and f :: miner_flags
where
  bad_config: "ParseCLIConfig f = Inl e \<Longrightarrow> Main L numCPU P f (RunError (ConfigFailed e))"
| bad_backend: "ParseCLIConfig f = Inr cfg \<Longrightarrow> (NewBackend (cc_Backend cfg) :: 'r any_backend option) = None \<Longrightarrow>
    Main L numCPU P f (RunError NewBackendFailed)"
| run: "ParseCLIConfig f = Inr cfg \<Longrightarrow> NewBackend (cc_Backend cfg) = Some b \<Longrightarrow>
    Run L numCPU P cfg b outcome \<Longrightarrow> Main L numCPU P f outcome"

inductive_cases MainE: "Main L numCPU P f outcome"


section \<open>The daemon's configuration\<close>

record daemon_flags =
  df_mode :: string
  df_network :: string
  df_initialDAGMiB :: u64
  df_dagMiB :: u64
  df_dagGrowthMiB :: u64
  df_reads :: u64
  df_epochBlocks :: u64
  df_mine :: bool
  df_noMine :: bool
  df_workers :: int
  df_maxNonces :: u64
  df_blockTime :: i64w
  df_genesisMessage :: string
  df_dataDir :: string
  df_listen :: string
  df_bootnodes :: string
  df_nodeID :: string
  df_target :: string
  df_minerBackend :: string
  df_minerDAGAlloc :: string
  df_set :: "string list"

text \<open>\<open>df_set\<close> lists the flags given on the command line.\<close>

definition daemon_defaults :: "nat \<Rightarrow> string \<Rightarrow> daemon_flags" where
  "daemon_defaults numCPU dataDir =
     \<lparr>df_mode = ModeResearch, df_network = ''devnet'', df_initialDAGMiB = DefaultInitialDAGMiB,
      df_dagMiB = 0, df_dagGrowthMiB = DefaultDAGGrowthMiB, df_reads = 32, df_epochBlocks = 32,
      df_mine = True, df_noMine = False, df_workers = int numCPU, df_maxNonces = 500000, df_blockTime = 500000000,
      df_genesisMessage = ''colossusx devnet genesis'', df_dataDir = dataDir, df_listen = '':30333'',
      df_bootnodes = [], df_nodeID = [],
      df_target = ''0fffffffffffffffffffffffffffffffffffffffffffffffffffffffffffffff'',
      df_minerBackend = BackendOpenCL, df_minerDAGAlloc = ''auto'', df_set = []\<rparr>"

record daemon_config =
  dc_Chain :: chain_config
  dc_Genesis :: genesis_config
  dc_Mine :: bool
  dc_Workers :: int
  dc_MaxNonces :: u64
  dc_BlockTime :: i64w
  dc_DataDir :: string
  dc_ListenAddr :: string
  dc_Bootnodes :: "string list"
  dc_NodeID :: string
  dc_MinerBackend :: string
  dc_MinerDAGAlloc :: string

definition daemon_initial_MiB :: "daemon_flags \<Rightarrow> u64" where
  "daemon_initial_MiB f =
     (let n = (if df_dagMiB f \<noteq> 0 then df_dagMiB f else df_initialDAGMiB f)
      in if df_mode f = ModeResearch \<and> ''initial-dag-mib'' \<notin> set (df_set f) \<and> ''dag-mib'' \<notin> set (df_set f)
         then 8 else n)"

definition daemon_spec :: "daemon_flags \<Rightarrow> cli_error + spec" where
  "daemon_spec f =
     (if df_mode f = ModeStrict
      then Inr (with_sizes (daemon_initial_MiB f) (df_dagGrowthMiB f) StrictSpec)
      else if df_mode f = ModeResearch
      then Inr (ResearchSpecWithGrowth (MiB (daemon_initial_MiB f)) (MiB (df_dagGrowthMiB f)) (df_reads f)
             (df_epochBlocks f))
      else Inl (BadMode (df_mode f)))"

text \<open>\<open>now\<close> is the clock the genesis time is taken from.\<close>

definition parseFlags :: "i64w \<Rightarrow> daemon_flags \<Rightarrow> cli_error + daemon_config" where
  "parseFlags now f =
     (case daemon_spec f of Inl e \<Rightarrow> Inl e | Inr spec \<Rightarrow>
      (case Validate spec of Some e \<Rightarrow> Inl (CliSpec e) | None \<Rightarrow>
       (case ParseBackendMode (df_minerBackend f) of Inl e \<Rightarrow> Inl e | Inr backend \<Rightarrow>
        (case ValidateStrictProductionConfig (df_mode f) backend (df_minerDAGAlloc f) of
           Some e \<Rightarrow> Inl (CliStrict e) | None \<Rightarrow>
         (case ParseTargetHex (df_target f) of Inl e \<Rightarrow> Inl (BadTarget e) | Inr t \<Rightarrow>
            Inr \<lparr>dc_Chain = \<lparr>ccNetworkID = df_network f, ccSpec = spec\<rparr>,
                 dc_Genesis = \<lparr>gcChainID = df_network f, gcMessage = df_genesisMessage f,
                   gcTimestamp = now, gcBits = t, gcSpec = spec, gcExtraData = ''mode='' @ Mode spec\<rparr>,
                 dc_Mine = (if df_noMine f then False else df_mine f), dc_Workers = df_workers f,
                 dc_MaxNonces = df_maxNonces f, dc_BlockTime = df_blockTime f, dc_DataDir = df_dataDir f, dc_ListenAddr = df_listen f,
                 dc_Bootnodes = ParseBootnodes (df_bootnodes f), dc_NodeID = df_nodeID f,
                 dc_MinerBackend = backend, dc_MinerDAGAlloc = df_minerDAGAlloc f\<rparr>)))))"

text \<open>The backend, the strategy and the status text of the runtime.\<close>

definition initializeMining ::
  "'r platform \<Rightarrow> daemon_config \<Rightarrow> (run_error + 'r any_backend \<times> memory_strategy) \<times> string" where
  "initializeMining P cfg =
     (case NewBackend (dc_MinerBackend cfg) of None \<Rightarrow> (Inl NewBackendFailed, ''failed'') | Some b \<Rightarrow>
      (let (rb, b) = InitializeBackendRuntime P b in
       case rb of Inl e \<Rightarrow> (Inl (RuntimeFailed e), ''failed'') | Inr rt \<Rightarrow>
       (let status = (if rt \<noteq> None then ''ok'' else ''not-required'') in
        case ResolveDAGStrategyForMode (Mode (ccSpec (dc_Chain cfg))) (dc_MinerBackend cfg) rt
               (dc_MinerDAGAlloc cfg) of
          Inl e \<Rightarrow> (Inl (StrategyFailed e), status)
        | Inr strategy \<Rightarrow> (Inr (b, strategy), status))))"


section \<open>The verifier\<close>

record verify_flags =
  vf_mode :: string
  vf_header :: string
  vf_block :: string
  vf_initialDAGMiB :: u64
  vf_dagMiB :: u64
  vf_dagGrowthMiB :: u64
  vf_reads :: u64
  vf_epochBlocks :: u64

datatype verify_error =
    NoInput | TwoInputs | ReadError string | DecodeError | VerifyMode string | VerifySpec spec_error
  | DAGSizeMismatch u64 u64 | VersionMismatch u32 u32 | EpochSeedMismatch hash hash
  | StatelessFailed dag_error | PoWFailed

type_synonym files = "string \<Rightarrow> string + string"

definition readJSONFile :: "files \<Rightarrow> string \<Rightarrow> 'a fields \<Rightarrow> 'a \<Rightarrow> verify_error + 'a" where
  "readJSONFile disk path fs out =
     (case disk path of
        Inl e \<Rightarrow> Inl (ReadError e)
      | Inr text \<Rightarrow>
          (case Option.bind (json_parse text) (\<lambda>j. dec_struct fs j out) of
             None \<Rightarrow> Inl DecodeError | Some v \<Rightarrow> Inr v))"

definition loadHeader :: "files \<Rightarrow> string \<Rightarrow> string \<Rightarrow> verify_error + block_header" where
  "loadHeader disk headerPath blockPath =
     (if headerPath = [] \<and> blockPath = [] then Inl NoInput
      else if headerPath \<noteq> [] \<and> blockPath \<noteq> [] then Inl TwoInputs
      else if blockPath \<noteq> [] then map_sum id Header (readJSONFile disk blockPath block_fields zero_block)
      else readJSONFile disk headerPath header_fields (Header zero_block))"

definition verifier_spec :: "string \<Rightarrow> u64 \<Rightarrow> u64 \<Rightarrow> u64 \<Rightarrow> u64 \<Rightarrow> spec" where
  "verifier_spec mode initialDAGBytes growthBytes readsPerHash epochBlocks =
     (if mode = ModeStrict then
        let s = StrictSpec;
            s = (if initialDAGBytes \<noteq> 0
                 then s\<lparr>InitialDAGSizeBytes := initialDAGBytes, DAGSizeBytes := initialDAGBytes\<rparr> else s)
        in if growthBytes \<noteq> 0 then s\<lparr>DAGGrowthBytesPerEpoch := growthBytes\<rparr> else s
      else ResearchSpecWithGrowth initialDAGBytes growthBytes readsPerHash epochBlocks)"

definition specFromHeader ::
  "string \<Rightarrow> block_header \<Rightarrow> u64 \<Rightarrow> u64 \<Rightarrow> u64 \<Rightarrow> u64 \<Rightarrow> (verify_error + spec) option" where
  "specFromHeader mode header initialDAGBytes growthBytes readsPerHash epochBlocks =
     (if mode \<notin> {ModeStrict, ModeResearch} then Some (Inl (VerifyMode mode))
      else
        let spec = verifier_spec mode initialDAGBytes growthBytes readsPerHash epochBlocks
        in case Validate spec of
             Some e \<Rightarrow> Some (Inl (VerifySpec e))
           | None \<Rightarrow>
               map_option (\<lambda>resolved.
                 if hDAGSizeBytes header \<noteq> DAGSizeBytes resolved
                 then Inl (DAGSizeMismatch (DAGSizeBytes resolved) (hDAGSizeBytes header))
                 else if hAlgorithmVersion header \<noteq> AlgorithmVersion spec
                 then Inl (VersionMismatch (hAlgorithmVersion header) (AlgorithmVersion spec))
                 else Inr spec)
                 (ResolvedForHeight spec (hHeight header)))"

text \<open>The error \<open>run\<close> returns, \<open>Inr\<close> the digest when it returns nil.\<close>

definition verify_run :: "hashlib \<Rightarrow> files \<Rightarrow> verify_flags \<Rightarrow> (verify_error + hash_result) option" where
  "verify_run L disk f =
     (let initial = (if vf_dagMiB f \<noteq> 0 then vf_dagMiB f else vf_initialDAGMiB f) in
      case loadHeader disk (vf_header f) (vf_block f) of Inl e \<Rightarrow> Some (Inl e) | Inr header \<Rightarrow>
      (case specFromHeader (vf_mode f) header (MiB initial) (MiB (vf_dagGrowthMiB f)) (vf_reads f)
              (vf_epochBlocks f) of
         None \<Rightarrow> None | Some (Inl e) \<Rightarrow> Some (Inl e) | Some (Inr spec) \<Rightarrow>
       (case EpochSeedForHeight spec (hHeight header) of None \<Rightarrow> None | Some expectedSeed \<Rightarrow>
          if expectedSeed \<noteq> hEpochSeed header
          then Some (Inl (EpochSeedMismatch expectedSeed (hEpochSeed header)))
          else
            (case ResolvedForHeight spec (hHeight header) of None \<Rightarrow> None | Some resolved \<Rightarrow>
             (case VerifyHeaderStateless L resolved (EncodeForMining header) (Some (hNonce header))
                     (hEpochSeed header) (hTarget header) of
                None \<Rightarrow> None
              | Some (Inl e) \<Rightarrow> Some (Inl (StatelessFailed e))
              | Some (Inr (h, ok)) \<Rightarrow> Some (if ok then Inr h else Inl PoWFailed))))))"

end
