(* ===== verification/GpuProofs.thy ===== *)
theory GpuProofs
  imports Gpu
begin

text \<open>
  What the OpenCL dispatcher returns: in strict mode only what the device kernel computed, in research
  mode that or the reference hashes of the whole batch.
\<close>


section \<open>The host part\<close>

definition prepared :: "'r dispatcher \<Rightarrow> bool" where
  "prepared d \<longleftrightarrow> (case od_scratch d of None \<Rightarrow> False | Some p \<Rightarrow> pool_ok p)"

interpretation view_hasher: header_hasher
  "\<lambda>p. view_ok v \<and> (case p of None \<Rightarrow> False | Some p \<Rightarrow> pool_ok p)"
  "\<lambda>n p. map_option (\<lambda>(h, p). (h, Some p)) (pooled_hash L s header n (unifiedMemoryDAGView v) p)"
  "\<lambda>n. lattice_reference L s (unat (uv_nodeCount v)) (slice_table (uv_buf v)) header (Some n)"
  for v L s header
proof unfold_locales
  fix p and n
  assume a: "view_ok v \<and> (case p of None \<Rightarrow> False | Some p \<Rightarrow> pool_ok p)"
  then obtain q where q: "p = Some q" "pool_ok q" by (auto split: option.splits)
  have "acc_underlying (unifiedMemoryDAGView v) = None" by (simp add: unifiedMemoryDAGView_def)
  from unified_nodes.pooled [OF _ q(2) this, of L s header n] a q show
    "\<exists>p'. map_option (\<lambda>(h, p). (h, Some p)) (pooled_hash L s header n (unifiedMemoryDAGView v) p) =
      Some (lattice_reference L s (unat (uv_nodeCount v)) (slice_table (uv_buf v)) header (Some n), p') \<and>
      view_ok v \<and> (case p' of None \<Rightarrow> False | Some p \<Rightarrow> pool_ok p)"
    by auto
qed

lemma batch_word:
  assumes "0 < batch" "batch < 2 ^ 63"
  shows "unat (of_int batch :: u64) = nat batch"
  using assms by (simp add: unsigned_of_int take_bit_int_eq_self)

lemma dag_raw_slice:
  assumes "dag_ok d" and "newRawContiguousDAGBuffer (Some d) = Some (Inr raw)"
  shows "raw_Bytes raw = DAG_slice d"
  using assms DAG_slice_simps(1) [OF assms(1)]
  by (auto simp: newRawContiguousDAGBuffer_def Let_def DAG_slice_def split: if_splits bind_splits)

lemma host_dispatch_reference:
  assumes ok: "dag_ok d" and raw: "newRawContiguousDAGBuffer (Some d) = Some (Inr raw)"
    and disp: "prepared disp" and batch: "0 < batch" "batch < 2 ^ 63"
  shows "\<exists>disp' plan. host_dispatch L header start batch d raw disp =
      Some ((None, \<lparr>gr_Hashes = batch_results (dag_reference L d header) start (of_int batch), gr_Plan = plan\<rparr>),
        disp') \<and> pl_ExecutionPath plan = GPUExecutionPathHostReference \<and> prepared disp'"
proof -
  let ?v = "\<lparr>uv_buf = DAG_slice d, uv_nodeSize = 64, uv_nodeCount = of_nat (nodes_of (dag_spec d))\<rparr>"
  have ref: "(\<lambda>n. lattice_reference L (dag_spec d) (unat (uv_nodeCount ?v)) (slice_table (uv_buf ?v)) header (Some n)) =
      dag_reference L d header"
    by (simp add: fun_eq_iff dag_reference_def DAG_slice_table dag_count_word(1) [OF ok])
  have inv: "view_ok ?v \<and> (case od_scratch disp of None \<Rightarrow> False | Some p \<Rightarrow> pool_ok p)"
    using dag_view(2) [OF ok] disp by (simp add: prepared_def)
  obtain p' where "batch_loop (\<lambda>n scratch. map_option (\<lambda>(h, p). (h, Some p))
        (pooled_hash L (dag_spec d) header n (unifiedMemoryDAGView ?v) scratch)) start (nat batch) 0
        (od_scratch disp) = Some (batch_results (dag_reference L d header) start (of_int batch), p')"
      "case p' of None \<Rightarrow> False | Some p \<Rightarrow> pool_ok p"
    using view_hasher.batch [OF inv, of L "dag_spec d" header start "of_int batch"]
    unfolding ref batch_word [OF batch] by blast
  then show ?thesis
    by (simp add: host_dispatch_def dag_raw_slice [OF ok raw] dag_view(1) [OF ok] prepared_def host_plan_def)
qed

text \<open>The device part returns either an error without hashes or what the kernel returned.\<close>

definition from_device ::
  "'r platform \<Rightarrow> bytes \<Rightarrow> nonce \<Rightarrow> int \<Rightarrow> dag \<Rightarrow> 'r dispatcher \<Rightarrow> hash_result list \<Rightarrow> bool" where
  "from_device P header start batch d disp hs \<longleftrightarrow>
     (\<exists>devk ctx raw. (od_deviceSharedHash disp = Some devk \<or>
          od_deviceSharedHash disp = None \<and> pf_newOpenCLSharedAllocationKernel P = Some devk) \<and>
        pl_SVMEnabled (od_plan disp) \<and> pf_OpenCLContext P (od_runtime disp) = Some ctx \<and>
        newRawContiguousDAGBuffer (Some d) = Some (Inr raw) \<and>
        devk ctx (dag_spec d) header start (of_int batch) raw = Inr hs)"

lemma device_dispatch_cases:
  assumes "device_dispatch P header start batch d raw disp = Some (e, r)"
    and "newRawContiguousDAGBuffer (Some d) = Some (Inr raw)"
  shows "e \<noteq> None \<and> gr_Hashes r = [] \<or>
    e = None \<and> pl_ExecutionPath (gr_Plan r) = GPUExecutionPathDeviceKernel \<and>
    from_device P header start batch d disp (gr_Hashes r)"
  using assms
  by (auto simp: device_dispatch_def from_device_def device_plan_def split: if_splits option.splits sum.splits)

lemma device_dispatch_none:
  assumes "device_dispatch P header start batch d raw disp = None"
    and raw: "newRawContiguousDAGBuffer (Some d) = Some (Inr raw)"
  shows "\<not> from_device P header start batch d disp hs"
proof
  assume "from_device P header start batch d disp hs"
  then obtain devk ctx where a: "od_deviceSharedHash disp = Some devk \<or>
          od_deviceSharedHash disp = None \<and> pf_newOpenCLSharedAllocationKernel P = Some devk"
      "pl_SVMEnabled (od_plan disp)" "pf_OpenCLContext P (od_runtime disp) = Some ctx"
      "devk ctx (dag_spec d) header start (of_int batch) raw = Inr hs"
    using raw by (auto simp: from_device_def)
  then show False using assms(1) by (auto simp: device_dispatch_def split: option.splits)
qed

lemma Dispatch_cases:
  assumes ok: "dag_ok d" and disp: "prepared disp" and batch: "0 < batch" "batch < 2 ^ 63"
  shows "\<exists>e r disp'. Dispatch L P header start batch (Some d) disp = Some ((e, r), disp') \<and> prepared disp' \<and>
    (case e of
       Some _ \<Rightarrow> gr_Hashes r = []
     | None \<Rightarrow>
         pl_ExecutionPath (gr_Plan r) = GPUExecutionPathDeviceKernel \<and>
           from_device P header start batch d disp (gr_Hashes r) \<or>
         pl_ExecutionPath (gr_Plan r) = GPUExecutionPathHostReference \<and> Mode (dag_spec d) \<noteq> ModeStrict \<and>
           (\<forall>hs. \<not> from_device P header start batch d disp hs) \<and>
           gr_Hashes r = batch_results (dag_reference L d header) start (of_int batch))"
proof -
  obtain raw where raw: "newRawContiguousDAGBuffer (Some d) = Some (Inr raw)" by (rule dag_raw [OF ok])
  have D: "Dispatch L P header start batch (Some d) disp =
      (if \<not> pf_Available P (od_runtime disp)
       then Some ((Some RuntimeUnavailable, \<lparr>gr_Hashes = [], gr_Plan = host_plan (od_plan disp)\<rparr>), disp)
       else case device_dispatch P header start batch d raw disp of
          Some r \<Rightarrow> Some (r, disp)
        | None \<Rightarrow> if Mode (dag_spec d) = ModeStrict then Some ((Some StrictNeedsDeviceKernel,
                    \<lparr>gr_Hashes = [], gr_Plan = device_plan (od_plan disp)\<rparr>), disp)
                 else host_dispatch L header start batch d raw disp)"
    using batch by (simp add: Dispatch_def raw)
  show ?thesis
  proof (cases "device_dispatch P header start batch d raw disp")
    case None
    with device_dispatch_none [OF None raw] host_dispatch_reference [OF ok raw disp batch, of L header start]
      disp show ?thesis unfolding D by auto
  next
    case (Some er)
    obtain e r where er: "er = (e, r)" by (cases er)
    from device_dispatch_cases [OF Some [unfolded er] raw] show ?thesis
      using disp unfolding D Some er by auto
  qed
qed


text \<open>A hash whose dispatch fails is the zero result, which meets every target.\<close>

lemma gpu_error_meets_every_target:
  assumes "GPU_HashBatch L P header n 1 dag b = Some (Inl e, b')"
  shows "GPU_Hash L P header n dag b = Some (zero_result, b') \<and> LessOrEqualBE (Pow256 zero_result) t"
  using assms by (simp add: GPU_Hash_def zero_result_def LessOrEqualBE_zero)


section \<open>Property\<close>


text \<open>A runtime that is up but has no device kernel; a strict DAG.\<close>

definition sample_platform :: "unit platform" where
  "sample_platform = (stub_platform ''kernel'')\<lparr>pf_Available := \<lambda>_. True\<rparr>"

definition sample_dispatcher :: "unit dispatcher" where
  "sample_dispatcher = (new_dispatcher sample_platform)\<lparr>od_scratch := Some []\<rparr>"

definition strict_dag :: dag where
  "strict_dag = sample_dag\<lparr>dag_spec := StrictSpec\<lparr>InitialDAGSizeBytes := 64, DAGSizeBytes := 64\<rparr>\<rparr>"

lemma strict_dag_ok: "dag_ok strict_dag"
  by (simp add: strict_dag_def dag_ok_def sample_dag_def backing_def fits_def nodes_of_def Validate_def
      Let_def initialDAGSize_def growthDAGSizePerEpoch_def StrictSpec_def spec_consts)


end
