(* ===== verification/CliProofs.thy ===== *)
theory CliProofs
  imports Cli GpuProofs WireProofs
begin

text \<open>
  The programs do what their configuration says: every solution the miner reports in the build without
  cgo passes the stateless check, the accepted configurations are consistent, and the verifier accepts
  exactly the headers that keep the profile's rules.
\<close>


section \<open>Accepted configurations\<close>

lemma spec_has_nodes:
  assumes v: "Validate s = None" and eq: "DAGSizeBytes s = initialDAGSize s"
  shows "nodes_of s \<noteq> 0"
proof -
  have i: "initialDAGSize s \<noteq> 0" "initialDAGSize s mod 64 = 0"
    by (rule Validate_common(1) [OF v], rule Validate_common(5) [OF v])
  have "64 dvd unat (initialDAGSize s)" by (rule iffD1 [OF dvd_unat_64 i(2)])
  moreover have "0 < unat (initialDAGSize s)" by (rule iffD2 [OF unat_gt_0 i(1)])
  ultimately have "64 \<le> unat (initialDAGSize s)" by (rule dvd_imp_le)
  then show ?thesis by (simp add: nodes_of_def eq)
qed

lemma ResearchSpec_fields:
  "Mode (ResearchSpecWithGrowth i g r e) = ModeResearch"
  "AlgorithmVersion (ResearchSpecWithGrowth i g r e) = 1"
  "DAGSizeBytes (ResearchSpecWithGrowth i g r e) = initialDAGSize (ResearchSpecWithGrowth i g r e)"
  by (simp_all add: ResearchSpecWithGrowth_def Let_def initialDAGSize_def StrictSpec_def)

lemma with_sizes_fields:
  "Mode (with_sizes i g StrictSpec) = ModeStrict"
  "AlgorithmVersion (with_sizes i g StrictSpec) = 2"
  "DAGSizeBytes (with_sizes i g StrictSpec) = initialDAGSize (with_sizes i g StrictSpec)"
  "ReadsPerHash (with_sizes i g StrictSpec) = StrictReadsPerHash"
  "EpochBlocks (with_sizes i g StrictSpec) = StrictEpochBlocks"
  by (simp_all add: with_sizes_def Let_def initialDAGSize_def StrictSpec_def)

text \<open>A size in MiB wraps silently: only its lowest 44 bits count.\<close>

lemma MiB_wraps: "MiB (n + 2 ^ 44) = MiB n"
  by (simp add: MiB_def distrib_right)

text \<open>What an accepted profile is.\<close>

definition profile_ok :: "string \<Rightarrow> spec \<Rightarrow> bool" where
  "profile_ok mode s \<longleftrightarrow> Validate s = None \<and> nodes_of s \<noteq> 0 \<and> Mode s = mode \<and>
     (mode = ModeStrict \<and> AlgorithmVersion s = 2 \<or> mode = ModeResearch \<and> AlgorithmVersion s = 1)"

lemma cli_spec_ok:
  assumes "cli_spec mode f = Inr s" and "Validate s = None" and "mode \<in> {ModeStrict, ModeResearch}"
  shows "profile_ok mode s"
proof -
  have "DAGSizeBytes s = initialDAGSize s"
    using assms(1) by (auto simp: cli_spec_def ResearchSpec_fields with_sizes_fields split: if_splits)
  then have "nodes_of s \<noteq> 0" by (rule spec_has_nodes [OF assms(2)])
  then show ?thesis
    using assms by (auto simp: profile_ok_def cli_spec_def ResearchSpec_fields with_sizes_fields split: if_splits)
qed

lemma daemon_spec_ok:
  assumes "daemon_spec f = Inr s" and "Validate s = None"
  shows "profile_ok (df_mode f) s"
proof -
  have "DAGSizeBytes s = initialDAGSize s"
    using assms(1) by (auto simp: daemon_spec_def ResearchSpec_fields with_sizes_fields split: if_splits)
  then have "nodes_of s \<noteq> 0" by (rule spec_has_nodes [OF assms(2)])
  then show ?thesis
    using assms by (auto simp: profile_ok_def daemon_spec_def ResearchSpec_fields with_sizes_fields split: if_splits)
qed

lemma ParseTargetHex_length: "ParseTargetHex s = Inr t \<Longrightarrow> length t = 32"
  by (auto simp: ParseTargetHex_def split: sum.splits if_splits)

lemma parseMode_Inr: "parseMode s = Inr m \<Longrightarrow> m \<in> {ModeStrict, ModeResearch}"
  by (auto simp: parseMode_def split: if_splits)

lemma ParseCLIConfig_ok:
  assumes "ParseCLIConfig f = Inr cfg"
  shows "profile_ok (cc_Mode cfg) (cc_Spec cfg)" "length (cc_Target cfg) = 32"
    "ValidateStrictProductionConfig (cc_Mode cfg) (cc_Backend cfg) (cc_DAGAlloc cfg) = None"
    "ParseBackendMode (mf_backend f) = Inr (cc_Backend cfg)"
proof -
  obtain mode backend s header seed t where p: "parseMode (mf_mode f) = Inr mode"
    "ParseBackendMode (mf_backend f) = Inr backend" "cli_spec mode f = Inr s" "Validate s = None"
    "ValidateStrictProductionConfig mode backend (mf_dagAlloc f) = None"
    "ParseTargetHex (mf_target f) = Inr t"
    and cfg: "cc_Mode cfg = mode" "cc_Backend cfg = backend" "cc_Spec cfg = s" "cc_Target cfg = t"
      "cc_DAGAlloc cfg = mf_dagAlloc f"
    using assms by (auto simp: ParseCLIConfig_def split: sum.splits option.splits)
  show "profile_ok (cc_Mode cfg) (cc_Spec cfg)"
    unfolding cfg by (rule cli_spec_ok [OF p(3,4) parseMode_Inr [OF p(1)]])
  show "length (cc_Target cfg) = 32" using ParseTargetHex_length [OF p(6)] by (simp add: cfg)
  show "ValidateStrictProductionConfig (cc_Mode cfg) (cc_Backend cfg) (cc_DAGAlloc cfg) = None"
    "ParseBackendMode (mf_backend f) = Inr (cc_Backend cfg)"
    using p cfg by simp_all
qed

lemma strict_backend:
  "ValidateStrictProductionConfig ModeStrict backend dagAlloc = None \<Longrightarrow>
    backend \<in> {BackendCUDA, BackendOpenCL, BackendMetal}"
  by (auto simp: ValidateStrictProductionConfig_def split: if_splits)


section \<open>Setting up a run\<close>

lemma NewDAGWithAllocator_ok:
  assumes "fst (NewDAGWithAllocator s (Some m)) = Inr d" and "nodes_of s \<noteq> 0"
  shows "dag_ok d" "dag_spec d = s"
proof -
  have "DAGSizeBytes s \<noteq> 0" using assms(2) by (auto simp: nodes_of_def)
  then show "dag_ok d" "dag_spec d = s"
    using assms by (auto simp: NewDAGWithAllocator_def NewDAGWithAllocation_def dag_ok_def fits_def
        backing_def split: sum.splits option.splits if_splits)
qed

text \<open>A backend that hashes on the host and has been prepared with the DAG.\<close>

definition host_ready :: "dag \<Rightarrow> 'r any_backend \<Rightarrow> bool" where
  "host_ready d b \<longleftrightarrow>
     (case b of
        CPUB c \<Rightarrow> cpu_ready d c \<and> AlgorithmVersion (dag_spec d) < 2
      | UnifiedB u \<Rightarrow> unified_ready d u \<and> AlgorithmVersion (dag_spec d) < 2
      | MetalB \<Rightarrow> 2 \<le> AlgorithmVersion (dag_spec d)
      | _ \<Rightarrow> False)"

lemma Metal_Hash_populated:
  assumes p: "populated L seed d" and v: "2 \<le> AlgorithmVersion (dag_spec d)"
  shows "Metal_Hash header n (Some d) = Some (algorithm_hash L (dag_spec d) seed header n)"
proof -
  have ok: "dag_ok d" using p by (simp add: populated_def)
  have nz: "0 < nodes_of (dag_spec d)" using dag_nodes.cnt_range [OF ok] by simp
  have tab: "\<forall>i < nodes_of (dag_spec d). DAG_table d i = algorithm_nodes L (dag_spec d) seed i"
    using populated_table [OF p] by blast
  show ?thesis
    using dag_tiles.StrictV2Hash_reference [OF ok, of "dag_spec d" header n] v
    by (simp add: Metal_Hash_def algorithm_hash_def strict_reference_def ref_strict_cong [OF nz tab])
qed

lemma backend_Hash_populated:
  assumes p: "populated L seed d" and b: "host_ready d b"
  shows "map_option fst (backend_Hash L P header n (Some d) b) =
    Some (algorithm_hash L (dag_spec d) seed header (Some n))"
proof -
  have ok: "dag_ok d" using p by (simp add: populated_def)
  show ?thesis
  proof (cases b)
    case (CPUB c)
    with b have c: "cpu_ready d c" "AlgorithmVersion (dag_spec d) < 2" by (simp_all add: host_ready_def)
    from CPU_Hash_reference [OF ok c(1), of L header n "Some d"] show ?thesis
      by (auto simp: CPUB backend_Hash_def dag_reference_populated [OF p c(2)])
  next
    case (UnifiedB u)
    with b have u: "unified_ready d u" "AlgorithmVersion (dag_spec d) < 2" by (simp_all add: host_ready_def)
    from Unified_Hash_reference [OF ok u(1), of L header n "Some d"] show ?thesis
      by (auto simp: UnifiedB backend_Hash_def dag_reference_populated [OF p u(2)])
  next
    case MetalB
    with b show ?thesis by (simp add: host_ready_def backend_Hash_def Metal_Hash_populated [OF p])
  qed (use b in \<open>simp_all add: host_ready_def\<close>)
qed

text \<open>Without cgo the OpenCL runtime never comes up.\<close>

definition stub_backend :: "spec \<Rightarrow> 'r any_backend \<Rightarrow> bool" where
  "stub_backend s b \<longleftrightarrow>
     (case b of
        CPUB c \<Rightarrow> cpu_scratch c = None \<and> AlgorithmVersion s < 2
      | UnifiedB u \<Rightarrow> ub_scratch u = None \<and> AlgorithmVersion s < 2
      | MetalB \<Rightarrow> 2 \<le> AlgorithmVersion s
      | GPUB g \<Rightarrow> g = new_gpu_backend
      | CUDACompatB g \<Rightarrow> g = new_gpu_backend)"

lemma backend_distinct:
  "distinct [BackendUnified, BackendCPU, BackendCUDA, BackendOpenCL, BackendMetal, BackendGPU]"
  by (simp add: backend_names)

lemma NewBackend_stub:
  assumes "NewBackend backend = Some b" and "profile_ok mode s"
    and "ValidateStrictProductionConfig mode backend dagAlloc = None"
    and "backend \<noteq> BackendMetal \<or> mode = ModeStrict"
  shows "stub_backend s b"
proof -
  have "AlgorithmVersion s < 2 \<or> backend \<in> {BackendCUDA, BackendOpenCL, BackendMetal}"
    using assms(2,3) strict_backend [of backend dagAlloc] by (auto simp: profile_ok_def)
  moreover have "mode = ModeStrict \<longrightarrow> 2 \<le> AlgorithmVersion s" using assms(2) by (auto simp: profile_ok_def ModeStrict_def ModeResearch_def)
  ultimately show ?thesis
    using assms(1,4) backend_distinct
    by (elim disjE) (auto simp: NewBackend_def stub_backend_def split: if_splits)
qed

lemma stub_gpu_fails:
  "fst (GPU_InitializeRuntime (stub_platform src) new_gpu_backend) \<noteq> None"
  by (simp add: GPU_InitializeRuntime_def new_gpu_backend_def Dispatcher_Initialize_def the_dispatcher_def
      stub_platform_def Let_def)

lemma stub_runtime:
  assumes "InitializeBackendRuntime (stub_platform src) b = (Inr rt, b')" and "stub_backend s b"
  shows "b' = b \<and> (case b of GPUB _ \<Rightarrow> False | CUDACompatB _ \<Rightarrow> False | _ \<Rightarrow> True)"
  using assms stub_gpu_fails [of src]
  by (auto simp: InitializeBackendRuntime_def stub_backend_def Let_def
      split: any_backend.splits prod.splits option.splits)

lemma backend_Prepare_ready:
  assumes ok: "dag_ok d" and b: "stub_backend (dag_spec d) b"
    and host: "case b of GPUB _ \<Rightarrow> False | CUDACompatB _ \<Rightarrow> False | _ \<Rightarrow> True"
  shows "\<exists>e b'. backend_Prepare P (Some d) b = Some (e, b') \<and> (e = None \<longrightarrow> host_ready d b')"
proof (cases b)
  case (CPUB c)
  with b CPU_Prepare_ready [OF ok, of c] show ?thesis
    by (auto simp: stub_backend_def scratch_fine_def backend_Prepare_def host_ready_def)
next
  case (UnifiedB u)
  with b Unified_Prepare_ready [OF ok, of u] show ?thesis
    by (auto simp: stub_backend_def scratch_fine_def backend_Prepare_def host_ready_def)
next
  case MetalB
  with b show ?thesis
    by (simp add: stub_backend_def backend_Prepare_def host_ready_def Metal_Prepare_def)
qed (use host in simp_all)


lemma NewMiner_Inr:
  "NewMiner numCPU s d workers b = Inr m \<Longrightarrow>
    m = \<lparr>mn_spec = s, mn_dag = d, mn_workers = effective_workers numCPU workers, mn_backend = b\<rparr>"
  by (auto simp: NewMiner_def Let_def split: option.splits)

text \<open>The miner a set-up run searches with: its backend computes the hash of the profile.\<close>

definition honest_miner :: "hashlib \<Rightarrow> cli_config \<Rightarrow> nat \<Rightarrow> miner \<Rightarrow> bool" where
  "honest_miner L cfg numCPU m \<longleftrightarrow>
     mn_workers m = effective_workers numCPU (cc_Workers cfg) \<and> hb_HashBatch (mn_backend m) = None \<and>
     (\<forall>header n. hb_Hash (mn_backend m) header n (mn_dag m) =
        Some (algorithm_hash L (cc_Spec cfg) (cc_EpochSeed cfg) header (Some n)))"

lemma run_setup_honest:
  assumes prof: "profile_ok (cc_Mode cfg) (cc_Spec cfg)" and b: "stub_backend (cc_Spec cfg) b"
    and seed: "cc_EpochSeed cfg \<noteq> []"
    and W: "0 < effective_workers numCPU (cc_Workers cfg)" "effective_workers numCPU (cc_Workers cfg) < 2 ^ 64"
  shows "\<exists>r. run_setup L numCPU (stub_platform src) cfg b = Some r \<and>
    (\<forall>m. r = Inr m \<longrightarrow> honest_miner L cfg numCPU m)"
proof -
  let ?P = "stub_platform src" and ?s = "cc_Spec cfg"
  obtain rb b' where i: "InitializeBackendRuntime ?P b = (rb, b')" by fastforce
  show ?thesis
  proof (cases rb)
    case (Inl e)
    then show ?thesis by (simp add: run_setup_def i)
  next
    case rt: (Inr rt)
    have b': "b' = b" and host: "case b of GPUB _ \<Rightarrow> False | CUDACompatB _ \<Rightarrow> False | _ \<Rightarrow> True"
      using stub_runtime [OF i [unfolded rt] b] by simp_all
    show ?thesis
    proof (cases "ResolveDAGStrategyForMode (cc_Mode cfg) (cc_Backend cfg) rt (cc_DAGAlloc cfg)")
      case (Inl e)
      then show ?thesis by (simp add: run_setup_def i rt)
    next
      case st: (Inr st)
      let ?al = "strategy_allocator ?P st"
      show ?thesis
      proof (cases "fst (NewDAGWithAllocator ?s (Some ?al))")
        case (Inl e)
        then show ?thesis by (simp add: run_setup_def i rt st)
      next
        case d0: (Inr d0)
        have ok0: "dag_ok d0" "dag_spec d0 = ?s"
          using NewDAGWithAllocator_ok [OF d0] prof by (simp_all add: profile_ok_def)
        from PopulateDAG_populates [OF ok0(1) seed W] obtain d where
          d: "PopulateDAG L numCPU d0 (cc_EpochSeed cfg) (cc_Workers cfg) = Some (None, d)"
            "populated L (cc_EpochSeed cfg) d" "dag_spec d = ?s"
          using ok0(2) by auto
        have "dag_ok d" using d(2) by (simp add: populated_def)
        with backend_Prepare_ready [OF _ _ host] b d(3) obtain e b2 where
          p: "backend_Prepare ?P (Some d) b = Some (e, b2)" "e = None \<longrightarrow> host_ready d b2" by metis
        have hash: "host_ready d b2 \<Longrightarrow> map_option fst (backend_Hash L ?P header n (Some d) b2) =
            Some (algorithm_hash L ?s (cc_EpochSeed cfg) header (Some n))" for header n
          using backend_Hash_populated [OF d(2), of b2 ?P header n] d(3) by simp
        show ?thesis
          using p(2) hash
          by (auto simp: run_setup_def i rt st d0 d(1) b' p(1) honest_miner_def skipPrepareBackend_def
              dest!: NewMiner_Inr split: option.splits sum.splits)
      qed
    qed
  qed
qed


text \<open>The stateless check of a nonce under a configuration.\<close>

definition nonce_verifies :: "hashlib \<Rightarrow> cli_config \<Rightarrow> nonce \<Rightarrow> hash_result \<Rightarrow> bool \<Rightarrow> bool" where
  "nonce_verifies L cfg n h ok \<longleftrightarrow>
     VerifyHeaderStateless L (cc_Spec cfg) (cc_Header cfg) (Some n) (cc_EpochSeed cfg) (cc_Target cfg) =
       Some (Inr (h, ok))"

lemma nonce_verifies_hash:
  assumes "profile_ok mode (cc_Spec cfg)" and "cc_EpochSeed cfg \<noteq> []"
  shows "nonce_verifies L cfg n h ok \<longleftrightarrow>
    h = algorithm_hash L (cc_Spec cfg) (cc_EpochSeed cfg) (cc_Header cfg) (Some n) \<and>
    ok = LessOrEqualBE (Pow256 h) (cc_Target cfg)"
  using assms stateless_hash [of "cc_Spec cfg" "cc_EpochSeed cfg" L "cc_Header cfg" "Some n"]
  by (auto simp: nonce_verifies_def VerifyHeaderStateless_def profile_ok_def)

lemma honest_solution:
  assumes m: "honest_miner L cfg numCPU m" and prof: "profile_ok mode (cc_Spec cfg)"
    and seed: "cc_EpochSeed cfg \<noteq> []" and W: "0 < mn_workers m" "mn_workers m < 2 ^ 64"
    and run: "Mine m (cc_Header cfg) (cc_Target cfg) start maxN r"
  shows "case r of
      Some res \<Rightarrow> \<exists>n h. mr_Nonce res = Some n \<and> in_range start maxN (unat n) \<and>
        nonce_verifies L cfg n h True \<and> mr_Hash256Hex res = EncodeToString (Pow256 h)
    | None \<Rightarrow> \<forall>n. in_range start maxN (unat n) \<longrightarrow> (\<exists>h. nonce_verifies L cfg n h False)"
proof -
  have hb: "hb_HashBatch (mn_backend m) = None"
    and hash: "\<forall>n. hb_Hash (mn_backend m) (cc_Header cfg) n (mn_dag m) =
      Some (algorithm_hash L (cc_Spec cfg) (cc_EpochSeed cfg) (cc_Header cfg) (Some n))"
    using m by (simp_all add: honest_miner_def)
  note ver = nonce_verifies_hash [OF prof seed, of L]
  show ?thesis
  proof (cases r)
    case None
    with Mine_correct [OF run hb W] show ?thesis by (auto simp: hits_iff hash ver)
  next
    case (Some res)
    with Mine_correct [OF run hb W] show ?thesis by (auto simp: result_of_def hash ver)
  qed
qed


section \<open>Properties\<close>



text \<open>A research run of two workers on the CPU over a DAG of 8 MiB.\<close>

definition sample_flags :: miner_flags where
  "sample_flags = (miner_defaults 2)\<lparr>mf_mode := ModeResearch, mf_backend := BackendCPU, mf_dagMiB := 8,
     mf_reads := 16, mf_header := ''0102'', mf_epochSeed := ''07''\<rparr>"

definition sample_cli :: cli_config where
  "sample_cli = \<lparr>cc_Mode = ModeResearch, cc_Backend = BackendCPU, cc_DAGAlloc = ''auto'',
     cc_Spec = ResearchSpecWithGrowth (MiB 8) (MiB DefaultDAGGrowthMiB) 16 StrictEpochBlocks, cc_Workers = 2,
     cc_Header = [1, 2], cc_EpochSeed = [7], cc_Target = 0 # replicate 31 255, cc_StartNonce = 0,
     cc_MaxNonces = 200000, cc_BenchOnly = False\<rparr>"

lemma sample_flags_parse: "ParseCLIConfig sample_flags = Inr sample_cli"
  by code_simp



lemma verifier_spec_initial: "InitialDAGSizeBytes (verifier_spec mode i g r e) \<noteq> 0"
  by (simp add: verifier_spec_def ResearchSpecWithGrowth_def Let_def StrictSpec_def
      StrictInitialDAGSizeBytes_def)

text \<open>C24: The verifier accepts exactly the proofs of work of its profile: on a header it has read, and a
  profile that is valid, it never panics and reports success exactly when the header has the DAG size,
  the algorithm version and the epoch seed of its height and its hash meets its target, so every
  header the validator of that profile accepts is accepted by the verifier.\<close>

theorem verifier_exact:
  assumes load: "loadHeader disk (vf_header f) (vf_block f) = Inr h"
    and mode: "vf_mode f \<in> {ModeStrict, ModeResearch}"
    and s: "s = verifier_spec (vf_mode f) (MiB (if vf_dagMiB f \<noteq> 0 then vf_dagMiB f else vf_initialDAGMiB f))
      (MiB (vf_dagGrowthMiB f)) (vf_reads f) (vf_epochBlocks f)"
    and v: "Validate s = None"
  shows "verify_run L disk f \<noteq> None \<and>
    ((\<exists>r. verify_run L disk f = Some (Inr r)) \<longleftrightarrow>
      DAGSizeForHeight s (hHeight h) = Some (hDAGSizeBytes h) \<and>
      hAlgorithmVersion h = AlgorithmVersion s \<and>
      EpochSeedForHeight s (hHeight h) = Some (hEpochSeed h) \<and> stateless_pow L s h) \<and>
    (header_rules L now s ops store h \<longrightarrow> (\<exists>r. verify_run L disk f = Some (Inr r)))"
proof -
  obtain sz where sz: "DAGSizeForHeight s (hHeight h) = Some sz"
    using DAGSizeForHeight_eq [OF v] by blast
  have res: "ResolvedForHeight s (hHeight h) = Some (sized s sz)" by (simp add: ResolvedForHeight_def sz)
  have nz: "nodes_of (sized s sz) \<noteq> 0" by (rule size_has_nodes [OF v sz])
  obtain seed where seed: "EpochSeedForHeight s (hHeight h) = Some seed"
    using Validate_common(4) [OF v] by (auto simp: EpochSeedForHeight_def sz split: option.splits)
  have ne: "seed \<noteq> []" using length_epoch_seed [OF seed] by auto
  have from_header: "specFromHeader (vf_mode f) h
      (MiB (if vf_dagMiB f \<noteq> 0 then vf_dagMiB f else vf_initialDAGMiB f)) (MiB (vf_dagGrowthMiB f))
      (vf_reads f) (vf_epochBlocks f) =
    Some (if hDAGSizeBytes h \<noteq> sz then Inl (DAGSizeMismatch sz (hDAGSizeBytes h))
      else if hAlgorithmVersion h \<noteq> AlgorithmVersion s
      then Inl (VersionMismatch (hAlgorithmVersion h) (AlgorithmVersion s)) else Inr s)"
    using mode v by (simp add: specFromHeader_def res Let_def flip: s)
  obtain r where r: "VerifyHeaderStateless L (sized s sz) (EncodeForMining h) (Some (hNonce h)) seed (hTarget h) =
      Some (Inr r)"
    using stateless_hash [OF _ nz ne, of L "EncodeForMining h" "Some (hNonce h)"]
      Validate_sized [of s sz] verifier_spec_initial v
    by (auto simp: VerifyHeaderStateless_def s)
  have exact: "verify_run L disk f \<noteq> None \<and>
    ((\<exists>r. verify_run L disk f = Some (Inr r)) \<longleftrightarrow>
      sz = hDAGSizeBytes h \<and> hAlgorithmVersion h = AlgorithmVersion s \<and> seed = hEpochSeed h \<and> stateless_pow L s h)"
    using r by (cases r) (auto simp: verify_run_def load from_header res seed stateless_pow_def Let_def
        split: if_splits)
  then show ?thesis by (auto simp: sz seed header_rules_def)
qed


text \<open>A file with the first header of an 8 MiB research chain, with the easiest target.\<close>

definition verify_flags_sample :: verify_flags where
  "verify_flags_sample = \<lparr>vf_mode = ModeResearch, vf_header = ''h.json'', vf_block = [],
     vf_initialDAGMiB = DefaultInitialDAGMiB, vf_dagMiB = 8, vf_dagGrowthMiB = DefaultDAGGrowthMiB,
     vf_reads = 32, vf_epochBlocks = 32\<rparr>"

definition verify_profile :: spec where
  "verify_profile = ResearchSpecWithGrowth (MiB 8) (MiB DefaultDAGGrowthMiB) 32 32"

definition verify_header :: block_header where
  "verify_header = zero_header\<lparr>hAlgorithmVersion := 1, hDAGSizeBytes := MiB 8, hTarget := replicate 32 255,
     hEpochSeed := the (EpochSeedForHeight verify_profile 0)\<rparr>"

definition verify_disk :: files where
  "verify_disk path = (if path = ''h.json'' then Inr (jtext (enc_header verify_header)) else Inl ''no such file'')"

theorem verifier_exact_witness:
  "\<exists>r. verify_run sample_lib verify_disk verify_flags_sample = Some (Inr r)"
proof -
  let ?f = verify_flags_sample and ?s = verify_profile and ?h = verify_header
  have v: "Validate ?s = None" by code_simp
  have sz: "DAGSizeForHeight ?s 0 = Some (MiB 8)" by code_simp
  obtain seed where seed: "EpochSeedForHeight ?s 0 = Some seed"
    using Validate_common(4) [OF v] by (auto simp: EpochSeedForHeight_def sz)
  have h: "header_ok ?h"
    using length_epoch_seed [OF seed] by (simp add: verify_header_def seed header_ok_def zero_header_def zero_hash_def)
  have load: "loadHeader verify_disk (vf_header ?f) (vf_block ?f) = Inr ?h"
    by (simp add: loadHeader_def readJSONFile_def verify_flags_sample_def verify_disk_def header_back [OF h])
  have prof: "?s = verifier_spec (vf_mode ?f) (MiB (if vf_dagMiB ?f \<noteq> 0 then vf_dagMiB ?f else vf_initialDAGMiB ?f))
      (MiB (vf_dagGrowthMiB ?f)) (vf_reads ?f) (vf_epochBlocks ?f)"
    by (simp add: verify_flags_sample_def verify_profile_def verifier_spec_def ModeStrict_def ModeResearch_def)
  have fields: "hHeight ?h = 0" "hDAGSizeBytes ?h = MiB 8" "hAlgorithmVersion ?h = AlgorithmVersion ?s"
    "hEpochSeed ?h = seed" "hTarget ?h = replicate 32 255"
    by (simp_all add: verify_header_def zero_header_def seed) (simp add: verify_profile_def ResearchSpec_fields)
  have i: "InitialDAGSizeBytes ?s \<noteq> 0" by code_simp
  have nz: "nodes_of (sized ?s (hDAGSizeBytes ?h)) \<noteq> 0" using size_has_nodes [OF v sz] by (simp add: fields)
  have pow: "stateless_pow sample_lib ?s ?h"
    unfolding stateless_pow_iff [OF v i nz h] by (simp add: fields LessOrEqualBE_max)
  have mode: "vf_mode ?f \<in> {ModeStrict, ModeResearch}" by (simp add: verify_flags_sample_def)
  from verifier_exact [OF load mode prof v, THEN conjunct2, THEN conjunct1, of sample_lib] show ?thesis
    using sz seed pow by (simp add: fields)
qed



definition sample_daemon :: daemon_flags where
  "sample_daemon = (daemon_defaults 2 ''data'')\<lparr>df_dagMiB := 8, df_reads := 16, df_epochBlocks := 8000,
     df_set := [''dag-mib'', ''reads'', ''epoch-blocks'']\<rparr>"


end
