(* ===== verification/Daemon.thy ===== *)
theory Daemon
  imports P2PProofs ConcurrentProofs CliProofs DiskProofs
begin

text \<open>
  The daemon (\<open>cmd/colossusd/main.go\<close>, \<open>Node.Run\<close> in \<open>pkg/node/node.go\<close>, \<open>pkg/p2p/transport.go\<close>): its
  start, and its goroutines as a step relation: the mining loop, the accept loop, a dial loop for every
  bootnode, one goroutine for every connection, those the handlers start, and the one that waits for the
  end.  Each takes its steps in any order with the others.

  What is one step: a call of the store in an insertion (theory \<open>Concurrent\<close>), the reading of the tip for
  a template, a search with its DAG, the sending of one message to one peer or to all of them, the
  handling of a message that carries no new block.  A network peer may send any bytes, end its
  connection or refuse one at any time, and a timer may fire at any time.
\<close>


section \<open>Goroutines and their places\<close>

text \<open>The loop of \<open>Run\<close>: the head of the loop, the template, the insertion of the block, the pause; with
  mining off it waits.  It returns the error of the context, \<open>None\<close>, or another.\<close>

datatype main_pc =
    LoopHead | Sealing | Searching block_header | Inserting block insert_pc | Pausing | Waiting
  | Returned "node_error option"

text \<open>\<open>handleConn\<close>: the connection is there, its peer is added, greeted and read from, a block is inserted,
  the context is tested, and the deferred function runs.  A peer is known by its index.\<close>

datatype conn_pc =
    Accepted string bool | Greeting nat | Reading nat | Handling nat block insert_pc | Handled nat
  | Leaving nat | Ended

text \<open>\<open>dialLoop\<close>, whose \<open>handleConn\<close> is the connection of the given index.\<close>

datatype dial_pc = Checking | Dialling | Talking nat | Resting | Stopped

text \<open>The goroutine of \<open>Start\<close> that waits for the end of the context and closes what it finds.\<close>

datatype watch_pc = Watching | Listing | Closing "nat list"

record 's daemon =
  dm_net :: "'s net"
  dm_main :: main_pc
  dm_cancelled :: bool
  dm_listening :: bool
  dm_accepting :: bool
  dm_dialers :: "(string \<times> dial_pc) list"
  dm_conns :: "conn_pc list"
  dm_tasks :: "task list"
  dm_watch :: watch_pc

abbreviation dm_node :: "'s daemon \<Rightarrow> 's node" where
  "dm_node d \<equiv> nt_node (dm_net d)"

definition with_node :: "'s node \<Rightarrow> 's daemon \<Rightarrow> 's daemon" where
  "with_node n d = d\<lparr>dm_net := (dm_net d)\<lparr>nt_node := n\<rparr>\<rparr>"

definition with_conn :: "nat \<Rightarrow> conn_pc \<Rightarrow> 's daemon \<Rightarrow> 's daemon" where
  "with_conn k pc d = d\<lparr>dm_conns := (dm_conns d)[k := pc]\<rparr>"

definition with_dialer :: "nat \<Rightarrow> dial_pc \<Rightarrow> 's daemon \<Rightarrow> 's daemon" where
  "with_dialer k pc d = d\<lparr>dm_dialers := (dm_dialers d)[k := (fst (dm_dialers d ! k), pc)]\<rparr>"

definition spawn :: "task list \<Rightarrow> 's daemon \<Rightarrow> 's daemon" where
  "spawn ts d = d\<lparr>dm_tasks := dm_tasks d @ ts\<rparr>"

definition inserted :: "validator \<Rightarrow> 's \<Rightarrow> 's daemon \<Rightarrow> 's daemon" where
  "inserted v s d = with_node ((dm_node d)\<lparr>nd_validator := v, nd_store := s\<rparr>) d"


section \<open>The mining loop\<close>

text \<open>Steps are labelled with the block whose insertion begins, if one does.\<close>

inductive main_step :: "hashlib \<Rightarrow> nat \<Rightarrow> 's store_ops \<Rightarrow> 's daemon \<Rightarrow> block option \<Rightarrow> 's daemon \<Rightarrow> bool"
  for L :: hashlib and numCPU :: nat and ops :: "'s store_ops" and d :: "'s daemon"
where
  stop: "dm_main d \<in> {LoopHead, Pausing, Waiting} \<Longrightarrow> dm_cancelled d \<Longrightarrow>
    main_step L numCPU ops d None (d\<lparr>dm_main := Returned None\<rparr>)"
| go_on: "dm_main d = LoopHead \<Longrightarrow> \<not> dm_cancelled d \<Longrightarrow> main_step L numCPU ops d None (d\<lparr>dm_main := Sealing\<rparr>)"
| no_tip: "dm_main d = Sealing \<Longrightarrow> so_CurrentTip ops (nd_store (dm_node d)) = Inl e \<Longrightarrow>
    main_step L numCPU ops d None (d\<lparr>dm_main := Returned (Some (NodeStoreFailed e))\<rparr>)"
| template: "dm_main d = Sealing \<Longrightarrow> so_CurrentTip ops (nd_store (dm_node d)) = Inr (tip, w) \<Longrightarrow>
    next_header (nd_cfg (dm_node d)) now tip = Some h \<Longrightarrow>
    main_step L numCPU ops d None (d\<lparr>dm_main := Searching h\<rparr>)"
| not_sealed: "dm_main d = Searching h \<Longrightarrow>
    SealBlock L numCPU (nd_validator (dm_node d)) \<lparr>Header = h, Transactions = []\<rparr>
      (nc_MaxNonces (nd_cfg (dm_node d))) (Inl e) v \<Longrightarrow>
    main_step L numCPU ops d None
      ((with_node ((dm_node d)\<lparr>nd_validator := v\<rparr>) d)\<lparr>dm_main := Returned (Some (ConsensusFailed e))\<rparr>)"
| sealed: "dm_main d = Searching h \<Longrightarrow>
    SealBlock L numCPU (nd_validator (dm_node d)) \<lparr>Header = h, Transactions = []\<rparr>
      (nc_MaxNonces (nd_cfg (dm_node d))) (Inr (b, res)) v \<Longrightarrow>
    main_step L numCPU ops d (Some b)
      ((with_node ((dm_node d)\<lparr>nd_validator := v\<rparr>) d)\<lparr>dm_main := Inserting b Arrived\<rparr>)"
| insert: "dm_main d = Inserting b pc \<Longrightarrow> \<not> is_Answered pc \<Longrightarrow>
    insert_next L numCPU now ops b pc (nd_validator (dm_node d)) (nd_store (dm_node d)) = Some (pc', v, s) \<Longrightarrow>
    main_step L numCPU ops d None ((inserted v s d)\<lparr>dm_main := Inserting b pc'\<rparr>)"
| refused: "dm_main d = Inserting b (Answered (Inl e)) \<Longrightarrow>
    main_step L numCPU ops d None (d\<lparr>dm_main := Returned (Some (ConsensusFailed e))\<rparr>)"
| side_block: "dm_main d = Inserting b (Answered (Inr (w, False))) \<Longrightarrow>
    main_step L numCPU ops d None (d\<lparr>dm_main := Pausing\<rparr>)"
| new_tip: "dm_main d = Inserting b (Answered (Inr (w, True))) \<Longrightarrow>
    main_step L numCPU ops d None
      (spawn [BroadcastStatus] (d\<lparr>dm_net := run_task ops now (BroadcastBlock b) (dm_net d), dm_main := Pausing\<rparr>))"
| timer: "dm_main d = Pausing \<Longrightarrow> main_step L numCPU ops d None (d\<lparr>dm_main := LoopHead\<rparr>)"


section \<open>Connections\<close>

text \<open>The block of a message that \<open>onNewBlock\<close> goes on to insert.\<close>

definition fresh_block :: "'s store_ops \<Rightarrow> 's \<Rightarrow> raw_message \<Rightarrow> block option" where
  "fresh_block ops s msg =
     (case decode_body msg of
        Inr (NewBlock b) \<Rightarrow>
          if BlockHash b = zero_hash then None
          else if so_HasBlock ops s (BlockHash b) then None else Some b
      | _ \<Rightarrow> None)"

inductive conn_step ::
  "hashlib \<Rightarrow> nat \<Rightarrow> 's store_ops \<Rightarrow> nat \<Rightarrow> 's daemon \<Rightarrow> block option \<Rightarrow> 's daemon \<Rightarrow> bool"
  for L :: hashlib and numCPU :: nat and ops :: "'s store_ops" and k :: nat and d :: "'s daemon"
where
  add: "dm_conns d ! k = Accepted addr inbound \<Longrightarrow> add_peer addr inbound (dm_net d) = (n, i, tasks) \<Longrightarrow>
    conn_step L numCPU ops k d None (spawn tasks (with_conn k (Greeting i) (d\<lparr>dm_net := n\<rparr>)))"
| greet: "dm_conns d ! k = Greeting i \<Longrightarrow>
    conn_step L numCPU ops k d None (with_conn k (Reading i) (d\<lparr>dm_net := P2P.greet i (dm_net d)\<rparr>))"
| read_fails: "dm_conns d ! k = Reading i \<Longrightarrow> conn_step L numCPU ops k d None (with_conn k (Leaving i) d)"
| message: "dm_conns d ! k = Reading i \<Longrightarrow> pr_open (nt_heap (dm_net d) ! i) \<Longrightarrow>
    readMessage s = Inr (msg, rest) \<Longrightarrow> fresh_block ops (nd_store (dm_node d)) msg = None \<Longrightarrow>
    dispatch L numCPU ops now i msg (dm_net d) = Some (e, n, tasks) \<Longrightarrow>
    conn_step L numCPU ops k d None
      (spawn tasks (with_conn k (if e = None then Handled i else Leaving i) (d\<lparr>dm_net := n\<rparr>)))"
| block: "dm_conns d ! k = Reading i \<Longrightarrow> pr_open (nt_heap (dm_net d) ! i) \<Longrightarrow>
    readMessage s = Inr (msg, rest) \<Longrightarrow> fresh_block ops (nd_store (dm_node d)) msg = Some b \<Longrightarrow>
    conn_step L numCPU ops k d (Some b) (with_conn k (Handling i b Arrived) d)"
| insert: "dm_conns d ! k = Handling i b pc \<Longrightarrow> \<not> is_Answered pc \<Longrightarrow>
    insert_next L numCPU now ops b pc (nd_validator (dm_node d)) (nd_store (dm_node d)) = Some (pc', v, s) \<Longrightarrow>
    conn_step L numCPU ops k d None (with_conn k (Handling i b pc') (inserted v s d))"
| answered: "dm_conns d ! k = Handling i b (Answered r) \<Longrightarrow>
    conn_step L numCPU ops k d None
      (spawn (case r of Inr (_, True) \<Rightarrow> [BroadcastStatus] | _ \<Rightarrow> []) (with_conn k (Handled i) d))"
| stop: "dm_conns d ! k = Handled i \<Longrightarrow> dm_cancelled d \<Longrightarrow> conn_step L numCPU ops k d None (with_conn k (Leaving i) d)"
| go_on: "dm_conns d ! k = Handled i \<Longrightarrow> \<not> dm_cancelled d \<Longrightarrow>
    conn_step L numCPU ops k d None (with_conn k (Reading i) d)"
| leave: "dm_conns d ! k = Leaving i \<Longrightarrow>
    conn_step L numCPU ops k d None (with_conn k Ended (d\<lparr>dm_net := handle_disconnect i (dm_net d)\<rparr>))"


section \<open>Dialling, accepting, ending\<close>

inductive dial_step :: "nat \<Rightarrow> 's daemon \<Rightarrow> 's daemon \<Rightarrow> bool"
  for k :: nat and d :: "'s daemon"
where
  check_stop: "dm_dialers d ! k = (addr, Checking) \<Longrightarrow> dm_cancelled d \<Longrightarrow> dial_step k d (with_dialer k Stopped d)"
| check_go: "dm_dialers d ! k = (addr, Checking) \<Longrightarrow> \<not> dm_cancelled d \<Longrightarrow> dial_step k d (with_dialer k Dialling d)"
| fails: "dm_dialers d ! k = (addr, Dialling) \<Longrightarrow> dial_step k d (with_dialer k Resting d)"
| connects: "dm_dialers d ! k = (addr, Dialling) \<Longrightarrow>
    dial_step k d ((with_dialer k (Talking (length (dm_conns d))) d)
      \<lparr>dm_conns := dm_conns d @ [Accepted remote False]\<rparr>)"
| talked: "dm_dialers d ! k = (addr, Talking c) \<Longrightarrow> dm_conns d ! c = Ended \<Longrightarrow>
    dial_step k d (with_dialer k Resting d)"
| rest_stop: "dm_dialers d ! k = (addr, Resting) \<Longrightarrow> dm_cancelled d \<Longrightarrow> dial_step k d (with_dialer k Stopped d)"
| tick: "dm_dialers d ! k = (addr, Resting) \<Longrightarrow> dial_step k d (with_dialer k Checking d)"

text \<open>An error of \<open>Accept\<close> ends the loop when the context or the listener has ended, and is ignored
  otherwise.\<close>

inductive accept_step :: "'s daemon \<Rightarrow> 's daemon \<Rightarrow> bool"
  for d :: "'s daemon"
where
  accepts: "dm_accepting d \<Longrightarrow> dm_listening d \<Longrightarrow>
    accept_step d (d\<lparr>dm_conns := dm_conns d @ [Accepted remote True]\<rparr>)"
| ends: "dm_accepting d \<Longrightarrow> dm_cancelled d \<or> \<not> dm_listening d \<Longrightarrow> accept_step d (d\<lparr>dm_accepting := False\<rparr>)"
| ignores: "dm_accepting d \<Longrightarrow> \<not> dm_cancelled d \<Longrightarrow> dm_listening d \<Longrightarrow> accept_step d d"

inductive watch_step :: "'s daemon \<Rightarrow> 's daemon \<Rightarrow> bool"
  for d :: "'s daemon"
where
  close_listener: "dm_watch d = Watching \<Longrightarrow> dm_cancelled d \<Longrightarrow>
    watch_step d (d\<lparr>dm_watch := Listing, dm_listening := False\<rparr>)"
| list_peers: "dm_watch d = Listing \<Longrightarrow>
    watch_step d (d\<lparr>dm_watch := Closing (PeerSet_List (nt_peers (dm_net d)))\<rparr>)"
| close_peer: "dm_watch d = Closing (i # is) \<Longrightarrow>
    watch_step d (d\<lparr>dm_watch := Closing is,
      dm_net := (dm_net d)\<lparr>nt_heap := on_peer i (\<lambda>p. p\<lparr>pr_open := False\<rparr>) (nt_heap (dm_net d))\<rparr>\<rparr>)"


section \<open>The daemon\<close>

inductive daemon_step :: "hashlib \<Rightarrow> nat \<Rightarrow> 's store_ops \<Rightarrow> 's daemon \<Rightarrow> block option \<Rightarrow> 's daemon \<Rightarrow> bool"
  for L :: hashlib and numCPU :: nat and ops :: "'s store_ops" and d :: "'s daemon"
where
  main: "main_step L numCPU ops d l d' \<Longrightarrow> daemon_step L numCPU ops d l d'"
| conn: "k < length (dm_conns d) \<Longrightarrow> conn_step L numCPU ops k d l d' \<Longrightarrow> daemon_step L numCPU ops d l d'"
| dial: "k < length (dm_dialers d) \<Longrightarrow> dial_step k d d' \<Longrightarrow> daemon_step L numCPU ops d None d'"
| accept: "accept_step d d' \<Longrightarrow> daemon_step L numCPU ops d None d'"
| watch: "watch_step d d' \<Longrightarrow> daemon_step L numCPU ops d None d'"
| task: "dm_tasks d = ts @ t # us \<Longrightarrow>
    daemon_step L numCPU ops d None (d\<lparr>dm_tasks := ts @ us, dm_net := run_task ops now t (dm_net d)\<rparr>)"
| signal: "\<not> dm_cancelled d \<Longrightarrow> daemon_step L numCPU ops d None (d\<lparr>dm_cancelled := True\<rparr>)"

inductive daemon_run :: "hashlib \<Rightarrow> nat \<Rightarrow> 's store_ops \<Rightarrow> 's daemon \<Rightarrow> block list \<Rightarrow> 's daemon \<Rightarrow> bool"
  for L :: hashlib and numCPU :: nat and ops :: "'s store_ops" and d :: "'s daemon"
where
  start: "daemon_run L numCPU ops d [] d"
| quiet: "daemon_run L numCPU ops d bs d1 \<Longrightarrow> daemon_step L numCPU ops d1 None d' \<Longrightarrow> daemon_run L numCPU ops d bs d'"
| block: "daemon_run L numCPU ops d bs d1 \<Longrightarrow> daemon_step L numCPU ops d1 (Some b) d' \<Longrightarrow>
    daemon_run L numCPU ops d (bs @ [b]) d'"


section \<open>Starting\<close>

datatype boot_error =
    BootFlags cli_error | BootValidator consensus_error | BootMining run_error | BootStore disk_error
  | BootNode node_error | BootGenesis node_error | BootListen

text \<open>A backend of the miner behind the interface of the validator, which prepares it with the DAG it then
  hashes with: the hash is that of the backend as \<open>Prepare\<close> leaves it.  The texts of errors are not
  modelled, and a preparation that panics fails here.\<close>

definition mining_backend :: "hashlib \<Rightarrow> 'r platform \<Rightarrow> 'r any_backend \<Rightarrow> hash_backend" where
  "mining_backend L P b = (skipPrepareBackend L P b)\<lparr>
     hb_Prepare := (\<lambda>dag. case backend_Prepare P dag b of Some (None, _) \<Rightarrow> None | _ \<Rightarrow> Some []),
     hb_Hash := (\<lambda>header n dag. do {
       (_, b) \<leftarrow> backend_Prepare P dag b;
       map_option fst (backend_Hash L P header n dag b)
     })\<rparr>"

definition daemon_node_config :: "daemon_config \<Rightarrow> node_config" where
  "daemon_node_config cfg = \<lparr>nc_Chain = dc_Chain cfg, nc_Genesis = dc_Genesis cfg, nc_Mine = dc_Mine cfg,
     nc_MaxNonces = dc_MaxNonces cfg, nc_NodeID = dc_NodeID cfg\<rparr>"

text \<open>The server of \<open>node.New\<close>, whose version is left empty.\<close>

definition node_server :: "string \<Rightarrow> 's node \<Rightarrow> 's net" where
  "node_server listenAddr n =
     \<lparr>nt_cfg = NewServer \<lparr>sc_NodeID = nc_NodeID (nd_cfg n), sc_Network = ccNetworkID (nc_Chain (nd_cfg n)),
        sc_AdvertiseAddr = listenAddr, sc_Version = []\<rparr>,
      nt_node = n, nt_heap = [], nt_peers = []\<rparr>"

text \<open>\<open>main\<close> up to \<open>Run\<close>, at clock \<open>now\<close> and on the file system \<open>fs\<close>; \<open>made_up\<close> is the identifier for a node
  that is given none.\<close>

definition daemon_setup ::
  "hashlib \<Rightarrow> nat \<Rightarrow> 'r platform \<Rightarrow> i64w \<Rightarrow> string \<Rightarrow> daemon_flags \<Rightarrow> file_system \<Rightarrow>
     boot_error + daemon_config \<times> disk_store net" where
  "daemon_setup L numCPU P now made_up f fs =
     (case parseFlags now f of Inl e \<Rightarrow> Inl (BootFlags e) | Inr cfg \<Rightarrow>
      (case NewValidator L numCPU (dc_Chain cfg) (Some (CPUBackend L)) (dc_Workers cfg) of
         Inl e \<Rightarrow> Inl (BootValidator e) | Inr v \<Rightarrow>
       (case fst (initializeMining P cfg) of Inl e \<Rightarrow> Inl (BootMining e) | Inr (b, strategy) \<Rightarrow>
        (let v = fst (SetMiningBackend v (Some (mining_backend L P b)) (Some (strategy_allocator P strategy))) in
         case NewDiskStore (dc_DataDir cfg) fs of Inl e \<Rightarrow> Inl (BootStore e) | Inr store \<Rightarrow>
         (case NewNode made_up store (daemon_node_config cfg) (Some v) (Some store) of
            Inl e \<Rightarrow> Inl (BootNode e)
          | Inr n \<Rightarrow> Inr (cfg, node_server (dc_ListenAddr cfg) n))))))"

text \<open>\<open>Start\<close>; \<open>listens\<close> tells whether \<open>net.Listen\<close> succeeds.\<close>

definition Start :: "bool \<Rightarrow> string \<Rightarrow> string list \<Rightarrow> 's net \<Rightarrow> 's daemon option" where
  "Start listens listenAddr bootnodes n =
     (if listenAddr \<noteq> [] \<and> \<not> listens then None
      else Some \<lparr>dm_net = n, dm_main = (if nc_Mine (nd_cfg (nt_node n)) then LoopHead else Waiting),
        dm_cancelled = False, dm_listening = listenAddr \<noteq> [], dm_accepting = listenAddr \<noteq> [],
        dm_dialers = map (\<lambda>addr. (addr, Checking)) (dialled bootnodes), dm_conns = [], dm_tasks = [],
        dm_watch = Watching\<rparr>)"

text \<open>The outcomes of a start: an error, which ends the program, or the daemon with its goroutines.\<close>

inductive daemon_boot ::
  "hashlib \<Rightarrow> nat \<Rightarrow> 'r platform \<Rightarrow> i64w \<Rightarrow> string \<Rightarrow> daemon_flags \<Rightarrow> file_system \<Rightarrow> bool \<Rightarrow>
     boot_error + disk_store daemon \<Rightarrow> bool"
  for L :: hashlib and numCPU :: nat and P :: "'r platform" and now :: i64w and made_up :: string
    and f :: daemon_flags and fs :: file_system and listens :: bool
where
  setup_fails: "daemon_setup L numCPU P now made_up f fs = Inl e \<Longrightarrow>
    daemon_boot L numCPU P now made_up f fs listens (Inl e)"
| genesis_fails: "daemon_setup L numCPU P now made_up f fs = Inr (cfg, net) \<Longrightarrow>
    InitGenesis L numCPU disk_ops (nt_node net) (Inl e) n \<Longrightarrow>
    daemon_boot L numCPU P now made_up f fs listens (Inl (BootGenesis e))"
| listen_fails: "daemon_setup L numCPU P now made_up f fs = Inr (cfg, net) \<Longrightarrow>
    InitGenesis L numCPU disk_ops (nt_node net) (Inr b) n \<Longrightarrow>
    Start listens (dc_ListenAddr cfg) (dc_Bootnodes cfg) (net\<lparr>nt_node := n\<rparr>) = None \<Longrightarrow>
    daemon_boot L numCPU P now made_up f fs listens (Inl BootListen)"
| started: "daemon_setup L numCPU P now made_up f fs = Inr (cfg, net) \<Longrightarrow>
    InitGenesis L numCPU disk_ops (nt_node net) (Inr b) n \<Longrightarrow>
    Start listens (dc_ListenAddr cfg) (dc_Bootnodes cfg) (net\<lparr>nt_node := n\<rparr>) = Some d \<Longrightarrow>
    daemon_boot L numCPU P now made_up f fs listens (Inr d)"

text \<open>How \<open>main\<close> ends: it logs an error that is not the end of the context and exits with it; otherwise it
  closes the validator.\<close>

definition main_exit :: "'s daemon \<Rightarrow> (nat \<times> validator) option" where
  "main_exit d =
     (case dm_main d of
        Returned (Some e) \<Rightarrow> Some (1, nd_validator (dm_node d))
      | Returned None \<Rightarrow> Some (0, fst (Validator_Close (nd_validator (dm_node d))))
      | _ \<Rightarrow> None)"

end
