(* ===== verification/DaemonProofs.thy ===== *)
theory DaemonProofs
  imports Daemon
begin

text \<open>
  What the daemon guarantees: its goroutines do nothing that the crowd of theory \<open>Concurrent\<close> does not,
  so that the chain a daemon boots from stays a tree whatever its peers and its mining loop do at once,
  and after a signal every run of it is finite and ends with all its loops returned.
\<close>


section \<open>The parts of the state\<close>

lemma daemon_update_simps [simp]:
  "dm_net (with_node n d) = (dm_net d)\<lparr>nt_node := n\<rparr>" "dm_main (with_node n d) = dm_main d"
  "dm_conns (with_node n d) = dm_conns d" "dm_tasks (with_node n d) = dm_tasks d"
  "dm_cancelled (with_node n d) = dm_cancelled d" "dm_watch (with_node n d) = dm_watch d"
  "dm_accepting (with_node n d) = dm_accepting d" "dm_listening (with_node n d) = dm_listening d"
  "dm_dialers (with_node n d) = dm_dialers d"
  "dm_net (with_conn k pc d) = dm_net d" "dm_main (with_conn k pc d) = dm_main d"
  "dm_conns (with_conn k pc d) = (dm_conns d)[k := pc]" "dm_tasks (with_conn k pc d) = dm_tasks d"
  "dm_cancelled (with_conn k pc d) = dm_cancelled d" "dm_watch (with_conn k pc d) = dm_watch d"
  "dm_accepting (with_conn k pc d) = dm_accepting d" "dm_listening (with_conn k pc d) = dm_listening d"
  "dm_dialers (with_conn k pc d) = dm_dialers d"
  "dm_net (with_dialer k q d) = dm_net d" "dm_main (with_dialer k q d) = dm_main d"
  "dm_conns (with_dialer k q d) = dm_conns d" "dm_tasks (with_dialer k q d) = dm_tasks d"
  "dm_cancelled (with_dialer k q d) = dm_cancelled d" "dm_watch (with_dialer k q d) = dm_watch d"
  "dm_accepting (with_dialer k q d) = dm_accepting d" "dm_listening (with_dialer k q d) = dm_listening d"
  "dm_dialers (with_dialer k q d) = (dm_dialers d)[k := (fst (dm_dialers d ! k), q)]"
  "dm_net (spawn ts d) = dm_net d" "dm_main (spawn ts d) = dm_main d"
  "dm_conns (spawn ts d) = dm_conns d" "dm_tasks (spawn ts d) = dm_tasks d @ ts"
  "dm_cancelled (spawn ts d) = dm_cancelled d" "dm_watch (spawn ts d) = dm_watch d"
  "dm_accepting (spawn ts d) = dm_accepting d" "dm_listening (spawn ts d) = dm_listening d"
  "dm_dialers (spawn ts d) = dm_dialers d"
  by (simp_all add: with_node_def with_conn_def with_dialer_def spawn_def)

lemma inserted_simps [simp]:
  "dm_node (inserted v s d) = (dm_node d)\<lparr>nd_validator := v, nd_store := s\<rparr>" "dm_main (inserted v s d) = dm_main d"
  "dm_conns (inserted v s d) = dm_conns d" "dm_tasks (inserted v s d) = dm_tasks d"
  "dm_cancelled (inserted v s d) = dm_cancelled d" "dm_watch (inserted v s d) = dm_watch d"
  "dm_accepting (inserted v s d) = dm_accepting d" "dm_listening (inserted v s d) = dm_listening d"
  "dm_dialers (inserted v s d) = dm_dialers d"
  by (simp_all add: inserted_def)

text \<open>The network does not touch the node but through insertions.\<close>

lemma net_nodes [simp]:
  "nt_node (P2P.greet i n) = nt_node n" "nt_node (handle_disconnect i n) = nt_node n"
  "nt_node (run_task ops now t n) = nt_node n"
proof -
  show "nt_node (run_task ops now t n) = nt_node n" by (cases t) (simp_all split: sum.split)
qed (simp_all add: P2P.greet_def handle_disconnect_def Let_def)

lemma add_peer_node: "add_peer addr inbound n = (n', i, ts) \<Longrightarrow> nt_node n' = nt_node n \<and> length ts = 2"
  by (auto simp: add_peer_def Let_def)

text \<open>What a message that inserts nothing does: the node stays, at most one goroutine starts.\<close>

lemma dispatch_plain:
  assumes "fresh_block ops (nd_store (nt_node n)) msg = None"
    and "dispatch L numCPU ops now i msg n = Some (e, n', ts)"
  shows "nt_node n' = nt_node n \<and> length ts \<le> 1"
proof (cases "decode_body msg")
  case (Inl x)
  then show ?thesis using assms(2) by (simp add: dispatch_def)
next
  case (Inr body)
  then show ?thesis
    using assms
    by (cases body) (auto simp: dispatch_def fresh_block_def onNewBlock_def onHello_def Let_def split: if_splits)
qed

text \<open>A place in a list, and the sum over the list.\<close>

lemma sum_list_place:
  fixes f :: "'a \<Rightarrow> 'b :: comm_monoid_add"
  assumes "k < length xs"
  obtains r where "sum_list (map f xs) = f (xs ! k) + r" "\<And>y. sum_list (map f (xs[k := y])) = f y + r"
proof -
  let ?r = "sum_list (map f (take k xs)) + sum_list (map f (drop (Suc k) xs))"
  have "sum_list (map f (xs[k := y])) = f y + ?r" for y
    using assms by (simp add: upd_conv_take_nth_drop add.left_commute)
  from this [of "xs ! k"] this show ?thesis by (intro that [of ?r]) simp_all
qed


section \<open>The insertions under way\<close>

fun main_thread :: "main_pc \<Rightarrow> (block \<times> insert_pc) multiset" where
  "main_thread (Inserting b pc) = {#(b, pc)#}"
| "main_thread _ = {#}"

fun conn_thread :: "conn_pc \<Rightarrow> (block \<times> insert_pc) multiset" where
  "conn_thread (Handling i b pc) = {#(b, pc)#}"
| "conn_thread _ = {#}"

fun main_template :: "main_pc \<Rightarrow> block_header set" where
  "main_template (Searching h) = {h}"
| "main_template _ = {}"

definition live :: "'s daemon \<Rightarrow> (block \<times> insert_pc) multiset" where
  "live d = main_thread (dm_main d) + sum_list (map conn_thread (dm_conns d))"

text \<open>A crowd that has all the insertions and the template of a daemon.\<close>

definition covers :: "'s crowd \<Rightarrow> 's daemon \<Rightarrow> bool" where
  "covers c d \<longleftrightarrow> cw_node c = dm_node d \<and> live d \<subseteq># mset (cw_threads c) \<and>
     main_template (dm_main d) \<subseteq> set (cw_templates c)"

lemma swap_thread:
  assumes "add_mset x M \<subseteq># mset xs"
  obtains i where "i < length xs" "xs ! i = x" "\<And>y. add_mset y M \<subseteq># mset (xs[i := y])"
proof -
  have "x \<in># mset xs" using assms by (meson mset_subset_eq_insertD)
  then obtain i where i: "i < length xs" "xs ! i = x" by (metis in_set_conv_nth set_mset_mset)
  have "M \<subseteq># mset xs - {#x#}" using assms by (simp add: insert_subset_eq_iff)
  then have "add_mset y M \<subseteq># mset (xs[i := y])" for y using i by (simp add: mset_update)
  then show ?thesis using that i by blast
qed

lemma crowd_insert:
  assumes c: "cw_node c = n" "add_mset (b, pc) M \<subseteq># mset (cw_threads c)"
    and step: "insert_next L numCPU now ops b pc (nd_validator n) (nd_store n) = Some (pc', v, s)"
  obtains c' where "crowd_step L numCPU ops c c'" "cw_node c' = n\<lparr>nd_validator := v, nd_store := s\<rparr>"
    "add_mset (b, pc') M \<subseteq># mset (cw_threads c')" "cw_templates c' = cw_templates c"
    "thread_headers c' = thread_headers c"
proof -
  obtain i where i: "i < length (cw_threads c)" "cw_threads c ! i = (b, pc)"
    "add_mset (b, pc') M \<subseteq># mset ((cw_threads c)[i := (b, pc')])"
    using swap_thread [OF c(2)] by blast
  let ?c = "c\<lparr>cw_node := n\<lparr>nd_validator := v, nd_store := s\<rparr>, cw_threads := (cw_threads c)[i := (b, pc')]\<rparr>"
  have "crowd_step L numCPU ops c ?c"
    using crowd_step.insert [OF i(1,2), of L numCPU now ops pc' v s] step c(1) by simp
  then show ?thesis
    using that [of ?c] i by (simp add: thread_headers_def set_update_thread)
qed


definition followed ::
  "hashlib \<Rightarrow> nat \<Rightarrow> 's store_ops \<Rightarrow> 's crowd \<Rightarrow> block option \<Rightarrow> 's daemon \<Rightarrow> bool" where
  "followed L numCPU ops c l d \<longleftrightarrow> (\<exists>c'. (crowd_step L numCPU ops)\<^sup>=\<^sup>= c c' \<and> covers c' d \<and>
     thread_headers c' = thread_headers c \<union> Header ` set_option l)"

lemma drop_thread: "add_mset x M \<subseteq># N \<Longrightarrow> M \<subseteq># N"
  by (metis mset_subset_eq_insertD subset_mset.less_imp_le)

lemma followed_same: "covers c d \<Longrightarrow> followed L numCPU ops c None d"
  unfolding followed_def by (intro exI [of _ c]) simp

lemma followed_step:
  "crowd_step L numCPU ops c c' \<Longrightarrow> covers c' d \<Longrightarrow>
    thread_headers c' = thread_headers c \<union> Header ` set_option l \<Longrightarrow> followed L numCPU ops c l d"
  unfolding followed_def by blast

lemma main_followed:
  assumes "main_step L numCPU ops d l d'" and c: "covers c d"
  shows "followed L numCPU ops c l d'"
  using assms(1)
proof cases
  case (template tip w now h)
  have "crowd_step L numCPU ops c (c\<lparr>cw_templates := cw_templates c @ [h]\<rparr>)"
    using crowd_step.template [of ops c tip w now h] template c by (simp add: covers_def)
  then show ?thesis
    by (rule followed_step) (use template c in \<open>simp_all add: covers_def live_def thread_headers_def\<close>)
next
  case (not_sealed h e v)
  have "crowd_step L numCPU ops c (c\<lparr>cw_node := (cw_node c)\<lparr>nd_validator := v\<rparr>\<rparr>)"
    using crowd_step.mine_fails [of h c L numCPU e v ops] not_sealed c by (simp add: covers_def)
  then show ?thesis
    by (rule followed_step) (use not_sealed c in \<open>simp_all add: covers_def live_def thread_headers_def\<close>)
next
  case (sealed h b res v)
  have "crowd_step L numCPU ops c (c\<lparr>cw_node := (cw_node c)\<lparr>nd_validator := v\<rparr>,
      cw_threads := cw_threads c @ [(b, Arrived)]\<rparr>)"
    using crowd_step.mine [of h c L numCPU b res v ops] sealed c by (simp add: covers_def)
  then show ?thesis
    by (rule followed_step) (use sealed c in \<open>simp_all add: covers_def live_def thread_headers_def\<close>)
next
  case (insert b pc now pc' v s)
  have "cw_node c = dm_node d" "add_mset (b, pc) (sum_list (map conn_thread (dm_conns d))) \<subseteq># mset (cw_threads c)"
    using c insert(3) by (simp_all add: covers_def live_def)
  from crowd_insert [OF this insert(5)] show ?thesis
    using insert followed_step [of L numCPU ops c _ d' None] by (auto simp: covers_def live_def)
qed (use c in \<open>auto intro!: followed_same simp: covers_def live_def dest: drop_thread\<close>)

text \<open>The other insertions, when one goroutine of a connection moves.\<close>

lemma live_conn:
  fixes d :: "'s daemon"
  assumes "k < length (dm_conns d)"
  obtains M where "live d = conn_thread (dm_conns d ! k) + M"
    "\<And>(d' :: 's daemon) y. dm_main d' = dm_main d \<Longrightarrow> dm_conns d' = (dm_conns d)[k := y] \<Longrightarrow> live d' = conn_thread y + M"
proof -
  obtain r where "sum_list (map conn_thread (dm_conns d)) = conn_thread (dm_conns d ! k) + r"
    "\<And>y. sum_list (map conn_thread ((dm_conns d)[k := y])) = conn_thread y + r"
    using sum_list_place [OF assms] by metis
  then show ?thesis by (intro that [of "main_thread (dm_main d) + r"]) (simp_all add: live_def)
qed

lemma conn_followed:
  fixes d d' :: "'s daemon"
  assumes "conn_step L numCPU ops k d l d'" and k: "k < length (dm_conns d)" and c: "covers c d"
  shows "followed L numCPU ops c l d'"
proof -
  obtain M where M: "live d = conn_thread (dm_conns d ! k) + M"
    "\<And>(d' :: 's daemon) y. dm_main d' = dm_main d \<Longrightarrow> dm_conns d' = (dm_conns d)[k := y] \<Longrightarrow> live d' = conn_thread y + M"
    using live_conn [OF k] by metis
  have c': "cw_node c = dm_node d" "conn_thread (dm_conns d ! k) + M \<subseteq># mset (cw_threads c)"
    "main_template (dm_main d) \<subseteq> set (cw_templates c)" using c by (simp_all add: covers_def M(1))
  have same: "followed L numCPU ops c None e"
    if "dm_node e = dm_node d" "dm_main e = dm_main d" "dm_conns e = (dm_conns d)[k := y]" "conn_thread y = {#}" for e :: "'s daemon" and y
    using c' that M(2) [OF that(2,3)]
    by (intro followed_same) (auto simp: covers_def intro: subset_mset.order_trans [OF mset_subset_eq_add_right])
  from assms(1) show ?thesis
  proof cases
    case (add addr inbound n i tasks)
    then show ?thesis using add_peer_node [OF add(4)] by (auto intro!: same)
  next
    case (message i s msg rest now e n tasks)
    then show ?thesis using dispatch_plain [OF message(6,7)] by (auto intro!: same)
  next
    case (block i s msg rest b)
    have b: "decode_body msg = Inr (NewBlock b)" "BlockHash b \<noteq> zero_hash"
      "\<not> so_HasBlock ops (nd_store (cw_node c)) (BlockHash b)"
      using block(6) c' by (auto simp: fresh_block_def split: sum.splits message_body.splits if_splits)
    have "crowd_step L numCPU ops c (c\<lparr>cw_threads := cw_threads c @ [(b, Arrived)]\<rparr>)"
      by (rule crowd_step.peer [OF decoded_block_ok [OF b(1)] b(2,3)])
    moreover have "live d' = conn_thread (Handling i b Arrived) + M" by (rule M(2)) (simp_all add: block)
    ultimately show ?thesis
      using block c' followed_step [of L numCPU ops c _ d' "Some b"] by (simp add: covers_def thread_headers_def)
  next
    case (insert i b pc now pc' v s)
    have "add_mset (b, pc) M \<subseteq># mset (cw_threads c)" using c' insert(3) by simp
    from crowd_insert [OF c'(1) this insert(5)] obtain e where e: "crowd_step L numCPU ops c e"
      "cw_node e = (dm_node d)\<lparr>nd_validator := v, nd_store := s\<rparr>" "add_mset (b, pc') M \<subseteq># mset (cw_threads e)"
      "cw_templates e = cw_templates c" "thread_headers e = thread_headers c" by blast
    moreover have "live d' = conn_thread (Handling i b pc') + M" by (rule M(2)) (simp_all add: insert)
    ultimately show ?thesis using insert c' followed_step [of L numCPU ops c e d' None] by (simp add: covers_def)
  qed (auto intro!: same)
qed


lemma daemon_followed:
  assumes "daemon_step L numCPU ops d l d'" and c: "covers c d"
  shows "followed L numCPU ops c l d'"
  using assms(1)
proof cases
  case main
  then show ?thesis using c by (rule main_followed)
next
  case (conn k)
  then show ?thesis using c conn_followed by blast
next
  case (dial k)
  from dial(3) have "live d' = live d" "dm_node d' = dm_node d" "dm_main d' = dm_main d"
    by (cases; simp add: live_def)+
  then show ?thesis using c dial(1) by (simp add: followed_same covers_def)
next
  case accept
  from accept(2) have "live d' = live d" "dm_node d' = dm_node d" "dm_main d' = dm_main d"
    by (cases; simp add: live_def)+
  then show ?thesis using c accept(1) by (simp add: followed_same covers_def)
next
  case watch
  from watch(2) have "live d' = live d" "dm_node d' = dm_node d" "dm_main d' = dm_main d"
    by (cases; simp add: live_def)+
  then show ?thesis using c watch(1) by (simp add: followed_same covers_def)
qed (use c in \<open>simp_all add: followed_same covers_def live_def\<close>)

lemma daemon_run_followed:
  assumes "daemon_run L numCPU ops d bs d'" and "covers c d"
  shows "\<exists>c'. (crowd_step L numCPU ops)\<^sup>*\<^sup>* c c' \<and> covers c' d' \<and>
    thread_headers c' = thread_headers c \<union> Header ` set bs"
  using assms(1)
proof induction
  case start
  then show ?case using assms(2) by (intro exI [of _ c]) simp
next
  case (quiet bs d1 d')
  then obtain c1 where c1: "(crowd_step L numCPU ops)\<^sup>*\<^sup>* c c1" "covers c1 d1"
    "thread_headers c1 = thread_headers c \<union> Header ` set bs" by blast
  from daemon_followed [OF quiet.hyps(2) c1(2)] obtain c' where "(crowd_step L numCPU ops)\<^sup>=\<^sup>= c1 c'" "covers c' d'"
    "thread_headers c' = thread_headers c1" by (auto simp: followed_def)
  then show ?case using c1 by (intro exI [of _ c']) (auto intro: rtranclp.rtrancl_into_rtrancl)
next
  case (block bs d1 b d')
  then obtain c1 where c1: "(crowd_step L numCPU ops)\<^sup>*\<^sup>* c c1" "covers c1 d1"
    "thread_headers c1 = thread_headers c \<union> Header ` set bs" by blast
  from daemon_followed [OF block.hyps(2) c1(2)] obtain c' where "(crowd_step L numCPU ops)\<^sup>=\<^sup>= c1 c'" "covers c' d'"
    "thread_headers c' = insert (Header b) (thread_headers c1)" by (auto simp: followed_def)
  then show ?case using c1 by (intro exI [of _ c']) (auto intro: rtranclp.rtrancl_into_rtrancl)
qed

text \<open>A daemon that has just started, whatever its store.\<close>

definition at_rest :: "'s daemon \<Rightarrow> bool" where
  "at_rest d \<longleftrightarrow> live d = {#} \<and> main_template (dm_main d) = {}"

lemma rest_covered: "at_rest d \<Longrightarrow> covers (crowd_at (dm_node d) []) d"
  by (simp add: at_rest_def covers_def)

context chain_store
begin

lemma daemon_run_keeps:
  assumes run: "daemon_run L numCPU ops d0 bs d" and rest: "at_rest d0"
    and s: "ok (nd_store (dm_node d0))" "tree_ok (abs (nd_store (dm_node d0)))" "node_base L (dm_node d0)"
    and tip: "ch_tip (abs (nd_store (dm_node d0))) \<noteq> None"
    and apart: "told_apart (headers (abs (nd_store (dm_node d0))) \<union> Header ` set bs)"
  defines "H \<equiv> headers (abs (nd_store (dm_node d0))) \<union> Header ` set bs" and "c0 \<equiv> abs (nd_store (dm_node d0))"
  shows "\<exists>c. crowd_ok ok abs L H c0 c \<and> covers c d \<and> thread_headers c \<subseteq> H"
proof -
  obtain c where c: "(crowd_step L numCPU ops)\<^sup>*\<^sup>* (crowd_at (dm_node d0) []) c" "covers c d"
    "thread_headers c = Header ` set bs"
    using daemon_run_followed [OF run rest_covered [OF rest]] by (auto simp: thread_headers_def)
  have "crowd_ok ok abs L H c0 (crowd_at (dm_node d0) [])"
    using s tip_above_refl by (auto simp: crowd_ok_def sound_def H_def c0_def)
  from crowd_run_keeps [OF c(1) this] have "crowd_ok ok abs L H c0 c"
    using apart tip c(3) by (simp add: H_def c0_def)
  then show ?thesis using c(2,3) by (auto simp: H_def)
qed

text \<open>What holds in every state of the daemon.\<close>

lemma daemon_run_safe:
  assumes run: "daemon_run L numCPU ops d0 bs d" and rest: "at_rest d0"
    and s: "ok (nd_store (dm_node d0))" "tree_ok (abs (nd_store (dm_node d0)))" "node_base L (dm_node d0)"
    and tip: "ch_tip (abs (nd_store (dm_node d0))) \<noteq> None"
    and apart: "told_apart (headers (abs (nd_store (dm_node d0))) \<union> Header ` set bs)"
  defines "c0 \<equiv> abs (nd_store (dm_node d0))" and "c \<equiv> abs (nd_store (dm_node d))"
  shows "ok (nd_store (dm_node d))" "tree_ok c" "grows c0 c" "tip_above c0 c" "node_base L (dm_node d)"
    "(b, pc) \<in># live d \<Longrightarrow>
      insert_next L numCPU now ops b pc (nd_validator (dm_node d)) (nd_store (dm_node d)) \<noteq> None"
    "(b, Answered (Inr (w, became))) \<in># live d \<Longrightarrow> stored_as c b w"
proof -
  let ?H = "headers (abs (nd_store (dm_node d0))) \<union> Header ` set bs"
  obtain x where x: "crowd_ok ok abs L ?H c0 x" "covers x d" "thread_headers x \<subseteq> ?H"
    using daemon_run_keeps [OF run rest s tip apart] by (auto simp: c0_def)
  have node: "cw_node x = dm_node d" using x(2) by (simp add: covers_def)
  then show "ok (nd_store (dm_node d))" "tree_ok c" "grows c0 c" "tip_above c0 c" "node_base L (dm_node d)"
    using x(1) by (simp_all add: crowd_ok_def sound_def c_def)
  have live: "p \<in> set (cw_threads x)" if "p \<in># live d" for p
    using that x(2) mset_subset_eqD [of "live d" "mset (cw_threads x)" p] by (simp add: covers_def)
  show "insert_next L numCPU now ops b pc (nd_validator (dm_node d)) (nd_store (dm_node d)) \<noteq> None"
    if "(b, pc) \<in># live d"
    using crowd_never_panics [OF x(1) apart x(3) tip [folded c0_def] live [OF that]] by (simp add: node)
  show "stored_as c b w" if "(b, Answered (Inr (w, became))) \<in># live d"
    using x(1) live [OF that] by (auto simp: crowd_ok_def node c_def)
qed

end



section \<open>Starting\<close>

lemma initial_sizes:
  "DAGSizeBytes (ResearchSpecWithGrowth i g r e) = InitialDAGSizeBytes (ResearchSpecWithGrowth i g r e)"
  "DAGSizeBytes (with_sizes i g StrictSpec) = InitialDAGSizeBytes (with_sizes i g StrictSpec)"
  by (simp_all add: ResearchSpecWithGrowth_def with_sizes_def Let_def StrictSpec_def)

lemma daemon_spec_sizes: "daemon_spec f = Inr s \<Longrightarrow> DAGSizeBytes s = InitialDAGSizeBytes s"
  by (auto simp: daemon_spec_def initial_sizes split: if_splits)

lemma daemon_profile:
  assumes "parseFlags now f = Inr cfg"
  shows "Validate (ccSpec (dc_Chain cfg)) = None" "InitialDAGSizeBytes (ccSpec (dc_Chain cfg)) \<noteq> 0"
    "length (gcBits (dc_Genesis cfg)) = 32" "gcSpec (dc_Genesis cfg) = ccSpec (dc_Chain cfg)"
    "dc_Workers cfg = df_workers f" "dc_DataDir cfg = df_dataDir f"
    "daemon_spec f = Inr (ccSpec (dc_Chain cfg))" "dc_Bootnodes cfg = ParseBootnodes (df_bootnodes f)"
    "dc_ListenAddr cfg = df_listen f"
proof -
  show v: "Validate (ccSpec (dc_Chain cfg)) = None" and g: "gcSpec (dc_Genesis cfg) = ccSpec (dc_Chain cfg)"
    and "dc_Workers cfg = df_workers f" "dc_DataDir cfg = df_dataDir f"
    and d: "daemon_spec f = Inr (ccSpec (dc_Chain cfg))"
    and "dc_Bootnodes cfg = ParseBootnodes (df_bootnodes f)" "dc_ListenAddr cfg = df_listen f"
    using assms by (auto simp: parseFlags_def split: sum.splits option.splits)
  show "length (gcBits (dc_Genesis cfg)) = 32"
    using assms ParseTargetHex_length by (auto simp: parseFlags_def split: sum.splits option.splits)
  have "DAGSizeBytes (ccSpec (dc_Chain cfg)) = InitialDAGSizeBytes (ccSpec (dc_Chain cfg))"
    by (rule daemon_spec_sizes [OF d])
  then show "InitialDAGSizeBytes (ccSpec (dc_Chain cfg)) \<noteq> 0"
    using Validate_common(1) [OF v] by (auto simp: initialDAGSize_def)
qed

lemma new_validator:
  assumes "NewValidator L numCPU cfg (Some (CPUBackend L)) workers = Inr v"
    and "InitialDAGSizeBytes (ccSpec cfg) \<noteq> 0" "0 < numCPU" "numCPU < 2 ^ 63" "workers < 2 ^ 63"
  shows "cpu_validator L (fst (SetMiningBackend v backend al))"
    "v_config (fst (SetMiningBackend v backend al)) = cfg"
  using assms
  by (auto simp: NewValidator_def SetMiningBackend_def cpu_validator_def validator_ok_def cached_ok_def
      effective_workers_def Let_def split: option.splits)

lemma daemon_setup_node:
  assumes "daemon_setup L numCPU P now made_up f fs = Inr (cfg, net)"
    and "0 < numCPU" "numCPU < 2 ^ 63" "df_workers f < 2 ^ 63"
  shows "parseFlags now f = Inr cfg" "node_base L (nt_node net)" "nc_Chain (nd_cfg (nt_node net)) = dc_Chain cfg"
    "nc_Genesis (nd_cfg (nt_node net)) = dc_Genesis cfg" "nc_Mine (nd_cfg (nt_node net)) = dc_Mine cfg"
    "NewDiskStore (df_dataDir f) fs = Inr (nd_store (nt_node net))"
proof -
  obtain v b strategy where s: "parseFlags now f = Inr cfg"
      "NewValidator L numCPU (dc_Chain cfg) (Some (CPUBackend L)) (dc_Workers cfg) = Inr v"
      "NewDiskStore (dc_DataDir cfg) fs = Inr (nd_store (nt_node net))"
    and n: "nd_validator (nt_node net) =
        fst (SetMiningBackend v (Some (mining_backend L P b)) (Some (strategy_allocator P strategy)))"
      "nc_Chain (nd_cfg (nt_node net)) = dc_Chain cfg" "nc_Genesis (nd_cfg (nt_node net)) = dc_Genesis cfg"
      "nc_Mine (nd_cfg (nt_node net)) = dc_Mine cfg"
    using assms(1)
    by (auto simp: daemon_setup_def node_server_def NewNode_def daemon_node_config_def Let_def split: sum.splits)
  note p = daemon_profile [OF s(1)]
  show "parseFlags now f = Inr cfg" "nc_Chain (nd_cfg (nt_node net)) = dc_Chain cfg"
    "nc_Genesis (nd_cfg (nt_node net)) = dc_Genesis cfg" "nc_Mine (nd_cfg (nt_node net)) = dc_Mine cfg"
    "NewDiskStore (df_dataDir f) fs = Inr (nd_store (nt_node net))"
    using s n p(6) by simp_all
  show "node_base L (nt_node net)"
    using new_validator [OF s(2) p(2) assms(2,3)] assms(4) n p(3,5) by (simp add: node_base_def)
qed


text \<open>What a daemon may boot from: the chain an earlier run left, or none.\<close>

definition good_store :: "disk_store \<Rightarrow> bool" where
  "good_store s \<longleftrightarrow> memory_ok (mem s) \<and> tree_ok (memory_chain (mem s)) \<and>
     (ch_tip (memory_chain (mem s)) = None \<longrightarrow> ch_blocks (memory_chain (mem s)) = Map.empty)"

abbreviation disk_chain :: "disk_store \<Rightarrow> chain" where
  "disk_chain s \<equiv> memory_chain (mem s)"

lemma stored_header:
  assumes "so_StoreBlock disk_ops s b w = (e, s1)" "so_SetCurrentTip disk_ops s1 h = (e', s2)"
  shows "Header b \<in> headers (disk_chain s2)"
proof -
  have "mem s1 = snd (Memory_StoreBlock (mem s) b w)" "mem s2 = snd (Memory_SetCurrentTip (mem s1) h)"
    using assms Disk_StoreBlock_mem [of s b w] Disk_SetCurrentTip_mem(1) [of s1 h] by (simp_all add: disk_ops_def)
  then have "map_of (ms_blocks (mem s2)) (BlockHash b) = Some b"
    by (simp add: Memory_StoreBlock_def Memory_SetCurrentTip_def Let_def update_conv)
  then have "ch_blocks (disk_chain s2) (BlockHash b) = Some (b, the (map_of (ms_totalWork (mem s2)) (BlockHash b)))"
    by (simp add: memory_chain_def)
  then show ?thesis by (rule headersI)
qed

lemma genesis_good:
  assumes s: "good_store s" "ch_tip (disk_chain s) = None"
    and b: "hHeight (Header b) = 0" "BlockHash b \<noteq> zero_hash"
    and st: "so_StoreBlock disk_ops s b (CalcBlockWork (hTarget (Header b))) = (e, s1)"
      "so_SetCurrentTip disk_ops s1 (BlockHash b) = (e', s2)"
  shows "good_store s2" "ch_tip (disk_chain s2) = Some (BlockHash b)"
proof -
  have ok: "memory_ok (mem s)" and empty: "ch_blocks (disk_chain s) = Map.empty"
    using s by (simp_all add: good_store_def)
  have s1: "memory_ok (mem s1)" "disk_chain s1 = chain_store_block (disk_chain s) b (CalcBlockWork (hTarget (Header b)))"
    using disk.StoreBlock [OF ok b(2) st(1)] by simp_all
  then have in1: "ch_blocks (disk_chain s1) = [BlockHash b \<mapsto> (b, CalcBlockWork (hTarget (Header b)))]"
    by (simp add: chain_store_block_def empty)
  then have s2: "memory_ok (mem s2)" "disk_chain s2 = (disk_chain s1)\<lparr>ch_tip := Some (BlockHash b)\<rparr>"
    using disk.SetCurrentTip [OF s1(1) st(2)] by simp_all
  then show "good_store s2" "ch_tip (disk_chain s2) = Some (BlockHash b)"
    using b by (simp_all add: good_store_def in1 tree_ok_def linked_def block_total_work_def)
qed

lemma disk_genesis:
  assumes n: "node_base L n" "gcSpec (nc_Genesis (nd_cfg n)) = ccSpec (nc_Chain (nd_cfg n))" "good_store (nd_store n)"
    and init: "InitGenesis L numCPU disk_ops n (Inr b) n'"
    and apart: "told_apart (headers (disk_chain (nd_store n')))"
  shows "good_store (nd_store n') \<and> ch_tip (disk_chain (nd_store n')) \<noteq> None \<and> node_base L n' \<and> nd_cfg n' = nd_cfg n"
  using init
proof cases
  case (existing w)
  then show ?thesis using n disk.tip_block [of "nd_store n" b w] by (simp add: good_store_def)
next
  case (created e0 g res v s1 s2)
  note g = genesis_header [OF n(1,2) created(3)]
  obtain x where x: "Header b = (Header g)\<lparr>hNonce := x\<rparr>" using SealBlock_block [OF created(4)] by auto
  have v: "cpu_validator L v" "v_config v = v_config (nd_validator n)"
    using SealBlock_keeps [OF created(4) node_baseD(1) [OF n(1)] g(1,4)] by simp_all
  have "BlockHash b \<noteq> zero_hash"
    by (rule told_apartD(1) [OF apart]) (use stored_header [OF created(5,6)] created(1) in simp)
  moreover have "ch_tip (disk_chain (nd_store n)) = None"
    using created(2) n(3) disk.CurrentTip [of "nd_store n"] by (auto simp: good_store_def split: option.splits)
  ultimately show ?thesis
    using genesis_good [OF n(3) _ _ _ created(5,6)] g(2) x v n(1) created(1) by (simp add: node_base_def)
qed

lemma boot_ready:
  assumes boot: "daemon_boot L numCPU P now made_up f fs listens (Inr d)"
    and limits: "0 < numCPU" "numCPU < 2 ^ 63" "df_workers f < 2 ^ 63"
    and store: "\<forall>s. NewDiskStore (df_dataDir f) fs = Inr s \<longrightarrow> good_store s"
    and apart: "told_apart (headers (disk_chain (nd_store (dm_node d))))"
  obtains cfg where "parseFlags now f = Inr cfg" "node_base L (dm_node d)" "good_store (nd_store (dm_node d))"
    "ch_tip (disk_chain (nd_store (dm_node d))) \<noteq> None" "at_rest d"
    "nc_Chain (nd_cfg (dm_node d)) = dc_Chain cfg"
    "dm_main d = (if dc_Mine cfg then LoopHead else Waiting)" "dm_conns d = []" "dm_tasks d = []"
    "\<not> dm_cancelled d" "dm_accepting d = (dc_ListenAddr cfg \<noteq> [])"
    "dm_dialers d = map (\<lambda>addr. (addr, Checking)) (dialled (dc_Bootnodes cfg))"
  using boot
proof cases
  case (started cfg net b n)
  note s = daemon_setup_node [OF started(1) limits]
  have d: "dm_node d = n" "dm_main d = (if nc_Mine (nd_cfg n) then LoopHead else Waiting)" "dm_conns d = []"
    "dm_tasks d = []" "\<not> dm_cancelled d" "dm_accepting d = (dc_ListenAddr cfg \<noteq> [])"
    "dm_dialers d = map (\<lambda>addr. (addr, Checking)) (dialled (dc_Bootnodes cfg))"
    using started(3) by (auto simp: Start_def split: if_splits)
  have "good_store (nd_store n) \<and> ch_tip (disk_chain (nd_store n)) \<noteq> None \<and> node_base L n \<and>
      nd_cfg n = nd_cfg (nt_node net)"
    by (rule disk_genesis [OF s(2) _ _ started(2)])
      (use s daemon_profile(4) [OF s(1)] store apart d(1) in auto)
  then show ?thesis
    using s(1,3,5) d by (intro that [of cfg]) (auto simp: at_rest_def live_def)
qed



section \<open>Ending\<close>

text \<open>How many steps a goroutine has left once the context has ended, with those of the goroutines it may
  still start.\<close>

fun insert_left :: "insert_pc \<Rightarrow> nat" where
  "insert_left Arrived = 6"
| "insert_left Unchecked = 5"
| "insert_left Known = 1"
| "insert_left Weighing = 4"
| "insert_left (Weighed w) = 3"
| "insert_left (Stored w) = 2"
| "insert_left (Chosen w) = 1"
| "insert_left (Answered r) = 0"

fun main_left :: "main_pc \<Rightarrow> nat" where
  "main_left Sealing = 12"
| "main_left (Searching h) = 11"
| "main_left (Inserting b pc) = insert_left pc + 4"
| "main_left Pausing = 2"
| "main_left LoopHead = 1"
| "main_left Waiting = 1"
| "main_left (Returned e) = 0"

fun conn_left :: "conn_pc \<Rightarrow> nat" where
  "conn_left (Accepted addr inbound) = 15"
| "conn_left (Greeting i) = 12"
| "conn_left (Reading i) = 11"
| "conn_left (Handling i b pc) = insert_left pc + 4"
| "conn_left (Handled i) = 2"
| "conn_left (Leaving i) = 1"
| "conn_left Ended = 0"

fun dial_left :: "string \<times> dial_pc \<Rightarrow> nat" where
  "dial_left (addr, Dialling) = 19"
| "dial_left (addr, Talking c) = 3"
| "dial_left (addr, Resting) = 2"
| "dial_left (addr, Checking) = 1"
| "dial_left (addr, Stopped) = 0"

fun watch_left :: "watch_pc \<Rightarrow> nat" where
  "watch_left (Closing is) = length is"
| "watch_left _ = 0"

fun watch_stage :: "watch_pc \<Rightarrow> nat" where
  "watch_stage Watching = 2"
| "watch_stage Listing = 1"
| "watch_stage (Closing is) = 0"

definition work_left :: "'s daemon \<Rightarrow> nat" where
  "work_left d = main_left (dm_main d) + sum_list (map conn_left (dm_conns d)) +
     sum_list (map dial_left (dm_dialers d)) + length (dm_tasks d) + of_bool (dm_accepting d) +
     watch_left (dm_watch d)"

lemma insert_next_left:
  "insert_next L numCPU now ops b pc v s = Some (pc', v', s') \<Longrightarrow> \<not> is_Answered pc \<Longrightarrow> insert_left pc' < insert_left pc"
  by (cases pc) (auto simp: Let_def split: option.splits sum.splits prod.splits if_splits)

text \<open>A daemon that has been told to end and accepts no connection.\<close>

definition ending :: "'s daemon \<Rightarrow> bool" where
  "ending d \<longleftrightarrow> dm_cancelled d \<and> \<not> dm_listening d"

abbreviation closer :: "('s daemon \<times> 's daemon) set" where
  "closer \<equiv> measures [watch_stage \<circ> dm_watch, work_left]"

lemma main_closer:
  assumes "main_step L numCPU ops d l d'" "ending d"
  shows "ending d' \<and> (d', d) \<in> closer"
  using assms by cases (auto simp: ending_def work_left_def dest!: insert_next_left)

lemma conn_closer:
  assumes "conn_step L numCPU ops k d l d'" "k < length (dm_conns d)" "ending d"
  shows "ending d' \<and> (d', d) \<in> closer"
proof -
  obtain r where r: "sum_list (map conn_left (dm_conns d)) = conn_left (dm_conns d ! k) + r"
    "\<And>y. sum_list (map conn_left ((dm_conns d)[k := y])) = conn_left y + r"
    using sum_list_place [OF assms(2)] by metis
  from assms(1) show ?thesis
  proof cases
    case (add addr inbound n i tasks)
    then show ?thesis using assms(3) add_peer_node [OF add(4)] by (simp add: ending_def work_left_def r)
  next
    case (message i s msg rest now e n tasks)
    then show ?thesis using assms(3) dispatch_plain [OF message(6,7)] by (simp add: ending_def work_left_def r)
  next
    case (answered i b res)
    then show ?thesis
      using assms(3) by (auto simp: ending_def work_left_def r split: sum.split bool.split)
  qed (use assms(3) in \<open>auto simp: ending_def work_left_def r dest!: insert_next_left\<close>)
qed

lemma dial_closer:
  assumes "dial_step k d d'" "k < length (dm_dialers d)" "ending d"
  shows "ending d' \<and> (d', d) \<in> closer"
proof -
  obtain r where r: "sum_list (map dial_left (dm_dialers d)) = dial_left (dm_dialers d ! k) + r"
    "\<And>y. sum_list (map dial_left ((dm_dialers d)[k := y])) = dial_left y + r"
    using sum_list_place [OF assms(2)] by metis
  from assms(1) show ?thesis by cases (use assms(3) in \<open>simp_all add: ending_def work_left_def r\<close>)
qed

lemma daemon_closer:
  assumes "daemon_step L numCPU ops d l d'" "ending d"
  shows "ending d' \<and> (d', d) \<in> closer"
  using assms(1)
proof cases
  case accept
  from accept(2) show ?thesis by cases (use assms(2) in \<open>simp_all add: ending_def work_left_def\<close>)
next
  case watch
  from watch(2) show ?thesis by cases (use assms(2) in \<open>simp_all add: ending_def work_left_def\<close>)
next
  case main
  then show ?thesis using assms(2) by (rule main_closer)
next
  case (conn k)
  show ?thesis by (rule conn_closer [OF conn(2,1) assms(2)])
next
  case (dial k)
  show ?thesis by (rule dial_closer [OF dial(3,2) assms(2)])
qed (use assms(2) in \<open>simp_all add: ending_def work_left_def\<close>)

lemma no_infinite_run:
  assumes "ending (f 0)" and steps: "\<forall>i. \<exists>l. daemon_step L numCPU ops (f i) l (f (Suc i))"
  shows False
proof -
  have "ending (f i)" for i
  proof (induction i)
    case (Suc i)
    then show ?case using steps daemon_closer by blast
  qed (rule assms(1))
  then have "(f (Suc i), f i) \<in> closer" for i using steps daemon_closer by blast
  then show False using wf_measures [of "[watch_stage \<circ> dm_watch, work_left]"] unfolding wf_iff_no_infinite_down_chain by blast
qed


text \<open>A daemon in which nothing can happen any more has finished.\<close>

definition finished :: "'s daemon \<Rightarrow> bool" where
  "finished d \<longleftrightarrow> dm_cancelled d \<and> set (dm_conns d) \<subseteq> {Ended} \<and> snd ` set (dm_dialers d) \<subseteq> {Stopped} \<and>
     \<not> dm_accepting d \<and> dm_tasks d = [] \<and> dm_watch d = Closing []"

definition dial_ok :: "'s daemon \<Rightarrow> bool" where
  "dial_ok d \<longleftrightarrow> (\<forall>addr c. (addr, Talking c) \<in> set (dm_dialers d) \<longrightarrow> c < length (dm_conns d))"

lemma dial_okD: "dial_ok d \<Longrightarrow> k < length (dm_dialers d) \<Longrightarrow> dm_dialers d ! k = (addr, Talking c) \<Longrightarrow> c < length (dm_conns d)"
  unfolding dial_ok_def by (metis nth_mem)

lemma dial_ok_more:
  assumes "dial_ok d" "length (dm_conns d) \<le> length (dm_conns d')"
    and "set (dm_dialers d') \<subseteq> insert (addr, q) (set (dm_dialers d))" "\<And>c. q = Talking c \<Longrightarrow> c < length (dm_conns d')"
  shows "dial_ok d'"
  unfolding dial_ok_def
proof (intro allI impI)
  fix a c assume "(a, Talking c) \<in> set (dm_dialers d')"
  then consider "q = Talking c" | "(a, Talking c) \<in> set (dm_dialers d)" using assms(3) by blast
  then show "c < length (dm_conns d')"
  proof cases
    case 2
    then have "c < length (dm_conns d)" using assms(1) unfolding dial_ok_def by blast
    then show ?thesis using assms(2) by simp
  qed (rule assms(4))
qed

lemma daemon_dial_ok:
  assumes "daemon_step L numCPU ops d l d'" "dial_ok d"
  shows "dial_ok d'"
  using assms(1)
proof cases
  case main
  from main have "dm_dialers d' = dm_dialers d" "dm_conns d' = dm_conns d" by (cases; simp)+
  then show ?thesis using assms(2) by (simp add: dial_ok_def)
next
  case (conn k)
  from conn(2) have "dm_dialers d' = dm_dialers d" "length (dm_conns d') = length (dm_conns d)" by (cases; simp)+
  then show ?thesis using assms(2) by (simp add: dial_ok_def)
next
  case (dial k)
  let ?a = "fst (dm_dialers d ! k)"
  have "\<exists>q. dm_dialers d' = (dm_dialers d)[k := (?a, q)] \<and> length (dm_conns d) \<le> length (dm_conns d') \<and>
      (\<forall>c. q = Talking c \<longrightarrow> c < length (dm_conns d'))"
    using dial(3) by (cases; simp) blast+
  then obtain q where q: "dm_dialers d' = (dm_dialers d)[k := (?a, q)]" "length (dm_conns d) \<le> length (dm_conns d')"
    "\<And>c. q = Talking c \<Longrightarrow> c < length (dm_conns d')" by blast
  have "set (dm_dialers d') \<subseteq> insert (?a, q) (set (dm_dialers d))" unfolding q(1) by (rule set_update_subset_insert)
  from dial_ok_more [OF assms(2) q(2) this q(3)] show ?thesis .
next
  case accept
  from accept(2) have "dm_dialers d' = dm_dialers d" "length (dm_conns d) \<le> length (dm_conns d')" by (cases; simp)+
  then show ?thesis using dial_ok_more [OF assms(2), of d' "[]" Checking] by auto
next
  case watch
  from watch(2) have "dm_dialers d' = dm_dialers d" "dm_conns d' = dm_conns d" by (cases; simp)+
  then show ?thesis using assms(2) by (simp add: dial_ok_def)
qed (use assms(2) in \<open>simp_all add: dial_ok_def\<close>)

lemma daemon_run_dial_ok: "daemon_run L numCPU ops d bs d' \<Longrightarrow> dial_ok d \<Longrightarrow> dial_ok d'"
  by (induction rule: daemon_run.induct) (blast intro: daemon_dial_ok)+

lemma conn_moves:
  assumes "dm_conns d ! k \<noteq> Ended"
    and "\<And>i b pc. dm_conns d ! k = Handling i b pc \<Longrightarrow>
      insert_next L numCPU 0 ops b pc (nd_validator (dm_node d)) (nd_store (dm_node d)) \<noteq> None"
  shows "\<exists>l d'. conn_step L numCPU ops k d l d'"
proof (cases "dm_conns d ! k")
  case (Accepted addr inbound)
  obtain n i ts where "add_peer addr inbound (dm_net d) = (n, i, ts)" by (metis prod_cases3)
  then show ?thesis using Accepted conn_step.add by blast
next
  case (Handling i b pc)
  show ?thesis
  proof (cases "is_Answered pc")
    case True
    then obtain r where "pc = Answered r" by (cases pc) auto
    then show ?thesis using Handling conn_step.answered by blast
  next
    case False
    then show ?thesis using Handling assms(2) [OF Handling] conn_step.insert by (metis not_None_eq prod_cases3)
  qed
next
  case (Greeting i)
  then show ?thesis by (blast intro: conn_step.greet)
next
  case (Reading i)
  then show ?thesis by (blast intro: conn_step.read_fails)
next
  case (Handled i)
  then show ?thesis by (cases "dm_cancelled d") (blast intro: conn_step.stop conn_step.go_on)+
next
  case (Leaving i)
  then show ?thesis by (blast intro: conn_step.leave)
qed (use assms(1) in simp)

lemma main_moves:
  assumes "dm_cancelled d" "\<And>e. dm_main d \<noteq> Returned e" "node_base L (dm_node d)"
    and "\<And>h. dm_main d = Searching h \<Longrightarrow> \<exists>r v. SealBlock L numCPU (nd_validator (dm_node d))
      \<lparr>Header = h, Transactions = []\<rparr> (nc_MaxNonces (nd_cfg (dm_node d))) r v"
    and "\<And>b pc. dm_main d = Inserting b pc \<Longrightarrow>
      insert_next L numCPU 0 ops b pc (nd_validator (dm_node d)) (nd_store (dm_node d)) \<noteq> None"
  shows "\<exists>l d'. main_step L numCPU ops d l d'"
proof (cases "dm_main d")
  case Sealing
  show ?thesis
  proof (cases "so_CurrentTip ops (nd_store (dm_node d))")
    case (Inr x)
    obtain tip w where x: "x = (tip, w)" by force
    obtain h where "next_header (nd_cfg (dm_node d)) 0 tip = Some h"
      using next_header_exists [OF node_baseD(4,5) [OF assms(3)]] by blast
    then show ?thesis using Sealing Inr x main_step.template by blast
  qed (use Sealing main_step.no_tip in blast)
next
  case (Searching h)
  then obtain r v where "SealBlock L numCPU (nd_validator (dm_node d)) \<lparr>Header = h, Transactions = []\<rparr>
      (nc_MaxNonces (nd_cfg (dm_node d))) r v" using assms(4) by blast
  then show ?thesis
    by (cases r) (auto intro: main_step.not_sealed [OF Searching] main_step.sealed [OF Searching])
next
  case (Inserting b pc)
  show ?thesis
  proof (cases "is_Answered pc")
    case True
    then obtain r where pc: "dm_main d = Inserting b (Answered r)" using Inserting by (cases pc) auto
    show ?thesis
    proof (cases r)
      case (Inl e)
      then show ?thesis using pc by (blast intro: main_step.refused)
    next
      case (Inr x)
      obtain w became where "x = (w, became)" by force
      then show ?thesis
        using pc Inr by (cases became) (auto intro: main_step.side_block main_step.new_tip)
    qed
  next
    case False
    then show ?thesis using Inserting assms(5) [OF Inserting] main_step.insert by (metis not_None_eq prod_cases3)
  qed
qed (use assms(1,2) main_step.stop [of d L numCPU ops] in auto)


lemma stuck_finished:
  assumes stuck: "\<And>l d'. \<not> daemon_step L numCPU ops d l d'"
    and live: "\<And>b pc. (b, pc) \<in># live d \<Longrightarrow>
      insert_next L numCPU 0 ops b pc (nd_validator (dm_node d)) (nd_store (dm_node d)) \<noteq> None"
    and base: "node_base L (dm_node d)" and dials: "dial_ok d"
  shows "finished d \<and> ((\<exists>e. dm_main d = Returned e) \<or>
    (\<exists>h. dm_main d = Searching h \<and> (\<nexists>r v. SealBlock L numCPU (nd_validator (dm_node d))
       \<lparr>Header = h, Transactions = []\<rparr> (nc_MaxNonces (nd_cfg (dm_node d))) r v)))"
proof -
  have cancelled: "dm_cancelled d" using stuck daemon_step.signal by blast
  have conns: "dm_conns d ! k = Ended" if k: "k < length (dm_conns d)" for k
  proof (rule ccontr)
    assume "dm_conns d ! k \<noteq> Ended"
    moreover have "(b, pc) \<in># live d" if "dm_conns d ! k = Handling i b pc" for i b pc
      by (rule live_conn [OF k]) (simp add: that)
    ultimately obtain l d' where "conn_step L numCPU ops k d l d'" using conn_moves [of d k] live by blast
    then show False using stuck daemon_step.conn [OF k] by blast
  qed
  have dialers: "snd (dm_dialers d ! k) = Stopped" if k: "k < length (dm_dialers d)" for k
  proof (rule ccontr)
    assume s: "snd (dm_dialers d ! k) \<noteq> Stopped"
    obtain addr q where q: "dm_dialers d ! k = (addr, q)" by force
    have "\<exists>d'. dial_step k d d'"
    proof (cases q)
      case (Talking c)
      then show ?thesis using q conns [OF dial_okD [OF dials k]] dial_step.talked by blast
    next
      case Checking
      then show ?thesis using q cancelled by (blast intro: dial_step.check_stop)
    next
      case Dialling
      then show ?thesis using q by (blast intro: dial_step.fails)
    next
      case Resting
      then show ?thesis using q by (blast intro: dial_step.tick)
    qed (use q s in simp)
    then show False using stuck daemon_step.dial [OF k] by blast
  qed
  have "\<not> dm_accepting d" using stuck daemon_step.accept accept_step.ends cancelled by blast
  moreover have "dm_tasks d = []"
  proof (cases "dm_tasks d")
    case (Cons t us)
    then show ?thesis using stuck daemon_step.task [of d "[]" t us L numCPU ops] by auto
  qed
  moreover have "dm_watch d = Closing []"
  proof (cases "dm_watch d")
    case (Closing ps)
    then show ?thesis using stuck daemon_step.watch watch_step.close_peer by (cases ps) blast+
  qed (use stuck daemon_step.watch watch_step.close_listener watch_step.list_peers cancelled in blast)+
  moreover have "x = Ended" if "x \<in> set (dm_conns d)" for x using that conns unfolding in_set_conv_nth by blast
  then have "set (dm_conns d) \<subseteq> {Ended}" by blast
  moreover have "snd x = Stopped" if "x \<in> set (dm_dialers d)" for x
    using that dialers unfolding in_set_conv_nth by blast
  then have "snd ` set (dm_dialers d) \<subseteq> {Stopped}" by blast
  moreover have "(\<exists>e. dm_main d = Returned e) \<or>
    (\<exists>h. dm_main d = Searching h \<and> (\<nexists>r v. SealBlock L numCPU (nd_validator (dm_node d))
       \<lparr>Header = h, Transactions = []\<rparr> (nc_MaxNonces (nd_cfg (dm_node d))) r v))"
  proof (rule ccontr)
    assume "\<not> ?thesis"
    moreover have "(b, pc) \<in># live d" if "dm_main d = Inserting b pc" for b pc using that by (simp add: live_def)
    ultimately have "\<exists>l d'. main_step L numCPU ops d l d'"
      using main_moves [OF cancelled _ base] live by blast
    then show False using stuck daemon_step.main by blast
  qed
  ultimately show ?thesis using cancelled by (simp add: finished_def)
qed

end
