(* ===== verification/Restart.thy ===== *)
theory Restart
  imports DaemonProofs
begin

text \<open>
  The chain of a daemon over its lifetimes: whenever the process is killed, also between two writes of a
  flush, and whatever flushes have failed, the directory holds a chain the daemon had, and the next daemon
  starts from it.  The properties of the daemon are at the end, with a sample daemon for their witnesses.
\<close>


section \<open>Stores that are read back\<close>

lemma repair_header [simp]: "Header (repair_block b) = Header b" "BlockHash (repair_block b) = BlockHash b"
  by (simp_all add: repair_block_def BlockHash_def)

lemma repair_fields [simp]:
  "ms_currentTip (repair_store d) = ms_currentTip d" "ms_genesisHash (repair_store d) = ms_genesisHash d"
  "ms_heights (repair_store d) = ms_heights d" "ms_totalWork (repair_store d) = ms_totalWork d"
  "ms_blocks (repair_store d) = map (\<lambda>(h, b). (h, repair_block b)) (ms_blocks d)"
  by (simp_all add: repair_store_def)

lemma mapped_memory_ok:
  assumes "memory_ok m" "map_of (ms_blocks m') = map_option repair_block \<circ> map_of (ms_blocks m)"
    and "ms_totalWork m' = ms_totalWork m" "ms_currentTip m' = ms_currentTip m"
  shows "memory_ok m'"
  using assms(1) unfolding memory_ok_def assms(2-4) by (simp add: all_conj_distrib) force

lemma repaired_disk_ok: "disk_ok d \<Longrightarrow> disk_ok (repair_store d)"
proof -
  assume d: "disk_ok d"
  have "memory_ok (mem (repair_store d))"
    by (rule mapped_memory_ok [of "mem d"]) (use d in \<open>simp_all add: disk_ok_def map_of_map\<close>)
  then show ?thesis using d by (auto simp: disk_ok_def list_all_iff comp_def case_prod_unfold)
qed

lemma repaired_chain:
  "ch_blocks (disk_chain (repair_store d)) h = map_option (map_prod repair_block id) (ch_blocks (disk_chain d) h)"
  "ch_tip (disk_chain (repair_store d)) = ch_tip (disk_chain d)"
  by (simp_all add: memory_chain_def map_of_map split: option.split)

text \<open>A chain with other transactions.\<close>

definition like :: "chain \<Rightarrow> chain \<Rightarrow> bool" where
  "like c c' \<longleftrightarrow> grows c c' \<and> grows c' c \<and> ch_tip c = ch_tip c'"

lemma like_repaired: "like (disk_chain d) (disk_chain (repair_store d))"
  by (auto simp: like_def grows_def repaired_chain)

lemma like_tree:
  assumes "like c c'" "tree_ok c"
  shows "tree_ok c'"
  unfolding tree_ok_def
proof (intro allI impI)
  fix h b w assume "ch_blocks c' h = Some (b, w)"
  then obtain b0 where b0: "ch_blocks c h = Some (b0, w)" "Header b0 = Header b"
    using assms(1) growsE unfolding like_def by metis
  then have "linked c b0 \<and> w = block_total_work c b0" using assms(2) by (simp add: tree_ok_def)
  then have "linked c b" "w = block_total_work c b" using same_header [OF b0(2), of c] by simp_all
  then show "linked c' b \<and> w = block_total_work c' b" using assms(1) grows_links unfolding like_def by metis
qed

lemma like_headers: "like c c' \<Longrightarrow> headers c' = headers c"
  unfolding like_def headers_def grows_def by (metis (mono_tags, lifting))

lemma like_sound:
  assumes "like c c'" "sound H c0 c" "chain_ok c"
  shows "sound H c0 c'"
proof -
  have "tip_above c0 c'"
  proof (cases "ch_tip c")
    case (Some t)
    then obtain b w where b: "ch_blocks c t = Some (b, w)" using assms(3) by (auto simp: chain_ok_def)
    then obtain b' where "ch_blocks c' t = Some (b', w)" using assms(1) unfolding like_def by (metis growsE)
    moreover have "ch_tip c' = Some t" using assms(1) Some by (simp add: like_def)
    ultimately show ?thesis using assms(2) Some b by (simp add: sound_def tip_above_def)
  qed (use assms in \<open>auto simp: like_def sound_def tip_above_def\<close>)
  then show ?thesis
    using assms(1,2) like_tree [OF assms(1)] like_headers [OF assms(1)] grows_trans
    by (auto simp: sound_def like_def)
qed

text \<open>What loading yields has no duplicate keys.\<close>

lemma load_distinct:
  "load_blocks rs m = Inr m' \<Longrightarrow> distinct (map fst m) \<Longrightarrow> distinct (map fst m')"
  "load_heights hs k = Inr k' \<Longrightarrow> distinct (map fst k) \<Longrightarrow> distinct (map fst k')"
  "load_work ws w = Inr w' \<Longrightarrow> distinct (map fst w) \<Longrightarrow> distinct (map fst w')"
proof -
  show "load_blocks rs m = Inr m' \<Longrightarrow> distinct (map fst m) \<Longrightarrow> distinct (map fst m')"
    by (induction rs m rule: load_blocks.induct) (auto simp: distinct_update split: sum.splits)
  show "load_heights hs k = Inr k' \<Longrightarrow> distinct (map fst k) \<Longrightarrow> distinct (map fst k')"
    by (induction hs k rule: load_heights.induct) (auto simp: distinct_update split: sum.splits option.splits)
  show "load_work ws w = Inr w' \<Longrightarrow> distinct (map fst w) \<Longrightarrow> distinct (map fst w')"
    by (induction ws w rule: load_work.induct) (auto simp: distinct_update split: sum.splits)
qed

lemma opened_distinct:
  assumes "NewDiskStore dir fs = Inr e"
  shows "distinct (map fst (ms_blocks e))" "distinct (map fst (ms_heights e))" "distinct (map fst (ms_totalWork e))"
    "ds_path e = chain_file dir" "ds_fs e = fs"
  using assms load_distinct
  by (auto simp: NewDiskStore_def load_def split: if_splits option.splits sum.splits)

lemma same_store_disk_ok:
  assumes s: "same_store e d" and d: "disk_ok d"
    and e: "distinct (map fst (ms_blocks e))" "distinct (map fst (ms_heights e))" "distinct (map fst (ms_totalWork e))"
  shows "disk_ok e"
proof -
  have "set (ms_blocks e) = set (ms_blocks d)" "set (ms_heights e) = set (ms_heights d)"
    "set (ms_totalWork e) = set (ms_totalWork d)"
    using s d e map_of_inject_set by (simp_all add: same_store_def disk_ok_def map_of_inject_set)
  then show ?thesis
    using s d e same_store_chain [OF s] by (simp add: disk_ok_def same_store_def list_all_iff)
qed


text \<open>Opening a directory whose file holds the store \<open>d\<close>.\<close>

lemma open_written:
  assumes d: "disk_ok d" and io: "dir \<noteq> []" "\<not> fs_mkdir_fails fs" "\<not> fs_read_fails fs"
    and data: "map_of (fs_files fs) (chain_file dir) = Some (marshalSnapshot (flush_snapshot d))"
  shows "\<exists>e. NewDiskStore dir fs = Inr e \<and> disk_ok e \<and> like (disk_chain d) (disk_chain e)"
proof -
  obtain e where e: "NewDiskStore dir fs = Inr e" "same_store e (repair_store d)"
    using load_snapshot [OF d io data] by blast
  have "disk_ok e" by (rule same_store_disk_ok [OF e(2) repaired_disk_ok [OF d] opened_distinct(1-3) [OF e(1)]])
  then show ?thesis using e like_repaired [of d] same_store_chain(1) [OF e(2)] by auto
qed


section \<open>Directories\<close>

text \<open>A directory a daemon may start in: it has no file yet, or that of a chain with a tip.\<close>

definition good_dir :: "string \<Rightarrow> (string \<times> string) list \<Rightarrow> bool" where
  "good_dir path files \<longleftrightarrow> (case map_of files path of
     None \<Rightarrow> True
   | Some data \<Rightarrow> \<exists>d. disk_ok d \<and> tree_ok (disk_chain d) \<and> ch_tip (disk_chain d) \<noteq> None \<and>
       data = marshalSnapshot (flush_snapshot d))"

text \<open>A directory that has kept the chain \<open>c0\<close>.\<close>

definition kept :: "block_header set \<Rightarrow> chain \<Rightarrow> string \<Rightarrow> (string \<times> string) list \<Rightarrow> bool" where
  "kept H c0 path files \<longleftrightarrow>
     (\<exists>d. disk_ok d \<and> sound H c0 (disk_chain d) \<and> map_of files path = Some (marshalSnapshot (flush_snapshot d)))"

lemma kept_good: "kept H c0 path files \<Longrightarrow> ch_tip c0 \<noteq> None \<Longrightarrow> good_dir path files"
  by (fastforce simp: kept_def good_dir_def sound_def tip_above_def split: option.splits)

lemma open_kept:
  assumes "kept H c0 (chain_file dir) (fs_files fs)" and "dir \<noteq> []" "\<not> fs_mkdir_fails fs" "\<not> fs_read_fails fs"
  shows "\<exists>e. NewDiskStore dir fs = Inr e \<and> disk_ok e \<and> sound H c0 (disk_chain e)"
proof -
  obtain d where d: "disk_ok d" "sound H c0 (disk_chain d)"
    "map_of (fs_files fs) (chain_file dir) = Some (marshalSnapshot (flush_snapshot d))"
    using assms(1) by (auto simp: kept_def)
  have "chain_ok (disk_chain d)" using d(1) memory_chain_ok by (simp add: disk_ok_def)
  then show ?thesis using open_written [OF d(1) assms(2-4) d(3)] like_sound d(2) by blast
qed

lemma open_good:
  assumes "good_dir (chain_file dir) (fs_files fs)" and e: "NewDiskStore dir fs = Inr e"
  shows "disk_ok e" "good_store e"
    "ch_tip (disk_chain e) \<noteq> None \<Longrightarrow> kept (headers (disk_chain e)) (disk_chain e) (chain_file dir) (fs_files fs)"
proof -
  have io: "dir \<noteq> []" "\<not> fs_mkdir_fails fs" "\<not> fs_read_fails fs"
    using e by (auto simp: NewDiskStore_def load_def split: if_splits)
  have "disk_ok e \<and> good_store e \<and>
      (ch_tip (disk_chain e) \<noteq> None \<longrightarrow> kept (headers (disk_chain e)) (disk_chain e) (chain_file dir) (fs_files fs))"
  proof (cases "map_of (fs_files fs) (chain_file dir)")
    case None
    then have "e = \<lparr>ms_genesisHash = zero_hash, ms_currentTip = zero_hash, ms_blocks = [],
        ms_heights = [], ms_totalWork = [], ds_path = chain_file dir, ds_fs = fs\<rparr>"
      using e io by (simp add: NewDiskStore_def load_def)
    then show ?thesis by (simp add: disk_ok_def memory_ok_def good_store_def memory_chain_def tree_ok_def)
  next
    case (Some data)
    then obtain d where d: "disk_ok d" "tree_ok (disk_chain d)" "ch_tip (disk_chain d) \<noteq> None"
      "map_of (fs_files fs) (chain_file dir) = Some (marshalSnapshot (flush_snapshot d))"
      using assms(1) by (auto simp: good_dir_def)
    have e': "disk_ok e" and l: "like (disk_chain d) (disk_chain e)"
      using open_written [OF d(1) io d(4)] e by auto
    have c: "chain_ok (disk_chain e)" using e' memory_chain_ok by (simp add: disk_ok_def)
    have l': "like (disk_chain e) (disk_chain d)" using l by (simp add: like_def)
    have t: "tree_ok (disk_chain e)" by (rule like_tree [OF l d(2)])
    have "sound (headers (disk_chain e)) (disk_chain e) (disk_chain e)" using t tip_above_refl by (simp add: sound_def)
    from like_sound [OF l' this c] have "kept (headers (disk_chain e)) (disk_chain e) (chain_file dir) (fs_files fs)"
      using d by (auto simp: kept_def)
    then show ?thesis using e' t d(3) l by (auto simp: good_store_def disk_ok_def like_def)
  qed
  then show "disk_ok e" "good_store e"
    "ch_tip (disk_chain e) \<noteq> None \<Longrightarrow> kept (headers (disk_chain e)) (disk_chain e) (chain_file dir) (fs_files fs)"
    by blast+
qed


section \<open>Writing\<close>

text \<open>A flush on the way: the file of the directory is that of before, or the new one.\<close>

lemma stage_kept:
  assumes "files \<in> set (flush_stages path (marshalSnapshot (flush_snapshot d)) before)"
    and "kept H c0 path before" "disk_ok d" "sound H c0 (disk_chain d)"
  shows "kept H c0 path files"
  using stages_main [OF assms(1)] assms(2-4) unfolding kept_def by metis

text \<open>A call of the store that writes ends in a flush of the store as it leaves it.\<close>

definition flushed :: "disk_store \<Rightarrow> disk_store \<Rightarrow> bool" where
  "flushed s s' \<longleftrightarrow> s' = s \<or> ds_path s' = ds_path s \<and>
     fs_files (ds_fs s') \<in> set (flush_stages (ds_path s) (marshalSnapshot (flush_snapshot s')) (fs_files (ds_fs s)))"

lemma flush_snapshot_flush [simp]: "flush_snapshot (snd (flushLocked d)) = flush_snapshot d"
  by (simp add: flush_snapshot_def)

lemma flushed_writes:
  "flushed s (snd (Disk_StoreBlock s b w))" "flushed s (snd (Disk_SetCurrentTip s h))"
proof -
  have f: "flushed s (snd (flushLocked s1))" if "ds_path s1 = ds_path s" "ds_fs s1 = ds_fs s" for s1
    using flush_in_stages [of s1] that by (simp add: flushed_def)
  show "flushed s (snd (Disk_StoreBlock s b w))" by (simp add: Disk_StoreBlock_def Let_def f)
  show "flushed s (snd (Disk_SetCurrentTip s h))"
    by (simp add: Disk_SetCurrentTip_def f) (simp add: flushed_def)
qed

lemma disk_insert_next:
  assumes "insert_next L numCPU now disk_ops b pc v s = Some (pc', v', s')"
    and "disk_ok s" "BlockHash b \<noteq> zero_hash" "header_ok (Header b)"
  shows "flushed s s' \<and> disk_ok s'"
  using assms
proof (cases pc)
  case (Weighed w)
  then have "s' = snd (Disk_StoreBlock s b w)"
    using assms(1) by (auto simp: disk_ops_def split: prod.splits)
  then show ?thesis using flushed_writes(1) disk_store_ok [OF assms(2-4)] by simp
next
  case (Chosen w)
  then have "s' = snd (Disk_SetCurrentTip s (BlockHash b))"
    using assms(1) by (auto simp: disk_ops_def split: prod.splits)
  then show ?thesis using flushed_writes(2) disk_tip_ok [OF assms(2)] by simp
qed (auto simp: flushed_def)



section \<open>Running\<close>

definition disk_inv :: "hashlib \<Rightarrow> block_header set \<Rightarrow> chain \<Rightarrow> string \<Rightarrow> disk_store crowd \<Rightarrow> bool" where
  "disk_inv L H c0 path c \<longleftrightarrow>
     crowd_ok (\<lambda>d. memory_ok (mem d)) (\<lambda>d. disk_chain d) L H c0 c \<and> disk_ok (nd_store (cw_node c)) \<and>
     ds_path (nd_store (cw_node c)) = path \<and> kept H c0 path (fs_files (ds_fs (nd_store (cw_node c))))"

lemma crowd_step_disk:
  assumes step: "crowd_step L numCPU disk_ops c c'" and c: "disk_inv L H c0 path c"
    and H: "told_apart H" "thread_headers c' \<subseteq> H" and tip: "ch_tip c0 \<noteq> None"
  shows "disk_inv L H c0 path c' \<and> flushed (nd_store (cw_node c)) (nd_store (cw_node c'))"
proof -
  let ?s = "nd_store (cw_node c)" and ?s' = "nd_store (cw_node c')"
  have c': "crowd_ok (\<lambda>d. memory_ok (mem d)) (\<lambda>d. disk_chain d) L H c0 c'"
    by (rule disk.crowd_step_keeps [OF step _ H tip]) (use c in \<open>simp add: disk_inv_def\<close>)
  have "flushed ?s ?s' \<and> disk_ok ?s'"
    using step
  proof cases
    case (insert i b pc now pc' v s)
    have t: "(b, pc) \<in> set (cw_threads c)" using insert(2,3) nth_mem by fastforce
    then have "header_ok (Header b)" using c by (auto simp: disk_inv_def crowd_ok_def)
    moreover have "Header b \<in> thread_headers c'"
      using t insert(1-3) by (auto simp: thread_headers_def set_update_thread image_iff intro!: bexI [of _ "(b, pc)"])
    then have "BlockHash b \<noteq> zero_hash" using told_apartD(1) [OF H(1)] H(2) by blast
    ultimately show ?thesis using disk_insert_next [OF insert(4)] c insert(1) by (simp add: disk_inv_def)
  qed (use c in \<open>simp_all add: flushed_def disk_inv_def\<close>)
  moreover have "sound H c0 (disk_chain ?s')" using c' by (simp add: crowd_ok_def)
  ultimately show ?thesis
    using c c' stage_kept [of "fs_files (ds_fs ?s')" path ?s' "fs_files (ds_fs ?s)" H c0]
    by (auto simp: disk_inv_def flushed_def)
qed

lemma crowd_run_disk:
  assumes "(crowd_step L numCPU disk_ops)\<^sup>*\<^sup>* c c'" and "disk_inv L H c0 path c"
    and "told_apart H" "thread_headers c' \<subseteq> H" and "ch_tip c0 \<noteq> None"
  shows "disk_inv L H c0 path c'"
  using assms
proof (induction rule: rtranclp_induct)
  case (step m m')
  then show ?case using crowd_step_threads [OF step.hyps(2)] crowd_step_disk [OF step.hyps(2)] by blast
qed simp

text \<open>A booted daemon has its chain in the directory.\<close>

lemma boot_kept:
  assumes boot: "daemon_boot L numCPU P now made_up f fs listens (Inr d)"
    and limits: "0 < numCPU" "numCPU < 2 ^ 63" "df_workers f < 2 ^ 63"
    and dir: "good_dir (chain_file (df_dataDir f)) (fs_files fs)"
    and apart: "told_apart (headers (disk_chain (nd_store (dm_node d))))"
  defines "s \<equiv> nd_store (dm_node d)"
  shows "disk_ok s" "ds_path s = chain_file (df_dataDir f)"
    "kept (headers (disk_chain s)) (disk_chain s) (chain_file (df_dataDir f)) (fs_files (ds_fs s))"
  using boot
proof (atomize (full), cases)
  case (started cfg net b n)
  note su = daemon_setup_node [OF started(1) limits]
  have op: "disk_ok (nd_store (nt_node net))" "good_store (nd_store (nt_node net))"
    "ch_tip (disk_chain (nd_store (nt_node net))) \<noteq> None \<Longrightarrow>
       kept (headers (disk_chain (nd_store (nt_node net)))) (disk_chain (nd_store (nt_node net)))
         (chain_file (df_dataDir f)) (fs_files fs)"
    by (rule open_good [OF dir su(6)])+
  note path = opened_distinct(4,5) [OF su(6)]
  have s: "s = nd_store n" using started(3) by (auto simp: s_def Start_def split: if_splits)
  from started(2) show "disk_ok s \<and> ds_path s = chain_file (df_dataDir f) \<and>
      kept (headers (disk_chain s)) (disk_chain s) (chain_file (df_dataDir f)) (fs_files (ds_fs s))"
  proof cases
    case (existing w)
    have "ch_tip (disk_chain (nd_store (nt_node net))) \<noteq> None"
      using disk.tip_block [OF _ existing(2)] op(2) by (simp add: good_store_def)
    then show ?thesis using op path s existing(1) by simp
  next
    case (created e0 g res v s1 s2)
    have same: "gcSpec (nc_Genesis (nd_cfg (nt_node net))) = ccSpec (nc_Chain (nd_cfg (nt_node net)))"
      using su(3,4) daemon_profile(4) [OF su(1)] by simp
    have h: "header_ok (Header b)"
      using genesis_header(1) [OF su(2) same created(3)] SealBlock_block [OF created(4)] by (auto simp: header_ok_def)
    have "Header b \<in> headers (disk_chain s)" using stored_header [OF created(5,6)] s created(1) by simp
    then have nz: "BlockHash b \<noteq> zero_hash" using told_apartD(1) [OF apart] by (simp add: s_def)
    have s1: "s1 = snd (Disk_StoreBlock (nd_store (nt_node net)) b (CalcBlockWork (hTarget (Header b))))"
      using created(5) by (simp add: disk_ops_def)
    have ok1: "disk_ok s1" unfolding s1 by (rule disk_store_ok [OF op(1) nz h])
    have "Disk_SetCurrentTip s1 (BlockHash b) = (None, s2)" using created(6) by (simp add: disk_ops_def)
    then have f: "flushLocked (s1\<lparr>ms_currentTip := BlockHash b\<rparr>) = (None, s2)" and ok2: "disk_ok s2"
      using disk_tip_ok [OF ok1, of "BlockHash b"] by (auto simp: Disk_SetCurrentTip_def split: if_splits)
    have p: "ds_path s1 = chain_file (df_dataDir f)" by (simp add: s1 Disk_StoreBlock_def Let_def path)
    have "fs_files (ds_fs s2) = renamed (ds_path s1) (marshalSnapshot (flush_snapshot s2)) (fs_files (ds_fs s1))"
      using f flush_snapshot_flush [of "s1\<lparr>ms_currentTip := BlockHash b\<rparr>"]
      by (auto simp: flushLocked_def Let_def split: io_fault.splits)
    then have data: "map_of (fs_files (ds_fs s2)) (chain_file (df_dataDir f)) = Some (marshalSnapshot (flush_snapshot s2))"
      by (simp add: stage_files p)
    have "good_store s"
      using boot_ready [OF boot limits _ apart] open_good(2) [OF dir] by (metis s_def)
    then have "kept (headers (disk_chain s)) (disk_chain s) (chain_file (df_dataDir f)) (fs_files (ds_fs s))"
      using data ok2 tip_above_refl s created(1) by (auto simp: kept_def sound_def good_store_def)
    then show ?thesis using ok2 s created(1) f p by (auto simp: flushLocked_def Let_def split: io_fault.splits)
  qed
qed


text \<open>A booted daemon, for the properties below.\<close>

definition booted ::
  "hashlib \<Rightarrow> nat \<Rightarrow> 'r platform \<Rightarrow> i64w \<Rightarrow> string \<Rightarrow> daemon_flags \<Rightarrow> file_system \<Rightarrow> bool \<Rightarrow> disk_store daemon \<Rightarrow> bool" where
  "booted L numCPU P now made_up f fs listens d \<longleftrightarrow>
     daemon_boot L numCPU P now made_up f fs listens (Inr d) \<and> 0 < numCPU \<and> numCPU < 2 ^ 63 \<and>
     df_workers f < 2 ^ 63 \<and> good_dir (chain_file (df_dataDir f)) (fs_files fs)"

abbreviation dm_chain :: "disk_store daemon \<Rightarrow> chain" where
  "dm_chain d \<equiv> disk_chain (nd_store (dm_node d))"

lemma told_apart_subset: "told_apart H \<Longrightarrow> H' \<subseteq> H \<Longrightarrow> told_apart H'"
  unfolding told_apart_def by (meson image_mono inj_on_subset subsetD)

lemma booted_ready:
  assumes b: "booted L numCPU P now made_up f fs listens d" and apart: "told_apart (headers (dm_chain d))"
  obtains cfg where "parseFlags now f = Inr cfg" "node_base L (dm_node d)" "good_store (nd_store (dm_node d))"
    "ch_tip (dm_chain d) \<noteq> None" "at_rest d" "nc_Chain (nd_cfg (dm_node d)) = dc_Chain cfg"
    "dm_main d = (if dc_Mine cfg then LoopHead else Waiting)" "dm_conns d = []" "dm_tasks d = []"
    "\<not> dm_cancelled d" "dm_accepting d = (dc_ListenAddr cfg \<noteq> [])"
    "dm_dialers d = map (\<lambda>addr. (addr, Checking)) (dialled (dc_Bootnodes cfg))"
  by (rule boot_ready [of L numCPU P now made_up f fs listens d])
    (use assms open_good(2) in \<open>auto simp: booted_def\<close>)

lemma booted_dir:
  assumes "booted L numCPU P now made_up f fs listens d"
  shows "df_dataDir f \<noteq> []"
proof -
  from assms have "daemon_boot L numCPU P now made_up f fs listens (Inr d)" by (simp add: booted_def)
  then obtain cfg net where "daemon_setup L numCPU P now made_up f fs = Inr (cfg, net)" by cases
  then have "NewDiskStore (df_dataDir f) fs = Inr (nd_store (nt_node net))"
    by (rule daemon_setup_node(6)) (use assms in \<open>simp_all add: booted_def\<close>)
  then show ?thesis by (auto simp: NewDiskStore_def)
qed

lemma booted_disk_inv:
  assumes b: "booted L numCPU P now made_up f fs listens d"
    and apart: "told_apart (headers (dm_chain d) \<union> H)"
  shows "disk_inv L (headers (dm_chain d) \<union> H) (dm_chain d) (chain_file (df_dataDir f)) (crowd_at (dm_node d) [])"
proof -
  have a: "told_apart (headers (dm_chain d))" by (rule told_apart_subset [OF apart]) blast
  have k: "disk_ok (nd_store (dm_node d))" "ds_path (nd_store (dm_node d)) = chain_file (df_dataDir f)"
    "kept (headers (dm_chain d)) (dm_chain d) (chain_file (df_dataDir f)) (fs_files (ds_fs (nd_store (dm_node d))))"
    using boot_kept [of L numCPU P now made_up f fs listens d] b a by (auto simp: booted_def)
  have "kept (headers (dm_chain d) \<union> H) (dm_chain d) (chain_file (df_dataDir f)) (fs_files (ds_fs (nd_store (dm_node d))))"
    using k(3) by (auto simp: kept_def sound_def)
  then show ?thesis
    using booted_ready [OF b a] k tip_above_refl
    by (auto simp: disk_inv_def crowd_ok_def sound_def good_store_def)
qed

lemma booted_run:
  assumes b: "booted L numCPU P now made_up f fs listens d0" and run: "daemon_run L numCPU disk_ops d0 bs d"
    and apart: "told_apart (headers (dm_chain d0) \<union> H)" and H: "Header ` set bs \<subseteq> H"
  obtains c where "covers c d" "thread_headers c \<subseteq> H"
    "disk_inv L (headers (dm_chain d0) \<union> H) (dm_chain d0) (chain_file (df_dataDir f)) c"
proof -
  have a: "told_apart (headers (dm_chain d0))" by (rule told_apart_subset [OF apart]) blast
  have r: "at_rest d0" "ch_tip (dm_chain d0) \<noteq> None" by (rule booted_ready [OF b a], assumption)+
  obtain c where c: "(crowd_step L numCPU disk_ops)\<^sup>*\<^sup>* (crowd_at (dm_node d0) []) c" "covers c d"
    "thread_headers c = Header ` set bs"
    using daemon_run_followed [OF run rest_covered [OF r(1)]] by (auto simp: thread_headers_def)
  have "disk_inv L (headers (dm_chain d0) \<union> H) (dm_chain d0) (chain_file (df_dataDir f)) c"
    by (rule crowd_run_disk [OF c(1) booted_disk_inv [OF b apart] apart _ r(2)]) (use c(3) H in auto)
  then show ?thesis using that c(2,3) H by blast
qed


section \<open>A sample daemon\<close>

text \<open>A directory with one block, and a daemon that mines on the CPU.\<close>

definition boot_disk :: disk_store where
  "boot_disk = snd (Disk_StoreBlock sample_disk0 sample_block (CalcBlockWork (hTarget (Header sample_block))))"

definition boot_flags :: daemon_flags where
  "boot_flags = sample_daemon\<lparr>df_minerBackend := BackendCPU\<rparr>"

lemma boot_disk_ok: "disk_ok boot_disk"
  unfolding boot_disk_def by (rule disk_store_ok [OF sample_disk0_ok(1) sample_hash_nonzero])
    (simp add: sample_block_def sample_header_ok)

lemma flush_no_fault:
  assumes "fs_faults (ds_fs d) = []"
  shows "map_of (fs_files (ds_fs (snd (flushLocked d)))) (ds_path d) = Some (marshalSnapshot (flush_snapshot d))"
    "fs_mkdir_fails (ds_fs (snd (flushLocked d))) = fs_mkdir_fails (ds_fs d)"
    "fs_read_fails (ds_fs (snd (flushLocked d))) = fs_read_fails (ds_fs d)"
  using assms by (simp_all add: flushLocked_def Let_def stage_files)

lemma boot_disk_fields:
  "ms_currentTip boot_disk = BlockHash sample_block" "ms_blocks boot_disk = [(BlockHash sample_block, sample_block)]"
  "ms_totalWork boot_disk = [(BlockHash sample_block, CalcBlockWork (hTarget (Header sample_block)))]"
  "map_of (fs_files (ds_fs boot_disk)) (chain_file ''data'') = Some (marshalSnapshot (flush_snapshot boot_disk))"
  "\<not> fs_mkdir_fails (ds_fs boot_disk)" "\<not> fs_read_fails (ds_fs boot_disk)"
proof -
  obtain s1 where s1: "boot_disk = snd (flushLocked s1)" "ds_path s1 = chain_file ''data''"
    "ds_fs s1 = ds_fs sample_disk0" "ms_currentTip s1 = BlockHash sample_block"
    "ms_blocks s1 = [(BlockHash sample_block, sample_block)]"
    "ms_totalWork s1 = [(BlockHash sample_block, CalcBlockWork (hTarget (Header sample_block)))]"
    unfolding boot_disk_def Disk_StoreBlock_def Let_def sample_disk0_def by simp
  show "ms_currentTip boot_disk = BlockHash sample_block" "ms_blocks boot_disk = [(BlockHash sample_block, sample_block)]"
    "ms_totalWork boot_disk = [(BlockHash sample_block, CalcBlockWork (hTarget (Header sample_block)))]"
    by (simp_all only: s1 flush_fields)
  have fs: "fs_faults (ds_fs s1) = []" "\<not> fs_mkdir_fails (ds_fs s1)" "\<not> fs_read_fails (ds_fs s1)"
    unfolding s1(3) by (simp_all add: sample_disk0_def)
  show "map_of (fs_files (ds_fs boot_disk)) (chain_file ''data'') = Some (marshalSnapshot (flush_snapshot boot_disk))"
    "\<not> fs_mkdir_fails (ds_fs boot_disk)" "\<not> fs_read_fails (ds_fs boot_disk)"
    using flush_no_fault [OF fs(1)] fs(2,3) unfolding s1(1) flush_snapshot_flush s1(2) by simp_all
qed

lemma boot_disk_chain:
  "disk_chain boot_disk = \<lparr>ch_blocks = [BlockHash sample_block \<mapsto>
     (sample_block, CalcBlockWork (hTarget (Header sample_block)))], ch_tip = Some (BlockHash sample_block)\<rparr>"
  using sample_hash_nonzero by (auto simp: memory_chain_def boot_disk_fields fun_eq_iff)

lemma boot_dir: "good_dir (chain_file ''data'') (fs_files (ds_fs boot_disk))"
proof -
  have "hHeight (Header sample_block) = 0" by (simp add: sample_block_def sample_header_def)
  then have "tree_ok (disk_chain boot_disk)"
    by (simp add: boot_disk_chain tree_ok_def linked_def block_total_work_def)
  then show ?thesis using boot_disk_ok boot_disk_chain by (auto simp: good_dir_def boot_disk_fields)
qed

lemma sample_boot:
  obtains d where "booted sample_lib 2 sample_platform 0 ''node'' boot_flags (ds_fs boot_disk) True d"
    "headers (dm_chain d) = {Header sample_block}" "told_apart (headers (dm_chain d))"
    "dm_main d = LoopHead" "\<not> dm_cancelled d" "dm_watch d = Watching"
    "df_dataDir boot_flags = ''data''"
proof -
  let ?P = sample_platform and ?fs = "ds_fs boot_disk"
  have "isl (parseFlags 0 boot_flags) = False" "isl (fst (initializeMining ?P (projr (parseFlags 0 boot_flags)))) = False"
    "df_dataDir boot_flags = ''data''" "df_workers boot_flags = 2" "df_noMine boot_flags = False" "df_mine boot_flags"
    by code_simp+
  note eval = this
  obtain cfg b strategy where cfg: "parseFlags 0 boot_flags = Inr cfg"
    and mining: "fst (initializeMining ?P cfg) = Inr (b, strategy)"
    using eval(1,2) by (cases "parseFlags 0 boot_flags"; cases "fst (initializeMining ?P (projr (parseFlags 0 boot_flags)))") auto
  note p = daemon_profile [OF cfg]
  obtain v where v: "NewValidator sample_lib 2 (dc_Chain cfg) (Some (CPUBackend sample_lib)) (dc_Workers cfg) = Inr v"
    by (simp add: NewValidator_def p(1) Let_def)
  obtain e where e: "NewDiskStore ''data'' ?fs = Inr e" "disk_ok e" "like (disk_chain boot_disk) (disk_chain e)"
    using open_written [OF boot_disk_ok _ boot_disk_fields(5,6,4)] by auto
  obtain net where net: "daemon_setup sample_lib 2 ?P 0 ''node'' boot_flags ?fs = Inr (cfg, net)"
    and st: "nd_store (nt_node net) = e" and m: "nc_Mine (nd_cfg (nt_node net)) = dc_Mine cfg"
    using e(1) eval(3) by (simp add: daemon_setup_def cfg v mining p(6) NewNode_def Let_def daemon_node_config_def node_server_def)
  have tip: "ch_tip (disk_chain e) = Some (BlockHash sample_block)" using e(3) by (simp add: like_def boot_disk_chain)
  obtain t w where "so_CurrentTip disk_ops (nd_store (nt_node net)) = Inr (t, w)"
    using disk.CurrentTip [of e] e(2) tip st
    by (cases "the (ch_blocks (disk_chain e) (BlockHash sample_block))") (auto simp: disk_ok_def)
  then have g: "InitGenesis sample_lib 2 disk_ops (nt_node net) (Inr t) (nt_node net)" by (rule InitGenesis.existing)
  have mine: "dc_Mine cfg"
    using cfg eval(5,6) by (auto simp: parseFlags_def split: sum.splits option.splits)
  obtain d where d: "Start True (dc_ListenAddr cfg) (dc_Bootnodes cfg) (net\<lparr>nt_node := nt_node net\<rparr>) = Some d"
    "dm_node d = nt_node net" "dm_main d = LoopHead" "\<not> dm_cancelled d" "dm_watch d = Watching"
    using m mine by (simp add: Start_def)
  have boot: "booted sample_lib 2 ?P 0 ''node'' boot_flags ?fs True d"
    using daemon_boot.started [OF net g d(1)] boot_dir eval(3,4) by (simp add: booted_def)
  have h: "headers (dm_chain d) = {Header sample_block}"
    using like_headers [OF e(3)] d(2) st by (auto simp: headers_def boot_disk_chain split: if_splits)
  then have "told_apart (headers (dm_chain d))"
    using sample_hash_nonzero by (simp add: told_apart_def BlockHash_def)
  then show ?thesis using that boot h d(3-5) eval(3) by blast
qed

text \<open>The daemon after a signal: its loop has returned and its listener is closed.\<close>

lemma sample_end:
  obtains d0 d1 d where "booted sample_lib 2 sample_platform 0 ''node'' boot_flags (ds_fs boot_disk) True d0"
    "told_apart (headers (dm_chain d0))" "daemon_run sample_lib 2 disk_ops d0 [] d"
    "daemon_step sample_lib 2 disk_ops d0 None d1" "nd_store (dm_node d1) = nd_store (dm_node d0)"
    "dm_cancelled d" "\<not> dm_listening d" "main_exit d = Some (0, fst (Validator_Close (nd_validator (dm_node d))))"
proof -
  obtain d0 where b: "booted sample_lib 2 sample_platform 0 ''node'' boot_flags (ds_fs boot_disk) True d0"
    and d0: "told_apart (headers (dm_chain d0))" "dm_main d0 = LoopHead" "\<not> dm_cancelled d0" "dm_watch d0 = Watching"
    by (rule sample_boot)
  let ?d1 = "d0\<lparr>dm_cancelled := True\<rparr>"
  let ?d2 = "?d1\<lparr>dm_main := Returned None\<rparr>"
  let ?d3 = "?d2\<lparr>dm_watch := Listing, dm_listening := False\<rparr>"
  have s1: "daemon_step sample_lib 2 disk_ops d0 None ?d1" by (rule daemon_step.signal [OF d0(3)])
  have s2: "daemon_step sample_lib 2 disk_ops ?d1 None ?d2"
    by (rule daemon_step.main, rule main_step.stop) (simp_all add: d0)
  have s3: "daemon_step sample_lib 2 disk_ops ?d2 None ?d3"
    by (rule daemon_step.watch, rule watch_step.close_listener) (simp_all add: d0)
  have "daemon_run sample_lib 2 disk_ops d0 [] ?d3"
    by (rule daemon_run.quiet [OF daemon_run.quiet [OF daemon_run.quiet [OF daemon_run.start s1] s2] s3])
  then show ?thesis
    by (rule that [OF b d0(1) _ s1]) (simp_all add: main_exit_def)
qed

text \<open>A start takes a chain that is not of the profile of the flags: here every block needs a DAG of 8 MiB,
  and the tip has one of 64 bytes.\<close>

lemma boot_takes_foreign_chain:
  obtains d cfg and b :: block where "booted sample_lib 2 sample_platform 0 ''node'' boot_flags (ds_fs boot_disk) True d"
    "parseFlags 0 boot_flags = Inr cfg" "DAGSizeForHeight (ccSpec (dc_Chain cfg)) 0 = Some (8 * 1024 * 1024)"
    "Header b \<in> headers (dm_chain d)" "hHeight (Header b) = 0" "hDAGSizeBytes (Header b) = 64"
proof -
  obtain d where d: "booted sample_lib 2 sample_platform 0 ''node'' boot_flags (ds_fs boot_disk) True d"
    "headers (dm_chain d) = {Header sample_block}" "told_apart (headers (dm_chain d))" by (rule sample_boot)
  obtain cfg where cfg: "parseFlags 0 boot_flags = Inr cfg" by (rule booted_ready [OF d(1,3)])
  have "(case daemon_spec boot_flags of Inr s \<Rightarrow> DAGSizeForHeight s 0 | _ \<Rightarrow> None) = Some (8 * 1024 * 1024)"
    by code_simp
  then have "DAGSizeForHeight (ccSpec (dc_Chain cfg)) 0 = Some (8 * 1024 * 1024)"
    by (simp add: daemon_profile(7) [OF cfg])
  moreover have "hHeight (Header sample_block) = 0" "hDAGSizeBytes (Header sample_block) = 64"
    by (simp_all add: sample_block_def sample_header_def)
  ultimately show ?thesis using that [OF d(1) cfg, of sample_block] d(2) by simp
qed

text \<open>A flush that fails leaves the file as it is and the block in memory, where the next insertion of the
  block finds it.\<close>

lemma failed_flush_keeps_block:
  assumes "Disk_StoreBlock s b w = (Some ErrIO, s')"
  shows "Disk_HasBlock s' (BlockHash b)" "Disk_TotalWork s' (BlockHash b) = Inr w"
    "map_of (fs_files (ds_fs s')) (ds_path s) = map_of (fs_files (ds_fs s)) (ds_path s)"
proof -
  obtain s1 where s1: "flushLocked s1 = (Some ErrIO, s')" "ds_path s1 = ds_path s" "ds_fs s1 = ds_fs s"
    "ms_blocks s1 = AList.update (BlockHash b) b (ms_blocks s)" "ms_totalWork s1 = AList.update (BlockHash b) w (ms_totalWork s)"
    using assms by (simp add: Disk_StoreBlock_def Let_def split: if_splits)
  have "ms_blocks s' = ms_blocks s1" "ms_totalWork s' = ms_totalWork s1"
    using flush_fields [of s1] unfolding s1(1) by simp_all
  then show "Disk_HasBlock s' (BlockHash b)" "Disk_TotalWork s' (BlockHash b) = Inr w"
    by (simp_all add: Disk_HasBlock_def Disk_TotalWork_def s1 update_conv)
  show "map_of (fs_files (ds_fs s')) (ds_path s) = map_of (fs_files (ds_fs s)) (ds_path s)"
    using s1(1-3) by (auto simp: flushLocked_def Let_def stage_files split: io_fault.splits)
qed


section \<open>Properties\<close>

text \<open>C15: The goroutines of the daemon do nothing to its node that a crowd of insertions and templates
  does not: every run of the daemon, whatever its mining loop, its connections, its dial loops, the tasks they
  start and the end of the context do, is matched by a run of the crowd on the same node, in which the
  blocks whose insertion began are the same and every insertion under way is at the same place.\<close>

theorem daemon_refines_crowd:
  assumes "daemon_run L numCPU ops d0 bs d" and "at_rest d0"
  shows "\<exists>c. (crowd_step L numCPU ops)\<^sup>*\<^sup>* (crowd_at (dm_node d0) []) c \<and> cw_node c = dm_node d \<and>
    live d \<subseteq># mset (cw_threads c) \<and> thread_headers c = Header ` set bs"
  using daemon_run_followed [OF assms(1) rest_covered [OF assms(2)]]
  by (auto simp: covers_def thread_headers_def)

theorem daemon_refines_crowd_witness:
  "\<exists>(d0 :: disk_store daemon) d c. (crowd_step sample_lib 2 disk_ops)\<^sup>*\<^sup>* (crowd_at (dm_node d0) []) c \<and>
     cw_node c = dm_node d \<and> thread_headers c = {} \<and> main_exit d \<noteq> None"
proof -
  obtain d0 d where b: "booted sample_lib 2 sample_platform 0 ''node'' boot_flags (ds_fs boot_disk) True d0"
    "told_apart (headers (dm_chain d0))" "daemon_run sample_lib 2 disk_ops d0 [] d"
    "main_exit d = Some (0, fst (Validator_Close (nd_validator (dm_node d))))"
    by (rule sample_end)
  have "at_rest d0" by (rule booted_ready [OF b(1,2)])
  from daemon_refines_crowd [OF b(3) this] obtain c where
    "(crowd_step sample_lib 2 disk_ops)\<^sup>*\<^sup>* (crowd_at (dm_node d0) []) c" "cw_node c = dm_node d" "thread_headers c = {}"
    by auto
  moreover have "main_exit d \<noteq> None" using b(4) by simp
  ultimately show ?thesis by blast
qed

text \<open>C16: A start that succeeds: from a directory that is empty or holds a chain of a daemon, the daemon has
  a store with a tip whose blocks are a tree, a validator and a node for the profile of its flags, its
  listener and one dial loop for each bootnode of the flags, and its mining loop unless mining is off.\<close>

theorem daemon_boots:
  assumes "booted L numCPU P now made_up f fs listens d" and "told_apart (headers (dm_chain d))"
  shows "\<exists>cfg. parseFlags now f = Inr cfg \<and> profile_ok (df_mode f) (ccSpec (dc_Chain cfg)) \<and>
    v_config (nd_validator (dm_node d)) = dc_Chain cfg \<and> validator_ok L (nd_validator (dm_node d)) \<and>
    tree_ok (dm_chain d) \<and> ch_tip (dm_chain d) \<noteq> None \<and>
    dm_main d = (if df_mine f \<and> \<not> df_noMine f then LoopHead else Waiting) \<and>
    dm_accepting d = (df_listen f \<noteq> []) \<and>
    map fst (dm_dialers d) = ParseBootnodes (df_bootnodes f)"
proof -
  obtain cfg where c: "parseFlags now f = Inr cfg" "node_base L (dm_node d)" "good_store (nd_store (dm_node d))"
    "ch_tip (dm_chain d) \<noteq> None" "nc_Chain (nd_cfg (dm_node d)) = dc_Chain cfg"
    "dm_main d = (if dc_Mine cfg then LoopHead else Waiting)" "dm_accepting d = (dc_ListenAddr cfg \<noteq> [])"
    "dm_dialers d = map (\<lambda>addr. (addr, Checking)) (dialled (dc_Bootnodes cfg))"
    by (rule booted_ready [OF assms])
  note p = daemon_profile [OF c(1)]
  have mine: "dc_Mine cfg = (df_mine f \<and> \<not> df_noMine f)"
    using c(1) by (auto simp: parseFlags_def split: sum.splits option.splits if_splits)
  have "dialled (ParseBootnodes raw) = ParseBootnodes raw" for raw
    using TrimSpace_twice by (simp add: dialled_def ParseBootnodes_def comp_def filter_map filter_filter)
  then have "map fst (dm_dialers d) = ParseBootnodes (df_bootnodes f)" using c(8) p(8) by (simp add: comp_def)
  then show ?thesis
    using c daemon_spec_ok [OF p(7,1)] mine p(9) by (simp add: node_base_def cpu_validator_def good_store_def)
qed

theorem daemon_boots_witness:
  "\<exists>d cfg. daemon_boot sample_lib 2 sample_platform 0 ''node'' boot_flags (ds_fs boot_disk) True (Inr d) \<and>
     parseFlags 0 boot_flags = Inr cfg \<and> v_config (nd_validator (dm_node d)) = dc_Chain cfg \<and>
     dm_main d = LoopHead \<and> dm_accepting d \<and> dm_dialers d = []"
proof -
  have f: "df_mine boot_flags \<and> \<not> df_noMine boot_flags \<and> df_listen boot_flags \<noteq> [] \<and>
      ParseBootnodes (df_bootnodes boot_flags) = []" by code_simp
  obtain d where b: "booted sample_lib 2 sample_platform 0 ''node'' boot_flags (ds_fs boot_disk) True d"
    "told_apart (headers (dm_chain d))" by (rule sample_boot)
  from daemon_boots [OF b] b(1) f show ?thesis by (auto simp: booted_def)
qed



text \<open>C13: A daemon that is killed starts again: at whatever moment of a run the process ends, also between
  two writes of a flush, whatever flushes have failed before, the next daemon can open the directory, and
  finds a chain that is a tree of valid links, has every block the killed daemon started with, and a tip of
  at least that work; and it may be killed in turn.\<close>

theorem killed_daemon_restarts:
  assumes b: "booted L numCPU P now made_up f fs listens d0" and run: "daemon_run L numCPU disk_ops d0 bs d"
    and step: "daemon_step L numCPU disk_ops d l d'"
    and killed: "fs_files fs' \<in> set (flush_stages (chain_file (df_dataDir f))
      (marshalSnapshot (flush_snapshot (nd_store (dm_node d')))) (fs_files (ds_fs (nd_store (dm_node d)))))"
    and io: "\<not> fs_mkdir_fails fs'" "\<not> fs_read_fails fs'"
    and apart: "told_apart (headers (dm_chain d0) \<union> Header ` (set bs \<union> set_option l))"
  shows "\<exists>e. NewDiskStore (df_dataDir f) fs' = Inr e \<and> tree_ok (disk_chain e) \<and>
    grows (dm_chain d0) (disk_chain e) \<and> tip_work (dm_chain d0) \<le> tip_work (disk_chain e) \<and>
    good_dir (chain_file (df_dataDir f)) (fs_files fs')"
proof -
  let ?H = "Header ` (set bs \<union> set_option l)" and ?path = "chain_file (df_dataDir f)"
  let ?K = "headers (dm_chain d0) \<union> ?H"
  have a: "told_apart (headers (dm_chain d0))" by (rule told_apart_subset [OF apart]) blast
  have tip: "ch_tip (dm_chain d0) \<noteq> None" by (rule booted_ready [OF b a])
  obtain c where c: "covers c d" "thread_headers c \<subseteq> ?H" "disk_inv L ?K (dm_chain d0) ?path c"
    by (rule booted_run [OF b run apart]) blast+
  obtain c' where c': "(crowd_step L numCPU disk_ops)\<^sup>=\<^sup>= c c'" "covers c' d'"
    "thread_headers c' = thread_headers c \<union> Header ` set_option l"
    using daemon_followed [OF step c(1)] by (auto simp: followed_def)
  have "thread_headers c' \<subseteq> ?K" using c(2) c'(3) by blast
  then have inv: "disk_inv L ?K (dm_chain d0) ?path c'"
    using c'(1) c(3) crowd_step_disk [OF _ c(3) apart _ tip] by blast
  have "kept ?K (dm_chain d0) ?path (fs_files fs')"
    by (rule stage_kept [OF killed])
      (use c(1,3) c'(2) inv in \<open>simp_all add: disk_inv_def crowd_ok_def covers_def\<close>)
  then obtain e where "NewDiskStore (df_dataDir f) fs' = Inr e" "sound ?K (dm_chain d0) (disk_chain e)"
    "good_dir ?path (fs_files fs')"
    using open_kept [OF _ booted_dir [OF b] io] kept_good [OF _ tip] by blast
  then show ?thesis using tip_above_work [OF _ tip, of "disk_chain e"] by (auto simp: sound_def)
qed

theorem killed_daemon_restarts_witness:
  "\<exists>d0 e. booted sample_lib 2 sample_platform 0 ''node'' boot_flags (ds_fs boot_disk) True d0 \<and>
     (let data = marshalSnapshot (flush_snapshot (nd_store (dm_node d0)));
          torn = written (chain_file ''data'') data 40 (fs_files (ds_fs (nd_store (dm_node d0))))
      in NewDiskStore ''data'' \<lparr>fs_files = torn, fs_faults = [], fs_mkdir_fails = False, fs_read_fails = False\<rparr> = Inr e) \<and>
     tree_ok (disk_chain e) \<and> grows (dm_chain d0) (disk_chain e)"
proof -
  obtain d0 d1 where b: "booted sample_lib 2 sample_platform 0 ''node'' boot_flags (ds_fs boot_disk) True d0"
    "told_apart (headers (dm_chain d0))"
    and step: "daemon_step sample_lib 2 disk_ops d0 None d1" "nd_store (dm_node d1) = nd_store (dm_node d0)"
    by (rule sample_end)
  have dir: "df_dataDir boot_flags = ''data''" by code_simp
  let ?data = "marshalSnapshot (flush_snapshot (nd_store (dm_node d1)))" and ?before = "fs_files (ds_fs (nd_store (dm_node d0)))"
  let ?torn = "\<lparr>fs_files = written (chain_file ''data'') ?data 40 ?before, fs_faults = [], fs_mkdir_fails = False,
      fs_read_fails = False\<rparr>"
  have "written (chain_file ''data'') ?data 40 ?before = written (chain_file ''data'') ?data (min 40 (length ?data)) ?before"
    by (simp add: written_def min_def)
  then have "fs_files ?torn \<in> set (flush_stages (chain_file (df_dataDir boot_flags)) ?data ?before)"
    by (auto simp: flush_stages_def dir simp del: upt_Suc)
  moreover have "told_apart (headers (dm_chain d0) \<union> Header ` (set [] \<union> set_option None))" using b(2) by simp
  ultimately obtain e where "NewDiskStore ''data'' ?torn = Inr e" "tree_ok (disk_chain e)" "grows (dm_chain d0) (disk_chain e)"
    using killed_daemon_restarts [OF b(1) daemon_run.start step(1), of ?torn] dir by auto
  then show ?thesis using b(1) step(2) by (auto simp: Let_def)
qed




end
