(* ===== verification/FlagsProofs.thy ===== *)
theory FlagsProofs
  imports Flags
begin

text \<open>
  \<open>Parse\<close> against the grammar of command lines: it succeeds exactly on the words of settings its flags
  accept, applies them in their order, and stops at the first word that is no flag.
\<close>


section \<open>The grammar\<close>

definition flag_name :: "string \<Rightarrow> bool" where
  "flag_name n \<longleftrightarrow> n \<noteq> [] \<and> hd n \<noteq> CHR ''-'' \<and> CHR ''='' \<notin> set n"

text \<open>The words, the settings they are, and the words that are left.\<close>

inductive command_line :: "'f flag_set \<Rightarrow> string list \<Rightarrow> (string \<times> string) list \<Rightarrow> string list \<Rightarrow> bool"
  for fs :: "'f flag_set"
where
  no_words: "command_line fs [] [] []"
| no_flag: "positional s \<Longrightarrow> command_line fs (s # words) [] (s # words)"
| dashes: "command_line fs (''--'' # words) [] words"
| joined: "d \<in> {''-'', ''--''} \<Longrightarrow> flag_name n \<Longrightarrow> map_of fs n = Some fl \<Longrightarrow> command_line fs words ss rest \<Longrightarrow>
    command_line fs ((d @ n @ CHR ''='' # t) # words) ((n, t) # ss) rest"
| switch: "d \<in> {''-'', ''--''} \<Longrightarrow> flag_name n \<Longrightarrow> map_of fs n = Some fl \<Longrightarrow> fl_switch fl \<Longrightarrow>
    command_line fs words ss rest \<Longrightarrow> command_line fs ((d @ n) # words) ((n, ''true'') # ss) rest"
| separate: "d \<in> {''-'', ''--''} \<Longrightarrow> flag_name n \<Longrightarrow> map_of fs n = Some fl \<Longrightarrow> \<not> fl_switch fl \<Longrightarrow>
    command_line fs words ss rest \<Longrightarrow> command_line fs ((d @ n) # t # words) ((n, t) # ss) rest"

fun apply_settings :: "'f flag_set \<Rightarrow> (string \<times> string) list \<Rightarrow> 'f \<Rightarrow> 'f option" where
  "apply_settings fs [] f = Some f"
| "apply_settings fs ((n, t) # ss) f =
     (case map_of fs n of
        None \<Rightarrow> None
      | Some fl \<Rightarrow> (case fl_set fl t f of None \<Rightarrow> None | Some f \<Rightarrow> apply_settings fs ss f))"


section \<open>One word\<close>

lemma flag_word:
  assumes "d \<in> {''-'', ''--''}" "flag_name n" "u = [] \<or> hd u = CHR ''=''"
  shows "\<not> positional (d @ n @ u)" "d @ n @ u \<noteq> ''--''" "without_dashes (d @ n @ u) = n @ u"
    "name_part (n @ u) = n" "value_part (n @ u) = (if u = [] then None else Some (tl u))"
    "hd (n @ u) \<noteq> CHR ''-''" "hd (n @ u) \<noteq> CHR ''=''"
proof -
  obtain c m where n: "n = c # m" "c \<noteq> CHR ''-''" "c \<noteq> CHR ''=''" "CHR ''='' \<notin> set m"
    using assms(2) by (cases n) (auto simp: flag_name_def)
  show "\<not> positional (d @ n @ u)" "d @ n @ u \<noteq> ''--''" "without_dashes (d @ n @ u) = n @ u"
    "hd (n @ u) \<noteq> CHR ''-''" "hd (n @ u) \<noteq> CHR ''=''"
    using assms(1) n by (auto simp: positional_def without_dashes_def)
  have all: "takeWhile (\<lambda>c. c \<noteq> CHR ''='') n = n"
    using assms(2) by (auto simp: flag_name_def takeWhile_eq_all_conv)
  show p: "name_part (n @ u) = n"
  proof (cases u)
    case (Cons a v)
    then have "takeWhile (\<lambda>c. c \<noteq> CHR ''='') (n @ a # v) = n"
      using assms(2,3) by (intro takeWhile_tail [THEN trans [OF _ all]]) auto
    then show ?thesis by (simp add: name_part_def Cons)
  qed (simp add: name_part_def all)
  show "value_part (n @ u) = (if u = [] then None else Some (tl u))"
  proof (cases u)
    case Nil
    then show ?thesis using assms(2) p by (simp add: value_part_def flag_name_def)
  next
    case (Cons a v)
    then show ?thesis using assms(3) p by (simp add: value_part_def)
  qed
qed

lemma name_part_ok:
  assumes "w \<noteq> []" "hd w \<notin> {CHR ''-'', CHR ''=''}"
  shows "flag_name (name_part w)"
    and "w = name_part w @ (case value_part w of None \<Rightarrow> [] | Some t \<Rightarrow> CHR ''='' # t)"
proof -
  obtain c m where w: "w = c # m" "c \<noteq> CHR ''-''" "c \<noteq> CHR ''=''" using assms by (cases w) auto
  show "flag_name (name_part w)"
    using w set_takeWhileD [of _ "\<lambda>c. c \<noteq> CHR ''=''" m] by (auto simp: flag_name_def name_part_def)
  have split: "w = name_part w @ dropWhile (\<lambda>c. c \<noteq> CHR ''='') w" by (simp add: name_part_def)
  show "w = name_part w @ (case value_part w of None \<Rightarrow> [] | Some t \<Rightarrow> CHR ''='' # t)"
  proof (cases "CHR ''='' \<in> set w")
    case True
    then have ne: "dropWhile (\<lambda>c. c \<noteq> CHR ''='') w \<noteq> []" by auto
    then have "hd (dropWhile (\<lambda>c. c \<noteq> CHR ''='') w) = CHR ''=''" using hd_dropWhile [OF ne] by simp
    then have "dropWhile (\<lambda>c. c \<noteq> CHR ''='') w = CHR ''='' # tl (dropWhile (\<lambda>c. c \<noteq> CHR ''='') w)"
      using ne by (metis list.collapse)
    moreover have "drop (length (name_part w)) w = dropWhile (\<lambda>c. c \<noteq> CHR ''='') w"
      by (simp add: name_part_def dropWhile_eq_drop)
    then have "value_part w = Some (tl (dropWhile (\<lambda>c. c \<noteq> CHR ''='') w))"
      using True by (simp add: value_part_def drop_Suc tl_drop [symmetric])
    ultimately show ?thesis using split by simp
  next
    case False
    then have "name_part w = w" by (auto simp: name_part_def takeWhile_eq_all_conv)
    then show ?thesis using False by (simp add: value_part_def)
  qed
qed

lemma dashed_word:
  assumes "\<not> positional s" "s \<noteq> ''--''"
  shows "\<exists>d \<in> {''-'', ''--''}. s = d @ without_dashes s" "without_dashes s \<noteq> []"
proof -
  obtain a b r where s: "s = a # b # r" using assms(1) by (cases s rule: list.exhaust; cases "tl s") (auto simp: positional_def)
  show "\<exists>d \<in> {''-'', ''--''}. s = d @ without_dashes s" "without_dashes s \<noteq> []"
    using assms by (auto simp: s positional_def without_dashes_def)
qed


section \<open>The whole line\<close>

lemma Parse_word:
  "Parse fs [] f given = Inr (f, given, [])"
  "positional s \<Longrightarrow> Parse fs (s # words) f given = Inr (f, given, s # words)"
  "Parse fs (''--'' # words) f given = Inr (f, given, words)"
  by (subst Parse.simps; simp add: positional_def)+

lemma Parse_flag:
  assumes "d \<in> {''-'', ''--''}" "flag_name n" "map_of fs n = Some fl" "u = [] \<or> hd u = CHR ''=''"
    and "flag_text (fl_switch fl) (if u = [] then None else Some (tl u)) words = Some (t, rest)"
  shows "Parse fs ((d @ n @ u) # words) f given =
    (case fl_set fl t f of None \<Rightarrow> Inl (InvalidValue t n) | Some f \<Rightarrow> Parse fs rest f (n # given))"
proof -
  note w = flag_word [OF assms(1,2,4)]
  have ne: "n \<noteq> []" using assms(2) by (simp add: flag_name_def)
  show ?thesis
    by (subst Parse.simps)
      (simp only: list.case w Let_def if_False ne append_is_Nil_conv simp_thms insert_iff empty_iff
        assms(3,5) option.case prod.case)
qed

lemma command_line_Parse:
  assumes "command_line fs words ss rest" "apply_settings fs ss f = Some f'"
  shows "Parse fs words f given = Inr (f', rev (map fst ss) @ given, rest)"
  using assms
proof (induction arbitrary: f given rule: command_line.induct)
  case (joined d n fl words ss rest t)
  then obtain g where g: "fl_set fl t f = Some g" "apply_settings fs ss g = Some f'" by (auto split: option.splits)
  show ?case
    using Parse_flag [OF joined.hyps(1-3), of "CHR ''='' # t" words t words f given] joined.IH [OF g(2)]
    by (simp add: flag_text_def g(1))
next
  case (switch d n fl words ss rest)
  then obtain g where g: "fl_set fl ''true'' f = Some g" "apply_settings fs ss g = Some f'" by (auto split: option.splits)
  show ?case
    using Parse_flag [OF switch.hyps(1-3), of "[]" words "''true''" words f given] switch.IH [OF g(2)] switch.hyps(4)
    by (simp add: flag_text_def g(1))
next
  case (separate d n fl words ss rest t)
  then obtain g where g: "fl_set fl t f = Some g" "apply_settings fs ss g = Some f'" by (auto split: option.splits)
  show ?case
    using Parse_flag [OF separate.hyps(1-3), of "[]" "t # words" t words f given] separate.IH [OF g(2)] separate.hyps(4)
    by (simp add: flag_text_def g(1))
qed (simp_all add: Parse_word)

lemma Parse_command_line:
  "Parse fs words f given = Inr (f', given', rest) \<Longrightarrow>
    \<exists>ss. command_line fs words ss rest \<and> apply_settings fs ss f = Some f' \<and> given' = rev (map fst ss) @ given"
proof (induction fs words f given rule: Parse.induct)
  case (1 fs words f given)
  show ?case
  proof (cases words)
    case Nil
    then show ?thesis using 1(2) no_words [of fs] by (auto simp: Parse_word intro: exI [of _ "[]"])
  next
    case (Cons s more)
    show ?thesis
    proof (cases "positional s \<or> s = ''--''")
      case True
      then show ?thesis
        using 1(2) Cons no_flag [of s fs more] dashes [of fs more] by (auto simp: Parse_word intro: exI [of _ "[]"])
    next
      case False
      let ?w = "without_dashes s"
      let ?n = "name_part ?w"
      have np: "\<not> positional s" "s \<noteq> ''--''" using False by simp_all
      obtain d where d: "d \<in> {''-'', ''--''}" "s = d @ ?w" and ne: "?w \<noteq> []" using dashed_word False by metis
      have res: "(if ?w = [] \<or> hd ?w \<in> {CHR ''-'', CHR ''=''} then Inl (BadFlagSyntax s)
               else
                 (case map_of fs ?n of
                    None \<Rightarrow> Inl (if ?n \<in> {''help'', ''h''} then HelpWanted else UndefinedFlag ?n)
                  | Some fl \<Rightarrow>
                      (case flag_text (fl_switch fl) (value_part ?w) more of
                         None \<Rightarrow> Inl (NeedsArgument ?n)
                       | Some (t, rest) \<Rightarrow>
                           (case fl_set fl t f of
                              None \<Rightarrow> Inl (InvalidValue t ?n)
                            | Some f \<Rightarrow> Parse fs rest f (?n # given))))) = Inr (f', given', rest)"
        using 1(2) np unfolding Cons by (subst (asm) Parse.simps) (simp only: list.case Let_def if_False)
      then have hd: "hd ?w \<notin> {CHR ''-'', CHR ''=''}" by (auto split: if_splits)
      from res hd ne obtain fl t rest' g where p: "map_of fs ?n = Some fl"
          "flag_text (fl_switch fl) (value_part ?w) more = Some (t, rest')" "fl_set fl t f = Some g"
          "Parse fs rest' g (?n # given) = Inr (f', given', rest)"
        by (auto split: option.splits prod.splits if_splits)
      note n = name_part_ok [OF ne hd]
      obtain ss where ss: "command_line fs rest' ss rest" "apply_settings fs ss g = Some f'"
          "given' = rev (map fst ss) @ ?n # given"
        using 1(1) [OF Cons _ _ refl refl _ p(1,2) refl p(3,4)] False hd ne by blast
      have "command_line fs words ((?n, t) # ss) rest"
      proof (cases "value_part ?w")
        case None
        then have "s = d @ ?n" using d(2) n(2) by simp
        then show ?thesis
          using p(2) switch [OF d(1) n(1) p(1) _ ss(1)] separate [OF d(1) n(1) p(1) _ ss(1), of t] None
          unfolding Cons by (auto simp: flag_text_def split: if_splits list.splits)
      next
        case (Some v)
        then have "s = d @ ?n @ CHR ''='' # v" using d(2) n(2) by simp
        moreover have "t = v" "rest' = more" using p(2) Some by (simp_all add: flag_text_def)
        ultimately show ?thesis using joined [OF d(1) n(1) p(1) ss(1), of v] unfolding Cons by simp
      qed
      moreover have "apply_settings fs ((?n, t) # ss) f = Some f'" using p(1,3) ss(2) by simp
      ultimately show ?thesis using ss(3) by (intro exI [of _ "(?n, t) # ss"]) simp
    qed
  qed
qed

lemma Parse_exact:
  "Parse fs words f [] = Inr (f', given, rest) \<longleftrightarrow>
    (\<exists>ss. command_line fs words ss rest \<and> apply_settings fs ss f = Some f' \<and> given = rev (map fst ss))"
  using Parse_command_line [of fs words f "[]"] command_line_Parse [of fs words _ rest f f' "[]"] by auto

text \<open>Evaluating a command line, word by word.\<close>

lemma Parse_Cons:
  "Parse fs (s # rest) f given =
     (if positional s then Inr (f, given, s # rest)
      else if s = ''--'' then Inr (f, given, rest)
      else
        let w = without_dashes s; name = name_part w
        in if w = [] \<or> hd w \<in> {CHR ''-'', CHR ''=''} then Inl (BadFlagSyntax s)
           else
             (case map_of fs name of
                None \<Rightarrow> Inl (if name \<in> {''help'', ''h''} then HelpWanted else UndefinedFlag name)
              | Some fl \<Rightarrow>
                  (case flag_text (fl_switch fl) (value_part w) rest of
                     None \<Rightarrow> Inl (NeedsArgument name)
                   | Some (t, rest) \<Rightarrow>
                       (case fl_set fl t f of
                          None \<Rightarrow> Inl (InvalidValue t name)
                        | Some f \<Rightarrow> Parse fs rest f (name # given)))))"
  by (subst Parse.simps) simp

lemmas flag_eval = Parse_word(1) Parse_Cons positional_def without_dashes_def name_part_def value_part_def
  flag_text_def StringFlag_def Uint64Flag_def IntFlag_def BoolFlag_def DurationFlag_def parse_unsigned_def
  parse_signed_def base_digit_def lower_char_def base_prefix_def ParseBool_def

text \<open>A word that is no flag ends the flags: nothing behind it is read.\<close>

lemma command_line_append:
  "command_line fs words ss rest \<Longrightarrow> rest = [] \<Longrightarrow> ''--'' \<notin> set words \<Longrightarrow> positional p \<Longrightarrow>
    command_line fs (words @ p # more) ss (p # more)"
proof (induction rule: command_line.induct)
  case (no_flag s words)
  then show ?case by simp
qed (auto intro: command_line.intros)

end
