(* ===== verification/Args.thy ===== *)
theory Args
  imports Restart FlagsProofs
begin

text \<open>
  The programs from their arguments (\<open>ParseCLIConfig\<close> and \<open>Main\<close> in \<open>main.go\<close>, \<open>parseFlags\<close> in
  \<open>cmd/colossusd\<close>, \<open>run\<close> in \<open>cmd/colossusxverify\<close>): the flags of each, what the arguments set them to, and
  what the commands of the README do.
\<close>


section \<open>The flags\<close>

definition miner_flag_set :: "miner_flags flag_set" where
  "miner_flag_set = [
     (''mode'', StringFlag (\<lambda>x f. f\<lparr>mf_mode := x\<rparr>)),
     (''backend'', StringFlag (\<lambda>x f. f\<lparr>mf_backend := x\<rparr>)),
     (''dag-alloc'', StringFlag (\<lambda>x f. f\<lparr>mf_dagAlloc := x\<rparr>)),
     (''initial-dag-mib'', Uint64Flag (\<lambda>x f. f\<lparr>mf_initialDAGMiB := x\<rparr>)),
     (''dag-mib'', Uint64Flag (\<lambda>x f. f\<lparr>mf_dagMiB := x\<rparr>)),
     (''dag-growth-mib-per-epoch'', Uint64Flag (\<lambda>x f. f\<lparr>mf_dagGrowthMiB := x\<rparr>)),
     (''reads'', Uint64Flag (\<lambda>x f. f\<lparr>mf_reads := x\<rparr>)),
     (''workers'', IntFlag (\<lambda>x f. f\<lparr>mf_workers := x\<rparr>)),
     (''epoch-blocks'', Uint64Flag (\<lambda>x f. f\<lparr>mf_epochBlocks := x\<rparr>)),
     (''header'', StringFlag (\<lambda>x f. f\<lparr>mf_header := x\<rparr>)),
     (''epoch-seed'', StringFlag (\<lambda>x f. f\<lparr>mf_epochSeed := x\<rparr>)),
     (''target'', StringFlag (\<lambda>x f. f\<lparr>mf_target := x\<rparr>)),
     (''start-nonce'', Uint64Flag (\<lambda>x f. f\<lparr>mf_startNonce := x\<rparr>)),
     (''max-nonces'', Uint64Flag (\<lambda>x f. f\<lparr>mf_maxNonces := x\<rparr>)),
     (''bench'', BoolFlag (\<lambda>x f. f\<lparr>mf_bench := x\<rparr>))]"

text \<open>The listener of the flag \<open>rpc-listen\<close> is not used.\<close>

definition daemon_flag_set :: "daemon_flags flag_set" where
  "daemon_flag_set = [
     (''mode'', StringFlag (\<lambda>x f. f\<lparr>df_mode := x\<rparr>)),
     (''network'', StringFlag (\<lambda>x f. f\<lparr>df_network := x\<rparr>)),
     (''initial-dag-mib'', Uint64Flag (\<lambda>x f. f\<lparr>df_initialDAGMiB := x\<rparr>)),
     (''dag-mib'', Uint64Flag (\<lambda>x f. f\<lparr>df_dagMiB := x\<rparr>)),
     (''dag-growth-mib-per-epoch'', Uint64Flag (\<lambda>x f. f\<lparr>df_dagGrowthMiB := x\<rparr>)),
     (''reads'', Uint64Flag (\<lambda>x f. f\<lparr>df_reads := x\<rparr>)),
     (''epoch-blocks'', Uint64Flag (\<lambda>x f. f\<lparr>df_epochBlocks := x\<rparr>)),
     (''mine'', BoolFlag (\<lambda>x f. f\<lparr>df_mine := x\<rparr>)),
     (''no-mine'', BoolFlag (\<lambda>x f. f\<lparr>df_noMine := x\<rparr>)),
     (''workers'', IntFlag (\<lambda>x f. f\<lparr>df_workers := x\<rparr>)),
     (''max-nonces'', Uint64Flag (\<lambda>x f. f\<lparr>df_maxNonces := x\<rparr>)),
     (''block-time'', DurationFlag (\<lambda>x f. f\<lparr>df_blockTime := x\<rparr>)),
     (''genesis-message'', StringFlag (\<lambda>x f. f\<lparr>df_genesisMessage := x\<rparr>)),
     (''datadir'', StringFlag (\<lambda>x f. f\<lparr>df_dataDir := x\<rparr>)),
     (''listen'', StringFlag (\<lambda>x f. f\<lparr>df_listen := x\<rparr>)),
     (''bootnodes'', StringFlag (\<lambda>x f. f\<lparr>df_bootnodes := x\<rparr>)),
     (''node-id'', StringFlag (\<lambda>x f. f\<lparr>df_nodeID := x\<rparr>)),
     (''target'', StringFlag (\<lambda>x f. f\<lparr>df_target := x\<rparr>)),
     (''miner-backend'', StringFlag (\<lambda>x f. f\<lparr>df_minerBackend := x\<rparr>)),
     (''miner-dag-alloc'', StringFlag (\<lambda>x f. f\<lparr>df_minerDAGAlloc := x\<rparr>)),
     (''rpc-listen'', StringFlag (\<lambda>x f. f))]"

definition verify_flag_set :: "verify_flags flag_set" where
  "verify_flag_set = [
     (''mode'', StringFlag (\<lambda>x f. f\<lparr>vf_mode := x\<rparr>)),
     (''header'', StringFlag (\<lambda>x f. f\<lparr>vf_header := x\<rparr>)),
     (''block'', StringFlag (\<lambda>x f. f\<lparr>vf_block := x\<rparr>)),
     (''initial-dag-mib'', Uint64Flag (\<lambda>x f. f\<lparr>vf_initialDAGMiB := x\<rparr>)),
     (''dag-mib'', Uint64Flag (\<lambda>x f. f\<lparr>vf_dagMiB := x\<rparr>)),
     (''dag-growth-mib-per-epoch'', Uint64Flag (\<lambda>x f. f\<lparr>vf_dagGrowthMiB := x\<rparr>)),
     (''reads'', Uint64Flag (\<lambda>x f. f\<lparr>vf_reads := x\<rparr>)),
     (''epoch-blocks'', Uint64Flag (\<lambda>x f. f\<lparr>vf_epochBlocks := x\<rparr>))]"

definition verify_defaults :: verify_flags where
  "verify_defaults = \<lparr>vf_mode = ModeResearch, vf_header = [], vf_block = [],
     vf_initialDAGMiB = DefaultInitialDAGMiB, vf_dagMiB = 0, vf_dagGrowthMiB = DefaultDAGGrowthMiB,
     vf_reads = 32, vf_epochBlocks = 32\<rparr>"


section \<open>The programs\<close>

text \<open>No program looks at the words that are left.\<close>

definition miner_args :: "nat \<Rightarrow> string list \<Rightarrow> flag_error + miner_flags" where
  "miner_args numCPU args =
     (case Parse miner_flag_set args (miner_defaults numCPU) [] of
        Inl e \<Rightarrow> Inl e | Inr (f, given, rest) \<Rightarrow> Inr f)"

definition daemon_args :: "nat \<Rightarrow> string list \<Rightarrow> flag_error + daemon_flags" where
  "daemon_args numCPU args =
     (case Parse daemon_flag_set args (daemon_defaults numCPU ''data'') [] of
        Inl e \<Rightarrow> Inl e | Inr (f, given, rest) \<Rightarrow> Inr (f\<lparr>df_set := given\<rparr>))"

definition verify_args :: "string list \<Rightarrow> flag_error + verify_flags" where
  "verify_args args =
     (case Parse verify_flag_set args verify_defaults [] of
        Inl e \<Rightarrow> Inl e | Inr (f, given, rest) \<Rightarrow> Inr f)"

datatype 'e args_error = BadArguments flag_error | BadValues 'e

definition with_args :: "flag_error + 'f \<Rightarrow> ('f \<Rightarrow> 'e + 'a) \<Rightarrow> 'e args_error + 'a" where
  "with_args r g =
     (case r of
        Inl e \<Rightarrow> Inl (BadArguments e)
      | Inr f \<Rightarrow> (case g f of Inl e \<Rightarrow> Inl (BadValues e) | Inr x \<Rightarrow> Inr x))"

definition miner_config :: "nat \<Rightarrow> string list \<Rightarrow> cli_error args_error + cli_config" where
  "miner_config numCPU args = with_args (miner_args numCPU args) ParseCLIConfig"

definition daemon_configuration :: "nat \<Rightarrow> i64w \<Rightarrow> string list \<Rightarrow> cli_error args_error + daemon_config" where
  "daemon_configuration numCPU now args = with_args (daemon_args numCPU args) (parseFlags now)"

definition verify_main :: "hashlib \<Rightarrow> files \<Rightarrow> string list \<Rightarrow> (verify_error args_error + hash_result) option" where
  "verify_main L disk args =
     (case verify_args args of
        Inl e \<Rightarrow> Some (Inl (BadArguments e))
      | Inr f \<Rightarrow> map_option (map_sum BadValues id) (verify_run L disk f))"


text \<open>\<open>Main\<close> of the miner, and the start of the daemon, from the arguments.\<close>

inductive miner_main :: "hashlib \<Rightarrow> nat \<Rightarrow> 'r platform \<Rightarrow> string list \<Rightarrow> flag_error + run_outcome \<Rightarrow> bool"
  for L :: hashlib and numCPU :: nat and P :: "'r platform" and args :: "string list"
where
  miner_stops: "miner_args numCPU args = Inl e \<Longrightarrow> miner_main L numCPU P args (Inl e)"
| miner_runs: "miner_args numCPU args = Inr f \<Longrightarrow> Main L numCPU P f outcome \<Longrightarrow>
    miner_main L numCPU P args (Inr outcome)"

inductive_cases miner_mainE: "miner_main L numCPU P args outcome"

inductive daemon_main ::
  "hashlib \<Rightarrow> nat \<Rightarrow> 'r platform \<Rightarrow> i64w \<Rightarrow> string \<Rightarrow> string list \<Rightarrow> file_system \<Rightarrow> bool \<Rightarrow>
     flag_error + (boot_error + disk_store daemon) \<Rightarrow> bool"
  for L :: hashlib and numCPU :: nat and P :: "'r platform" and now :: i64w and made_up :: string
    and args :: "string list" and fs :: file_system and listens :: bool
where
  daemon_stops: "daemon_args numCPU args = Inl e \<Longrightarrow> daemon_main L numCPU P now made_up args fs listens (Inl e)"
| daemon_runs: "daemon_args numCPU args = Inr f \<Longrightarrow> daemon_boot L numCPU P now made_up f fs listens r \<Longrightarrow>
    daemon_main L numCPU P now made_up args fs listens (Inr r)"

inductive_cases daemon_mainE: "daemon_main L numCPU P now made_up args fs listens r"


section \<open>What the arguments say\<close>

lemma miner_args_exact:
  "miner_args n args = Inr f \<longleftrightarrow>
    (\<exists>ss rest. command_line miner_flag_set args ss rest \<and>
       apply_settings miner_flag_set ss (miner_defaults n) = Some f)"
  using Parse_exact [of miner_flag_set args "miner_defaults n" f]
  by (auto simp: miner_args_def split: sum.splits prod.splits) blast+

lemma daemon_args_exact:
  "daemon_args n args = Inr f \<longleftrightarrow>
    (\<exists>ss rest g. command_line daemon_flag_set args ss rest \<and>
       apply_settings daemon_flag_set ss (daemon_defaults n ''data'') = Some g \<and>
       f = g\<lparr>df_set := rev (map fst ss)\<rparr>)"
proof
  assume "daemon_args n args = Inr f"
  then obtain g given rest where g: "Parse daemon_flag_set args (daemon_defaults n ''data'') [] = Inr (g, given, rest)"
    "f = g\<lparr>df_set := given\<rparr>" by (auto simp: daemon_args_def split: sum.splits prod.splits)
  then show "\<exists>ss rest g. command_line daemon_flag_set args ss rest \<and>
       apply_settings daemon_flag_set ss (daemon_defaults n ''data'') = Some g \<and> f = g\<lparr>df_set := rev (map fst ss)\<rparr>"
    unfolding Parse_exact by blast
next
  assume "\<exists>ss rest g. command_line daemon_flag_set args ss rest \<and>
       apply_settings daemon_flag_set ss (daemon_defaults n ''data'') = Some g \<and> f = g\<lparr>df_set := rev (map fst ss)\<rparr>"
  then obtain ss rest g where g: "command_line daemon_flag_set args ss rest"
    "apply_settings daemon_flag_set ss (daemon_defaults n ''data'') = Some g" "f = g\<lparr>df_set := rev (map fst ss)\<rparr>" by blast
  then have "Parse daemon_flag_set args (daemon_defaults n ''data'') [] = Inr (g, rev (map fst ss), rest)"
    using Parse_exact [of daemon_flag_set args] by blast
  then show "daemon_args n args = Inr f" using g(3) by (simp add: daemon_args_def)
qed

lemma verify_args_exact:
  "verify_args args = Inr f \<longleftrightarrow>
    (\<exists>ss rest. command_line verify_flag_set args ss rest \<and> apply_settings verify_flag_set ss verify_defaults = Some f)"
  using Parse_exact [of verify_flag_set args verify_defaults f]
  by (auto simp: verify_args_def split: sum.splits prod.splits) blast+

text \<open>The programs read their arguments as the grammar of command lines says: the miner, the daemon
  and the verifier get a record of flag values exactly when the words up to the first one that is no flag
  (or up to \<open>--\<close>) are settings of their flags, in one of the spellings \<open>-name value\<close>, \<open>-name=value\<close>, with
  one dash or two, or a switch alone, and then the record is the defaults with the settings applied in
  their order; the daemon also knows which flags were given.\<close>

theorem arguments_exact:
  "(miner_args n args = Inr mf \<longleftrightarrow>
     (\<exists>ss rest. command_line miner_flag_set args ss rest \<and>
        apply_settings miner_flag_set ss (miner_defaults n) = Some mf)) \<and>
   (daemon_args n args = Inr df \<longleftrightarrow>
     (\<exists>ss rest g. command_line daemon_flag_set args ss rest \<and>
        apply_settings daemon_flag_set ss (daemon_defaults n ''data'') = Some g \<and>
        df = g\<lparr>df_set := rev (map fst ss)\<rparr>)) \<and>
   (verify_args args = Inr vf \<longleftrightarrow>
     (\<exists>ss rest. command_line verify_flag_set args ss rest \<and>
        apply_settings verify_flag_set ss verify_defaults = Some vf))"
  using miner_args_exact daemon_args_exact verify_args_exact by blast


section \<open>Commands\<close>

text \<open>A switch takes no word of its own: after \<open>-mine false\<close> the daemon mines, and what follows is not read.\<close>

lemma mine_false_mines:
  "map_sum id (\<lambda>c. (dc_Mine c, dc_DataDir c))
     (daemon_configuration 2 now [''-mine'', ''false'', ''-datadir'', ''node1'']) = Inr (True, ''data'')"
  by code_simp


text \<open>The strict commands of the README (lines 310 and 395) name the unified backend, which strict mode
  refuses.  Its observer (line 361) does not mine, but takes the default OpenCL backend and does not start
  in a build without OpenCL; its research node (line 322) does.\<close>

definition readme_strict_bench :: "string list" where
  "readme_strict_bench = [''-mode'', ''strict'', ''-bench'', ''-backend'', ''unified'']"

definition readme_strict_daemon :: "string list" where
  "readme_strict_daemon = [''-network'', ''strictnet'', ''-mode'', ''strict'', ''-mine'', ''-workers'', ''4'',
     ''-datadir'', ''./data/strict'', ''-listen'', '':30333'', ''-node-id'', ''strict-node'',
     ''-miner-backend'', ''unified'', ''-miner-dag-alloc'', ''auto'']"

definition readme_research :: "string list" where
  "readme_research = [''-network'', ''devnet'', ''-mode'', ''research'', ''-dag-mib'', ''8'', ''-reads'', ''32'',
     ''-epoch-blocks'', ''32'']"

definition readme_node :: "string list" where
  "readme_node = readme_research @ [''-mine'', ''-workers'', ''2'', ''-max-nonces'', ''500000'',
     ''-datadir'', ''./data/node1'', ''-listen'', '':30333'', ''-node-id'', ''node1'',
     ''-miner-backend'', ''unified'', ''-miner-dag-alloc'', ''go-heap'']"

definition readme_observer :: "string list" where
  "readme_observer = readme_research @ [''-no-mine'', ''-datadir'', ''./data/observer'', ''-listen'', '':30335'',
     ''-bootnodes'', ''127.0.0.1:30333,127.0.0.1:30334'', ''-node-id'', ''observer'']"

lemmas readme_defs = readme_strict_bench_def readme_strict_daemon_def readme_research_def readme_node_def
  readme_observer_def

definition research_flags :: "nat \<Rightarrow> daemon_flags" where
  "research_flags n = (daemon_defaults n ''data'')\<lparr>df_network := ''devnet'', df_mode := ''research'', df_dagMiB := 8,
     df_reads := 32, df_epochBlocks := 32, df_set := [''epoch-blocks'', ''reads'', ''dag-mib'', ''mode'', ''network'']\<rparr>"

definition strict_flags :: "nat \<Rightarrow> daemon_flags" where
  "strict_flags n = (daemon_defaults n ''data'')\<lparr>df_network := ''strictnet'', df_mode := ''strict'', df_mine := True,
     df_workers := 4, df_dataDir := ''./data/strict'', df_listen := '':30333'', df_nodeID := ''strict-node'',
     df_minerBackend := ''unified'', df_minerDAGAlloc := ''auto'',
     df_set := [''miner-dag-alloc'', ''miner-backend'', ''node-id'', ''listen'', ''datadir'', ''workers'', ''mine'',
       ''mode'', ''network'']\<rparr>"

definition node_flags :: "nat \<Rightarrow> daemon_flags" where
  "node_flags n = (research_flags n)\<lparr>df_mine := True, df_workers := 2, df_maxNonces := 500000,
     df_dataDir := ''./data/node1'', df_listen := '':30333'', df_nodeID := ''node1'',
     df_minerBackend := ''unified'', df_minerDAGAlloc := ''go-heap'',
     df_set := [''miner-dag-alloc'', ''miner-backend'', ''node-id'', ''listen'', ''datadir'', ''max-nonces'',
       ''workers'', ''mine''] @ df_set (research_flags n)\<rparr>"

definition observer_flags :: "nat \<Rightarrow> daemon_flags" where
  "observer_flags n = (research_flags n)\<lparr>df_noMine := True, df_dataDir := ''./data/observer'',
     df_listen := '':30335'', df_bootnodes := ''127.0.0.1:30333,127.0.0.1:30334'', df_nodeID := ''observer'',
     df_set := [''node-id'', ''bootnodes'', ''listen'', ''datadir'', ''no-mine''] @ df_set (research_flags n)\<rparr>"

lemma readme_args:
  "miner_args n readme_strict_bench =
     Inr ((miner_defaults n)\<lparr>mf_mode := ''strict'', mf_bench := True, mf_backend := ''unified''\<rparr>)"
  "daemon_args n readme_strict_daemon = Inr (strict_flags n)"
  "daemon_args n readme_node = Inr (node_flags n)"
  "daemon_args n readme_observer = Inr (observer_flags n)"
  by (simp_all add: miner_args_def daemon_args_def miner_flag_set_def daemon_flag_set_def readme_defs
      research_flags_def strict_flags_def node_flags_def observer_flags_def flag_eval)

definition mining_starts :: "'r platform \<Rightarrow> daemon_config \<Rightarrow> bool" where
  "mining_starts P cfg \<longleftrightarrow> \<not> isl (fst (initializeMining P cfg))"

lemma readme_values:
  "ParseCLIConfig ((miner_defaults n)\<lparr>mf_mode := ''strict'', mf_bench := True, mf_backend := ''unified''\<rparr>) =
     Inl (CliStrict (StrictNeedsAccelerator ''unified''))"
  "parseFlags now (strict_flags n) = Inl (CliStrict (StrictNeedsAccelerator ''unified''))"
  "map_sum id (\<lambda>c. (dc_Mine c, mining_starts (stub_platform source) c)) (parseFlags now (node_flags n)) =
     Inr (True, True)"
  "map_sum id (\<lambda>c. (dc_Mine c, mining_starts (stub_platform source) c)) (parseFlags now (observer_flags n)) =
     Inr (False, False)"
  by code_simp+


lemma readme_commands:
  fixes P :: "'r platform"
  shows "miner_main L n P readme_strict_bench outcome \<longleftrightarrow>
      outcome = Inr (RunError (ConfigFailed (CliStrict (StrictNeedsAccelerator ''unified''))))"
    and "daemon_main L n P now made_up readme_strict_daemon fs listens r \<longleftrightarrow>
      r = Inr (Inl (BootFlags (CliStrict (StrictNeedsAccelerator ''unified''))))"
    and "\<exists>cfg. daemon_configuration n now readme_node = Inr cfg \<and> dc_Mine cfg \<and> mining_starts (stub_platform source) cfg"
    and "\<exists>cfg. daemon_configuration n now readme_observer = Inr cfg \<and> \<not> dc_Mine cfg \<and>
      \<not> mining_starts (stub_platform source) cfg"
proof -
  show "miner_main L n P readme_strict_bench outcome \<longleftrightarrow>
      outcome = Inr (RunError (ConfigFailed (CliStrict (StrictNeedsAccelerator ''unified''))))"
    using readme_args(1) [of n] readme_values(1) [of n]
    by (auto elim!: miner_mainE MainE intro!: miner_runs bad_config)
  have "daemon_setup L n P now made_up (strict_flags n) fs =
      Inl (BootFlags (CliStrict (StrictNeedsAccelerator ''unified'')))"
    by (simp add: daemon_setup_def readme_values(2))
  then show "daemon_main L n P now made_up readme_strict_daemon fs listens r \<longleftrightarrow>
      r = Inr (Inl (BootFlags (CliStrict (StrictNeedsAccelerator ''unified''))))"
    using readme_args(2) [of n] by (auto elim!: daemon_mainE daemon_boot.cases intro!: daemon_runs setup_fails)
  show "\<exists>cfg. daemon_configuration n now readme_node = Inr cfg \<and> dc_Mine cfg \<and> mining_starts (stub_platform source) cfg"
    using readme_values(3) [of source now n]
    by (cases "parseFlags now (node_flags n)") (auto simp: daemon_configuration_def with_args_def readme_args(3))
  show "\<exists>cfg. daemon_configuration n now readme_observer = Inr cfg \<and> \<not> dc_Mine cfg \<and>
      \<not> mining_starts (stub_platform source) cfg"
    using readme_values(4) [of source now n]
    by (cases "parseFlags now (observer_flags n)") (auto simp: daemon_configuration_def with_args_def readme_args(4))
qed

end
