(* ===== verification/KernelHash.thy ===== *)
theory KernelHash
  imports CX_Prelude
begin

text \<open>
  The hash functions of the OpenCL kernel (\<open>opencl_kernel.cl\<close>), loop by loop: FNV over 40 bytes, SHA3-512,
  and BLAKE3 of 64 bytes.  Arrays are lists that the loops update by index; a \<open>ulong\<close> has 64 bits, a
  \<open>uint\<close> 32, and no index leaves its array.
\<close>


section \<open>Loads and stores\<close>

definition cl_rotl64 :: "u64 \<Rightarrow> nat \<Rightarrow> u64" where
  "cl_rotl64 x n = push_bit n x OR drop_bit (64 - n) x"

definition cl_rotr32 :: "u32 \<Rightarrow> nat \<Rightarrow> u32" where
  "cl_rotr32 x n = drop_bit n x OR push_bit (32 - n) x"

text \<open>\<open>for (i = 0; i < n; ++i) dst[off + i] = f(i)\<close>.\<close>

definition fill :: "nat \<Rightarrow> nat \<Rightarrow> (nat \<Rightarrow> 'a) \<Rightarrow> 'a list \<Rightarrow> 'a list" where
  "fill off n f dst = foldl (\<lambda>d i. d[off + i := f i]) dst [0..<n]"

definition load64_le :: "bytes \<Rightarrow> nat \<Rightarrow> u64" where
  "load64_le src off = foldl (\<lambda>out i. out OR push_bit (8 * i) (ucast (src ! (off + i)))) 0 [0..<8]"

definition load32_le :: "bytes \<Rightarrow> nat \<Rightarrow> u32" where
  "load32_le src off =
     ucast (src ! off) OR push_bit 8 (ucast (src ! (off + 1))) OR push_bit 16 (ucast (src ! (off + 2)))
       OR push_bit 24 (ucast (src ! (off + 3)))"

definition store64_le :: "bytes \<Rightarrow> nat \<Rightarrow> u64 \<Rightarrow> bytes" where
  "store64_le dst off value = fill off 8 (\<lambda>i. ucast (drop_bit (8 * i) value)) dst"

definition store32_le :: "bytes \<Rightarrow> nat \<Rightarrow> u32 \<Rightarrow> bytes" where
  "store32_le dst off value =
     dst[off := ucast value, off + 1 := ucast (drop_bit 8 value), off + 2 := ucast (drop_bit 16 value),
       off + 3 := ucast (drop_bit 24 value)]"

definition fnv1a40 :: "bytes \<Rightarrow> u64" where
  "fnv1a40 data = foldl (\<lambda>h i. (h XOR ucast (data ! i)) * 1099511628211) 14695981039346656037 [0..<40]"


section \<open>SHA3-512\<close>

definition KECCAKF_RNDC :: "u64 list" where
  "KECCAKF_RNDC =
    [0x0000000000000001, 0x0000000000008082, 0x800000000000808a, 0x8000000080008000,
     0x000000000000808b, 0x0000000080000001, 0x8000000080008081, 0x8000000000008009,
     0x000000000000008a, 0x0000000000000088, 0x0000000080008009, 0x000000008000000a,
     0x000000008000808b, 0x800000000000008b, 0x8000000000008089, 0x8000000000008003,
     0x8000000000008002, 0x8000000000000080, 0x000000000000800a, 0x800000008000000a,
     0x8000000080008081, 0x8000000000008080, 0x0000000080000001, 0x8000000080008008]"

definition KECCAKF_ROTC :: "nat list" where
  "KECCAKF_ROTC =
    [1, 3, 6, 10, 15, 21, 28, 36, 45, 55, 2, 14, 27, 41, 56, 8, 25, 43, 62, 18, 39, 61, 20, 44]"

definition KECCAKF_PILN :: "nat list" where
  "KECCAKF_PILN =
    [10, 7, 11, 17, 18, 3, 5, 16, 8, 21, 24, 4, 15, 23, 19, 13, 12, 2, 20, 14, 22, 9, 6, 1]"

text \<open>The three loops of a round.\<close>

definition columns :: "u64 list \<Rightarrow> u64 list" where
  "columns st = map (\<lambda>i. st ! i XOR st ! (i + 5) XOR st ! (i + 10) XOR st ! (i + 15) XOR st ! (i + 20)) [0..<5]"

definition keccak_columns :: "u64 list \<Rightarrow> u64 list" where
  "keccak_columns st =
     (let bc = columns st in
      foldl (\<lambda>st i.
          let t = bc ! ((i + 4) mod 5) XOR cl_rotl64 (bc ! ((i + 1) mod 5)) 1
          in foldl (\<lambda>st j. st[j + i := st ! (j + i) XOR t]) st [0, 5, 10, 15, 20])
        st [0..<5])"

definition keccak_turn :: "u64 list \<Rightarrow> u64 list" where
  "keccak_turn st =
     fst (foldl (\<lambda>(st, t) i.
           let j = KECCAKF_PILN ! i in (st[j := cl_rotl64 t (KECCAKF_ROTC ! i)], st ! j))
         (st, st ! 1) [0..<24])"

definition keccak_rows :: "u64 list \<Rightarrow> u64 list" where
  "keccak_rows st =
     foldl (\<lambda>st j.
         let bc = map (\<lambda>i. st ! (j + i)) [0..<5]
         in foldl (\<lambda>st i. st[j + i := bc ! i XOR (NOT (bc ! ((i + 1) mod 5)) AND bc ! ((i + 2) mod 5))]) st [0..<5])
       st [0, 5, 10, 15, 20]"

definition keccakf :: "u64 list \<Rightarrow> u64 list" where
  "keccakf st =
     foldl (\<lambda>st round.
         let st = keccak_rows (keccak_turn (keccak_columns st))
         in st[0 := st ! 0 XOR KECCAKF_RNDC ! round])
       st [0..<24]"

definition absorb :: "bytes \<Rightarrow> nat \<Rightarrow> u64 list \<Rightarrow> u64 list" where
  "absorb chunk off st =
     keccakf (foldl (\<lambda>st i. st[i := st ! i XOR load64_le chunk (off + i * 8)]) st [0..<9])"

definition last_block :: "bytes \<Rightarrow> nat \<Rightarrow> nat \<Rightarrow> bytes" where
  "last_block msg full rem =
     (let block = fill 0 rem (\<lambda>i. msg ! (full * 72 + i)) (replicate 72 0);
          block = block[rem := 0x06]
      in block[71 := block ! 71 OR 0x80])"

definition kernel_sha3_512 :: "bytes \<Rightarrow> nat \<Rightarrow> bytes \<Rightarrow> bytes" where
  "kernel_sha3_512 msg msg_len out =
     (let full = msg_len div 72; rem = msg_len mod 72;
          st = foldl (\<lambda>st blk. absorb msg (blk * 72) st) (replicate 25 0) [0..<full];
          st = absorb (last_block msg full rem) 0 st
      in foldl (\<lambda>out i. store64_le out (i * 8) (st ! i)) out [0..<8])"


section \<open>BLAKE3 of 64 bytes\<close>

definition BLAKE3_IV :: "u32 list" where
  "BLAKE3_IV = [0x6A09E667, 0xBB67AE85, 0x3C6EF372, 0xA54FF53A, 0x510E527F, 0x9B05688C, 0x1F83D9AB, 0x5BE0CD19]"

definition BLAKE3_MSG_PERMUTATION :: "nat list" where
  "BLAKE3_MSG_PERMUTATION = [2, 6, 3, 10, 7, 0, 4, 13, 1, 11, 12, 5, 9, 14, 15, 8]"

definition blake3_g :: "nat \<Rightarrow> nat \<Rightarrow> nat \<Rightarrow> nat \<Rightarrow> u32 \<Rightarrow> u32 \<Rightarrow> u32 list \<Rightarrow> u32 list" where
  "blake3_g a b c d mx my st =
     (let st = st[a := st ! a + st ! b + mx];
          st = st[d := cl_rotr32 (st ! d XOR st ! a) 16];
          st = st[c := st ! c + st ! d];
          st = st[b := cl_rotr32 (st ! b XOR st ! c) 12];
          st = st[a := st ! a + st ! b + my];
          st = st[d := cl_rotr32 (st ! d XOR st ! a) 8];
          st = st[c := st ! c + st ! d]
      in st[b := cl_rotr32 (st ! b XOR st ! c) 7])"

definition blake3_round_fn :: "u32 list \<Rightarrow> u32 list \<Rightarrow> u32 list" where
  "blake3_round_fn st msg =
     (let st = blake3_g 0 4 8 12 (msg ! 0) (msg ! 1) st;
          st = blake3_g 1 5 9 13 (msg ! 2) (msg ! 3) st;
          st = blake3_g 2 6 10 14 (msg ! 4) (msg ! 5) st;
          st = blake3_g 3 7 11 15 (msg ! 6) (msg ! 7) st;
          st = blake3_g 0 5 10 15 (msg ! 8) (msg ! 9) st;
          st = blake3_g 1 6 11 12 (msg ! 10) (msg ! 11) st;
          st = blake3_g 2 7 8 13 (msg ! 12) (msg ! 13) st
      in blake3_g 3 4 9 14 (msg ! 14) (msg ! 15) st)"

definition blake3_permute :: "u32 list \<Rightarrow> u32 list" where
  "blake3_permute msg = map (\<lambda>i. msg ! (BLAKE3_MSG_PERMUTATION ! i)) [0..<16]"

definition blake3_compress_xof ::
  "u32 list \<Rightarrow> u32 list \<Rightarrow> u32 \<Rightarrow> u32 \<Rightarrow> u32 \<Rightarrow> u32 \<Rightarrow> u32 list" where
  "blake3_compress_xof cv block_words counter_low counter_high block_len flags =
     (let st = take 8 cv @ take 4 BLAKE3_IV @ [counter_low, counter_high, block_len, flags];
          (st, msg) = foldl (\<lambda>(st, msg) round.
              let st = blake3_round_fn st msg
              in (st, if round \<noteq> (6 :: nat) then blake3_permute msg else msg))
            (st, block_words) [0..<7]
      in map (\<lambda>i. st ! i XOR st ! (i + 8)) [0..<8] @ map (\<lambda>i. st ! (i + 8) XOR cv ! i) [0..<8])"

text \<open>The flags: the start and the end of a chunk, and the root.\<close>

definition kernel_blake3_64 :: "bytes \<Rightarrow> bytes \<Rightarrow> bytes" where
  "kernel_blake3_64 msg out =
     (let block_words = map (\<lambda>i. load32_le msg (i * 4)) [0..<16];
          xof = blake3_compress_xof BLAKE3_IV block_words 0 0 64 (1 OR 2 OR 8)
      in foldl (\<lambda>out i. store32_le out (i * 4) (xof ! i)) out [0..<8])"

end
