(* ===== verification/Fips202.thy ===== *)
theory Fips202
  imports CX_Prelude
begin

text \<open>
  SHA3-512 as FIPS 202 defines it, for messages of whole bytes: the five step mappings on the lanes
  \<open>A[x, y]\<close>, the rotations and the round constants computed as the standard does, the sponge over the
  padded message.  It is what the hash of \<open>golang.org/x/crypto/sha3\<close> is documented to be.
\<close>


section \<open>The permutation\<close>

type_synonym lanes = "nat \<Rightarrow> nat \<Rightarrow> u64"

definition theta :: "lanes \<Rightarrow> lanes" where
  "theta A =
     (let C = (\<lambda>x. A x 0 XOR A x 1 XOR A x 2 XOR A x 3 XOR A x 4);
          D = (\<lambda>x. C ((x + 4) mod 5) XOR word_rotl 1 (C ((x + 1) mod 5)))
      in (\<lambda>x y. A x y XOR D x))"

text \<open>The lanes in the order in which the standard gives them their offsets.\<close>

fun rho_lane :: "nat \<Rightarrow> nat \<times> nat" where
  "rho_lane 0 = (1, 0)"
| "rho_lane (Suc t) = (let (x, y) = rho_lane t in (y, (2 * x + 3 * y) mod 5))"

definition rho_offset :: "nat \<Rightarrow> nat \<Rightarrow> nat" where
  "rho_offset x y =
     (case find (\<lambda>t. rho_lane t = (x, y)) [0..<24] of None \<Rightarrow> 0 | Some t \<Rightarrow> (t + 1) * (t + 2) div 2 mod 64)"

definition rho :: "lanes \<Rightarrow> lanes" where
  "rho A = (\<lambda>x y. word_rotl (rho_offset x y) (A x y))"

definition pi_step :: "lanes \<Rightarrow> lanes" where
  "pi_step A = (\<lambda>x y. A ((x + 3 * y) mod 5) x)"

definition chi :: "lanes \<Rightarrow> lanes" where
  "chi A = (\<lambda>x y. A x y XOR (NOT (A ((x + 1) mod 5) y) AND A ((x + 2) mod 5) y))"

text \<open>The shift register behind the round constants: its eight bits after \<open>t\<close> steps.\<close>

fun lfsr :: "nat \<Rightarrow> bool list" where
  "lfsr 0 = [True, False, False, False, False, False, False, False]"
| "lfsr (Suc t) =
     (let R = lfsr t; out = R ! 7
      in [out, R ! 0, R ! 1, R ! 2, R ! 3 \<noteq> out, R ! 4 \<noteq> out, R ! 5 \<noteq> out, R ! 6])"

definition round_constant :: "nat \<Rightarrow> u64" where
  "round_constant ir =
     foldl (\<lambda>w j. w OR (if hd (lfsr (j + 7 * ir)) then push_bit (2 ^ j - 1) 1 else 0)) 0 [0..<7]"

definition iota :: "nat \<Rightarrow> lanes \<Rightarrow> lanes" where
  "iota ir A = (\<lambda>x y. if x = 0 \<and> y = 0 then A x y XOR round_constant ir else A x y)"

definition keccak_round :: "lanes \<Rightarrow> nat \<Rightarrow> lanes" where
  "keccak_round A ir = iota ir (chi (pi_step (rho (theta A))))"

definition keccak_f1600 :: "lanes \<Rightarrow> lanes" where
  "keccak_f1600 A = foldl keccak_round A [0..<24]"


section \<open>The sponge\<close>

text \<open>A message with the bits 01 of the hash functions and the padding 10*1, in blocks of 72 bytes.\<close>

definition sha3_pad :: "bytes \<Rightarrow> bytes" where
  "sha3_pad msg =
     (let free = 72 - length msg mod 72
      in msg @ (if free = 1 then [0x86] else 0x06 # replicate (free - 2) 0 @ [0x80]))"

text \<open>The lane \<open>A[x, y]\<close> of a block is its word \<open>x + 5 * y\<close>; a block has nine words.\<close>

definition xor_block :: "lanes \<Rightarrow> bytes \<Rightarrow> lanes" where
  "xor_block A block =
     (\<lambda>x y. if x + 5 * y < 9 then A x y XOR get_le (take 8 (drop (8 * (x + 5 * y)) block)) else A x y)"

fun sponge_blocks :: "nat \<Rightarrow> lanes \<Rightarrow> bytes \<Rightarrow> lanes" where
  "sponge_blocks 0 A bs = A"
| "sponge_blocks (Suc k) A bs = sponge_blocks k (keccak_f1600 (xor_block A (take 72 bs))) (drop 72 bs)"

definition squeeze :: "lanes \<Rightarrow> bytes" where
  "squeeze A = concat (map (\<lambda>k. put_le 8 (A (k mod 5) (k div 5))) [0..<8])"

definition fips_sha3_512 :: "bytes \<Rightarrow> bytes" where
  "fips_sha3_512 msg =
     (let bs = sha3_pad msg in squeeze (sponge_blocks (length bs div 72) (\<lambda>x y. 0) bs))"

lemma length_sha3_pad: "length (sha3_pad msg) = 72 * (length msg div 72 + 1)"
proof -
  let ?r = "length msg mod 72"
  have r: "?r < 72" "length msg = 72 * (length msg div 72) + ?r" by simp_all
  show ?thesis
  proof (cases "?r = 71")
    case True
    then show ?thesis using r(2) by (simp add: sha3_pad_def)
  next
    case False
    then have "72 - ?r \<noteq> 1" using r(1) by linarith
    then have "length (sha3_pad msg) = length msg + (72 - ?r)" using r(1) False by (simp add: sha3_pad_def Let_def)
    moreover have "n = 72 * q + r \<Longrightarrow> r < 72 \<Longrightarrow> n + (72 - r) = 72 * (q + 1)" for n q r :: nat by simp
    from this [OF r(2,1)] have "length msg + (72 - ?r) = 72 * (length msg div 72 + 1)" .
    ultimately show ?thesis by simp
  qed
qed

lemma length_fips_sha3_512 [simp, len_simps]: "length (fips_sha3_512 msg) = 64"
  by (simp add: fips_sha3_512_def squeeze_def length_concat comp_def sum_list_triv Let_def)

end
