(* ===== verification/Blake3.thy ===== *)
theory Blake3
  imports CX_Prelude
begin

text \<open>
  BLAKE3 of a message of one whole block, which is what the lattice hash uses of \<open>github.com/zeebo/blake3\<close>:
  a single chunk of a single block that is the root, hashed by the compression function of the BLAKE3
  specification, whose rounds mix the columns and then the diagonals of a matrix of sixteen words.
\<close>

definition blake_iv :: "u32 list" where
  "blake_iv = [1779033703, 3144134277, 1013904242, 2773480762, 1359893119, 2600822924, 528734635, 1541459225]"

text \<open>The steps of the quarter round.\<close>

type_synonym column = "u32 \<times> u32 \<times> u32 \<times> u32"

fun add_to_a :: "u32 \<Rightarrow> column \<Rightarrow> column" where
  "add_to_a x (a, b, c, d) = (a + b + x, b, c, d)"

fun turn_d :: "nat \<Rightarrow> column \<Rightarrow> column" where
  "turn_d n (a, b, c, d) = (a, b, c, word_rotr n (d XOR a))"

fun add_to_c :: "column \<Rightarrow> column" where
  "add_to_c (a, b, c, d) = (a, b, c + d, d)"

fun turn_b :: "nat \<Rightarrow> column \<Rightarrow> column" where
  "turn_b n (a, b, c, d) = (a, word_rotr n (b XOR c), c, d)"

definition quarter :: "u32 \<Rightarrow> u32 \<Rightarrow> column \<Rightarrow> column" where
  "quarter x y v =
     turn_b 7 (add_to_c (turn_d 8 (add_to_a y (turn_b 12 (add_to_c (turn_d 16 (add_to_a x v)))))))"

text \<open>The four columns, each with two words of the message.\<close>

definition mix_columns :: "u32 list \<Rightarrow> u32 list \<Rightarrow> u32 list" where
  "mix_columns v m =
     (let q = map (\<lambda>i. quarter (m ! (2 * i)) (m ! (2 * i + 1)) (v ! i, v ! (4 + i), v ! (8 + i), v ! (12 + i))) [0, 1, 2, 3]
      in map fst q @ map (fst \<circ> snd) q @ map (fst \<circ> snd \<circ> snd) q @ map (snd \<circ> snd \<circ> snd) q)"

text \<open>Turning row \<open>k\<close> by \<open>k\<close> words makes columns of the diagonals.\<close>

definition turn_rows :: "nat list \<Rightarrow> u32 list \<Rightarrow> u32 list" where
  "turn_rows ks v = concat (map2 (\<lambda>k row. rotate k (take 4 (drop row v))) ks [0, 4, 8, 12])"

definition blake_round :: "u32 list \<Rightarrow> u32 list \<Rightarrow> u32 list" where
  "blake_round v m =
     turn_rows [0, 3, 2, 1] (mix_columns (turn_rows [0, 1, 2, 3] (mix_columns v (take 8 m))) (drop 8 m))"

definition blake_permute :: "u32 list \<Rightarrow> u32 list" where
  "blake_permute m = map (\<lambda>i. m ! i) [2, 6, 3, 10, 7, 0, 4, 13, 1, 11, 12, 5, 9, 14, 15, 8]"

definition blake_rounds :: "u32 list \<Rightarrow> u32 list \<Rightarrow> u32 list" where
  "blake_rounds v m = fst (foldl (\<lambda>(v, m) r. (blake_round v m, blake_permute m)) (v, m) [0..<7])"

fun words_le :: "bytes \<Rightarrow> u32 list" where
  "words_le (a # b # c # d # r) =
     (ucast a OR push_bit 8 (ucast b) OR push_bit 16 (ucast c) OR push_bit 24 (ucast d)) # words_le r"
| "words_le _ = []"

text \<open>The block counter is 0, the block has 64 bytes, and the flags say start and end of a chunk, and root.\<close>

definition blake3_one_block :: "bytes \<Rightarrow> bytes" where
  "blake3_one_block msg =
     (let v = blake_rounds (blake_iv @ take 4 blake_iv @ [0, 0, 64, 11]) (words_le msg)
      in concat (map (put_le 4) (map2 (XOR) (take 8 v) (drop 8 v))))"

end
