(* ===== verification/KernelHashProofs.thy ===== *)
theory KernelHashProofs
  imports KernelHash Fips202 Blake3
begin

text \<open>
  The hash functions of the kernel are those of the standards: the loops over 25 words are the step
  mappings of FIPS 202, the tables are the constants the standard computes, and the rounds over sixteen
  words are those of BLAKE3.
\<close>


section \<open>Words and loops\<close>

lemma cl_rotl64:
  assumes "n < 64"
  shows "cl_rotl64 x n = word_rotl n x"
proof (rule bit_word_eqI)
  fix i assume i: "i < LENGTH(64)"
  show "bit (cl_rotl64 x n) i = bit (word_rotl n x) i"
  proof (cases "n \<le> i")
    case True
    then have "i + (64 - n) = (i - n) + 64" using assms by simp
    then have "(i + (64 - n)) mod 64 = i - n" using i by (simp del: add_diff_assoc add_diff_assoc2)
    moreover have "\<not> bit x (64 - n + i)" using True bit_imp_le_length [of x "64 - n + i"] by auto
    ultimately show ?thesis
      using True i assms by (simp add: cl_rotl64_def bit_word_rotl_iff bit_or_iff bit_push_bit_iff bit_drop_bit_eq)
  next
    case False
    then have "(i + (64 - n)) mod 64 = 64 - n + i" using assms by (simp del: add_diff_assoc add_diff_assoc2)
    then show ?thesis
      using False i assms
      by (simp add: cl_rotl64_def bit_word_rotl_iff bit_or_iff bit_push_bit_iff bit_drop_bit_eq
          add.commute [of i] del: add_diff_assoc add_diff_assoc2)
  qed
qed

lemma cl_rotr32:
  assumes "n < 32"
  shows "cl_rotr32 x n = word_rotr n x"
proof (rule bit_word_eqI)
  fix i assume i: "i < LENGTH(32)"
  show "bit (cl_rotr32 x n) i = bit (word_rotr n x) i"
  proof (cases "i + n < 32")
    case True
    moreover from this have "\<not> 32 - n \<le> i" by linarith
    ultimately show ?thesis
      using i assms by (simp add: cl_rotr32_def bit_word_rotr_iff bit_or_iff bit_push_bit_iff bit_drop_bit_eq add.commute)
  next
    case False
    then have "(i + n) mod 32 = i + n - 32" using i assms by (simp add: mod_if)
    moreover have "32 - n \<le> i" using False by linarith
    moreover have "\<not> bit x (n + i)" using False bit_imp_le_length [of x "n + i"] by auto
    ultimately show ?thesis
      using False i assms by (simp add: cl_rotr32_def bit_word_rotr_iff bit_or_iff bit_push_bit_iff bit_drop_bit_eq)
  qed
qed

lemma fill_eq:
  "off + n \<le> length dst \<Longrightarrow> fill off n f dst = take off dst @ map f [0..<n] @ drop (off + n) dst"
proof (induction n)
  case (Suc n)
  have "drop (off + n) dst = dst ! (off + n) # drop (Suc (off + n)) dst"
    using Suc.prems by (simp add: Cons_nth_drop_Suc)
  then show ?case using Suc by (simp add: fill_def list_update_append)
qed (simp add: fill_def)


section \<open>The permutation\<close>

text \<open>The list of the lanes of a state, and back.\<close>

definition lane_list :: "lanes \<Rightarrow> u64 list" where
  "lane_list A = map (\<lambda>k. A (k mod 5) (k div 5)) [0..<25]"

definition lanes_of :: "u64 list \<Rightarrow> lanes" where
  "lanes_of st x y = st ! (x + 5 * y)"

lemma length_lane_list [simp]: "length (lane_list A) = 25"
  by (simp add: lane_list_def)

lemma lane_list_of: "length st = 25 \<Longrightarrow> lane_list (lanes_of st) = st"
  by (rule nth_equalityI) (simp_all add: lane_list_def lanes_of_def)

lemma lane_list_eqI: "(\<And>x y. x < 5 \<Longrightarrow> y < 5 \<Longrightarrow> A x y = B x y) \<Longrightarrow> lane_list A = lane_list B"
  by (simp add: lane_list_def less_mult_imp_div_less)

text \<open>The ranges of the loops.\<close>

lemma ranges:
  "[0..<5 :: nat] = [0, 1, 2, 3, 4]"
  "[0..<7 :: nat] = [0, 1, 2, 3, 4, 5, 6]"
  "[0..<8 :: nat] = [0, 1, 2, 3, 4, 5, 6, 7]"
  "[0..<9 :: nat] = [0, 1, 2, 3, 4, 5, 6, 7, 8]"
  "[0..<16 :: nat] = [0, 1, 2, 3, 4, 5, 6, 7, 8, 9, 10, 11, 12, 13, 14, 15]"
  "[0..<24 :: nat] = [0, 1, 2, 3, 4, 5, 6, 7, 8, 9, 10, 11, 12,
     13, 14, 15, 16, 17, 18, 19, 20, 21, 22, 23]"
  "[0..<25 :: nat] = [0, 1, 2, 3, 4, 5, 6, 7, 8, 9, 10, 11, 12,
     13, 14, 15, 16, 17, 18, 19, 20, 21, 22, 23, 24]"
  by code_simp+

lemma theta_columns: "keccak_columns (lane_list A) = lane_list (theta A)"
  by (simp add: keccak_columns_def columns_def lane_list_def theta_def ranges cl_rotl64 Let_def flip: numeral_2_eq_2)

text \<open>The table of rotations and the table of destinations are one walk over the lanes.\<close>

lemma rho_offsets:
  "map (\<lambda>k. rho_offset (k mod 5) (k div 5)) [0..<25] =
     [0, 1, 62, 28, 27, 36, 44, 6, 55, 20, 3, 10, 43, 25, 39, 41, 45, 15, 21, 8, 18, 2, 61, 56, 14]"
  by code_simp

lemmas rho_offset_values = rho_offsets [unfolded ranges, simplified]

lemma rotl_0: "word_rotl 0 (x :: u64) = x"
  by (rule bit_word_eqI) (simp add: bit_word_rotl_iff)

lemma rho_pi_turn: "keccak_turn (lane_list A) = lane_list (pi_step (rho A))"
  by (simp add: keccak_turn_def lane_list_def pi_step_def rho_def ranges cl_rotl64 Let_def
      KECCAKF_PILN_def KECCAKF_ROTC_def rho_offset_values rotl_0 flip: numeral_2_eq_2)

lemma chi_rows: "keccak_rows (lane_list A) = lane_list (chi A)"
  by (simp add: keccak_rows_def lane_list_def chi_def ranges Let_def flip: numeral_2_eq_2)

lemma round_constants: "map round_constant [0..<24] = KECCAKF_RNDC"
  by code_simp

lemma iota_update: "k < 24 \<Longrightarrow> (lane_list A)[0 := lane_list A ! 0 XOR KECCAKF_RNDC ! k] = lane_list (iota k A)"
  by (simp add: iota_def lane_list_def ranges(7) flip: round_constants)

lemma keccakf_exact: "keccakf (lane_list A) = lane_list (keccak_f1600 A)"
proof -
  have "k \<le> 24 \<Longrightarrow> foldl (\<lambda>st round.
         let st = keccak_rows (keccak_turn (keccak_columns st))
         in st[0 := st ! 0 XOR KECCAKF_RNDC ! round]) (lane_list A) [0..<k] = lane_list (foldl keccak_round A [0..<k])" for k
    by (induction k) (simp_all add: theta_columns rho_pi_turn chi_rows iota_update keccak_round_def Let_def)
  from this [of 24] show ?thesis by (simp add: keccakf_def keccak_f1600_def)
qed


section \<open>The sponge\<close>

lemma load64_exact:
  assumes "off + 8 \<le> length src"
  shows "load64_le src off = get_le (take 8 (drop off src))"
proof -
  have "take 8 (drop off src) = map (\<lambda>i. src ! (off + i)) [0..<8]"
    using assms by (intro nth_equalityI) simp_all
  then show ?thesis
    by (simp add: load64_le_def get_le_def ranges push_bit_or push_bit_push_bit or.assoc)
qed

lemma absorb_exact:
  assumes "off + 72 \<le> length chunk"
  shows "absorb chunk off (lane_list A) = lane_list (keccak_f1600 (xor_block A (take 72 (drop off chunk))))"
proof -
  have load: "load64_le chunk (off + i * 8) = get_le (take 8 (drop (8 * i) (take 72 (drop off chunk))))" if "i < 9" for i
  proof -
    have "take 8 (drop (8 * i) (take 72 (drop off chunk))) = take 8 (drop (off + i * 8) chunk)"
      using that by (simp add: drop_take min_def algebra_simps)
    then show ?thesis using that assms by (simp add: load64_exact)
  qed
  have "foldl (\<lambda>st i. st[i := st ! i XOR load64_le chunk (off + i * 8)]) (lane_list A) [0..<9] =
      foldl (\<lambda>st i. st[i := st ! i XOR get_le (take 8 (drop (8 * i) (take 72 (drop off chunk))))]) (lane_list A) [0..<9]"
    by (rule foldl_cong) (simp_all add: load)
  also have "\<dots> = lane_list (xor_block A (take 72 (drop off chunk)))"
    by (simp add: lane_list_def xor_block_def ranges)
  finally show ?thesis by (simp add: absorb_def keccakf_exact)
qed

lemma sponge_fold:
  "sponge_blocks k A bs = foldl (\<lambda>A blk. keccak_f1600 (xor_block A (take 72 (drop (blk * 72) bs)))) A [0..<k]"
proof (induction k arbitrary: A bs)
  case (Suc k)
  show ?case
    by (simp add: Suc upt_conv_Cons map_Suc_upt [symmetric] foldl_map algebra_simps del: upt_Suc)
qed simp

lemma last_block_exact:
  assumes "rem < 72" "full * 72 + rem = len" "len \<le> length msg"
  shows "last_block msg full rem = drop (full * 72) (sha3_pad (take len msg))"
proof -
  have len: "len mod 72 = rem" using assms(1,2) by auto
  have tail: "drop (full * 72) (take len msg) = map (\<lambda>i. msg ! (full * 72 + i)) [0..<rem]" (is "_ = ?m")
    using assms by (intro nth_equalityI) auto
  have "last_block msg full rem = ?m @ (if rem = 71 then [0x86] else 0x06 # replicate (70 - rem) 0 @ [0x80])"
  proof (cases "rem = 71")
    case True
    then show ?thesis by (simp add: last_block_def fill_eq Let_def nth_append list_update_append)
  next
    case False
    define k where "k = 70 - rem"
    have k: "72 - rem = Suc (Suc k)" "71 - rem = Suc k" using assms(1) False by (simp_all add: k_def)
    have "[0x06 :: byte] @ replicate (Suc k) 0 = 0x06 # replicate k 0 @ [0]" by (simp add: replicate_append_same)
    then show ?thesis
      using False assms(1) k
      by (simp add: last_block_def fill_eq Let_def nth_append list_update_append replicate_append_same [symmetric] k_def [symmetric])
  qed
  also have "\<dots> = drop (full * 72) (sha3_pad (take len msg))"
    using assms len by (auto simp: sha3_pad_def Let_def tail [symmetric])
  finally show ?thesis .
qed

lemma store_words:
  "n * k \<le> length out \<Longrightarrow> foldl (\<lambda>out i. fill (i * n) n (f i) out) out [0..<k] =
     concat (map (\<lambda>i. map (f i) [0..<n]) [0..<k]) @ drop (n * k) out"
proof (induction k)
  case (Suc k)
  have "length (concat (map (\<lambda>i. map (f i) [0..<n]) [0..<k])) = n * k"
    by (simp add: length_concat comp_def sum_list_triv)
  then show ?case using Suc by (simp add: fill_eq mult.commute [of _ n] add.commute)
qed simp

lemma squeeze_exact:
  "length out = 64 \<Longrightarrow> foldl (\<lambda>out i. store64_le out (i * 8) (lane_list A ! i)) out [0..<8] = squeeze A"
  unfolding store64_le_def
  by (subst store_words) (auto simp: squeeze_def put_le_def lane_list_def intro!: arg_cong [of _ _ concat] map_cong)

theorem kernel_sha3_exact:
  assumes "len \<le> length msg" "length out = 64"
  shows "kernel_sha3_512 msg len out = fips_sha3_512 (take len msg)"
proof -
  let ?full = "len div 72" and ?bs = "sha3_pad (take len msg)"
  let ?step = "\<lambda>A blk. keccak_f1600 (xor_block A (take 72 (drop (blk * 72) ?bs)))"
  have len: "?full * 72 + len mod 72 = len" "?full * 72 \<le> len" by simp_all
  have bs: "length ?bs = 72 * (?full + 1)" using assms(1) by (simp add: length_sha3_pad min_absorb2)
  have "k \<le> ?full \<Longrightarrow> foldl (\<lambda>st blk. absorb msg (blk * 72) st) (lane_list (\<lambda>x y. 0)) [0..<k] =
      lane_list (foldl ?step (\<lambda>x y. 0) [0..<k])" for k
  proof (induction k)
    case (Suc k)
    then have k: "k * 72 + 72 \<le> len" using len(2) by linarith
    then have "72 \<le> len - k * 72" "72 \<le> length msg - k * 72" using assms(1) by simp_all
    then have "take 72 (drop (k * 72) ?bs) = take 72 (drop (k * 72) msg)"
      using assms(1) by (simp add: sha3_pad_def Let_def drop_take min_def)
    then show ?case using Suc k assms(1) absorb_exact [of "k * 72" msg] by simp
  qed simp
  from this [of ?full] have full: "foldl (\<lambda>st blk. absorb msg (blk * 72) st) (replicate 25 0) [0..<?full] =
      lane_list (foldl ?step (\<lambda>x y. 0) [0..<?full])"
    by (simp add: lane_list_def map_replicate_const)
  have last: "last_block msg ?full (len mod 72) = drop (?full * 72) ?bs"
    using assms(1) len(1) by (intro last_block_exact) simp_all
  have "length (drop (?full * 72) ?bs) = 72" using bs by simp
  then have "absorb (last_block msg ?full (len mod 72)) 0 (lane_list (foldl ?step (\<lambda>x y. 0) [0..<?full])) =
      lane_list (foldl ?step (\<lambda>x y. 0) [0..<Suc ?full])"
    unfolding last by (subst absorb_exact) simp_all
  then show ?thesis
    using assms(2) bs
    by (simp add: kernel_sha3_512_def Let_def full fips_sha3_512_def sponge_fold squeeze_exact del: upt_Suc)
qed


section \<open>BLAKE3\<close>

lemma g_quarter:
  assumes "distinct [a, b, c, d]" "{a, b, c, d} \<subseteq> {..< length st}"
  shows "blake3_g a b c d mx my st =
    (let q = quarter mx my (st ! a, st ! b, st ! c, st ! d)
     in st[a := fst q, b := fst (snd q), c := fst (snd (snd q)), d := snd (snd (snd q))])"
  using assms
  by (intro nth_equalityI) (auto simp: blake3_g_def quarter_def cl_rotr32 Let_def nth_list_update)

lemma length_g [simp]: "length (blake3_g a b c d mx my st) = length st"
  by (simp add: blake3_g_def Let_def)

lemma length_round [simp]: "length (blake3_round_fn st msg) = length st"
  by (simp add: blake3_round_fn_def Let_def)

definition word_list :: "(nat \<Rightarrow> u32) \<Rightarrow> u32 list" where
  "word_list f = map f [0..<16]"

lemma word_list_nth: "length v = 16 \<Longrightarrow> v = word_list (nth v)"
  by (simp add: word_list_def) (metis map_nth)

lemma round_exact: "blake3_round_fn (word_list v) (word_list m) = blake_round (word_list v) (word_list m)"
  by (simp add: word_list_def ranges blake3_round_fn_def g_quarter Let_def blake_round_def turn_rows_def
      mix_columns_def rotate_drop_take)

lemma permute_exact: "length m = 16 \<Longrightarrow> blake3_permute m = blake_permute m"
  by (simp add: blake3_permute_def blake_permute_def BLAKE3_MSG_PERMUTATION_def ranges)

lemma length_permute [simp]: "length (blake_permute m) = 16"
  by (simp add: blake_permute_def)

lemma round_exact': "length v = 16 \<Longrightarrow> length m = 16 \<Longrightarrow> blake3_round_fn v m = blake_round v m"
  using round_exact [of "nth v" "nth m"] by (simp add: word_list_nth [symmetric])

lemma length_blake_round [simp]: "length v = 16 \<Longrightarrow> length m = 16 \<Longrightarrow> length (blake_round v m) = 16"
  using round_exact' [of v m] length_round [of v m] by simp

lemma compress_exact:
  assumes "length m = 16"
  defines "v \<equiv> blake_rounds (blake_iv @ take 4 blake_iv @ [0, 0, 64, 11]) m"
  shows "take 8 (blake3_compress_xof BLAKE3_IV m 0 0 64 (1 OR 2 OR 8)) = map2 (XOR) (take 8 v) (drop 8 v)"
    and "length v = 16"
proof -
  have iv: "BLAKE3_IV = blake_iv" "length blake_iv = 8" by (simp_all add: BLAKE3_IV_def blake_iv_def)
  let ?s = "blake_iv @ take 4 blake_iv @ [0, 0, 64, 11]"
  have start: "length ?s = 16" by (simp add: iv)
  show v: "length v = 16" using assms(1) start by (simp add: v_def blake_rounds_def ranges)
  have "fst (foldl (\<lambda>(st, msg) round.
              let st = blake3_round_fn st msg
              in (st, if round \<noteq> (6 :: nat) then blake3_permute msg else msg)) (?s, m) [0..<7]) = v"
    using assms(1) start by (simp add: v_def blake_rounds_def ranges Let_def round_exact' permute_exact)
  then have "blake3_compress_xof BLAKE3_IV m 0 0 64 (1 OR 2 OR 8) =
      map (\<lambda>i. v ! i XOR v ! (i + 8)) [0..<8] @ map (\<lambda>i. v ! (i + 8) XOR blake_iv ! i) [0..<8]"
    by (simp add: blake3_compress_xof_def iv case_prod_unfold)
  then show "take 8 (blake3_compress_xof BLAKE3_IV m 0 0 64 (1 OR 2 OR 8)) = map2 (XOR) (take 8 v) (drop 8 v)"
    using v by (intro nth_equalityI) (simp_all add: add.commute)
qed

lemma words_le_exact: "length msg = 4 * k \<Longrightarrow> words_le msg = map (\<lambda>i. load32_le msg (i * 4)) [0..<k]"
proof (induction k arbitrary: msg)
  case (Suc k)
  have "length msg = Suc (Suc (Suc (Suc (4 * k))))" using Suc.prems by simp
  then obtain a b c d r where msg: "msg = a # b # c # d # r" "length r = 4 * k"
    by (auto simp: length_Suc_conv)
  then show ?case
    using Suc.IH [OF msg(2)] by (simp add: upt_conv_Cons map_Suc_upt [symmetric] load32_le_def numeral_3_eq_3 del: upt_Suc)
qed simp

lemma store32_fill: "store32_le dst off w = fill off 4 (\<lambda>i. ucast (drop_bit (8 * i) w)) dst"
  by (simp add: store32_le_def fill_def upt_rec numeral_3_eq_3)

theorem kernel_blake3_exact:
  assumes "length msg = 64" "length out = 32"
  shows "kernel_blake3_64 msg out = blake3_one_block msg"
proof -
  let ?m = "map (\<lambda>i. load32_le msg (i * 4)) [0..<16]"
  let ?x = "blake3_compress_xof BLAKE3_IV ?m 0 0 64 (1 OR 2 OR 8)"
  have m: "words_le msg = ?m" using words_le_exact [of msg 16] assms(1) by simp
  have "foldl (\<lambda>out i. store32_le out (i * 4) (?x ! i)) out [0..<8] =
      concat (map (\<lambda>i. map (\<lambda>k. ucast (drop_bit (8 * k) (?x ! i))) [0..<4]) [0..<8])"
    unfolding store32_fill using assms(2) by (subst store_words) simp_all
  also have "\<dots> = concat (map (put_le 4) (take 8 ?x))"
    by (simp add: put_le_def blake3_compress_xof_def case_prod_unfold Let_def take_map ranges(3) nth_append)
  also have "\<dots> = blake3_one_block msg"
    using compress_exact [of ?m] by (simp add: blake3_one_block_def m Let_def)
  finally show ?thesis by (simp add: kernel_blake3_64_def Let_def)
qed

end
