(* ===== verification/OpenCLNative.thy ===== *)
theory OpenCLNative
  imports Gpu Decimal
begin

text \<open>
  The OpenCL build of package \<open>miner\<close> (\<open>backend_unified_cgo_opencl.go\<close>,
  \<open>device_shared_kernel_opencl_cgo.go\<close>): the runtime, the allocator, the program builder and the kernel
  call, with the C helpers of their preambles.

  The OpenCL library is the record \<open>cl_driver\<close> of its answers: an error code, and a handle or the bytes
  it delivers.  No helper makes the same call twice with the same arguments, so an arbitrary record
  covers whatever the library answers during a call.  A build without the OpenCL headers has no driver.
  Handles are numbers, \<open>None\<close> is a null pointer.  Sizes are taken to fit the address space.
\<close>


section \<open>The library\<close>

definition CL_SUCCESS :: int where
  "CL_SUCCESS = 0"

definition SVM_COARSE_GRAIN :: u64 where
  "SVM_COARSE_GRAIN = 1"

definition SVM_FINE_GRAIN :: u64 where
  "SVM_FINE_GRAIN = 2"

datatype cl_arg = ArgBuffer nat | ArgUInt u32 | ArgULong u64

datatype cl_memory = CopyOf bytes | ReadOnly u64 | WriteOnly u64

record cl_driver =
  clGetPlatformIDs :: "int \<times> nat option \<times> u32"
  clGetDeviceIDs :: "nat option \<Rightarrow> int \<times> nat option"
  clCreateContext :: "nat option \<Rightarrow> int \<times> nat option"
  clCreateCommandQueue :: "nat option \<Rightarrow> nat option \<Rightarrow> int \<times> nat option"
  clCreateProgram :: "nat option \<Rightarrow> string \<Rightarrow> int \<times> nat option"
  clBuildProgram :: "nat option \<Rightarrow> nat option \<Rightarrow> int"
  clCreateKernel :: "nat option \<Rightarrow> string \<Rightarrow> int \<times> nat option"
  clGetDeviceSVM :: "nat option \<Rightarrow> int \<times> u64"
  clSVMAlloc :: "nat option \<Rightarrow> u64 \<Rightarrow> u64 \<Rightarrow> bytes option"
  clSetArgSVMPointer :: "nat option \<Rightarrow> u32 \<Rightarrow> bool \<Rightarrow> int"
  clCreateBuffer :: "nat option \<Rightarrow> cl_memory \<Rightarrow> int \<times> nat"
  clSetKernelArg :: "nat option \<Rightarrow> nat \<Rightarrow> cl_arg \<Rightarrow> int"
  clEnqueueNDRange :: "nat option \<Rightarrow> nat option \<Rightarrow> u64 \<Rightarrow> int"
  clFinish :: "nat option \<Rightarrow> int"
  clEnqueueRead :: "nat option \<Rightarrow> nat \<Rightarrow> u64 \<Rightarrow> int \<times> bytes"

definition missing_headers :: string where
  "missing_headers = ''opencl headers were not found at build time''"

text \<open>A call that creates a handle fails on an error code and on a null handle.\<close>

definition created :: "string \<Rightarrow> int \<times> nat option \<Rightarrow> string + nat" where
  "created what r = (case r of (err, Some h) \<Rightarrow> if err = CL_SUCCESS then Inr h else Inl what | (_, None) \<Rightarrow> Inl what)"

definition opencl_init :: "cl_driver \<Rightarrow> string + (nat \<times> nat option \<times> nat)" where
  "opencl_init D =
     (let (err, platform, num) = clGetPlatformIDs D in
      if err \<noteq> CL_SUCCESS \<or> num = 0 then Inl ''clGetPlatformIDs failed''
      else
        let (err, dev) = clGetDeviceIDs D platform in
        if err \<noteq> CL_SUCCESS then Inl ''clGetDeviceIDs failed''
        else
          (case created ''clCreateContext failed'' (clCreateContext D dev) of
             Inl e \<Rightarrow> Inl e
           | Inr ctx \<Rightarrow>
               (case created ''clCreateCommandQueueWithProperties failed'' (clCreateCommandQueue D (Some ctx) dev) of
                  Inl e \<Rightarrow> Inl e
                | Inr queue \<Rightarrow> Inr (ctx, dev, queue))))"

definition opencl_build_program ::
  "cl_driver \<Rightarrow> nat option \<Rightarrow> nat option \<Rightarrow> string \<Rightarrow> string + (nat \<times> nat)" where
  "opencl_build_program D ctx dev src =
     (case created ''clCreateProgramWithSource failed'' (clCreateProgram D ctx src) of
        Inl e \<Rightarrow> Inl e
      | Inr program \<Rightarrow>
          if clBuildProgram D (Some program) dev \<noteq> CL_SUCCESS then Inl ''clBuildProgram failed''
          else
            (case created ''clCreateKernel failed'' (clCreateKernel D (Some program) ''colossusx_hash'') of
               Inl e \<Rightarrow> Inl e
             | Inr kern \<Rightarrow> Inr (program, kern)))"

definition has_svm :: "cl_driver option \<Rightarrow> nat option \<Rightarrow> bool" where
  "has_svm B device =
     (case B of
        None \<Rightarrow> False
      | Some D \<Rightarrow>
          let (err, caps) = clGetDeviceSVM D device
          in err = CL_SUCCESS \<and> caps AND (SVM_COARSE_GRAIN OR SVM_FINE_GRAIN) \<noteq> 0)"


section \<open>The runtime\<close>

record native_runtime =
  nr_ctx :: opencl_context
  nr_available :: bool
  nr_initialized :: bool
  nr_initErr :: "string option"

definition newOpenCLRuntime :: native_runtime where
  "newOpenCLRuntime = \<lparr>nr_ctx = no_context, nr_available = False, nr_initialized = False, nr_initErr = None\<rparr>"

definition native_Initialize :: "cl_driver option \<Rightarrow> native_runtime \<Rightarrow> string option \<times> native_runtime" where
  "native_Initialize B r =
     (if nr_initialized r then (nr_initErr r, r)
      else
        let r = r\<lparr>nr_initialized := True\<rparr>
        in case (case B of None \<Rightarrow> Inl missing_headers | Some D \<Rightarrow> opencl_init D) of
             Inl e \<Rightarrow> (Some e, r\<lparr>nr_initErr := Some e\<rparr>)
           | Inr (ctx, dev, queue) \<Rightarrow>
               (None, r\<lparr>nr_ctx := no_context\<lparr>oc_Context := Some ctx, oc_Device := dev, oc_Queue := Some queue\<rparr>,
                  nr_available := True\<rparr>))"

definition native_SupportsSVM :: "cl_driver option \<Rightarrow> native_runtime \<Rightarrow> bool" where
  "native_SupportsSVM B r \<longleftrightarrow> nr_available r \<and> has_svm B (oc_Device (nr_ctx r))"

definition native_OpenCLContext :: "native_runtime \<Rightarrow> opencl_context option" where
  "native_OpenCLContext r = (if nr_available r then Some (nr_ctx r) else None)"

definition native_SetContext :: "native_runtime \<Rightarrow> opencl_context \<Rightarrow> native_runtime" where
  "native_SetContext r ctx = r\<lparr>nr_ctx := ctx\<rparr>"

definition allocOpenCLSVM :: "cl_driver option \<Rightarrow> opencl_context \<Rightarrow> u64 \<Rightarrow> string + allocation" where
  "allocOpenCLSVM B ctx sz =
     (case B of
        None \<Rightarrow> Inl missing_headers
      | Some D \<Rightarrow>
          if \<not> context_valid ctx then Inl ''opencl svm requires a live OpenCL context and device''
          else if \<not> has_svm B (oc_Device ctx) then Inl ''opencl device does not advertise SVM support''
          else
            (case clSVMAlloc D (oc_Context ctx) (oc_Flags ctx) sz of
               None \<Rightarrow> Inl (''clSVMAlloc('' @ FormatUint sz @ '') returned NULL'')
             | Some buf \<Rightarrow> Inr \<lparr>alloc_bytes = buf, alloc_name = ''opencl-svm''\<rparr>))"

definition native_buildOpenCLProgram ::
  "cl_driver option \<Rightarrow> opencl_context \<Rightarrow> string \<Rightarrow> string + opencl_context" where
  "native_buildOpenCLProgram B ctx source =
     (case (case B of
              None \<Rightarrow> Inl missing_headers
            | Some D \<Rightarrow> opencl_build_program D (oc_Context ctx) (oc_Device ctx) source) of
        Inl e \<Rightarrow> Inl e
      | Inr (program, kern) \<Rightarrow> Inr (ctx\<lparr>oc_Program := Some program, oc_Kernel := Some kern\<rparr>))"

definition native_setOpenCLSVMKernelArg ::
  "cl_driver option \<Rightarrow> opencl_context \<Rightarrow> u32 \<Rightarrow> bool \<Rightarrow> string option" where
  "native_setOpenCLSVMKernelArg B ctx index ptr =
     (case B of
        None \<Rightarrow> Some missing_headers
      | Some D \<Rightarrow>
          if clSetArgSVMPointer D (oc_Kernel ctx) index ptr \<noteq> CL_SUCCESS
          then Some ''clSetKernelArgSVMPointer failed'' else None)"


section \<open>The kernel call\<close>

definition openCLKernelMaxInlineHeaderLen :: nat where
  "openCLKernelMaxInlineHeaderLen = 248"

datatype call_error =
    HeaderBufferFailed | EmptyHeaderBufferFailed | OutBufferFailed | ArgRefused nat
  | EnqueueFailed | FinishFailed | ReadBufferFailed

definition arg_name :: "nat \<Rightarrow> string" where
  "arg_name i = [[], ''header'', ''header_len'', ''start_nonce'', ''node_size'', ''node_count'',
     ''reads_per_hash'', ''out''] ! i"

fun call_message :: "call_error \<Rightarrow> string" where
  "call_message HeaderBufferFailed = ''clCreateBuffer(header) failed''"
| "call_message EmptyHeaderBufferFailed = ''clCreateBuffer(empty-header) failed''"
| "call_message OutBufferFailed = ''clCreateBuffer(out) failed''"
| "call_message (ArgRefused i) = ''clSetKernelArg('' @ arg_name i @ '') failed''"
| "call_message EnqueueFailed = ''clEnqueueNDRangeKernel failed''"
| "call_message FinishFailed = ''clFinish failed''"
| "call_message ReadBufferFailed = ''clEnqueueReadBuffer(out) failed''"

text \<open>The arguments in the order they are set: index, value, and whether the helper releases the two
  buffers when the argument is refused.\<close>

definition kernel_args ::
  "nat \<Rightarrow> nat \<Rightarrow> u32 \<Rightarrow> u64 \<Rightarrow> u32 \<Rightarrow> u64 \<Rightarrow> u64 \<Rightarrow> (nat \<times> cl_arg \<times> bool) list" where
  "kernel_args header_buf out_buf header_len nonce_lo node_size node_count reads =
     [(1, ArgBuffer header_buf, True), (2, ArgUInt header_len, False), (3, ArgULong nonce_lo, False),
      (4, ArgUInt node_size, False), (5, ArgULong node_count, False), (6, ArgULong reads, False),
      (7, ArgBuffer out_buf, True)]"

fun set_args :: "cl_driver \<Rightarrow> nat option \<Rightarrow> (nat \<times> cl_arg \<times> bool) list \<Rightarrow> (nat \<times> bool) option" where
  "set_args D kern [] = None"
| "set_args D kern ((i, a, releases) # as) =
     (if clSetKernelArg D kern i a \<noteq> CL_SUCCESS then Some (i, releases) else set_args D kern as)"

text \<open>The result of the call, and the buffers it has not released when it returns.\<close>

definition enqueue_shared_hash ::
  "cl_driver \<Rightarrow> nat option \<Rightarrow> nat option \<Rightarrow> nat option \<Rightarrow> bytes \<Rightarrow> u64 \<Rightarrow> u64 \<Rightarrow> u32 \<Rightarrow> u64 \<Rightarrow> u64 \<Rightarrow>
     (call_error + bytes) \<times> nat list" where
  "enqueue_shared_hash D ctx queue kern header nonce_lo count node_size node_count reads =
     (let out_size = count * 96;
          (err, header_buf) = clCreateBuffer D ctx (if header \<noteq> [] then CopyOf header else ReadOnly 1)
      in if err \<noteq> CL_SUCCESS
         then (Inl (if header \<noteq> [] then HeaderBufferFailed else EmptyHeaderBufferFailed), [])
         else
           let (err, out_buf) = clCreateBuffer D ctx (WriteOnly out_size)
           in if err \<noteq> CL_SUCCESS then (Inl OutBufferFailed, [])
              else
                (case set_args D kern (kernel_args header_buf out_buf (of_nat (length header)) nonce_lo
                        node_size node_count reads) of
                   Some (i, releases) \<Rightarrow> (Inl (ArgRefused i), if releases then [] else [header_buf, out_buf])
                 | None \<Rightarrow>
                     if clEnqueueNDRange D queue kern count \<noteq> CL_SUCCESS then (Inl EnqueueFailed, [])
                     else if clFinish D queue \<noteq> CL_SUCCESS then (Inl FinishFailed, [])
                     else
                       let (err, out) = clEnqueueRead D queue out_buf out_size
                       in (if err \<noteq> CL_SUCCESS then Inl ReadBufferFailed else Inr out, [])))"

text \<open>A nonce as the kernel's 64-bit argument, from its little-endian bytes; 0 for the nil nonce.\<close>

definition nonceUint64 :: "nonce option \<Rightarrow> u64 option" where
  "nonceUint64 n =
     (case n of
        None \<Rightarrow> Some 0
      | Some n \<Rightarrow>
          let b = AppendTo n []
          in if length b \<noteq> 8 then None
             else Some (foldl (\<lambda>v i. v OR push_bit (8 * i) (ucast (b ! i))) 0 [0..<8]))"

text \<open>The array of results the kernel's bytes are read as.\<close>

fun read_results :: "nat \<Rightarrow> bytes \<Rightarrow> hash_result list" where
  "read_results 0 bs = []"
| "read_results (Suc k) bs =
     \<lparr>Pow256 = take 32 bs, Full512 = take 64 (drop 32 bs)\<rparr> # read_results k (drop 96 bs)"

definition HashBatchOpenCL :: "cl_driver option \<Rightarrow> device_kernel" where
  "HashBatchOpenCL B ctx s header startNonce count dag =
     (if count = 0 then Inr []
      else if \<not> context_valid ctx \<or> oc_Queue ctx = None \<or> oc_Kernel ctx = None
      then Inl ''opencl kernel dispatch requires a prepared context, queue, and kernel''
      else if length header > openCLKernelMaxInlineHeaderLen
      then Inl ''opencl kernel dispatch supports headers up to 248 bytes''
      else
        (case nonceUint64 (Some startNonce) of
           None \<Rightarrow> Inl ''opencl shared-allocation kernel currently requires uint64 nonces''
         | Some start \<Rightarrow>
             (case B of
                None \<Rightarrow> Inl missing_headers
              | Some D \<Rightarrow>
                  (case fst (enqueue_shared_hash D (oc_Context ctx) (oc_Queue ctx) (oc_Kernel ctx) header start
                          count (ucast (raw_NodeSize dag)) (raw_NodeCount dag) (ReadsPerHash s)) of
                     Inl e \<Rightarrow> Inl (call_message e)
                   | Inr out \<Rightarrow> Inr (read_results (unat count) out)))))"

text \<open>The platform of this build; CUDA and pinned memory are those of a build without CUDA.\<close>

definition native_platform :: "cl_driver option \<Rightarrow> string \<Rightarrow> native_runtime platform" where
  "native_platform B source =
     \<lparr>pf_newOpenCLRuntime = newOpenCLRuntime,
      pf_Initialize = native_Initialize B,
      pf_Available = nr_available,
      pf_SupportsSVM = native_SupportsSVM B,
      pf_OpenCLContext = native_OpenCLContext,
      pf_SetContext = Some native_SetContext,
      pf_buildOpenCLProgram = native_buildOpenCLProgram B,
      pf_setOpenCLSVMKernelArg = native_setOpenCLSVMKernelArg B,
      pf_newOpenCLSharedAllocationKernel = Some (HashBatchOpenCL B),
      pf_openclKernelSource = source,
      pf_allocOpenCLSVM = allocOpenCLSVM B,
      pf_allocCUDAManaged = pf_allocCUDAManaged (stub_platform source),
      pf_allocPinnedHost = pf_allocPinnedHost (stub_platform source)\<rparr>"

end
