(* ===== verification/Kernel.thy ===== *)
theory Kernel
  imports KernelHashProofs OpenCLNative
begin

text \<open>
  The OpenCL kernel \<open>colossusx_hash\<close> (\<open>opencl_kernel.cl\<close>), which the program embeds and builds for the
  device: one work item, and what an enqueued batch leaves in the output buffer.

  Private arrays hold whatever they hold before they are written (\<open>J\<close>); an access outside a buffer is
  undefined in OpenCL, and is \<open>None\<close> here.
\<close>


section \<open>One work item\<close>

definition private_array :: "(nat \<Rightarrow> bytes) \<Rightarrow> nat \<Rightarrow> bytes" where
  "private_array J n = fit n (J n)"

text \<open>The read loop: \<open>k\<close> reads are left, \<open>r\<close> is the loop counter.  The address of a node is computed in 64
  bits.\<close>

fun kernel_reads ::
  "bytes \<Rightarrow> u32 \<Rightarrow> u64 \<Rightarrow> nat \<Rightarrow> u64 \<Rightarrow> bytes \<Rightarrow> bytes \<Rightarrow> bytes \<Rightarrow> bytes \<Rightarrow> bytes option"
where
  "kernel_reads dag node_size node_count 0 r mix fnv_input node blake_input = Some mix"
| "kernel_reads dag node_size node_count (Suc k) r mix fnv_input node blake_input =
     (let fnv_input = fill 0 32 (\<lambda>i. mix ! i) fnv_input;
          fnv_input = fill 32 8 (\<lambda>i. ucast (drop_bit (8 * i) r)) fnv_input;
          node_idx = fnv1a40 fnv_input mod node_count;
          node_ptr = unat (node_idx * ucast node_size)
      in if length dag < node_ptr + 64 then None
         else
           let node = fill 0 64 (\<lambda>i. dag ! (node_ptr + i)) node;
               blake_input = foldl (\<lambda>b i. b[i := mix ! i XOR node ! i, 32 + i := mix ! i XOR node ! (32 + i)])
                 blake_input [0..<32]
           in kernel_reads dag node_size node_count k (r + 1) (kernel_blake3_64 blake_input mix)
                fnv_input node blake_input)"

text \<open>The last argument is the element of the output buffer before the item runs.\<close>

definition colossusx_hash ::
  "(nat \<Rightarrow> bytes) \<Rightarrow> bytes \<Rightarrow> bytes \<Rightarrow> u32 \<Rightarrow> u64 \<Rightarrow> u32 \<Rightarrow> u64 \<Rightarrow> u64 \<Rightarrow> nat \<Rightarrow> hash_result \<Rightarrow> hash_result option"
where
  "colossusx_hash J dag header header_len start_nonce node_size node_count reads_per_hash gid before =
     (let nonce = start_nonce + of_nat gid; len = unat header_len in
      if node_count = 0 \<or> node_size < 64
      then Some \<lparr>Pow256 = fill 0 32 (\<lambda>i. 0) (Pow256 before), Full512 = fill 0 64 (\<lambda>i. 0) (Full512 before)\<rparr>
      else if 256 < header_len + 8 then Some before
      else if length header < len \<or> 256 < len + 8 then None
      else
        let seed_input = fill 0 len (\<lambda>i. header ! i) (private_array J 256);
            seed_input = fill len 8 (\<lambda>i. ucast (drop_bit (8 * i) nonce)) seed_input;
            seed512 = kernel_sha3_512 seed_input (unat (header_len + 8)) (private_array J 64);
            mix = fill 0 32 (\<lambda>i. seed512 ! i) (private_array J 32)
        in do {
          mix \<leftarrow> kernel_reads dag node_size node_count (unat reads_per_hash) 0 mix
            (private_array J 40) (private_array J 64) (private_array J 64);
          let final_input = fill 0 64 (\<lambda>i. seed512 ! i) (private_array J 96);
          let final_input = fill 64 32 (\<lambda>i. mix ! i) final_input;
          let full512 = kernel_sha3_512 final_input 96 (Full512 before);
          Some \<lparr>Pow256 = fill 0 32 (\<lambda>i. full512 ! i) (Pow256 before), Full512 = full512\<rparr>
        })"

text \<open>The bytes of the output buffer after \<open>count\<close> items, which do not share anything they write.\<close>

definition result_bytes :: "hash_result \<Rightarrow> bytes" where
  "result_bytes h = Pow256 h @ Full512 h"

definition kernel_output ::
  "(nat \<Rightarrow> nat \<Rightarrow> bytes) \<Rightarrow> bytes \<Rightarrow> bytes \<Rightarrow> u32 \<Rightarrow> u64 \<Rightarrow> u32 \<Rightarrow> u64 \<Rightarrow> u64 \<Rightarrow> (nat \<Rightarrow> hash_result) \<Rightarrow> nat \<Rightarrow>
     bytes option"
where
  "kernel_output J dag header header_len start_nonce node_size node_count reads before count =
     map_option (\<lambda>hs. concat (map result_bytes hs))
       (those (map (\<lambda>gid. colossusx_hash (J gid) dag header header_len start_nonce node_size node_count reads gid
         (before gid)) [0..<count]))"

end
