(* ===== verification/KernelProofs.thy ===== *)
theory KernelProofs
  imports Kernel OpenCLProofs
begin

text \<open>
  The OpenCL kernel computes the lattice hash: each work item on its nonce, so that the OpenCL build returns
  the reference hashes whether the device or the host has computed them.  The hash functions of the Go
  libraries are those of the standards, which is what their documentation says.
\<close>


section \<open>One work item\<close>

definition standard_hashes :: "hashlib \<Rightarrow> bool" where
  "standard_hashes L \<longleftrightarrow>
     lib_sha3_512 L = fips_sha3_512 \<and> (\<forall>msg. length msg = 64 \<longrightarrow> lib_blake3_256 L msg = blake3_one_block msg)"

lemma length_blake3_one_block [simp]:
  assumes "length msg = 64"
  shows "length (blake3_one_block msg) = 32"
proof -
  have "length (words_le msg) = 16" using words_le_exact [of msg 16] assms by simp
  from compress_exact(2) [OF this] show ?thesis
    by (simp add: blake3_one_block_def length_concat comp_def sum_list_triv Let_def)
qed

lemma standard_sha3: "standard_hashes L \<Longrightarrow> sha3_512 L msg = fips_sha3_512 msg"
  by (simp add: standard_hashes_def sha3_512_def fit_id)

lemma standard_blake3: "standard_hashes L \<Longrightarrow> length msg = 64 \<Longrightarrow> blake3_256 L msg = blake3_one_block msg"
  by (simp add: standard_hashes_def blake3_256_def fit_id)

lemma length_private [simp]: "length (private_array J n) = n"
  by (simp add: private_array_def)

lemma fnv1a40_exact:
  assumes "length data = 40"
  shows "fnv1a40 data = fnv1a64 data"
proof -
  have "data = map (nth data) [0..<40]" using assms by (metis map_nth)
  then have "fnv1a64 data = fnv1a64 (map (nth data) [0..<40])" by simp
  then show ?thesis by (simp add: fnv1a40_def fnv1a64_def foldl_map)
qed

lemma blake_input_exact:
  assumes "length b = 64"
  shows "foldl (\<lambda>b i. b[i := mix ! i XOR node ! i, 32 + i := mix ! i XOR node ! (32 + i)]) b [0..<32] =
    blake3RoundInput mix node"
proof -
  let ?f = "\<lambda>k. foldl (\<lambda>b i. b[i := mix ! i XOR node ! i, 32 + i := mix ! i XOR node ! (32 + i)]) b [0..<k]"
  have "k \<le> 32 \<Longrightarrow> length (?f k) = 64 \<and> (\<forall>j < 64. ?f k ! j =
      (if j < k then mix ! j XOR node ! j
       else if 32 \<le> j \<and> j < 32 + k then mix ! (j - 32) XOR node ! j else b ! j))" for k
    using assms by (induction k) (auto simp: nth_list_update less_Suc_eq)
  from this [of 32] show ?thesis
    by (intro nth_equalityI) (auto simp: blake3RoundInput_def nth_append)
qed

lemma fill_whole: "length dst = n \<Longrightarrow> length src = n \<Longrightarrow> fill 0 n (\<lambda>i. src ! i) dst = src"
  by (simp add: fill_eq) (metis map_nth)

lemma fill_two:
  assumes "length a = m" "length b = k" "length dst = n" "m + k \<le> n"
  shows "fill m k (\<lambda>i. b ! i) (fill 0 m (\<lambda>i. a ! i) dst) = a @ b @ drop (m + k) dst"
  using assms map_nth [of a] map_nth [of b] by (simp add: fill_eq add.commute)

lemma put_le_fill: "fill off n (\<lambda>i. ucast (drop_bit (8 * i) w)) dst = fill off n (\<lambda>i. put_le n w ! i) dst"
  unfolding fill_def by (rule foldl_cong) (simp_all add: put_le_def)

lemma node_address:
  fixes idx :: u64
  assumes "unat idx < cnt" "cnt * unat ns < 2 ^ 64"
  shows "unat (idx * ucast (ns :: u32)) = unat idx * unat ns"
proof -
  have "unat idx * unat ns \<le> cnt * unat ns" using assms(1) by (intro mult_right_mono) simp_all
  then have "unat idx * unat ns < 2 ^ 64" using assms(2) by linarith
  moreover have "unat ns < 2 ^ LENGTH(32)" by (rule unsigned_less)
  then have "unat ns < 2 ^ 64" by simp
  then have "unat (ucast ns :: u64) = unat ns" by (simp add: unsigned_ucast_eq take_bit_nat_eq_self)
  ultimately show ?thesis by (simp add: unat_word_ariths)
qed

lemma kernel_reads_exact:
  assumes L: "standard_hashes L" and cnt: "0 < cnt" "cnt < 2 ^ 64"
    and dag: "cnt * unat ns \<le> length dag" "64 \<le> unat ns" "cnt * unat ns < 2 ^ 64"
  defines "nd \<equiv> \<lambda>i. take 64 (drop (i * unat ns) dag)"
  shows "length mix = 32 \<Longrightarrow> length fnv = 40 \<Longrightarrow> length node = 64 \<Longrightarrow> length blake = 64 \<Longrightarrow>
    kernel_reads dag ns (of_nat cnt) k r mix fnv node blake = Some (ref_rounds L cnt nd k r mix) \<and>
    length (ref_rounds L cnt nd k r mix) = 32"
proof (induction k arbitrary: r mix fnv node blake)
  case (Suc k)
  let ?fnv = "mix @ put_le 8 r"
  let ?i = "unat (fnv1a64 ?fnv) mod cnt"
  have fnv: "fill 32 8 (\<lambda>i. ucast (drop_bit (8 * i) r)) (fill 0 32 (\<lambda>i. mix ! i) fnv) = ?fnv"
    unfolding put_le_fill using Suc.prems fill_two [of mix 32 "put_le 8 r" 8 fnv 40] by simp
  have i: "fnv1a64 ?fnv mod of_nat cnt = of_nat ?i" "?i < cnt" using unat_mod_of_nat [OF cnt] by blast+
  then have ui: "unat (of_nat ?i :: u64) = ?i" using cnt(2) by (intro unat_of_nat64) linarith
  then have at: "unat (of_nat ?i * ucast ns :: u64) = ?i * unat ns"
    using node_address [of "of_nat ?i" cnt ns] i(2) dag(3) by simp
  have "(?i + 1) * unat ns \<le> cnt * unat ns" using i(2) by (intro mult_right_mono) simp_all
  then have room: "?i * unat ns + 64 \<le> length dag" using dag(1,2) by simp
  have node: "fill 0 64 (\<lambda>j. dag ! (?i * unat ns + j)) node = nd ?i"
    using Suc.prems(3) room by (intro nth_equalityI) (simp_all add: fill_eq nd_def)
  have "fnv1a40 ?fnv = fnv1a64 ?fnv" using Suc.prems by (simp add: fnv1a40_exact)
  then have step: "kernel_reads dag ns (of_nat cnt) (Suc k) r mix fnv node blake =
      kernel_reads dag ns (of_nat cnt) k (r + 1) (kernel_blake3_64 (blake3RoundInput mix (nd ?i)) mix)
        ?fnv (nd ?i) (blake3RoundInput mix (nd ?i))"
    using room Suc.prems(4) by (simp only: kernel_reads.simps Let_def fnv i(1) at node blake_input_exact) simp
  have "kernel_blake3_64 (blake3RoundInput mix (nd ?i)) mix = blake3_256 L (blake3RoundInput mix (nd ?i))"
    using Suc.prems(1) L by (simp add: kernel_blake3_exact standard_blake3)
  moreover have "length (nd ?i) = 64" using room by (simp add: nd_def)
  ultimately show ?case
    using Suc.IH [of "blake3_256 L (blake3RoundInput mix (nd ?i))" ?fnv "nd ?i"] Suc.prems(1)
    unfolding step by simp
qed simp

definition result_ok :: "hash_result \<Rightarrow> bool" where
  "result_ok h \<longleftrightarrow> length (Pow256 h) = 32 \<and> length (Full512 h) = 64"

lemma work_item_reference:
  assumes L: "standard_hashes L" and cnt: "0 < cnt" "cnt < 2 ^ 64"
    and dag: "cnt * unat ns \<le> length dag" "64 \<le> unat ns" "cnt * unat ns < 2 ^ 64"
    and header: "length header \<le> 248" and before: "result_ok before"
  shows "colossusx_hash J dag header (of_nat (length header)) start ns (of_nat cnt) (ReadsPerHash s) gid before =
    Some (lattice_reference L s cnt (\<lambda>i. take 64 (drop (i * unat ns) dag)) header (Some (start + of_nat gid)))"
proof -
  let ?n = "start + of_nat gid" and ?len = "length header"
  let ?nd = "\<lambda>i. take 64 (drop (i * unat ns) dag)"
  have count: "(of_nat cnt :: u64) \<noteq> 0" using cnt unat_of_nat64 [of cnt] by auto
  have ns: "\<not> ns < 64" using dag(2) by (simp add: word_less_nat_alt)
  have len: "unat (of_nat ?len :: u32) = ?len" using header by (simp add: unat_of_nat)
  have "unat (of_nat ?len + 8 :: u32) = unat (of_nat (?len + 8) :: u32)" by simp
  also have "\<dots> = ?len + 8" using header by (simp only: unat_of_nat) simp
  finally have len8: "unat (of_nat ?len + 8 :: u32) = ?len + 8" .
  then have fits: "\<not> 256 < (of_nat ?len + 8 :: u32)" using header by (simp add: word_less_nat_alt)
  let ?seed = "fill ?len 8 (\<lambda>i. ucast (drop_bit (8 * i) ?n)) (fill 0 ?len (\<lambda>i. header ! i) (private_array J 256))"
  have seed: "?seed = header @ put_le 8 ?n @ drop (?len + 8) (private_array J 256)"
    unfolding put_le_fill using header by (intro fill_two [of _ _ _ _ _ 256]) simp_all
  have seed512: "kernel_sha3_512 ?seed (?len + 8) (private_array J 64) = sha3_512 L (seed_bytes header (Some ?n))"
    using header L by (simp add: kernel_sha3_exact seed standard_sha3 seed_bytes_def AppendTo_def)
  let ?s5 = "sha3_512 L (seed_bytes header (Some ?n))"
  have mix: "fill 0 32 (\<lambda>i. ?s5 ! i) (private_array J 32) = take 32 ?s5"
    by (simp add: fill_eq) (intro nth_equalityI, simp_all)
  let ?mix = "ref_rounds L cnt ?nd (unat (ReadsPerHash s)) 0 (take 32 ?s5)"
  have reads: "kernel_reads dag ns (of_nat cnt) (unat (ReadsPerHash s)) 0 (take 32 ?s5)
      (private_array J 40) (private_array J 64) (private_array J 64) = Some ?mix" "length ?mix = 32"
    using kernel_reads_exact [OF L cnt dag, of "take 32 ?s5" "private_array J 40" "private_array J 64"
        "private_array J 64" "unat (ReadsPerHash s)" 0] by simp_all
  have "fill 64 32 (\<lambda>i. ?mix ! i) (fill 0 64 (\<lambda>i. ?s5 ! i) (private_array J 96)) = ?s5 @ ?mix"
    using reads(2) fill_two [of ?s5 64 ?mix 32 "private_array J 96" 96] by simp
  then have final: "kernel_sha3_512 (fill 64 32 (\<lambda>i. ?mix ! i) (fill 0 64 (\<lambda>i. ?s5 ! i) (private_array J 96))) 96 (Full512 before) =
      sha3_512 L (?s5 @ ?mix)"
    using reads(2) L before by (simp add: kernel_sha3_exact standard_sha3 result_ok_def)
  have pow: "fill 0 32 (\<lambda>i. sha3_512 L (?s5 @ ?mix) ! i) (Pow256 before) = take 32 (sha3_512 L (?s5 @ ?mix))"
    using before by (simp add: fill_eq result_ok_def) (intro nth_equalityI, simp_all)
  show ?thesis
    using count ns fits header
    by (simp add: colossusx_hash_def Let_def len len8 seed512 mix reads final pow lattice_reference_def)
qed


section \<open>A batch on the device\<close>

lemma result_ok_reference: "result_ok (lattice_reference L s cnt nd header n)"
  by (simp add: result_ok_def lattice_reference_def Let_def)

lemma read_results_bytes:
  "list_all result_ok hs \<Longrightarrow> length hs = k \<Longrightarrow> read_results k (concat (map result_bytes hs)) = hs"
proof (induction hs arbitrary: k)
  case (Cons h hs)
  then obtain j where "k = Suc j" "length hs = j" by (cases k) auto
  then show ?case using Cons by (cases h) (simp add: result_ok_def result_bytes_def)
qed simp

lemma enqueue_reads:
  assumes "fst (enqueue_shared_hash D ctx queue kern header n count ns cnt reads) = Inr out"
  shows "\<exists>q b k. clEnqueueRead D q b k = (CL_SUCCESS, out)"
proof -
  obtain err out_buf where ob: "clCreateBuffer D ctx (WriteOnly (count * 96)) = (err, out_buf)" by force
  obtain err' out' where "clEnqueueRead D queue out_buf (count * 96) = (err', out')" by force
  then show ?thesis
    using assms ob by (auto simp: enqueue_shared_hash_def Let_def split: prod.splits if_splits option.splits)
qed

text \<open>What an OpenCL library promises of a batch: a read of the output buffer that succeeds delivers what the
  work items have written, unless the kernel has left a buffer.\<close>

definition runs_kernel :: "cl_driver \<Rightarrow> bytes \<Rightarrow> bytes \<Rightarrow> nonce \<Rightarrow> nat \<Rightarrow> u32 \<Rightarrow> u64 \<Rightarrow> u64 \<Rightarrow> bool" where
  "runs_kernel D dag header start count node_size node_count reads \<longleftrightarrow>
     (\<exists>J before. (\<forall>gid. result_ok (before gid)) \<and>
        (\<forall>written. kernel_output J dag header (of_nat (length header)) start node_size node_count reads before count =
             Some written \<longrightarrow>
           (\<forall>q b k out. clEnqueueRead D q b k = (CL_SUCCESS, out) \<longrightarrow> out = written)))"

definition device_hashes :: "hashlib \<Rightarrow> dag \<Rightarrow> bytes \<Rightarrow> nonce \<Rightarrow> nat \<Rightarrow> hash_result list" where
  "device_hashes L d header start k = map (\<lambda>j. dag_reference L d header (start + of_nat j)) [0..<k]"

lemma device_hashes_simps [simp]:
  "length (device_hashes L d header start k) = k" "list_all result_ok (device_hashes L d header start k)"
  by (simp_all add: device_hashes_def list_all_iff dag_reference_def result_ok_reference)

lemma kernel_output_reference:
  assumes L: "standard_hashes L" and ok: "dag_ok d" and header: "length header \<le> 248"
    and before: "\<forall>gid. result_ok (before gid)"
  shows "kernel_output J (backing d) header (of_nat (length header)) start 64 (of_nat (nodes_of (dag_spec d)))
      (ReadsPerHash (dag_spec d)) before k = Some (concat (map result_bytes (device_hashes L d header start k)))"
proof -
  have "fits (dag_spec d) (backing d)" "nodes_of (dag_spec d) \<noteq> 0" using ok by (simp_all add: dag_ok_def)
  note f = fitsD(4,5) [OF this(1)] nodes_range [OF this(2)]
  have table: "DAG_table d = (\<lambda>i. take 64 (drop (i * 64) (backing d)))"
    by (simp add: fun_eq_iff DAG_table_def mult.commute)
  have "colossusx_hash (J gid) (backing d) header (of_nat (length header)) start 64 (of_nat (nodes_of (dag_spec d)))
      (ReadsPerHash (dag_spec d)) gid (before gid) = Some (dag_reference L d header (start + of_nat gid))" for gid
    using work_item_reference [OF L, of "nodes_of (dag_spec d)" 64 "backing d" header "before gid" "J gid" start
        "dag_spec d" gid] f header before table
    by (simp add: dag_reference_def)
  then show ?thesis
    by (simp add: kernel_output_def device_hashes_def those_map_Some [of _ _ "\<lambda>j. dag_reference L d header (start + of_nat j)"])
qed


text \<open>A library that runs the kernel on the strict sample DAG.\<close>

definition standard_lib :: hashlib where
  "standard_lib = sample_lib\<lparr>lib_sha3_512 := fips_sha3_512, lib_blake3_256 := blake3_one_block\<rparr>"

lemma standard_lib_ok: "standard_hashes standard_lib"
  by (simp add: standard_hashes_def standard_lib_def)

definition kernel_driver :: cl_driver where
  "kernel_driver = working_driver\<lparr>clEnqueueRead := \<lambda>q b k.
     (0, concat (map result_bytes (device_hashes standard_lib strict_dag [1] 5 3)))\<rparr>"

lemma kernel_driver_runs:
  "runs_kernel kernel_driver (backing strict_dag) [1] 5 3 64 (of_nat (nodes_of (dag_spec strict_dag)))
     (ReadsPerHash (dag_spec strict_dag))"
proof -
  have "result_ok zero_result" by (simp add: result_ok_def zero_result_def)
  then show ?thesis
    using kernel_output_reference [OF standard_lib_ok strict_dag_ok, of "[1]" "\<lambda>_. zero_result" "\<lambda>_ _. []" 5 3]
    unfolding runs_kernel_def by (intro exI [of _ "\<lambda>_ _. []"] exI [of _ "\<lambda>_. zero_result"]) (simp add: kernel_driver_def)
qed


end
