(* ===== verification/Cuda.thy ===== *)
theory Cuda
  imports Gpu Decimal
begin

text \<open>
  The CUDA build of package \<open>miner\<close> (\<open>gpu_backend_cuda.go\<close>, \<open>backend_unified_cgo_cuda.go\<close>,
  \<open>pinned_memory_cuda.go\<close>): the runtime, the two allocators with the C helpers of their preambles, and
  the backend, which hashes on the host from the managed memory.

  The CUDA library is the record \<open>cuda_driver\<close> of its answers, an error text or a value; a build without
  the CUDA headers has none.  The calls behind an answer, the advice on placement and the prefetch, whose
  results the code drops, and the release of memory are in \<open>DeviceMemory\<close>.
\<close>


section \<open>The library\<close>

record cuda_driver =
  cudaGetDevice :: "string + int"
  cudaMallocManaged :: "u64 \<Rightarrow> string + bytes"
  cudaHostAlloc :: "u64 \<Rightarrow> string + bytes"

definition missing_cuda_headers :: string where
  "missing_cuda_headers = ''cuda headers were not found at build time''"

definition currentCUDADeviceOrdinal :: "cuda_driver option \<Rightarrow> string + int" where
  "currentCUDADeviceOrdinal B = (case B of None \<Rightarrow> Inl missing_cuda_headers | Some D \<Rightarrow> cudaGetDevice D)"

definition allocCUDAManaged :: "cuda_driver option \<Rightarrow> int \<Rightarrow> u64 \<Rightarrow> string + allocation" where
  "allocCUDAManaged B device n =
     (case B of
        None \<Rightarrow> Inl missing_cuda_headers
      | Some D \<Rightarrow>
          (case cudaMallocManaged D n of
             Inl e \<Rightarrow> Inl (''cudaMallocManaged('' @ FormatUint n @ ''): '' @ e)
           | Inr buf \<Rightarrow> Inr \<lparr>alloc_bytes = buf, alloc_name = ''cuda-managed''\<rparr>))"

definition allocPinnedHost :: "cuda_driver option \<Rightarrow> u64 \<Rightarrow> string + allocation" where
  "allocPinnedHost B n =
     (case (case B of None \<Rightarrow> Inl missing_cuda_headers | Some D \<Rightarrow> cudaHostAlloc D n) of
        Inl e \<Rightarrow> Inl (''cudaHostAlloc('' @ FormatUint n @ ''): '' @ e)
      | Inr buf \<Rightarrow> Inr \<lparr>alloc_bytes = buf, alloc_name = ''pinned-host''\<rparr>)"


section \<open>The runtime\<close>

record cuda_runtime =
  cr_available :: bool
  cr_device :: int
  cr_initialized :: bool
  cr_initErr :: "string option"

definition newCUDARuntime :: cuda_runtime where
  "newCUDARuntime = \<lparr>cr_available = False, cr_device = 0, cr_initialized = False, cr_initErr = None\<rparr>"

definition cuda_Initialize :: "cuda_driver option \<Rightarrow> cuda_runtime \<Rightarrow> string option \<times> cuda_runtime" where
  "cuda_Initialize B r =
     (if cr_initialized r then (cr_initErr r, r)
      else
        let r = r\<lparr>cr_initialized := True\<rparr>
        in case currentCUDADeviceOrdinal B of
             Inl e \<Rightarrow> (Some e, r\<lparr>cr_initErr := Some e\<rparr>)
           | Inr device \<Rightarrow> (None, r\<lparr>cr_device := device, cr_available := True\<rparr>))"

definition cuda_DeviceOrdinal :: "cuda_runtime \<Rightarrow> int option" where
  "cuda_DeviceOrdinal r = (if cr_available r then Some (cr_device r) else None)"


section \<open>The backend\<close>

datatype cuda_error =
    CUDANilDAG | CUDAInit string | NeedsManagedAllocation | StrictNeedsCUDAKernel
  | CUDABuffer backend_error | CUDAUnavailable | CUDAKernel string

text \<open>A shared kernel that a test may set; nothing in the program does.\<close>

type_synonym shared_kernel = "bytes \<Rightarrow> nonce \<Rightarrow> u64 \<Rightarrow> raw_buffer \<Rightarrow> (string + hash_result list) option"

record cuda_backend =
  cb_runtime :: "cuda_runtime option"
  cb_scratch :: "pool option"
  cb_lastPlan :: gpu_plan
  cb_sharedKernel :: "shared_kernel option"

definition NewCUDABackend :: cuda_backend where
  "NewCUDABackend = \<lparr>cb_runtime = None, cb_scratch = None, cb_lastPlan = zero_plan, cb_sharedKernel = None\<rparr>"

definition the_cuda_runtime :: "cuda_backend \<Rightarrow> cuda_runtime" where
  "the_cuda_runtime b = (case cb_runtime b of None \<Rightarrow> newCUDARuntime | Some r \<Rightarrow> r)"

definition CUDA_InitializeRuntime :: "cuda_driver option \<Rightarrow> cuda_backend \<Rightarrow> string option \<times> cuda_backend" where
  "CUDA_InitializeRuntime B b =
     (let (e, r) = cuda_Initialize B (the_cuda_runtime b) in (e, b\<lparr>cb_runtime := Some r\<rparr>))"

definition CUDA_DeviceOrdinal :: "cuda_backend \<Rightarrow> int option" where
  "CUDA_DeviceOrdinal b = Option.bind (cb_runtime b) cuda_DeviceOrdinal"

definition cuda_failed_plan :: gpu_plan where
  "cuda_failed_plan = zero_plan\<lparr>pl_KernelName := ''colossusx_cuda_hash'', pl_MemoryModel := ''unified-shared'',
     pl_Fallback := ''runtime-unavailable'', pl_UsedFallback := True, pl_ExecutionBackend := ''shared-host'',
     pl_ExecutionPath := GPUExecutionPathHostReference\<rparr>"

definition cuda_ready_plan :: gpu_plan where
  "cuda_ready_plan = zero_plan\<lparr>pl_KernelName := ''colossusx_cuda_hash'', pl_BatchNonces := 1024,
     pl_MemoryModel := ''unified-shared'', pl_Fallback := ''shared-host-reference'', pl_UsedFallback := True,
     pl_ExecutionBackend := ''shared-host'', pl_ExecutionPath := GPUExecutionPathHostReference\<rparr>"

definition CUDA_Prepare ::
  "cuda_driver option \<Rightarrow> dag option \<Rightarrow> cuda_backend \<Rightarrow> (cuda_error option \<times> cuda_backend) option" where
  "CUDA_Prepare B dag b =
     (case dag of
        None \<Rightarrow> Some (Some CUDANilDAG, b)
      | Some d \<Rightarrow>
          (case CUDA_InitializeRuntime B b of
             (Some e, b) \<Rightarrow> Some (Some (CUDAInit e), b\<lparr>cb_lastPlan := cuda_failed_plan\<rparr>)
           | (None, b) \<Rightarrow>
               if DAG_AllocationName d \<noteq> ''cuda-managed'' then Some (Some NeedsManagedAllocation, b)
               else if Mode (dag_spec d) = ModeStrict then Some (Some StrictNeedsCUDAKernel, b)
               else
                 (case newRawContiguousDAGBuffer dag of
                    None \<Rightarrow> None
                  | Some (Inl e) \<Rightarrow> Some (Some (CUDABuffer e), b)
                  | Some (Inr _) \<Rightarrow> Some (None, b
                      \<lparr>cb_scratch := (case cb_scratch b of None \<Rightarrow> Some [] | Some p \<Rightarrow> Some p),
                       cb_lastPlan := cuda_ready_plan\<rparr>))))"

definition cuda_host_plan :: "gpu_plan \<Rightarrow> gpu_plan" where
  "cuda_host_plan plan = plan\<lparr>pl_UsedFallback := True, pl_ExecutionPath := GPUExecutionPathHostReference\<rparr>"

definition CUDA_HashBatch ::
  "hashlib \<Rightarrow> bytes \<Rightarrow> nonce \<Rightarrow> u64 \<Rightarrow> dag option \<Rightarrow> cuda_backend \<Rightarrow>
     ((cuda_error + hash_result list) \<times> cuda_backend) option" where
  "CUDA_HashBatch L header start count dag b =
     (if (case cb_runtime b of None \<Rightarrow> True | Some r \<Rightarrow> \<not> cr_available r)
      then Some (Inl CUDAUnavailable, b\<lparr>cb_lastPlan := cuda_host_plan (cb_lastPlan b)\<rparr>)
      else
        (case newRawContiguousDAGBuffer dag of
           None \<Rightarrow> None
         | Some (Inl e) \<Rightarrow> Some (Inl (CUDABuffer e), b)
         | Some (Inr raw) \<Rightarrow>
             let plan = (cuda_host_plan (cb_lastPlan b))\<lparr>pl_ExecutionBackend := ''shared-host'',
                   pl_DeviceDispatchAttempted := False\<rparr>
             in do {
               r \<leftarrow> (case cb_sharedKernel b of
                       Some k \<Rightarrow> k header start count raw
                     | None \<Rightarrow> Option.bind dag (\<lambda>d. map_option Inr
                         (HashBatchShared L (dag_spec d) header start count raw)));
               Some (case r of
                   Inl e \<Rightarrow> (Inl (CUDAKernel e), b\<lparr>cb_lastPlan := plan\<rparr>)
                 | Inr hs \<Rightarrow> (Inr hs, b\<lparr>cb_lastPlan := plan\<lparr>pl_CopiedDAG := False, pl_DeviceDAGCopyPerformed := False\<rparr>\<rparr>))
             }))"

definition CUDA_Hash ::
  "hashlib \<Rightarrow> bytes \<Rightarrow> nonce \<Rightarrow> dag option \<Rightarrow> cuda_backend \<Rightarrow> (hash_result \<times> cuda_backend) option" where
  "CUDA_Hash L header n dag b =
     map_option (\<lambda>(r, b). (case r of Inl _ \<Rightarrow> zero_result | Inr [] \<Rightarrow> zero_result | Inr (h # _) \<Rightarrow> h, b))
       (CUDA_HashBatch L header n 1 dag b)"

end
