(* ===== verification/CudaProofs.thy ===== *)
theory CudaProofs
  imports Cuda GpuProofs
begin

text \<open>
  The CUDA backend hashes on the host: what its preparation accepts, and that its batches are the
  reference hashes of the managed memory.
\<close>


section \<open>The runtime\<close>

text \<open>The library is asked once: the runtime is new or keeps the answer.\<close>

definition cuda_fine :: "cuda_driver option \<Rightarrow> cuda_backend \<Rightarrow> bool" where
  "cuda_fine B b \<longleftrightarrow>
     (case cb_runtime b of
        None \<Rightarrow> True
      | Some r \<Rightarrow> r = newCUDARuntime \<or> r = snd (cuda_Initialize B newCUDARuntime))"

definition cuda_asked :: "cuda_driver option \<Rightarrow> cuda_backend \<Rightarrow> cuda_backend" where
  "cuda_asked B b = b\<lparr>cb_runtime := Some (snd (cuda_Initialize B newCUDARuntime))\<rparr>"

lemma NewCUDABackend_fine: "cuda_fine B NewCUDABackend"
  by (simp add: cuda_fine_def NewCUDABackend_def)

lemma cuda_Initialize_once:
  "cuda_Initialize B (snd (cuda_Initialize B newCUDARuntime)) = cuda_Initialize B newCUDARuntime"
  by (simp add: cuda_Initialize_def newCUDARuntime_def Let_def split: sum.split)

lemma cuda_Initialize_answer:
  "fst (cuda_Initialize B newCUDARuntime) =
     (case currentCUDADeviceOrdinal B of Inl e \<Rightarrow> Some e | Inr _ \<Rightarrow> None)"
  "cr_available (snd (cuda_Initialize B newCUDARuntime)) \<longleftrightarrow> (\<exists>device. currentCUDADeviceOrdinal B = Inr device)"
  by (simp_all add: cuda_Initialize_def newCUDARuntime_def Let_def split: sum.split)

lemma CUDA_InitializeRuntime_fine:
  assumes "cuda_fine B b"
  shows "CUDA_InitializeRuntime B b = (fst (cuda_Initialize B newCUDARuntime), cuda_asked B b)"
proof -
  have "cuda_Initialize B (the_cuda_runtime b) = cuda_Initialize B newCUDARuntime"
    using assms
    by (auto simp: cuda_fine_def the_cuda_runtime_def cuda_Initialize_once split: option.splits)
  then show ?thesis by (simp add: CUDA_InitializeRuntime_def cuda_asked_def case_prod_unfold Let_def)
qed

lemma cuda_asked_simps [simp]:
  "cb_sharedKernel (cuda_asked B b) = cb_sharedKernel b"
  "cb_runtime (cuda_asked B b) = Some (snd (cuda_Initialize B newCUDARuntime))"
  by (simp_all add: cuda_asked_def)


section \<open>Preparing and hashing\<close>

lemma CUDA_Prepare_exact:
  assumes fine: "cuda_fine B b" and ok: "dag_ok d"
  shows "\<exists>e b'. CUDA_Prepare B (Some d) b = Some (e, b') \<and>
    cb_runtime b' = Some (snd (cuda_Initialize B newCUDARuntime)) \<and> cb_sharedKernel b' = cb_sharedKernel b \<and>
    (e = None \<longleftrightarrow> (\<exists>device. currentCUDADeviceOrdinal B = Inr device) \<and>
       DAG_AllocationName d = ''cuda-managed'' \<and> Mode (dag_spec d) \<noteq> ModeStrict)"
proof -
  obtain raw where raw: "newRawContiguousDAGBuffer (Some d) = Some (Inr raw)" by (rule dag_raw [OF ok])
  show ?thesis
    by (cases "currentCUDADeviceOrdinal B")
      (auto simp: CUDA_Prepare_def CUDA_InitializeRuntime_fine [OF fine] cuda_Initialize_answer(1) raw)
qed

lemma CUDA_HashBatch_exact:
  assumes ok: "dag_ok d" and b: "cb_runtime b = Some r" "cb_sharedKernel b = None"
  shows "\<exists>b'. CUDA_HashBatch L header start count (Some d) b =
      Some (if cr_available r then Inr (batch_results (dag_reference L d header) start count)
        else Inl CUDAUnavailable, b') \<and>
    pl_ExecutionPath (cb_lastPlan b') = GPUExecutionPathHostReference \<and> pl_UsedFallback (cb_lastPlan b')"
proof -
  obtain raw where raw: "newRawContiguousDAGBuffer (Some d) = Some (Inr raw)" by (rule dag_raw [OF ok])
  show ?thesis
    using b by (simp add: CUDA_HashBatch_def raw Let_def Shared_batch [OF ok raw] cuda_host_plan_def)
qed


section \<open>Property\<close>

text \<open>C28: The CUDA backend is the host reference: on a well-formed DAG preparing it never panics and
  succeeds exactly when the library reports a device, the DAG lies in memory from the CUDA allocator
  and the profile is not strict; a batch afterwards, the preparation refused or not, is an error when
  there is no device, and otherwise the reference hashes of all its nonces up to the end of the nonce
  space, and the plan says that the host computed them.\<close>

theorem cuda_backend_exact:
  assumes fine: "cuda_fine B b" "cb_sharedKernel b = None" and ok: "dag_ok d"
  shows "\<exists>e b' out b''. CUDA_Prepare B (Some d) b = Some (e, b') \<and>
    (e = None \<longleftrightarrow> (\<exists>device. currentCUDADeviceOrdinal B = Inr device) \<and>
       DAG_AllocationName d = ''cuda-managed'' \<and> Mode (dag_spec d) \<noteq> ModeStrict) \<and>
    CUDA_HashBatch L header start count (Some d) b' = Some (out, b'') \<and>
    out = (case currentCUDADeviceOrdinal B of
             Inl _ \<Rightarrow> Inl CUDAUnavailable
           | Inr _ \<Rightarrow> Inr (map (\<lambda>j. dag_reference L d header (start + of_nat j))
               [0..<min (unat count) (2 ^ 64 - unat start)])) \<and>
    pl_ExecutionPath (cb_lastPlan b'') = GPUExecutionPathHostReference \<and> pl_UsedFallback (cb_lastPlan b'')"
proof -
  obtain e b' where P: "CUDA_Prepare B (Some d) b = Some (e, b')"
      "cb_runtime b' = Some (snd (cuda_Initialize B newCUDARuntime))" "cb_sharedKernel b' = None"
      "e = None \<longleftrightarrow> (\<exists>device. currentCUDADeviceOrdinal B = Inr device) \<and>
       DAG_AllocationName d = ''cuda-managed'' \<and> Mode (dag_spec d) \<noteq> ModeStrict"
    using CUDA_Prepare_exact [OF fine(1) ok] fine(2) by auto
  have out: "(if cr_available (snd (cuda_Initialize B newCUDARuntime))
        then Inr (batch_results (dag_reference L d header) start count) else Inl CUDAUnavailable) =
      (case currentCUDADeviceOrdinal B of
             Inl _ \<Rightarrow> Inl CUDAUnavailable
           | Inr _ \<Rightarrow> Inr (map (\<lambda>j. dag_reference L d header (start + of_nat j))
               [0..<min (unat count) (2 ^ 64 - unat start)]))"
    by (simp add: cuda_Initialize_answer(2) batch_results_def split: sum.split)
  from CUDA_HashBatch_exact [OF ok P(2,3), of L header start count, unfolded out] P(1,4) show ?thesis
    by blast
qed

text \<open>A library with one device, and a research DAG in managed memory.\<close>

definition cuda_library :: cuda_driver where
  "cuda_library = \<lparr>cudaGetDevice = Inr 0, cudaMallocManaged = \<lambda>n. Inr (replicate (unat n) 0),
     cudaHostAlloc = \<lambda>n. Inr (replicate (unat n) 0)\<rparr>"

definition managed_dag :: dag where
  "managed_dag = sample_dag\<lparr>dag_alloc := Some \<lparr>alloc_bytes = replicate 64 0, alloc_name = ''cuda-managed''\<rparr>\<rparr>"

theorem cuda_backend_exact_witness:
  "\<exists>b b'. CUDA_Prepare (Some cuda_library) (Some managed_dag) NewCUDABackend = Some (None, b) \<and>
     CUDA_HashBatch sample_lib [1] 5 3 (Some managed_dag) b =
       Some (Inr (map (\<lambda>j. dag_reference sample_lib managed_dag [1] (5 + of_nat j)) [0..<3]), b')"
proof -
  have ok: "dag_ok managed_dag"
    using sample_dag_ok by (simp add: managed_dag_def sample_dag_def dag_ok_def backing_def)
  have none: "cb_sharedKernel NewCUDABackend = None" by (simp add: NewCUDABackend_def)
  have name: "DAG_AllocationName managed_dag = ''cuda-managed''" "Mode (dag_spec managed_dag) \<noteq> ModeStrict"
    by (simp_all add: managed_dag_def sample_dag_def DAG_AllocationName_def spec_consts)
  have dev: "currentCUDADeviceOrdinal (Some cuda_library) = Inr 0"
    by (simp add: currentCUDADeviceOrdinal_def cuda_library_def)
  from cuda_backend_exact [OF NewCUDABackend_fine none ok, of "Some cuda_library" sample_lib "[1]" 5 3]
  show ?thesis by (auto simp: name dev min_def)
qed

end
