(* ===== verification/DeviceMemory.thy ===== *)
theory DeviceMemory
  imports Cuda OpenCLNative "HOL-Library.State_Monad" "HOL-Library.Multiset"
begin

text \<open>
  The memory of the accelerators, from its allocation to its release (\<open>backend_unified_cgo_cuda.go\<close>,
  \<open>pinned_memory_cuda.go\<close>, \<open>backend_unified_cgo_opencl.go\<close>, \<open>sliceAllocation\<close> in \<open>memory_strategy.go\<close>),
  with the C helpers call by call.

  A library answers a call with an error code and a value (a pointer, a device), and may answer by
  everything that was called before; the state is the list of the calls with their answers.  What is
  allocated and not yet released is read off that list.  The allocators of \<open>Cuda\<close> and \<open>OpenCLNative\<close> are
  the ones here without their calls.
\<close>


section \<open>The libraries\<close>

text \<open>A null pointer is 0.\<close>

datatype device_call =
    CudaGetDevice
  | CudaMallocManaged u64 | CudaHostAlloc u64 | CudaFree int | CudaFreeHost int
  | CudaMemAdvise int u64 int | CudaMemPrefetch int u64 int | CudaDeviceSynchronize
  | ClSVMAlloc "nat option" u64 u64 | ClSVMFree "nat option" int

type_synonym device_event = "device_call \<times> int \<times> int"

type_synonym 'a device = "(device_event list, 'a) state"

record device_library =
  dl_answer :: "device_event list \<Rightarrow> device_call \<Rightarrow> int \<times> int"
  dl_errorString :: "int \<Rightarrow> string"
  dl_memory :: "int \<Rightarrow> byte"

definition device_call :: "device_library \<Rightarrow> device_call \<Rightarrow> (int \<times> int) device" where
  "device_call A c = State (\<lambda>tr. let r = dl_answer A tr c in (r, tr @ [(c, r)]))"

lemma run_device_call [simp]:
  "run_state (device_call A c) tr = (dl_answer A tr c, tr @ [(c, dl_answer A tr c)])"
  by (simp add: device_call_def Let_def)

text \<open>\<open>unsafe.Slice\<close> over foreign memory; it panics on a negative length, on a null pointer with a length,
  and past the end of the address space.\<close>

definition unsafe_Slice :: "device_library \<Rightarrow> int \<Rightarrow> u64 \<Rightarrow> bytes option" where
  "unsafe_Slice A ptr n =
     (if sint n < 0 \<or> (ptr = 0 \<and> n \<noteq> 0) \<or> 2 ^ 64 < ptr + uint n then None
      else Some (map (\<lambda>i. dl_memory A (ptr + int i)) [0..<unat n]))"


section \<open>The helpers in C\<close>

text \<open>A build without the headers of its library has no library.\<close>

definition cuda_failure :: "device_library \<Rightarrow> int \<Rightarrow> string option" where
  "cuda_failure A err = (if err \<noteq> 0 then Some (dl_errorString A err) else None)"

definition cuda_get_device :: "device_library option \<Rightarrow> (string + int) device" where
  "cuda_get_device B =
     (case B of
        None \<Rightarrow> State_Monad.return (Inl missing_cuda_headers)
      | Some A \<Rightarrow> do {
          (err, device) \<leftarrow> device_call A CudaGetDevice;
          State_Monad.return (case cuda_failure A err of Some e \<Rightarrow> Inl e | None \<Rightarrow> Inr device)
        })"

definition cuda_malloc_managed :: "device_library option \<Rightarrow> u64 \<Rightarrow> (string + int) device" where
  "cuda_malloc_managed B n =
     (case B of
        None \<Rightarrow> State_Monad.return (Inl missing_cuda_headers)
      | Some A \<Rightarrow> do {
          (err, ptr) \<leftarrow> device_call A (CudaMallocManaged n);
          State_Monad.return (case cuda_failure A err of Some e \<Rightarrow> Inl e | None \<Rightarrow> Inr ptr)
        })"

definition cuda_host_alloc :: "device_library option \<Rightarrow> u64 \<Rightarrow> (string + int) device" where
  "cuda_host_alloc B n =
     (case B of
        None \<Rightarrow> State_Monad.return (Inl missing_cuda_headers)
      | Some A \<Rightarrow> do {
          (err, ptr) \<leftarrow> device_call A (CudaHostAlloc n);
          State_Monad.return (case cuda_failure A err of Some e \<Rightarrow> Inl e | None \<Rightarrow> Inr ptr)
        })"

definition cuda_mem_advise :: "device_library option \<Rightarrow> int \<Rightarrow> u64 \<Rightarrow> int \<Rightarrow> string option device" where
  "cuda_mem_advise B ptr n device =
     (case B of
        None \<Rightarrow> State_Monad.return (Some missing_cuda_headers)
      | Some A \<Rightarrow> do {
          (err, _) \<leftarrow> device_call A (CudaMemAdvise ptr n device);
          State_Monad.return (cuda_failure A err)
        })"

definition cuda_prefetch :: "device_library option \<Rightarrow> int \<Rightarrow> u64 \<Rightarrow> int \<Rightarrow> string option device" where
  "cuda_prefetch B ptr n device =
     (case B of
        None \<Rightarrow> State_Monad.return (Some missing_cuda_headers)
      | Some A \<Rightarrow> do {
          (err, _) \<leftarrow> device_call A (CudaMemPrefetch ptr n device);
          if err \<noteq> 0 then State_Monad.return (cuda_failure A err)
          else do {
            (err, _) \<leftarrow> device_call A CudaDeviceSynchronize;
            State_Monad.return (cuda_failure A err)
          }
        })"

definition svm_alloc :: "device_library \<Rightarrow> nat option \<Rightarrow> u64 \<Rightarrow> u64 \<Rightarrow> int device" where
  "svm_alloc A ctx flags n =
     do { (_, ptr) \<leftarrow> device_call A (ClSVMAlloc ctx flags n); State_Monad.return ptr }"

definition svm_free :: "device_library \<Rightarrow> nat option \<Rightarrow> int \<Rightarrow> unit device" where
  "svm_free A ctx ptr = do { _ \<leftarrow> device_call A (ClSVMFree ctx ptr); State_Monad.return () }"

lemmas helper_defs = cuda_get_device_def cuda_malloc_managed_def cuda_host_alloc_def cuda_mem_advise_def
  cuda_prefetch_def svm_alloc_def svm_free_def cuda_failure_def


section \<open>Allocating and releasing\<close>

text \<open>What the closure \<open>free\<close> of an allocation captures.\<close>

datatype release = FreeManaged int | FreeHost int | FreeSVM "nat option" int

record slice_allocation =
  sa_name :: string
  sa_buf :: bytes
  sa_free :: "release option"

definition slice_alloc :: "slice_allocation \<Rightarrow> allocation" where
  "slice_alloc a = \<lparr>alloc_bytes = sa_buf a, alloc_name = sa_name a\<rparr>"

text \<open>Both CUDA builds without headers have a \<open>cudaFree\<close> that succeeds.\<close>

definition run_release :: "device_library option \<Rightarrow> release \<Rightarrow> string option device" where
  "run_release B r =
     (case B of
        None \<Rightarrow> State_Monad.return None
      | Some A \<Rightarrow>
          (case r of
             FreeManaged ptr \<Rightarrow> do {
               (err, _) \<leftarrow> device_call A (CudaFree ptr);
               State_Monad.return (if err \<noteq> 0 then Some (''cudaFree: '' @ dl_errorString A err) else None)
             }
           | FreeHost ptr \<Rightarrow> do {
               (err, _) \<leftarrow> device_call A (CudaFreeHost ptr);
               State_Monad.return (if err \<noteq> 0 then Some (''cudaFreeHost: '' @ dl_errorString A err) else None)
             }
           | FreeSVM ctx ptr \<Rightarrow> do { _ \<leftarrow> svm_free A ctx ptr; State_Monad.return None }))"

definition slice_Free :: "device_library option \<Rightarrow> slice_allocation option \<Rightarrow> string option device" where
  "slice_Free B a =
     (case a of
        None \<Rightarrow> State_Monad.return None
      | Some a \<Rightarrow>
          (case sa_free a of None \<Rightarrow> State_Monad.return None | Some r \<Rightarrow> run_release B r))"

text \<open>The results of the advice and of the prefetch are dropped.\<close>

definition managed_slice ::
  "device_library option \<Rightarrow> int \<Rightarrow> u64 \<Rightarrow> (string + slice_allocation) option device" where
  "managed_slice B device n =
     (case B of
        None \<Rightarrow> State_Monad.return (Some (Inl missing_cuda_headers))
      | Some A \<Rightarrow> do {
          r \<leftarrow> cuda_malloc_managed B n;
          case r of
            Inl e \<Rightarrow> State_Monad.return (Some (Inl (''cudaMallocManaged('' @ FormatUint n @ ''): '' @ e)))
          | Inr ptr \<Rightarrow>
              (case unsafe_Slice A ptr n of
                 None \<Rightarrow> State_Monad.return None
               | Some buf \<Rightarrow> do {
                   _ \<leftarrow> cuda_mem_advise B ptr n device;
                   _ \<leftarrow> cuda_prefetch B ptr n device;
                   State_Monad.return (Some (Inr \<lparr>sa_name = ''cuda-managed'', sa_buf = buf,
                     sa_free = Some (FreeManaged ptr)\<rparr>))
                 })
        })"

definition pinned_slice :: "device_library option \<Rightarrow> u64 \<Rightarrow> (string + slice_allocation) option device" where
  "pinned_slice B n =
     do {
       r \<leftarrow> cuda_host_alloc B n;
       State_Monad.return
         (case r of
            Inl e \<Rightarrow> Some (Inl (''cudaHostAlloc('' @ FormatUint n @ ''): '' @ e))
          | Inr ptr \<Rightarrow>
              (case B of
                 None \<Rightarrow> None
               | Some A \<Rightarrow> map_option (\<lambda>buf. Inr \<lparr>sa_name = ''pinned-host'', sa_buf = buf,
                   sa_free = Some (FreeHost ptr)\<rparr>) (unsafe_Slice A ptr n)))
     }"

text \<open>The driver answers whether the device has shared virtual memory, as in \<open>OpenCLNative\<close>.\<close>

definition svm_slice ::
  "(cl_driver \<times> device_library) option \<Rightarrow> opencl_context \<Rightarrow> u64 \<Rightarrow> (string + slice_allocation) option device"
where
  "svm_slice B ctx n =
     (case B of
        None \<Rightarrow> State_Monad.return (Some (Inl missing_headers))
      | Some (D, A) \<Rightarrow>
          if \<not> context_valid ctx
          then State_Monad.return (Some (Inl ''opencl svm requires a live OpenCL context and device''))
          else if \<not> has_svm (Some D) (oc_Device ctx)
          then State_Monad.return (Some (Inl ''opencl device does not advertise SVM support''))
          else do {
            ptr \<leftarrow> svm_alloc A (oc_Context ctx) (oc_Flags ctx) n;
            State_Monad.return
              (if ptr = 0 then Some (Inl (''clSVMAlloc('' @ FormatUint n @ '') returned NULL''))
               else map_option (\<lambda>buf. Inr \<lparr>sa_name = ''opencl-svm'', sa_buf = buf,
                 sa_free = Some (FreeSVM (oc_Context ctx) ptr)\<rparr>) (unsafe_Slice A ptr n))
          })"

lemmas slice_defs = managed_slice_def pinned_slice_def svm_slice_def


section \<open>The allocators without their calls\<close>

text \<open>The records of answers that \<open>Cuda\<close> and \<open>OpenCLNative\<close> take, after the calls \<open>tr\<close>.\<close>

definition slice_or_empty :: "device_library \<Rightarrow> int \<Rightarrow> u64 \<Rightarrow> bytes" where
  "slice_or_empty A ptr n = (case unsafe_Slice A ptr n of None \<Rightarrow> [] | Some buf \<Rightarrow> buf)"

definition cuda_answers :: "device_library \<Rightarrow> device_event list \<Rightarrow> cuda_driver" where
  "cuda_answers A tr =
     \<lparr>cudaGetDevice = fst (run_state (cuda_get_device (Some A)) tr),
      cudaMallocManaged = (\<lambda>n. map_sum id (\<lambda>p. slice_or_empty A p n) (fst (run_state (cuda_malloc_managed (Some A) n) tr))),
      cudaHostAlloc = (\<lambda>n. map_sum id (\<lambda>p. slice_or_empty A p n) (fst (run_state (cuda_host_alloc (Some A) n) tr)))\<rparr>"

definition svm_answers :: "cl_driver \<Rightarrow> device_library \<Rightarrow> device_event list \<Rightarrow> cl_driver" where
  "svm_answers D A tr = D\<lparr>clSVMAlloc := (\<lambda>ctx flags n.
     let p = fst (run_state (svm_alloc A ctx flags n) tr) in if p = 0 then None else Some (slice_or_empty A p n))\<rparr>"

lemma get_device_refines:
  "fst (run_state (cuda_get_device B) tr) = currentCUDADeviceOrdinal (map_option (\<lambda>A. cuda_answers A tr) B)"
  by (cases B) (simp_all add: currentCUDADeviceOrdinal_def cuda_answers_def cuda_get_device_def)

lemma managed_slice_refines:
  "fst (run_state (managed_slice B device n) tr) = Some r \<Longrightarrow>
    map_sum id slice_alloc r = allocCUDAManaged (map_option (\<lambda>A. cuda_answers A tr) B) device n"
  by (cases B) (auto simp: slice_defs helper_defs allocCUDAManaged_def cuda_answers_def slice_alloc_def
      slice_or_empty_def split: prod.splits if_splits option.splits sum.splits)

lemma pinned_slice_refines:
  "fst (run_state (pinned_slice B n) tr) = Some r \<Longrightarrow>
    map_sum id slice_alloc r = allocPinnedHost (map_option (\<lambda>A. cuda_answers A tr) B) n"
  by (cases B) (auto simp: slice_defs helper_defs allocPinnedHost_def cuda_answers_def slice_alloc_def
      slice_or_empty_def split: prod.splits if_splits option.splits sum.splits)

lemma svm_slice_refines:
  "fst (run_state (svm_slice B ctx n) tr) = Some r \<Longrightarrow>
    map_sum id slice_alloc r = allocOpenCLSVM (map_option (\<lambda>(D, A). svm_answers D A tr) B) ctx n"
  by (cases B) (auto simp: slice_defs helper_defs allocOpenCLSVM_def svm_answers_def slice_alloc_def has_svm_def
      slice_or_empty_def split: prod.splits if_splits option.splits sum.splits)


section \<open>What is allocated\<close>

fun live_step :: "release multiset \<Rightarrow> device_event \<Rightarrow> release multiset" where
  "live_step M (CudaMallocManaged n, err, p) = (if err = 0 then add_mset (FreeManaged p) M else M)"
| "live_step M (CudaHostAlloc n, err, p) = (if err = 0 then add_mset (FreeHost p) M else M)"
| "live_step M (ClSVMAlloc ctx flags n, err, p) = (if p \<noteq> 0 then add_mset (FreeSVM ctx p) M else M)"
| "live_step M (CudaFree p, err, x) = (if err = 0 then M - {#FreeManaged p#} else M)"
| "live_step M (CudaFreeHost p, err, x) = (if err = 0 then M - {#FreeHost p#} else M)"
| "live_step M (ClSVMFree ctx p, err, x) = M - {#FreeSVM ctx p#}"
| "live_step M e = M"

lemma live_step_svm [simp]: "live_step M (ClSVMFree ctx p, r) = M - {#FreeSVM ctx p#}"
  by (cases r) simp

definition live :: "device_event list \<Rightarrow> release multiset" where
  "live tr = foldl live_step {#} tr"

lemma live_append [simp]: "live (tr @ es) = foldl live_step (live tr) es"
  by (simp add: live_def)

text \<open>An allocator that returns an allocation has added exactly the memory its release gives back; one
  that returns an error has added none.\<close>

definition balanced :: "(string + slice_allocation) option device \<Rightarrow> bool" where
  "balanced f \<longleftrightarrow>
     (\<forall>tr r tr'. run_state f tr = (Some r, tr') \<longrightarrow>
        (case r of
           Inl e \<Rightarrow> live tr' = live tr
         | Inr a \<Rightarrow> \<exists>m. sa_free a = Some m \<and> live tr' = add_mset m (live tr)))"

lemma managed_slice_balanced: "balanced (managed_slice B device n)"
  by (cases B) (auto simp: balanced_def slice_defs helper_defs split: prod.splits if_splits option.splits sum.splits)

lemma pinned_slice_balanced: "balanced (pinned_slice B n)"
  by (cases B) (auto simp: balanced_def slice_defs helper_defs split: prod.splits if_splits option.splits sum.splits)

lemma svm_slice_balanced: "balanced (svm_slice B ctx n)"
  by (cases B) (auto simp: balanced_def slice_defs helper_defs split: prod.splits if_splits option.splits sum.splits)

lemmas slices_balanced = managed_slice_balanced pinned_slice_balanced svm_slice_balanced

lemma slice_Free_live:
  assumes "sa_free a = Some m" "run_state (slice_Free (Some A) (Some a)) tr = (None, tr')"
  shows "live tr' = live tr - {#m#}"
  using assms by (cases m) (auto simp: slice_Free_def run_release_def helper_defs split: prod.splits if_splits)

lemma slice_Free_fails:
  assumes "run_state (slice_Free (Some A) (Some a)) tr = (Some e, tr')"
  shows "live tr' = live tr"
  using assms by (auto simp: slice_Free_def run_release_def helper_defs split: prod.splits if_splits option.splits release.splits)

text \<open>Whatever is allocated and released in between, an allocation that is released once leaves nothing
  behind, and a failed one leaves nothing at once.\<close>

theorem allocation_released:
  assumes f: "balanced f" "run_state f tr = (Some (Inr a), tr1)"
    and between: "live tr2 = live tr1 + M"
    and free: "run_state (slice_Free (Some A) (Some a)) tr2 = (None, tr3)"
  shows "live tr3 = live tr + M"
proof -
  obtain m where m: "sa_free a = Some m" "live tr1 = add_mset m (live tr)"
    using f by (fastforce simp: balanced_def)
  then show ?thesis using slice_Free_live [OF m(1) free] between by simp
qed

text \<open>The loop of the fall-back strategy, over the allocators of strategies that are not nil: the errors it
  has met cost no memory.\<close>

fun first_slice ::
  "(string \<times> (string + slice_allocation) option device) list \<Rightarrow> (string list + slice_allocation) option device"
where
  "first_slice [] = State_Monad.return (Some (Inl []))"
| "first_slice ((name, f) # fs) =
     do {
       r \<leftarrow> f;
       case r of
         None \<Rightarrow> State_Monad.return None
       | Some (Inr a) \<Rightarrow> State_Monad.return (Some (Inr a))
       | Some (Inl e) \<Rightarrow> do {
           r \<leftarrow> first_slice fs;
           State_Monad.return (map_option (map_sum (\<lambda>es. (name @ '': '' @ e) # es) id) r)
         }
     }"

lemma first_slice_balanced:
  assumes "\<forall>(name, f) \<in> set fs. balanced f" "run_state (first_slice fs) tr = (Some r, tr')"
  shows "case r of
      Inl es \<Rightarrow> live tr' = live tr
    | Inr a \<Rightarrow> \<exists>m. sa_free a = Some m \<and> live tr' = add_mset m (live tr)"
  using assms
proof (induction fs arbitrary: r tr)
  case (Cons x fs)
  obtain name f where x: "x = (name, f)" by force
  obtain r1 tr1 where f: "run_state f tr = (r1, tr1)" by force
  have b: "balanced f" using Cons.prems(1) x by simp
  show ?case
  proof (cases r1)
    case None
    then show ?thesis using Cons.prems(2) x f by simp
  next
    case (Some s)
    show ?thesis
    proof (cases s)
      case (Inr a)
      then show ?thesis using Cons.prems(2) x f Some b by (fastforce simp: balanced_def)
    next
      case (Inl e)
      obtain r2 where r2: "run_state (first_slice fs) tr1 = (Some r2, tr')"
        "r = map_sum (\<lambda>es. (name @ '': '' @ e) # es) id r2"
        using Cons.prems(2) x f Some Inl by (auto split: prod.splits)
      have "live tr1 = live tr" using b f Some Inl by (fastforce simp: balanced_def)
      then show ?thesis using Cons.IH [OF _ r2(1)] Cons.prems(1) r2(2) by (cases r2) auto
    qed
  qed
qed simp

end
