(* ===== verification/Spec2Isabelle.thy ===== *)
theory Spec2Isabelle
  imports DagParallel HashAgreement MiningProofs Args KernelProofs CudaProofs DeviceMemory
begin

text \<open>
  A verification development for Colossus-X (\<open>src/\<close>, Go): a proof-of-work node whose hash reads a
  large DAG, with a lattice hash for the research profile and a tile hash for the strict profile.

  \<^bold>\<open>The program and its model.\<close>  The packages, from the bottom up, with the theories that model them:

  \<^item> \<open>CX_Prelude\<close>, \<open>Strings\<close>, \<open>Decimal\<close>, \<open>Sha256\<close>: what the code uses of the Go library: slices and
    \<open>copy\<close>, \<open>encoding/binary\<close>, \<open>encoding/hex\<close>, \<open>strings\<close>, \<open>strconv\<close>, \<open>crypto/sha256\<close>.
  \<^item> \<open>DagSpec\<close> (\<open>colossusx/spec.go\<close>): the profile of a chain, its validation and its schedule of DAG
    sizes, in 64-bit arithmetic with the saturation of the code.
  \<^item> \<open>NonceTarget\<close> (\<open>colossusx/nonce.go\<close>, \<open>colossusx/target.go\<close>): nonces and the target test.
  \<^item> \<open>Dag\<close>, \<open>DagGen\<close>, \<open>DagParallel\<close> (\<open>colossusx/dag.go\<close>, \<open>dag_tensor.go\<close>, \<open>dag_stateless.go\<close>): the
    allocation and ownership of a DAG, its two generators, the goroutines of the research generator as
    an interleaving system, and the view that recomputes a node from the epoch seed.
  \<^item> \<open>Hashing\<close>, \<open>HashAgreement\<close> (\<open>colossusx/hash.go\<close>, \<open>hash_strict_v2.go\<close>, \<open>round_commit.go\<close>,
    \<open>dag_stateless.go\<close>): the two hashes over any view of a DAG, with their scratch space, and the
    stateless hash and check.
  \<^item> \<open>Mining\<close>, \<open>MiningProofs\<close> (\<open>colossusx/miner.go\<close>): the worker goroutines of \<open>Mine\<close> as a step relation
    on the shared counter, flag, context and channel; batch mining; benchmarking.
  \<^item> \<open>Backends\<close>, \<open>BackendProofs\<close>, \<open>Gpu\<close>, \<open>GpuProofs\<close> (\<open>backend_common.go\<close>, \<open>backend_cpu.go\<close>,
    \<open>backend_unified.go\<close>, \<open>shared_dag_hash.go\<close>, \<open>gpu_backend_metal.go\<close>, \<open>gpu_backend_opencl.go\<close>): the hash
    backends, with the OpenCL runtime and the device kernel as parameters.
  \<^item> \<open>OpenCLNative\<close>, \<open>OpenCLProofs\<close> (\<open>backend_unified_cgo_opencl.go\<close>,
    \<open>device_shared_kernel_opencl_cgo.go\<close>) and \<open>Cuda\<close>, \<open>CudaProofs\<close> (\<open>gpu_backend_cuda.go\<close>,
    \<open>backend_unified_cgo_cuda.go\<close>, \<open>pinned_memory_cuda.go\<close>): the builds with an accelerator, with the C helpers of
    their preambles, over records of what the library answers.
  \<^item> \<open>Fips202\<close>, \<open>Blake3\<close> (SHA3-512 and one block of BLAKE3 as their standards define them), \<open>KernelHash\<close>,
    \<open>KernelHashProofs\<close>, \<open>Kernel\<close>, \<open>KernelProofs\<close> (\<open>opencl_kernel.cl\<close>): the OpenCL kernel, loop by loop.
  \<^item> \<open>DeviceMemory\<close> (the files of both builds, and \<open>sliceAllocation\<close> in \<open>memory_strategy.go\<close>): the calls of the
    allocators and of the release, with what is allocated after them.
  \<^item> \<open>MemoryStrategy\<close> (\<open>memory_strategy.go\<close>, \<open>strict_config.go\<close>, \<open>dag_helpers.go\<close>): where DAG memory
    comes from, and what strict mode demands.
  \<^item> \<open>BlockTypes\<close>, \<open>Samples\<close> (\<open>pkg/types/types.go\<close>): blocks, their encoding, the genesis block.
  \<^item> \<open>Json\<close>, \<open>JsonProofs\<close>, \<open>BlockJson\<close> (the JSON methods of \<open>pkg/types/types.go\<close>): JSON text as
    \<open>encoding/json\<close> writes and reads it, with its grammar and the replacement of what is not UTF-8.
  \<^item> \<open>Float64\<close>, \<open>Float64Proofs\<close>: the numbers of a JSON text as a \<open>float64\<close>, with rounding to the closest
    one, and printed again with the fewest digits that read back.
  \<^item> \<open>ChainStore\<close>, \<open>DiskStore\<close>, \<open>DiskProofs\<close> (\<open>pkg/chain/\<close>): the in-memory and the persistent store,
    the latter down to the bytes of its file, over a file system whose operations can fail and which can
    stop after any byte.
  \<^item> \<open>Consensus\<close>, \<open>ChainRules\<close>, \<open>ValidatorProofs\<close>, \<open>ConsensusProps\<close> (\<open>pkg/consensus/validator.go\<close>): the
    validator with its caches of DAGs on a heap, header validation, insertion, fork choice, sealing.
  \<^item> \<open>Node\<close>, \<open>NodeSamples\<close>, \<open>NodeProofs\<close> (\<open>pkg/node/node.go\<close>): genesis, the mining loop and the handlers,
    one block at a time.
  \<^item> \<open>Concurrent\<close>, \<open>ConcurrentProofs\<close> (the same, with \<open>InsertBlock\<close>): insertions and templates that
    overlap, as the single calls of the store.
  \<^item> \<open>Wire\<close>, \<open>WireProofs\<close> (\<open>pkg/p2p/message.go\<close>, \<open>pkg/p2p/peer.go\<close>): the messages, the frames and the
    detour of a body through an \<open>any\<close>, whose numbers are of type \<open>float64\<close>.
  \<^item> \<open>P2P\<close>, \<open>P2PProofs\<close> (\<open>pkg/p2p/peer.go\<close>, \<open>transport.go\<close>): the set of peers, a connection, dispatch.
  \<^item> \<open>Cli\<close>, \<open>CliProofs\<close> (\<open>main.go\<close>, \<open>cmd/colossusd\<close>, \<open>cmd/colossusxverify\<close>): the programs from the
    values of their flags to their outcome; of the daemon, its configuration.
  \<^item> \<open>Flags\<close>, \<open>FlagsProofs\<close>, \<open>Args\<close> (the same files): the flag values from the words of a command line, as
    the package \<open>flag\<close> of the Go library reads them, and the commands of the README.
  \<^item> \<open>Daemon\<close>, \<open>DaemonProofs\<close>, \<open>Restart\<close> (\<open>cmd/colossusd\<close>, \<open>Node.Run\<close>, \<open>transport.go\<close>): the start of the
    daemon, its goroutines as one step relation, its end, and its chain over its lifetimes.

  \<^bold>\<open>Conventions.\<close>  A Go panic is \<open>None\<close>; a returned error is a value of the component's error datatype,
  left of a sum or in an option.  Machine integers are words of their width.  A method with a pointer
  receiver returns the receiver as it leaves it.  Goroutines are step relations over the shared
  state, and a property of them holds in every interleaving.  The third-party hash functions are the
  record \<open>hashlib\<close>, of which only the length of a result is used, but for the OpenCL kernel, which agrees with
  the host when the two that the lattice hash calls are the standard ones; SHA-256 is written out.

  \<^bold>\<open>Interfaces.\<close>  The locales state what one component relies on in another, and each is interpreted on
  the model's definitions: \<open>node_source\<close> and \<open>tile_source\<close> (a view of a DAG, for the DAG, the
  stateless DAG and the views of the backends), \<open>chain_store\<close> (for both stores; the rules of the validator,
  of the overlapping insertions and of the daemon are proved over it once), \<open>header_hasher\<close> (the hash a
  batch repeats, for each backend).

  \<^bold>\<open>What is shown.\<close>
  \<^item> The kernel: its SHA3-512 and its BLAKE3 are the standard ones, its work item is the lattice hash, and a
    batch of the OpenCL build has the reference hashes, on the device as on the host.
  \<^item> One hash: the hash over a populated DAG, whatever interleaving filled it, is the hash the stateless
    verifier recomputes, for both algorithms and every backend; the verifier accepts exactly the
    digests whose number is at most the target.
  \<^item> The search: a result is a solution in the range, no result means there is none, and no
    interleaving blocks; a solution the miner program prints passes the stateless check.
  \<^item> Consensus: a header is accepted exactly when it meets the rules; insertion refines insertion into
    an abstract chain and keeps it a tree of valid links whose tip has the greatest rank, so that
    nodes with the same blocks agree on the tip; sealed and mined blocks pass validation.
  \<^item> Overlap: insertions that overlap keep the tree, the work and every block, but the tip may be a lost
    update, and is then not the best block any more.
  \<^item> The daemon: its goroutines refine the overlapping insertions, so no interleaving of its mining loop,
    its connections and its dial loops panics or harms the chain; after the end of its context every run is
    finite and ends with everything returned; killed at any byte it starts again with its chain.
  \<^item> Storage: what is flushed loads again, a crash leaves the old or the new state, and no DAG is freed
    twice.
  \<^item> The network: no bytes a peer sends make a node panic or harm its chain; messages arrive as sent
    when their numbers fit 53 bits, in whatever notation, and rounded otherwise, but only once.
  \<^item> Configuration: the arguments are read as a grammar of command lines says; the programs derive one
    profile from the same sizes; strict mode allocates through an accelerator's handle only; the hashes of a
    strict DAG are the bytes the OpenCL library delivered, and the CUDA build hashes as the
    reference does; an accelerator's memory that is released once is all given back.

  \<^bold>\<open>Bounds and fuel.\<close>  The number of workers is below \<open>2 ^ 63\<close>, as a Go \<open>int\<close> is.  The loops over a
  count of reads, rounds or hashes recurse on that count.  The JSON reader runs on fuel of one more
  than the length of the text, which suffices for every text (\<open>JsonProofs.fuel_enough\<close>).  The search for
  the shortest decimal of a \<open>float64\<close> tries every power of ten from 308 down to -324.  The other
  loops have termination proofs.  Slices are shorter than \<open>2 ^ 63\<close>.

  \<^bold>\<open>Not modelled.\<close>  Elapsed times and rates; log, usage and terminal output; sockets, timers
  and signals, whose events are choices of the steps; the drivers of the accelerators, in place of
  which the records \<open>platform\<close>, \<open>cl_driver\<close>, \<open>cuda_driver\<close> and \<open>device_library\<close> have parameters; the kernels
  \<open>opencl_kernel_v2.cl\<close> and \<open>metal_kernel.metal\<close>, which are empty; the packages
  \<open>pkg/rpc\<close> and \<open>cmd/colossusxctl\<close>, which hold a comment and a fixed line.
\<close>

end
